(* ===== verification/Prelude.thy ===== *)
theory Prelude
  imports Complex_Main "HOL-Library.Word"
begin

text \<open>
  Shared vocabulary of the development.

  \<^item> Python exceptions are the \<open>Inl\<close> side of \<open>py_exc + 'a\<close>; a value is \<open>Inr\<close>.
  \<^item> A Python \<open>str\<close> is a list of code points below 256 (\<^typ>\<open>string\<close>); a Python \<open>int\<close>
    is an \<^typ>\<open>int\<close>; a \<open>float\<close> is an exact \<^typ>\<open>rat\<close>.
  \<^item> A Python \<open>dict\<close> whose order matters is an association list in insertion order, written with
    \<open>dict_set\<close> and \<open>dict_append\<close> (\<open>setdefault(k, []).append(v)\<close>).
  \<^item> A PostgreSQL table is its rows in storage order together with the next value of the serial
    column, and the SQL statements of the source are the operations \<open>sel\<close>, \<open>scalar\<close>,
    \<open>upd\<close>, \<open>del\<close> and \<open>ins\<close> on it.
  \<^item> The locale \<open>keyed_store\<close> is the contract that every "find it or insert it" table shares.
\<close>

named_theorems table_simps \<open>equations of the SQL operations\<close>
named_theorems inv_intros \<open>preservation of table invariants\<close>

datatype py_exc =
    ValueError
  | TypeError
  | KeyError
  | IndexError
  | OverflowError
  | RuntimeError
  | AssertionError
  | TimeoutError
  | OperationalError
  | IntegrityError
  | DataError
  | CompileError
  | ProgrammingError
  | FingerprintError
  | StructError
  | AttributeError
  | NotImplementedError
  | IndexClientError
  | IndexClientConnectError
  | HTTPError
  | RedisError
  | PlainException
  | ZeroDivisionError
  | UnboundLocalError
  | UnicodeDecodeError
  | FileNotFoundError
  | ConfigParserError
  | BadRequest
  | NotFound
  | Forbidden
  | ShutdownError
  | ClientError
  | FingerprintIndexClientError
  | MsgpackError

subsection \<open>Lists and options\<close>

definition truthy_int :: "int option \<Rightarrow> bool" where
  "truthy_int x = (case x of None \<Rightarrow> False | Some i \<Rightarrow> i \<noteq> 0)"

definition truthy_str :: "string option \<Rightarrow> bool" where
  "truthy_str x = (case x of None \<Rightarrow> False | Some s \<Rightarrow> s \<noteq> [])"

lemma truthy_int_simps [simp]:
  "\<not> truthy_int None" "truthy_int (Some i) = (i \<noteq> 0)"
  by (simp_all add: truthy_int_def)

lemma truthy_str_simps [simp]:
  "\<not> truthy_str None" "truthy_str (Some s) = (s \<noteq> [])"
  by (simp_all add: truthy_str_def)

fun first_of :: "'a list \<Rightarrow> 'a option" where
  "first_of [] = None"
| "first_of (x # _) = Some x"

lemma first_of_None_iff [simp]: "first_of xs = None \<longleftrightarrow> xs = []"
  by (cases xs) auto

lemma first_of_SomeD: "first_of xs = Some x \<Longrightarrow> x \<in> set xs"
  by (cases xs) auto

lemma first_of_map: "first_of (map f xs) = map_option f (first_of xs)"
  by (cases xs) auto

lemma sum_list_filter_split:
  fixes f :: "'a \<Rightarrow> int"
  shows "sum_list (map f xs) = sum_list (map f (filter P xs)) + sum_list (map f (filter (\<lambda>x. \<not> P x) xs))"
  by (induction xs) auto

lemma distinct_map_unique:
  "distinct (map f xs) \<Longrightarrow> x \<in> set xs \<Longrightarrow> y \<in> set xs \<Longrightarrow> f x = f y \<Longrightarrow> x = y"
  by (metis distinct_map inj_onD)

lemma filter_unique:
  assumes "distinct (map f xs)" and "x \<in> set xs"
  shows "filter (\<lambda>y. f y = f x) xs = [x]"
  using assms
proof (induction xs)
  case (Cons a xs)
  show ?case
  proof (cases "x = a")
    case True
    have "filter (\<lambda>y. f y = f a) xs = []"
      using Cons.prems(1) by (auto simp: filter_empty_conv) (metis imageI)
    with True show ?thesis by simp
  next
    case False
    with Cons have "x \<in> set xs" "f a \<noteq> f x" by auto
    with Cons show ?thesis by simp
  qed
qed simp

subsection \<open>Dictionaries in insertion order\<close>

type_synonym ('k, 'v) dict = "('k \<times> 'v) list"

definition dict_keys :: "('k, 'v) dict \<Rightarrow> 'k list" where
  "dict_keys d = map fst d"

definition dict_get :: "('k, 'v) dict \<Rightarrow> 'k \<Rightarrow> 'v option" where
  "dict_get d k = map_of d k"

fun dict_set :: "('k, 'v) dict \<Rightarrow> 'k \<Rightarrow> 'v \<Rightarrow> ('k, 'v) dict" where
  "dict_set [] k v = [(k, v)]"
| "dict_set ((k', v') # d) k v = (if k = k' then (k, v) # d else (k', v') # dict_set d k v)"

fun dict_append :: "('k, 'v list) dict \<Rightarrow> 'k \<Rightarrow> 'v \<Rightarrow> ('k, 'v list) dict" where
  "dict_append [] k v = [(k, [v])]"
| "dict_append ((k', vs) # d) k v =
     (if k = k' then (k', vs @ [v]) # d else (k', vs) # dict_append d k v)"

definition dict_del :: "('k, 'v) dict \<Rightarrow> 'k \<Rightarrow> ('k, 'v) dict" where
  "dict_del d k = filter (\<lambda>kv. fst kv \<noteq> k) d"

lemma dict_get_Nil [simp]: "dict_get [] k = None"
  by (simp add: dict_get_def)

lemma dict_keys_Nil [simp]: "dict_keys [] = []"
  by (simp add: dict_keys_def)

lemma dict_keys_Cons [simp]: "dict_keys ((k, v) # d) = k # dict_keys d"
  by (simp add: dict_keys_def)

lemma in_dict_iff: "distinct (dict_keys d) \<Longrightarrow> (k, v) \<in> set d \<longleftrightarrow> dict_get d k = Some v"
  by (simp add: dict_get_def dict_keys_def)

lemma dict_get_None_iff: "dict_get d k = None \<longleftrightarrow> k \<notin> set (dict_keys d)"
  by (simp add: dict_get_def dict_keys_def map_of_eq_None_iff)

lemma dict_get_set [simp]: "dict_get (dict_set d k v) k' = (if k' = k then Some v else dict_get d k')"
  by (induction d k v rule: dict_set.induct) (auto simp: dict_get_def)

lemma dict_keys_set: "set (dict_keys (dict_set d k v)) = insert k (set (dict_keys d))"
  by (induction d k v rule: dict_set.induct) (auto simp: dict_keys_def)

lemma dict_distinct_set: "distinct (dict_keys d) \<Longrightarrow> distinct (dict_keys (dict_set d k v))"
proof (induction d k v rule: dict_set.induct)
  case (2 k' v' d k v)
  then show ?case
    using dict_keys_set [of d k v] by (auto simp: dict_keys_def)
qed (simp add: dict_keys_def)

lemma dict_get_append [simp]:
  "dict_get (dict_append d k v) k' =
     (if k' = k then Some (case dict_get d k of None \<Rightarrow> [v] | Some vs \<Rightarrow> vs @ [v]) else dict_get d k')"
  by (induction d k v rule: dict_append.induct) (auto simp: dict_get_def)

lemma dict_keys_append: "set (dict_keys (dict_append d k v)) = insert k (set (dict_keys d))"
  by (induction d k v rule: dict_append.induct) (auto simp: dict_keys_def)

lemma dict_distinct_append: "distinct (dict_keys d) \<Longrightarrow> distinct (dict_keys (dict_append d k v))"
proof (induction d k v rule: dict_append.induct)
  case (2 k' vs d k v)
  then show ?case
    using dict_keys_append [of d k v] by (auto simp: dict_keys_def)
qed (simp add: dict_keys_def)

lemma dict_get_del [simp]: "dict_get (dict_del d k) k' = (if k' = k then None else dict_get d k')"
  by (induction d) (auto simp: dict_get_def dict_del_def)

text \<open>Grouping rows under a key in row order: \<open>for k, v in rows: d.setdefault(k, []).append(v)\<close>.\<close>

definition dict_group :: "('k \<times> 'v) list \<Rightarrow> ('k, 'v list) dict" where
  "dict_group kvs = fold (\<lambda>(k, v) d. dict_append d k v) kvs []"

lemma dict_get_fold_append:
  "dict_get (fold (\<lambda>(k, v) d. dict_append d k v) kvs d) k =
     (let vs = map snd (filter (\<lambda>kv. fst kv = k) kvs)
      in if vs = [] then dict_get d k
         else Some ((case dict_get d k of None \<Rightarrow> [] | Some ws \<Rightarrow> ws) @ vs))"
proof (induction kvs arbitrary: d)
  case (Cons kv kvs)
  obtain k' v' where kv: "kv = (k', v')" by fastforce
  show ?case
    by (simp only: fold.simps kv o_def case_prod_conv Cons.IH)
      (auto simp: Let_def split: option.splits)
qed (simp add: Let_def)

lemma dict_get_group:
  "dict_get (dict_group kvs) k =
     (let vs = map snd (filter (\<lambda>kv. fst kv = k) kvs) in if vs = [] then None else Some vs)"
  unfolding dict_group_def dict_get_fold_append by (simp add: dict_get_def Let_def)

lemma distinct_dict_group: "distinct (dict_keys (dict_group kvs))"
proof -
  have "distinct (dict_keys d) \<Longrightarrow> distinct (dict_keys (fold (\<lambda>(k, v) d. dict_append d k v) kvs d))" for d
    by (induction kvs arbitrary: d) (auto intro: dict_distinct_append)
  then show ?thesis by (simp add: dict_group_def dict_keys_def)
qed

text \<open>\<open>d[key]\<close>, sequencing of code that may raise, and a loop that may.\<close>

definition item_of :: "('k, 'v) dict \<Rightarrow> 'k \<Rightarrow> py_exc + 'v" where
  "item_of d key = (case dict_get d key of None \<Rightarrow> Inl KeyError | Some v \<Rightarrow> Inr v)"

definition and_then :: "py_exc + 'a \<Rightarrow> ('a \<Rightarrow> py_exc + 'b) \<Rightarrow> py_exc + 'b" where
  "and_then x f = (case x of Inl e \<Rightarrow> Inl e | Inr v \<Rightarrow> f v)"

fun each :: "('a \<Rightarrow> py_exc + 'b) \<Rightarrow> 'a list \<Rightarrow> py_exc + 'b list" where
  "each f [] = Inr []"
| "each f (x # xs) = and_then (f x) (\<lambda>y. and_then (each f xs) (\<lambda>ys. Inr (y # ys)))"

lemma and_then_Inr: "and_then (Inr v) f = f v"
  by (simp add: and_then_def)

lemma item_of_Some: "dict_get d k = Some v \<Longrightarrow> item_of d k = Inr v"
  by (simp add: item_of_def)

subsection \<open>PostgreSQL tables\<close>

record 'r table =
  rows :: "'r list"
  serial :: int

definition empty_table :: "'r table" where
  "empty_table = \<lparr>rows = [], serial = 1\<rparr>"

definition sel :: "('r \<Rightarrow> bool) \<Rightarrow> 'r table \<Rightarrow> 'r list" where
  "sel P t = filter P (rows t)"

definition scalar :: "('r \<Rightarrow> bool) \<Rightarrow> ('r \<Rightarrow> 'a) \<Rightarrow> 'r table \<Rightarrow> 'a option" where
  "scalar P f t = first_of (map f (sel P t))"

definition upd :: "('r \<Rightarrow> bool) \<Rightarrow> ('r \<Rightarrow> 'r) \<Rightarrow> 'r table \<Rightarrow> 'r table" where
  "upd P f t = t\<lparr>rows := map (\<lambda>r. if P r then f r else r) (rows t)\<rparr>"

definition del :: "('r \<Rightarrow> bool) \<Rightarrow> 'r table \<Rightarrow> 'r table" where
  "del P t = t\<lparr>rows := filter (\<lambda>r. \<not> P r) (rows t)\<rparr>"

definition ins :: "(int \<Rightarrow> 'r) \<Rightarrow> 'r table \<Rightarrow> int \<times> 'r table" where
  "ins mk t = (serial t, t\<lparr>rows := rows t @ [mk (serial t)], serial := serial t + 1\<rparr>)"

text \<open>The primary key is a serial column: keys in use are distinct, positive and below the next one.\<close>

definition wf_table :: "('r \<Rightarrow> int) \<Rightarrow> 'r table \<Rightarrow> bool" where
  "wf_table key t \<longleftrightarrow> distinct (map key (rows t)) \<and> (\<forall>r \<in> set (rows t). 1 \<le> key r \<and> key r < serial t)
     \<and> 1 \<le> serial t"

lemma rows_upd [table_simps]: "rows (upd P f t) = map (\<lambda>r. if P r then f r else r) (rows t)"
  and serial_upd [table_simps]: "serial (upd P f t) = serial t"
  and rows_del [table_simps]: "rows (del P t) = filter (\<lambda>r. \<not> P r) (rows t)"
  and serial_del [table_simps]: "serial (del P t) = serial t"
  and fst_ins [table_simps]: "fst (ins mk t) = serial t"
  and rows_ins [table_simps]: "rows (snd (ins mk t)) = rows t @ [mk (serial t)]"
  and serial_ins [table_simps]: "serial (snd (ins mk t)) = serial t + 1"
  by (simp_all add: upd_def del_def ins_def)

lemma scalar_None_iff: "scalar P f t = None \<longleftrightarrow> (\<forall>r \<in> set (rows t). \<not> P r)"
  by (auto simp: scalar_def sel_def filter_empty_conv)

lemma scalar_SomeD: "scalar P f t = Some v \<Longrightarrow> \<exists>r \<in> set (rows t). P r \<and> f r = v"
  by (auto simp: scalar_def sel_def dest!: first_of_SomeD)

lemma scalar_ins:
  "scalar P f (snd (ins mk t)) =
     (case scalar P f t of Some v \<Rightarrow> Some v
      | None \<Rightarrow> if P (mk (serial t)) then Some (f (mk (serial t))) else None)"
proof (cases "scalar P f t")
  case None
  then show ?thesis by (simp add: scalar_def sel_def table_simps)
next
  case (Some v)
  then show ?thesis
    by (cases "filter P (rows t)") (auto simp: scalar_def sel_def table_simps)
qed

lemma wf_table_empty [simp]: "wf_table key empty_table"
  by (simp add: wf_table_def empty_table_def)

lemma wf_table_ins [inv_intros]:
  "wf_table key t \<Longrightarrow> key (mk (serial t)) = serial t \<Longrightarrow> wf_table key (snd (ins mk t))"
  by (fastforce simp: wf_table_def ins_def)

lemma wf_table_upd [inv_intros]:
  assumes "wf_table key t" and "\<And>r. P r \<Longrightarrow> key (f r) = key r"
  shows "wf_table key (upd P f t)"
proof -
  have "map key (rows (upd P f t)) = map key (rows t)"
    using assms(2) by (simp add: table_simps)
  moreover from this have "key ` set (rows (upd P f t)) = key ` set (rows t)"
    by (metis list.set_map)
  ultimately show ?thesis
    using assms(1) unfolding wf_table_def by (metis image_iff serial_upd)
qed

lemma wf_table_del [inv_intros]: "wf_table key t \<Longrightarrow> wf_table key (del P t)"
  by (auto simp: wf_table_def table_simps distinct_map_filter)

lemma wf_table_serial_fresh: "wf_table key t \<Longrightarrow> r \<in> set (rows t) \<Longrightarrow> key r \<noteq> serial t"
  by (fastforce simp: wf_table_def)

subsection \<open>Find it or insert it\<close>

text \<open>
  Several tables are used only through "look the key up, insert it when it is missing". The
  combinator is that idiom; the locale is the contract between it and the table, and its lemmas are
  proved here once for every table that provides the contract.
\<close>

definition find_or_insert :: "('k \<Rightarrow> 's \<Rightarrow> 'i option) \<Rightarrow> ('k \<Rightarrow> 's \<Rightarrow> 'i \<times> 's) \<Rightarrow> 'k \<Rightarrow> 's \<Rightarrow> 'i \<times> 's" where
  "find_or_insert look add k s = (case look k s of None \<Rightarrow> add k s | Some i \<Rightarrow> (i, s))"

locale keyed_store =
  fixes look :: "'k \<Rightarrow> 's \<Rightarrow> 'i option"
    and add :: "'k \<Rightarrow> 's \<Rightarrow> 'i \<times> 's"
    and good :: "'s \<Rightarrow> bool"
  assumes good_insert: "good s \<Longrightarrow> look k s = None \<Longrightarrow> good (snd (add k s))"
    and find_insert: "good s \<Longrightarrow> look k s = None \<Longrightarrow> look k (snd (add k s)) = Some (fst (add k s))"
    and find_insert_other: "good s \<Longrightarrow> look k s = None \<Longrightarrow> k' \<noteq> k \<Longrightarrow> look k' (snd (add k s)) = look k' s"
    and insert_fresh: "good s \<Longrightarrow> look k s = None \<Longrightarrow> look k' s \<noteq> Some (fst (add k s))"
    and find_inj: "good s \<Longrightarrow> look k s = Some i \<Longrightarrow> look k' s = Some i \<Longrightarrow> k' = k"
begin

lemma good_find_or_insert: "good s \<Longrightarrow> good (snd (find_or_insert look add k s))"
  by (auto simp: find_or_insert_def good_insert split: option.split)

lemma find_after:
  "good s \<Longrightarrow> look k (snd (find_or_insert look add k s)) = Some (fst (find_or_insert look add k s))"
  by (auto simp: find_or_insert_def find_insert split: option.split)

lemma find_other:
  "good s \<Longrightarrow> k' \<noteq> k \<Longrightarrow> look k' (snd (find_or_insert look add k s)) = look k' s"
  by (auto simp: find_or_insert_def find_insert_other split: option.split)

lemma find_stable:
  "good s \<Longrightarrow> look k' s = Some i \<Longrightarrow> look k' (snd (find_or_insert look add k s)) = Some i"
  by (cases "k' = k") (auto simp: find_or_insert_def find_insert_other split: option.split)

lemma idempotent:
  "good s \<Longrightarrow> find_or_insert look add k (snd (find_or_insert look add k s)) = find_or_insert look add k s"
  using find_after [of s k] by (simp add: find_or_insert_def split: option.splits)

lemma distinct_ids:
  assumes "good s" and "k' \<noteq> k"
  shows "fst (find_or_insert look add k' (snd (find_or_insert look add k s)))
           \<noteq> fst (find_or_insert look add k s)"
proof -
  let ?s1 = "snd (find_or_insert look add k s)"
  have g1: "good ?s1" using assms(1) by (rule good_find_or_insert)
  have fk: "look k ?s1 = Some (fst (find_or_insert look add k s))"
    using assms(1) by (rule find_after)
  show ?thesis
  proof (cases "look k' ?s1")
    case None
    then have "find_or_insert look add k' ?s1 = add k' ?s1"
      by (simp add: find_or_insert_def [of _ _ k'])
    with insert_fresh [OF g1 None, of k] fk show ?thesis by auto
  next
    case (Some j)
    then have "fst (find_or_insert look add k' ?s1) = j"
      by (simp add: find_or_insert_def [of _ _ k'])
    with find_inj [OF g1 fk] Some assms(2) show ?thesis by auto
  qed
qed

end

text \<open>A table with a unique column provides the contract, and so does a record that holds such a table.\<close>

definition unique_table :: "('r \<Rightarrow> int) \<Rightarrow> ('r \<Rightarrow> 'k) \<Rightarrow> 'r table \<Rightarrow> bool" where
  "unique_table idf keyf t \<longleftrightarrow> wf_table idf t \<and> distinct (map keyf (rows t))"

lemma unique_table_empty [simp]: "unique_table idf keyf empty_table"
  by (simp add: unique_table_def empty_table_def wf_table_def)

lemma unique_table_ins:
  assumes "unique_table idf keyf t" and "idf (mk (serial t)) = serial t"
    and "\<forall>r \<in> set (rows t). keyf r \<noteq> keyf (mk (serial t))"
  shows "unique_table idf keyf (snd (ins mk t))"
  using assms by (fastforce simp: unique_table_def wf_table_ins table_simps)

lemma keyed_store_table:
  assumes idf: "\<And>k i. idf (mk k i) = i" and keyf: "\<And>k i. keyf (mk k i) = k"
  shows "keyed_store (\<lambda>k. scalar (\<lambda>r. keyf r = k) idf) (\<lambda>k. ins (mk k)) (unique_table idf keyf)"
proof
  fix t k k' i
  assume g: "unique_table idf keyf t"
  then have wf: "wf_table idf t" and d: "distinct (map keyf (rows t))" by (simp_all add: unique_table_def)
  {
    assume "scalar (\<lambda>r. keyf r = k) idf t = None"
    then have none: "\<forall>r \<in> set (rows t). keyf r \<noteq> k" by (simp add: scalar_None_iff)
    show "unique_table idf keyf (snd (ins (mk k) t))"
      using g none by (intro unique_table_ins) (auto simp: idf keyf)
    show "scalar (\<lambda>r. keyf r = k) idf (snd (ins (mk k) t)) = Some (fst (ins (mk k) t))"
      using none by (auto simp: scalar_ins keyf idf table_simps scalar_None_iff split: option.split dest: scalar_SomeD)
    show "k' \<noteq> k \<Longrightarrow> scalar (\<lambda>r. keyf r = k') idf (snd (ins (mk k) t)) = scalar (\<lambda>r. keyf r = k') idf t"
      by (auto simp: scalar_ins keyf split: option.split)
    show "scalar (\<lambda>r. keyf r = k') idf t \<noteq> Some (fst (ins (mk k) t))"
      using wf by (auto simp: table_simps dest!: scalar_SomeD wf_table_serial_fresh)
  }
  assume "scalar (\<lambda>r. keyf r = k) idf t = Some i" "scalar (\<lambda>r. keyf r = k') idf t = Some i"
  then obtain r r' where "r \<in> set (rows t)" "keyf r = k" "idf r = i" "r' \<in> set (rows t)" "keyf r' = k'" "idf r' = i"
    by (auto dest!: scalar_SomeD)
  with wf show "k' = k" using distinct_map_unique [of idf "rows t" r r'] by (auto simp: wf_table_def)
qed

lemma keyed_store_lift:
  assumes store: "keyed_store look add good" and get_put: "\<And>t db. get (put t db) = t"
  shows "keyed_store (\<lambda>k db. look k (get db)) (\<lambda>k db. (fst (add k (get db)), put (snd (add k (get db))) db)) (\<lambda>db. good (get db))"
proof -
  note laws = keyed_store.good_insert [OF store] keyed_store.find_insert [OF store]
    keyed_store.find_insert_other [OF store] keyed_store.insert_fresh [OF store]
  show ?thesis
    by unfold_locales (auto simp: get_put laws dest: keyed_store.find_inj [OF store])
qed

end
