(* ===== verification/Py_Strings.thy ===== *)
theory Py_Strings
  imports Prelude
begin

text \<open>
  \<^verbatim>\<open>acoustid/utils.py\<close>: the recognisers for UUIDs, integers and foreign identifiers, the plural to
  singular rule of the XML serializer, and the two kinds of API keys; with the parts of Python's
  string library they use (\<open>int()\<close>, \<open>str.split\<close>, \<open>strip\<close>, base64, number formatting).
  \<open>hmac\<close> with MD5 is a parameter. The 4300 digit limit of \<open>int()\<close> is left out.
\<close>

subsection \<open>Characters\<close>

abbreviation code :: "char \<Rightarrow> nat" where
  "code c \<equiv> of_char c"

definition newline :: char where
  "newline = CHR 0x0A"

definition is_digit :: "char \<Rightarrow> bool" where
  "is_digit c \<longleftrightarrow> 48 \<le> code c \<and> code c \<le> 57"

definition digit_val :: "char \<Rightarrow> int" where
  "digit_val c = int (code c) - 48"

definition digit_char :: "nat \<Rightarrow> char" where
  "digit_char n = char_of (48 + n)"

definition is_hex :: "char \<Rightarrow> bool" where
  "is_hex c \<longleftrightarrow> is_digit c \<or> 97 \<le> code c \<and> code c \<le> 102 \<or> 65 \<le> code c \<and> code c \<le> 70"

definition is_lower_alnum :: "char \<Rightarrow> bool" where
  "is_lower_alnum c \<longleftrightarrow> is_digit c \<or> 97 \<le> code c \<and> code c \<le> 122"

definition is_alnum :: "char \<Rightarrow> bool" where
  "is_alnum c \<longleftrightarrow> is_digit c \<or> 97 \<le> code c \<and> code c \<le> 122 \<or> 65 \<le> code c \<and> code c \<le> 90"

text \<open>\<open>str.isspace\<close> and \<open>\s\<close>, and \<open>str.isdigit\<close> (which also accepts the superscripts 1, 2, 3).\<close>

definition is_space :: "char \<Rightarrow> bool" where
  "is_space c \<longleftrightarrow> 9 \<le> code c \<and> code c \<le> 13 \<or> 28 \<le> code c \<and> code c \<le> 32 \<or> code c = 133 \<or> code c = 160"

definition uni_digit :: "char \<Rightarrow> bool" where
  "uni_digit c \<longleftrightarrow> is_digit c \<or> code c = 178 \<or> code c = 179 \<or> code c = 185"

definition str_isdigit :: "string \<Rightarrow> bool" where
  "str_isdigit s \<longleftrightarrow> s \<noteq> [] \<and> list_all uni_digit s"

definition py_strip :: "string \<Rightarrow> string" where
  "py_strip s = rev (dropWhile is_space (rev (dropWhile is_space s)))"

text \<open>Lower and upper case of ASCII letters, and \<open>str.lower\<close>.\<close>

definition lower_char :: "char \<Rightarrow> char" where
  "lower_char c = (if 65 \<le> code c \<and> code c \<le> 90 then char_of (code c + 32) else c)"

definition upper_char :: "char \<Rightarrow> char" where
  "upper_char c = (if 97 \<le> code c \<and> code c \<le> 122 then char_of (code c - 32) else c)"

definition py_lower :: "string \<Rightarrow> string" where
  "py_lower = map (\<lambda>c. if 192 \<le> code c \<and> code c \<le> 222 \<and> code c \<noteq> 215 then char_of (code c + 32) else lower_char c)"

definition starts_with :: "string \<Rightarrow> string \<Rightarrow> bool" where
  "starts_with p s \<longleftrightarrow> take (length p) s = p"

definition ends_with :: "string \<Rightarrow> string \<Rightarrow> bool" where
  "ends_with p s \<longleftrightarrow> starts_with (rev p) (rev s)"

text \<open>\<open>s.split(sep)\<close> and \<open>s.split(sep, 1)\<close> for a one-character separator.\<close>

fun str_split :: "char \<Rightarrow> string \<Rightarrow> string list" where
  "str_split sep [] = [[]]"
| "str_split sep (c # s) =
     (if c = sep then [] # str_split sep s
      else (case str_split sep s of [] \<Rightarrow> [[c]] | w # ws \<Rightarrow> (c # w) # ws))"

fun str_split1 :: "char \<Rightarrow> string \<Rightarrow> string \<times> string option" where
  "str_split1 sep [] = ([], None)"
| "str_split1 sep (c # s) =
     (if c = sep then ([], Some s) else (case str_split1 sep s of (a, b) \<Rightarrow> (c # a, b)))"

fun str_join :: "string \<Rightarrow> string list \<Rightarrow> string" where
  "str_join sep [] = []"
| "str_join sep [w] = w"
| "str_join sep (w # ws) = w @ sep @ str_join sep ws"

lemma str_split_nonempty [simp]: "str_split sep s \<noteq> []"
  by (induction s) (auto split: list.splits)

lemma str_split_no_sep: "sep \<notin> set s \<Longrightarrow> str_split sep s = [s]"
  by (induction s) auto

lemma str_split_append:
  "sep \<notin> set w \<Longrightarrow> str_split sep (w @ sep # s) = w # str_split sep s"
  by (induction w) auto

lemma str_split_join:
  "ws \<noteq> [] \<Longrightarrow> (\<And>w. w \<in> set ws \<Longrightarrow> sep \<notin> set w) \<Longrightarrow> str_split sep (str_join [sep] ws) = ws"
proof (induction "[sep]" ws rule: str_join.induct)
  case (3 w v va)
  then show ?case by (simp add: str_split_append)
qed (auto simp: str_split_no_sep)

lemma str_split1_no_sep: "sep \<notin> set s \<Longrightarrow> str_split1 sep s = (s, None)"
  by (induction s) auto

lemma str_split1_append: "sep \<notin> set w \<Longrightarrow> str_split1 sep (w @ sep # s) = (w, Some s)"
  by (induction w) auto

lemma str_split1_Some:
  "str_split1 sep s = (a, Some b) \<Longrightarrow> s = a @ sep # b \<and> sep \<notin> set a"
  by (induction s arbitrary: a) (auto split: if_splits prod.splits)

lemma str_split1_None:
  "str_split1 sep s = (a, None) \<Longrightarrow> s = a \<and> sep \<notin> set s"
  by (induction s arbitrary: a) (auto split: if_splits prod.splits)

subsection \<open>Numbers\<close>

fun parse_digits :: "int \<Rightarrow> string \<Rightarrow> int option" where
  "parse_digits acc [] = Some acc"
| "parse_digits acc (c # s) =
     (if is_digit c then parse_digits (10 * acc + digit_val c) s
      else if c = CHR ''_'' then
        (case s of [] \<Rightarrow> None | d # _ \<Rightarrow> if is_digit d then parse_digits acc s else None)
      else None)"

fun parse_nat :: "string \<Rightarrow> int option" where
  "parse_nat [] = None"
| "parse_nat (c # s) = (if is_digit c then parse_digits (digit_val c) s else None)"

definition py_int :: "string \<Rightarrow> int option" where
  "py_int s =
     (case py_strip s of
        [] \<Rightarrow> None
      | c # r \<Rightarrow> if c = CHR ''-'' then map_option uminus (parse_nat r)
                 else if c = CHR ''+'' then parse_nat r
                 else parse_nat (c # r))"

definition is_int :: "string \<Rightarrow> bool" where
  "is_int s = (case py_int s of None \<Rightarrow> False | Some _ \<Rightarrow> True)"

fun nat_str :: "nat \<Rightarrow> string" where
  "nat_str n = (if n < 10 then [digit_char n] else nat_str (n div 10) @ [digit_char (n mod 10)])"

declare nat_str.simps [simp del]

definition int_str :: "int \<Rightarrow> string" where
  "int_str i = (if i < 0 then CHR ''-'' # nat_str (nat (- i)) else nat_str (nat i))"

definition hex_char :: "nat \<Rightarrow> char" where
  "hex_char n = (if n < 10 then char_of (48 + n) else char_of (87 + n))"

fun hex_str :: "nat \<Rightarrow> string" where
  "hex_str n = (if n < 16 then [hex_char n] else hex_str (n div 16) @ [hex_char (n mod 16)])"

declare hex_str.simps [simp del]

lemma code_digit_char: "n < 10 \<Longrightarrow> code (digit_char n) = 48 + n"
  by (simp add: digit_char_def)

lemma digit_char_facts [simp]:
  "n < 10 \<Longrightarrow> is_digit (digit_char n)" "n < 10 \<Longrightarrow> digit_val (digit_char n) = int n"
  by (simp_all add: is_digit_def digit_val_def code_digit_char)

lemma is_digit_not_space: "is_digit c \<Longrightarrow> \<not> is_space c"
  by (auto simp: is_digit_def is_space_def)

lemma nat_str_digits: "c \<in> set (nat_str n) \<Longrightarrow> is_digit c"
  by (induction n rule: nat_str.induct) (subst (asm) (2) nat_str.simps, auto split: if_splits)

lemma nat_str_nonempty [simp]: "nat_str n \<noteq> []"
  by (subst nat_str.simps) simp

lemma parse_digits_append:
  "(\<And>c. c \<in> set s \<Longrightarrow> is_digit c) \<Longrightarrow>
     parse_digits acc (s @ t) = (case parse_digits acc s of None \<Rightarrow> None | Some a \<Rightarrow> parse_digits a t)"
  by (induction s arbitrary: acc) auto

lemma parse_nat_append:
  "s \<noteq> [] \<Longrightarrow> (\<And>c. c \<in> set s \<Longrightarrow> is_digit c) \<Longrightarrow>
     parse_nat (s @ t) = (case parse_nat s of None \<Rightarrow> None | Some a \<Rightarrow> parse_digits a t)"
  by (cases s) (auto simp: parse_digits_append)

lemma parse_nat_str: "parse_nat (nat_str n) = Some (int n)"
proof (induction n rule: nat_str.induct)
  case (1 n)
  show ?case
  proof (cases "n < 10")
    case True
    then show ?thesis by (subst nat_str.simps) simp
  next
    case False
    have "parse_nat (nat_str n) = parse_nat (nat_str (n div 10) @ [digit_char (n mod 10)])"
      using False by (subst nat_str.simps) simp
    also have "\<dots> = parse_digits (int (n div 10)) [digit_char (n mod 10)]"
      using 1 False nat_str_digits by (subst parse_nat_append) auto
    also have "\<dots> = Some (10 * int (n div 10) + int (n mod 10))"
      by simp
    finally show ?thesis by (simp add: zmod_int zdiv_int)
  qed
qed

lemma py_strip_no_space: "(\<And>c. c \<in> set s \<Longrightarrow> \<not> is_space c) \<Longrightarrow> py_strip s = s"
proof -
  assume ns: "\<And>c. c \<in> set s \<Longrightarrow> \<not> is_space c"
  then have "dropWhile is_space t = t" if "set t = set s" for t
    using that by (metis dropWhile_eq_self_iff hd_in_set)
  from this [of s] this [of "rev s"] show ?thesis by (simp add: py_strip_def)
qed

lemma minus_not_digit [simp]: "\<not> is_digit CHR ''-''" "\<not> is_digit CHR ''+''" "\<not> is_space CHR ''-''"
  "\<not> is_digit CHR '':''" "\<not> is_digit CHR ''.''" "\<not> is_digit CHR '',''" "\<not> is_digit CHR '' ''"
  by (simp_all add: is_digit_def is_space_def)

lemma py_int_int_str [simp]: "py_int (int_str i) = Some i"
proof -
  have nosp: "c \<in> set (int_str i) \<Longrightarrow> \<not> is_space c" for c
    using nat_str_digits is_digit_not_space by (fastforce simp: int_str_def split: if_splits)
  have strip: "py_strip (int_str i) = int_str i"
    by (rule py_strip_no_space) (rule nosp)
  show ?thesis
  proof (cases "i < 0")
    case True
    then show ?thesis
      using strip by (simp add: py_int_def int_str_def parse_nat_str)
  next
    case False
    obtain c r where cr: "nat_str (nat i) = c # r"
      by (cases "nat_str (nat i)") auto
    have "is_digit c" using nat_str_digits [of c "nat i"] cr by simp
    then have "c \<noteq> CHR ''-''" "c \<noteq> CHR ''+''" by auto
    then show ?thesis
      using strip cr False parse_nat_str [of "nat i"] by (simp add: py_int_def int_str_def)
  qed
qed

lemma int_str_chars: "c \<in> set (int_str i) \<Longrightarrow> is_digit c \<or> c = CHR ''-''"
  using nat_str_digits by (auto simp: int_str_def split: if_splits)

lemma int_str_no_colon: "CHR '':'' \<notin> set (int_str i)"
  using int_str_chars [of "CHR '':''" i] by (auto simp: is_digit_def)

lemma int_str_inj: "int_str i = int_str j \<Longrightarrow> i = j"
  by (metis option.inject py_int_int_str)

subsection \<open>UTF-8\<close>

text \<open>\<open>str.encode\<close>: code points below 256 take one or two bytes.\<close>

definition utf8_char :: "char \<Rightarrow> 8 word list" where
  "utf8_char c = (let n = of_char c :: nat in if n < 128 then [of_nat n] else [192 + of_nat (n div 64), 128 + of_nat (n mod 64)])"

definition utf8 :: "string \<Rightarrow> 8 word list" where
  "utf8 s = concat (map utf8_char s)"

subsection \<open>Regular expressions of the request parameters\<close>

text \<open>
  \<open>re.match("^...$", s)\<close>: \<open>$\<close> also matches before one trailing newline. \<open>eat p n\<close> is
  \<open>[p]{n}\<close> at the front of the string.
\<close>

definition re_dollar :: "(string \<Rightarrow> bool) \<Rightarrow> string \<Rightarrow> bool" where
  "re_dollar body s \<longleftrightarrow> body s \<or> (s \<noteq> [] \<and> last s = newline \<and> body (butlast s))"

fun eat :: "(char \<Rightarrow> bool) \<Rightarrow> nat \<Rightarrow> string \<Rightarrow> string option" where
  "eat p 0 s = Some s"
| "eat p (Suc n) [] = None"
| "eat p (Suc n) (c # s) = (if p c then eat p n s else None)"

fun eat_dash_hex4 :: "nat \<Rightarrow> string \<Rightarrow> string option" where
  "eat_dash_hex4 0 s = Some s"
| "eat_dash_hex4 (Suc n) s =
     Option.bind (eat (\<lambda>c. c = CHR ''-'') 1 s) (\<lambda>s. Option.bind (eat is_hex 4 s) (eat_dash_hex4 n))"

definition uuid_body :: "string \<Rightarrow> bool" where
  "uuid_body s \<longleftrightarrow>
     Option.bind (eat is_hex 8 s) (\<lambda>s. Option.bind (eat_dash_hex4 3 s) (\<lambda>s.
       Option.bind (eat (\<lambda>c. c = CHR ''-'') 1 s) (eat is_hex 12))) = Some []"

definition is_uuid :: "string \<Rightarrow> bool" where
  "is_uuid s = re_dollar uuid_body s"

definition foreignid_body :: "string \<Rightarrow> bool" where
  "foreignid_body s =
     (case str_split1 CHR '':'' s of
        (v, Some r) \<Rightarrow> v \<noteq> [] \<and> list_all is_lower_alnum v \<and> r \<noteq> [] \<and> newline \<notin> set r
      | (_, None) \<Rightarrow> False)"

definition is_foreignid :: "string \<Rightarrow> bool" where
  "is_foreignid s = re_dollar foreignid_body s"

text \<open>A hyphenated UUID written with \<open>n\<close>-digit groups 8-4-4-4-12.\<close>

definition hex_group :: "nat \<Rightarrow> string \<Rightarrow> bool" where
  "hex_group n s \<longleftrightarrow> length s = n \<and> (\<forall>c \<in> set s. is_hex c)"

definition uuid_text :: "string \<Rightarrow> bool" where
  "uuid_text s \<longleftrightarrow> (\<exists>a b c d e. hex_group 8 a \<and> hex_group 4 b \<and> hex_group 4 c \<and> hex_group 4 d \<and> hex_group 12 e
     \<and> s = a @ ''-'' @ b @ ''-'' @ c @ ''-'' @ d @ ''-'' @ e)"

lemma eat_Some_iff: "eat p n s = Some r \<longleftrightarrow> (\<exists>w. length w = n \<and> (\<forall>c \<in> set w. p c) \<and> s = w @ r)"
proof (induction p n s rule: eat.induct)
  case (3 p n c s)
  show ?case
  proof
    assume "eat p (Suc n) (c # s) = Some r"
    with 3 obtain w where "length w = n" "\<forall>c \<in> set w. p c" "s = w @ r" "p c"
      by (auto split: if_splits)
    then have "length (c # w) = Suc n \<and> (\<forall>x \<in> set (c # w). p x) \<and> c # s = (c # w) @ r" by simp
    then show "\<exists>w. length w = Suc n \<and> (\<forall>c \<in> set w. p c) \<and> c # s = w @ r" by blast
  next
    assume "\<exists>w. length w = Suc n \<and> (\<forall>c \<in> set w. p c) \<and> c # s = w @ r"
    then obtain v w where "length w = n" "p v" "\<forall>c \<in> set w. p c" "c # s = v # w @ r"
      by (auto simp: length_Suc_conv)
    with 3 show "eat p (Suc n) (c # s) = Some r" by auto
  qed
qed auto

lemma eat_dash_Some_iff: "eat (\<lambda>c. c = CHR ''-'') 1 s = Some r \<longleftrightarrow> s = ''-'' @ r"
  by (cases s) (auto split: if_splits)

definition eats :: "(char \<Rightarrow> bool) \<Rightarrow> nat \<Rightarrow> string \<Rightarrow> string \<Rightarrow> bool" where
  "eats p n s r \<longleftrightarrow> (\<exists>w. length w = n \<and> (\<forall>c \<in> set w. p c) \<and> s = w @ r)"

definition eats_dash4 :: "string \<Rightarrow> string \<Rightarrow> bool" where
  "eats_dash4 s r \<longleftrightarrow> (\<exists>w. hex_group 4 w \<and> s = ''-'' @ w @ r)"

lemma eat_eats: "eat is_hex n s = Some r \<longleftrightarrow> eats is_hex n s r"
  unfolding eats_def by (rule eat_Some_iff)

lemma eat_dash_hex4_Some_iff:
  "eat_dash_hex4 (Suc n) s = Some r \<longleftrightarrow> (\<exists>t. eats_dash4 s t \<and> eat_dash_hex4 n t = Some r)"
  unfolding eat_dash_hex4.simps bind_eq_Some_conv eat_dash_Some_iff eat_eats eats_dash4_def hex_group_def eats_def
  by blast

lemma eat_dash_hex4_3: "eat_dash_hex4 3 s = Some r \<longleftrightarrow>
    (\<exists>t u. eats_dash4 s t \<and> eats_dash4 t u \<and> eats_dash4 u r)"
  unfolding numeral_3_eq_3 eat_dash_hex4_Some_iff by auto

lemma uuid_body_eats:
  "uuid_body s \<longleftrightarrow>
     (\<exists>s1 s2 s3 s4 s5. eats is_hex 8 s s1 \<and> eats_dash4 s1 s2 \<and> eats_dash4 s2 s3 \<and> eats_dash4 s3 s4
        \<and> s4 = ''-'' @ s5 \<and> eats is_hex 12 s5 [])"
  unfolding uuid_body_def bind_eq_Some_conv eat_dash_hex4_3 eat_dash_Some_iff eat_eats by blast

lemma uuid_body_iff: "uuid_body s \<longleftrightarrow> uuid_text s"
proof
  assume "uuid_body s"
  then obtain s1 s2 s3 s4 s5 where
    "eats is_hex 8 s s1" "eats_dash4 s1 s2" "eats_dash4 s2 s3" "eats_dash4 s3 s4"
    "s4 = ''-'' @ s5" "eats is_hex 12 s5 []"
    unfolding uuid_body_eats by blast
  then show "uuid_text s"
    unfolding eats_def eats_dash4_def uuid_text_def hex_group_def append_Nil2 by blast
next
  assume "uuid_text s"
  then obtain a b c d e where g: "hex_group 8 a" "hex_group 4 b" "hex_group 4 c" "hex_group 4 d" "hex_group 12 e"
    and s: "s = a @ ''-'' @ b @ ''-'' @ c @ ''-'' @ d @ ''-'' @ e"
    unfolding uuid_text_def by blast
  have "eats is_hex 8 s (''-'' @ b @ ''-'' @ c @ ''-'' @ d @ ''-'' @ e)" "eats is_hex 12 e []"
    using g s by (auto simp: eats_def hex_group_def)
  moreover have "eats_dash4 (''-'' @ w @ r) r" if "hex_group 4 w" for w r
    using that by (auto simp: eats_dash4_def)
  ultimately show "uuid_body s"
    unfolding uuid_body_eats using g by blast
qed

lemma uuid_text_not_newline: "uuid_text s \<Longrightarrow> newline \<notin> set s"
proof -
  have "\<not> is_hex newline" "newline \<noteq> CHR ''-''"
    by (simp_all add: newline_def is_hex_def is_digit_def)
  then show "uuid_text s \<Longrightarrow> ?thesis"
    by (auto simp: uuid_text_def hex_group_def)
qed

lemma re_dollar_iff: "re_dollar body s \<longleftrightarrow> (body s \<or> (\<exists>t. s = t @ [newline] \<and> body t))"
  unfolding re_dollar_def by (metis append_butlast_last_id butlast_snoc last_snoc snoc_eq_iff_butlast)

subsection \<open>singular\<close>

definition singular :: "string \<Rightarrow> py_exc + string" where
  "singular plural =
     (if ends_with ''ies'' plural then Inr (take (length plural - 3) plural @ ''y'')
      else if ends_with ''s'' plural then Inr (take (length plural - 1) plural)
      else Inl ValueError)"

subsection \<open>API keys\<close>

definition b64_std :: string where
  "b64_std = ''ABCDEFGHIJKLMNOPQRSTUVWXYZabcdefghijklmnopqrstuvwxyz0123456789+/''"

definition b64_url :: string where
  "b64_url = ''ABCDEFGHIJKLMNOPQRSTUVWXYZabcdefghijklmnopqrstuvwxyz0123456789-_''"

fun b64encode :: "string \<Rightarrow> nat list \<Rightarrow> string" where
  "b64encode al [] = []"
| "b64encode al [a] = [al ! (a div 4), al ! (a mod 4 * 16), CHR ''='', CHR ''='']"
| "b64encode al [a, b] = [al ! (a div 4), al ! (a mod 4 * 16 + b div 16), al ! (b mod 16 * 4), CHR ''='']"
| "b64encode al (a # b # c # r) =
     al ! (a div 4) # al ! (a mod 4 * 16 + b div 16) # al ! (b mod 16 * 4 + c div 64) # al ! (c mod 64)
       # b64encode al r"

definition generate_api_key :: "nat \<Rightarrow> nat list \<Rightarrow> string" where
  "generate_api_key len random_bytes =
     take len (filter (\<lambda>c. c \<noteq> CHR ''/'' \<and> c \<noteq> CHR ''+'' \<and> c \<noteq> CHR ''='')
       (py_strip (b64encode b64_std random_bytes)))"

definition rstrip_eq :: "string \<Rightarrow> string" where
  "rstrip_eq s = rev (dropWhile (\<lambda>c. c = CHR ''='') (rev s))"

text \<open>\<open>hmac\<close> maps key and message to the 16 bytes of the digest; \<open>day\<close> is the proleptic ordinal.\<close>

definition generate_demo_client_api_key ::
    "(string \<Rightarrow> string \<Rightarrow> nat list) \<Rightarrow> string \<Rightarrow> int \<Rightarrow> string" where
  "generate_demo_client_api_key hmac secret day =
     (let key = secret @ '':demo-client-api-key'';
          message = hex_str (nat day);
          digest = take 8 (hmac key message);
          api_key = rstrip_eq (b64encode b64_url digest)
      in api_key[length api_key - 2 := CHR ''A''])"

definition check_demo_client_api_key ::
    "(string \<Rightarrow> string \<Rightarrow> nat list) \<Rightarrow> int \<Rightarrow> string \<Rightarrow> string \<Rightarrow> nat \<Rightarrow> bool" where
  "check_demo_client_api_key hmac today secret api_key max_age =
     (length api_key = 11 \<and> api_key ! 9 = CHR ''A'' \<and>
      list_ex (\<lambda>i. api_key = generate_demo_client_api_key hmac secret (today + int i)) [0..<max_age])"

lemma b64_std_chars: "i < 64 \<Longrightarrow> b64_std ! i = CHR ''+'' \<or> b64_std ! i = CHR ''/'' \<or> is_alnum (b64_std ! i)"
proof -
  have "list_all (\<lambda>c. c = CHR ''+'' \<or> c = CHR ''/'' \<or> is_alnum c) b64_std"
    by (simp add: b64_std_def is_alnum_def is_digit_def)
  moreover have "length b64_std = 64" by (simp add: b64_std_def)
  ultimately show "i < 64 \<Longrightarrow> ?thesis" by (simp add: list_all_length)
qed

lemma b64_encode_chars:
  "(\<And>b. b \<in> set bs \<Longrightarrow> b < 256) \<Longrightarrow> set (b64encode al bs) \<subseteq> insert CHR ''='' ((!) al ` {..<64})"
proof (induction al bs rule: b64encode.induct)
  case (2 al a)
  then have "a < 256" by simp
  then show ?case by (auto intro!: imageI)
next
  case (3 al a b)
  then have "a < 256" "b < 256" by auto
  then show ?case by (auto intro!: imageI)
next
  case (4 al a b d r)
  have "a < 256" "b < 256" "d < 256" using 4(2) by auto
  moreover have "set (b64encode al r) \<subseteq> insert CHR ''='' ((!) al ` {..<64})" using 4 by auto
  ultimately show ?case by (auto intro!: imageI)
qed simp

lemma generate_api_key_alnum:
  assumes "\<And>b. b \<in> set bs \<Longrightarrow> b < 256" and "c \<in> set (generate_api_key n bs)"
  shows "is_alnum c"
proof -
  have "c \<in> set (b64encode b64_std bs)" "c \<noteq> CHR ''/''" "c \<noteq> CHR ''+''" "c \<noteq> CHR ''=''"
    using assms(2) by (auto simp: generate_api_key_def py_strip_def dest!: in_set_takeD set_dropWhileD)
  moreover have "set (b64encode b64_std bs) \<subseteq> insert CHR ''='' ((!) b64_std ` {..<64})"
    by (rule b64_encode_chars) (rule assms(1))
  ultimately show ?thesis using b64_std_chars by blast
qed

lemma length_8_cases:
  assumes "length xs = 8"
  obtains a b c d e f g h where "xs = [a, b, c, d, e, f, g, h]"
  using assms by (auto simp: length_Suc_conv numeral_eq_Suc)

text \<open>Eight digest bytes encode to eleven characters and one padding character.\<close>

lemma demo_key_shape:
  assumes "length (hmac (secret @ '':demo-client-api-key'') (hex_str (nat day))) = 16"
    and "\<And>b. b \<in> set (hmac (secret @ '':demo-client-api-key'') (hex_str (nat day))) \<Longrightarrow> b < 256"
  shows "length (generate_demo_client_api_key hmac secret day) = 11"
    and "generate_demo_client_api_key hmac secret day ! 9 = CHR ''A''"
proof -
  let ?d = "take 8 (hmac (secret @ '':demo-client-api-key'') (hex_str (nat day)))"
  have "length ?d = 8" using assms(1) by simp
  then obtain a b c d e f g h where d: "?d = [a, b, c, d, e, f, g, h]"
    by (rule length_8_cases)
  have "set ?d \<subseteq> {b. b < 256}" using assms(2) by (auto dest: in_set_takeD)
  then have "g < 256" "h < 256" using d by auto
  then have "h mod 16 * 4 < 64" by auto
  moreover have "list_all (\<lambda>c. c \<noteq> CHR ''='') b64_url" "length b64_url = 64"
    by (simp_all add: b64_url_def)
  ultimately have "b64_url ! (h mod 16 * 4) \<noteq> CHR ''=''"
    by (simp add: list_all_length)
  then show "length (generate_demo_client_api_key hmac secret day) = 11"
    and "generate_demo_client_api_key hmac secret day ! 9 = CHR ''A''"
    by (simp_all add: generate_demo_client_api_key_def d rstrip_eq_def Let_def)
qed

subsection \<open>Properties\<close>

text \<open>\<open>is_uuid\<close> accepts exactly the hyphenated 8-4-4-4-12 hexadecimal texts, and those followed
  by one newline, because \<open>$\<close> in its regular expression matches before a final newline.\<close>

lemma is_uuid_language:
  "is_uuid s \<longleftrightarrow> (\<exists>u. uuid_text u \<and> (s = u \<or> s = u @ [newline]))"
  unfolding is_uuid_def re_dollar_iff uuid_body_iff by blast

text \<open>An API key drawn from random bytes has at most the requested number of characters and all of
  them are letters or digits, so it needs no escaping in a URL or a cache key.\<close>

lemma generate_api_key_safe:
  assumes "\<forall>b \<in> set random_bytes. b < 256"
  shows "length (generate_api_key n random_bytes) \<le> n \<and> list_all is_alnum (generate_api_key n random_bytes)"
proof -
  have "length (generate_api_key n random_bytes) \<le> n" by (simp add: generate_api_key_def)
  moreover have "list_all is_alnum (generate_api_key n random_bytes)"
    using generate_api_key_alnum [of random_bytes] assms by (auto simp: list_all_iff)
  ultimately show ?thesis ..
qed

text \<open>The stripped characters are not replaced: an unlucky draw leaves a much shorter key.\<close>

lemma generate_api_key_short: "generate_api_key 10 (replicate 20 255) = ''8''"
  by code_simp

text \<open>A demonstration key is accepted on the day it was made for and on the six days before it, and
  never after that day: the check walks forward through the calendar (\<open>day += timedelta(days=1)\<close>).\<close>

lemma demo_key_window:
  assumes digest: "\<And>m. length (hmac (secret @ '':demo-client-api-key'') m) = 16"
      "\<And>m b. b \<in> set (hmac (secret @ '':demo-client-api-key'') m) \<Longrightarrow> b < 256"
    and apart: "\<And>i. i < max_age \<Longrightarrow>
      generate_demo_client_api_key hmac secret day = generate_demo_client_api_key hmac secret (today + int i) \<Longrightarrow>
      day = today + int i"
  shows "check_demo_client_api_key hmac today secret (generate_demo_client_api_key hmac secret day) max_age
           \<longleftrightarrow> today \<le> day \<and> day < today + int max_age"
proof -
  have shape: "length (generate_demo_client_api_key hmac secret day) = 11"
      "generate_demo_client_api_key hmac secret day ! 9 = CHR ''A''"
    using demo_key_shape [of hmac secret day] digest by blast+
  show ?thesis
  proof
    assume "check_demo_client_api_key hmac today secret (generate_demo_client_api_key hmac secret day) max_age"
    with apart show "today \<le> day \<and> day < today + int max_age"
      by (fastforce simp: check_demo_client_api_key_def list_ex_iff)
  next
    assume day: "today \<le> day \<and> day < today + int max_age"
    then have "nat (day - today) \<in> set [0..<max_age]" "today + int (nat (day - today)) = day" by auto
    then show "check_demo_client_api_key hmac today secret (generate_demo_client_api_key hmac secret day) max_age"
      using shape unfolding check_demo_client_api_key_def list_ex_iff by metis
  qed
qed

definition demo_hmac :: "string \<Rightarrow> string \<Rightarrow> nat list" where
  "demo_hmac k m = take 16 (map (\<lambda>c. of_char c mod 256) m @ replicate 16 0)"

end
