(* ===== verification/Tables.thy ===== *)
theory Tables
  imports Prelude
begin

text \<open>
  The rows of \<^verbatim>\<open>acoustid/tables.py\<close>, one record per table, and the three databases the data
  layer writes: \<open>app\<close>, \<open>fingerprint\<close> and \<open>ingest\<close>. A nullable column is an option. UUID and INET
  columns are their texts, timestamps are integers; every database carries the timestamp of its
  current transaction, which is what \<open>current_timestamp\<close> and the server defaults store.

  The four \<open>track_*\<close> link tables share the columns of \<open>link_row\<close> and are indexed by the same
  unique pair (track, value); \<open>track_mbid\<close> extends it by two columns. The code treats them
  uniformly too (\<open>_insert_gid\<close>, \<open>_merge_tracks_gids\<close>).
\<close>

record account_row =
  ac_id :: int
  ac_name :: string
  ac_apikey :: string
  ac_mbuser :: "string option"
  ac_anonymous :: bool
  ac_created :: int
  ac_lastlogin :: "int option"
  ac_submission_count :: int
  ac_application_id :: "int option"
  ac_application_version :: "string option"
  ac_created_from :: "string option"
  ac_is_admin :: bool

record account_openid_row =
  ao_openid :: string
  ao_account_id :: int

record account_google_row =
  ag_google_user_id :: string
  ag_account_id :: int

record application_row =
  ap_id :: int
  ap_name :: string
  ap_version :: string
  ap_apikey :: string
  ap_created :: int
  ap_active :: "bool option"
  ap_account_id :: int
  ap_email :: "string option"
  ap_website :: "string option"

record track_row =
  tr_id :: int
  tr_created :: int
  tr_updated :: "int option"
  tr_new_id :: "int option"
  tr_gid :: string

record format_row =
  fo_id :: int
  fo_name :: string

record source_row =
  so_id :: int
  so_application_id :: int
  so_account_id :: int
  so_version :: "string option"

record pending_submission_row =
  ps_id :: int

text \<open>The JSONB column \<open>submission.meta\<close>: only text and numbers are ever stored in it.\<close>

datatype meta_value = MStr string | MInt int

type_synonym meta_dict = "(string, meta_value) dict"

record submission_row =
  su_id :: int
  su_created :: int
  su_handled_at :: "int option"
  su_handled :: bool
  su_account_id :: "int option"
  su_application_id :: "int option"
  su_application_version :: "string option"
  su_source_id :: "int option"
  su_fingerprint :: "int list"
  su_length :: int
  su_bitrate :: "int option"
  su_format :: "string option"
  su_format_id :: "int option"
  su_meta :: "meta_dict option"
  su_meta_gid :: "string option"
  su_meta_id :: "int option"
  su_mbid :: "string option"
  su_puid :: "string option"
  su_foreignid :: "string option"
  su_foreignid_id :: "int option"

record submission_result_row =
  sr_submission_id :: int
  sr_created :: int
  sr_handled_at :: "int option"
  sr_account_id :: int
  sr_application_id :: int
  sr_application_version :: "string option"
  sr_fingerprint_id :: int
  sr_track_id :: int
  sr_meta_gid :: "string option"
  sr_meta_id :: "int option"
  sr_mbid :: "string option"
  sr_puid :: "string option"
  sr_foreignid :: "string option"

record meta_row =
  me_id :: int
  me_track :: "string option"
  me_artist :: "string option"
  me_album :: "string option"
  me_album_artist :: "string option"
  me_track_no :: "int option"
  me_disc_no :: "int option"
  me_year :: "int option"
  me_created :: "int option"
  me_gid :: "string option"

record foreignid_vendor_row =
  fv_id :: int
  fv_name :: string

record foreignid_row =
  fi_id :: int
  fi_vendor_id :: int
  fi_name :: string

record fingerprint_row =
  fp_id :: int
  fp_fingerprint :: "int list"
  fp_length :: int
  fp_bitrate :: "int option"
  fp_format_id :: "int option"
  fp_created :: int
  fp_updated :: "int option"
  fp_track_id :: int
  fp_submission_count :: int

record fingerprint_source_row =
  fs_id :: int
  fs_fingerprint_id :: int
  fs_submission_id :: int
  fs_source_id :: int
  fs_created :: int

text \<open>\<open>xid\<close> and \<open>created\<close> are filled by server defaults; \<open>created\<close> is the clock inside the lock.\<close>

record changelog_row =
  cl_id :: int
  cl_fingerprint_id :: int
  cl_query :: "int list"
  cl_created :: int

record fpindex_meta_row =
  fm_last_deleted_id :: int
  fm_last_deleted_created :: int

record 'g link_row =
  lk_id :: int
  lk_track_id :: int
  lk_value :: 'g
  lk_created :: int
  lk_updated :: "int option"
  lk_submission_count :: int

record track_mbid_row = "string link_row" +
  tm_disabled :: bool
  tm_merged_into :: "int option"

type_synonym track_puid_row = "string link_row"
type_synonym track_meta_row = "int link_row"
type_synonym track_foreignid_row = "int link_row"

record link_source_row =
  ls_id :: int
  ls_link_id :: int
  ls_submission_id :: "int option"
  ls_source_id :: "int option"
  ls_created :: int
  ls_updated :: "int option"

record track_mbid_change_row =
  tc_id :: int
  tc_track_mbid_id :: int
  tc_account_id :: int
  tc_created :: int
  tc_disabled :: bool
  tc_note :: "string option"
  tc_updated :: "int option"

record app_db =
  a_now :: int
  t_account :: "account_row table"
  t_account_openid :: "account_openid_row table"
  t_account_google :: "account_google_row table"
  t_application :: "application_row table"
  t_format :: "format_row table"
  t_source :: "source_row table"

record fingerprint_db =
  f_now :: int
  t_track :: "track_row table"
  t_fingerprint :: "fingerprint_row table"
  t_meta :: "meta_row table"
  t_foreignid_vendor :: "foreignid_vendor_row table"
  t_foreignid :: "foreignid_row table"
  t_track_mbid :: "track_mbid_row table"
  t_track_puid :: "track_puid_row table"
  t_track_meta :: "track_meta_row table"
  t_track_foreignid :: "track_foreignid_row table"
  t_changelog :: "changelog_row table"

record ingest_db =
  i_now :: int
  t_submission :: "submission_row table"
  t_pending_submission :: "pending_submission_row table"
  t_submission_result :: "submission_result_row table"
  t_fingerprint_source :: "fingerprint_source_row table"
  t_track_mbid_source :: "link_source_row table"
  t_track_mbid_change :: "track_mbid_change_row table"
  t_track_puid_source :: "link_source_row table"
  t_track_meta_source :: "link_source_row table"
  t_track_foreignid_source :: "link_source_row table"

definition empty_app_db :: app_db where
  "empty_app_db = \<lparr>a_now = 0, t_account = empty_table, t_account_openid = empty_table,
     t_account_google = empty_table, t_application = empty_table, t_format = empty_table,
     t_source = empty_table\<rparr>"

definition empty_fingerprint_db :: fingerprint_db where
  "empty_fingerprint_db = \<lparr>f_now = 0, t_track = empty_table, t_fingerprint = empty_table,
     t_meta = empty_table, t_foreignid_vendor = empty_table, t_foreignid = empty_table,
     t_track_mbid = empty_table, t_track_puid = empty_table, t_track_meta = empty_table,
     t_track_foreignid = empty_table, t_changelog = empty_table\<rparr>"

definition empty_ingest_db :: ingest_db where
  "empty_ingest_db = \<lparr>i_now = 0, t_submission = empty_table, t_pending_submission = empty_table,
     t_submission_result = empty_table, t_fingerprint_source = empty_table,
     t_track_mbid_source = empty_table, t_track_mbid_change = empty_table,
     t_track_puid_source = empty_table, t_track_meta_source = empty_table,
     t_track_foreignid_source = empty_table\<rparr>"

text \<open>
  The trigger \<open>fpindex_changelog_insert\<close>, run after every inserted fingerprint. \<open>xq\<close> stands for the
  PostgreSQL extension function \<open>acoustid_extract_query\<close>.
\<close>

definition fpindex_changelog_insert ::
    "(int list \<Rightarrow> int list) \<Rightarrow> fingerprint_row \<Rightarrow> fingerprint_db \<Rightarrow> fingerprint_db" where
  "fpindex_changelog_insert xq new db =
     db\<lparr>t_changelog := snd (ins (\<lambda>i. \<lparr>cl_id = i, cl_fingerprint_id = fp_id new,
                                     cl_query = xq (fp_fingerprint new), cl_created = f_now db\<rparr>)
                               (t_changelog db))\<rparr>"

subsection \<open>Integrity constraints\<close>

text \<open>The unique pair of a link table, and the invariants of the databases.\<close>

definition link_key :: "('g, 'z) link_row_scheme \<Rightarrow> int \<times> 'g" where
  "link_key r = (lk_track_id r, lk_value r)"

definition wf_links :: "('g, 'z) link_row_scheme table \<Rightarrow> bool" where
  "wf_links t \<longleftrightarrow> wf_table lk_id t \<and> distinct (map link_key (rows t))"

definition link_count :: "int \<Rightarrow> ('g, 'z) link_row_scheme table \<Rightarrow> int" where
  "link_count tid t = sum_list (map lk_submission_count (sel (\<lambda>r. lk_track_id r = tid) t))"

definition total_count :: "('g, 'z) link_row_scheme table \<Rightarrow> int" where
  "total_count t = sum_list (map lk_submission_count (rows t))"

definition wf_fingerprint_db :: "fingerprint_db \<Rightarrow> bool" where
  "wf_fingerprint_db db \<longleftrightarrow>
     wf_table tr_id (t_track db) \<and> wf_table fp_id (t_fingerprint db) \<and>
     wf_table me_id (t_meta db) \<and> wf_table cl_id (t_changelog db) \<and>
     wf_links (t_track_mbid db) \<and> wf_links (t_track_puid db) \<and>
     wf_links (t_track_meta db) \<and> wf_links (t_track_foreignid db) \<and>
     (\<forall>f \<in> set (rows (t_fingerprint db)). \<exists>t \<in> set (rows (t_track db)). tr_id t = fp_track_id f)"

lemma wf_links_empty [simp]: "wf_links empty_table"
  by (simp add: wf_links_def empty_table_def wf_table_def)

lemma wf_fingerprint_db_empty: "wf_fingerprint_db empty_fingerprint_db"
  by (simp add: wf_fingerprint_db_def empty_fingerprint_db_def) (simp add: empty_table_def)

lemma wf_links_same_keys:
  assumes "wf_links t" and "\<And>r. P r \<Longrightarrow> lk_id (f r) = lk_id r \<and> link_key (f r) = link_key r"
  shows "wf_links (upd P f t)"
proof -
  have "map link_key (rows (upd P f t)) = map link_key (rows t)"
    using assms(2) by (simp add: table_simps)
  then show ?thesis
    using assms by (simp add: wf_links_def wf_table_upd)
qed

lemma wf_links_del: "wf_links t \<Longrightarrow> wf_links (del P t)"
  by (simp add: wf_links_def wf_table_del) (simp add: table_simps distinct_map_filter)

lemma wf_links_ins:
  assumes "wf_links t" and "lk_id (mk (serial t)) = serial t"
    and "\<forall>r \<in> set (rows t). link_key r \<noteq> link_key (mk (serial t))"
  shows "wf_links (snd (ins mk t))"
  using assms by (fastforce simp: wf_links_def wf_table_ins table_simps)

end
