(* ===== verification/Accounts.thy ===== *)
theory Accounts
  imports Tables Py_Strings
begin

text \<open>
  \<^verbatim>\<open>data/account.py\<close> and \<^verbatim>\<open>data/application.py\<close>. A new API key (\<open>generate_api_key()\<close>) is an
  argument. \<open>lower\<close> stands for the SQL function of that name, whose result depends on the locale
  of the database, and \<open>collate\<close> for its ordering of texts. The unique and foreign keys of the tables
  make a statement raise IntegrityError.
\<close>

subsection \<open>Accounts\<close>

definition lookup_account_id_by_name :: "app_db \<Rightarrow> string \<Rightarrow> int option" where
  "lookup_account_id_by_name db name = scalar (\<lambda>r. ac_name r = name) ac_id (t_account db)"

definition lookup_account_id_by_apikey :: "app_db \<Rightarrow> string \<Rightarrow> int option" where
  "lookup_account_id_by_apikey db apikey = scalar (\<lambda>r. ac_apikey r = apikey) ac_id (t_account db)"

definition mbuser_matches :: "(string \<Rightarrow> string) \<Rightarrow> string \<Rightarrow> account_row \<Rightarrow> bool" where
  "mbuser_matches lower mbuser r = (case ac_mbuser r of None \<Rightarrow> False | Some u \<Rightarrow> lower u = lower mbuser)"

definition lookup_account_id_by_mbuser :: "(string \<Rightarrow> string) \<Rightarrow> app_db \<Rightarrow> string \<Rightarrow> int option" where
  "lookup_account_id_by_mbuser lower db mbuser = scalar (mbuser_matches lower mbuser) ac_id (t_account db)"

definition lookup_account_id_by_openid :: "app_db \<Rightarrow> string \<Rightarrow> int option" where
  "lookup_account_id_by_openid db openid = scalar (\<lambda>r. ao_openid r = openid) ao_account_id (t_account_openid db)"

definition get_account_details :: "app_db \<Rightarrow> int \<Rightarrow> account_row option" where
  "get_account_details db i = scalar (\<lambda>r. ac_id r = i) (\<lambda>r. r) (t_account db)"

definition get_account_details_by_mbuser :: "(string \<Rightarrow> string) \<Rightarrow> app_db \<Rightarrow> string \<Rightarrow> account_row option" where
  "get_account_details_by_mbuser lower db mbuser = scalar (mbuser_matches lower mbuser) (\<lambda>r. r) (t_account db)"

definition update_account_lastlogin :: "app_db \<Rightarrow> int \<Rightarrow> app_db" where
  "update_account_lastlogin db i =
     db\<lparr>t_account := upd (\<lambda>r. ac_id r = i) (\<lambda>r. r\<lparr>ac_lastlogin := Some (a_now db)\<rparr>) (t_account db)\<rparr>"

record new_account =
  na_name :: string
  na_mbuser :: "string option"
  na_created_from :: "string option"
  na_application_id :: "int option"
  na_application_version :: "string option"
  na_openid :: "string option"

definition account_insert_violates :: "new_account \<Rightarrow> string \<Rightarrow> app_db \<Rightarrow> bool" where
  "account_insert_violates data apikey db \<longleftrightarrow>
     list_ex (\<lambda>r. ac_apikey r = apikey) (rows (t_account db))
     \<or> (na_mbuser data \<noteq> None \<and> list_ex (\<lambda>r. ac_mbuser r = na_mbuser data) (rows (t_account db)))
     \<or> (case na_application_id data of None \<Rightarrow> False
        | Some a \<Rightarrow> \<not> list_ex (\<lambda>r. ap_id r = a) (rows (t_application db)))"

definition insert_account :: "string \<Rightarrow> new_account \<Rightarrow> app_db \<Rightarrow> py_exc + (int \<times> string) \<times> app_db" where
  "insert_account apikey data db =
     (if account_insert_violates data apikey db then Inl IntegrityError
      else
        let (i, t) = ins (\<lambda>i. \<lparr>ac_id = i, ac_name = na_name data, ac_apikey = apikey, ac_mbuser = na_mbuser data,
              ac_anonymous = False, ac_created = a_now db, ac_lastlogin = Some (a_now db),
              ac_submission_count = 0, ac_application_id = na_application_id data,
              ac_application_version = na_application_version data,
              ac_created_from = na_created_from data, ac_is_admin = False\<rparr>) (t_account db);
            db = db\<lparr>t_account := t\<rparr>
        in case na_openid data of
             None \<Rightarrow> Inr ((i, apikey), db)
           | Some openid \<Rightarrow>
               if list_ex (\<lambda>r. ao_openid r = openid) (rows (t_account_openid db)) then Inl IntegrityError
               else Inr ((i, apikey),
                 db\<lparr>t_account_openid := (t_account_openid db)
                     \<lparr>rows := rows (t_account_openid db) @ [\<lparr>ao_openid = openid, ao_account_id = i\<rparr>]\<rparr>\<rparr>))"

definition reset_account_apikey :: "string \<Rightarrow> app_db \<Rightarrow> int \<Rightarrow> py_exc + app_db" where
  "reset_account_apikey apikey db i =
     (if list_ex (\<lambda>r. ac_id r = i) (rows (t_account db))
         \<and> list_ex (\<lambda>r. ac_id r \<noteq> i \<and> ac_apikey r = apikey) (rows (t_account db))
      then Inl IntegrityError
      else Inr (db\<lparr>t_account := upd (\<lambda>r. ac_id r = i) (\<lambda>r. r\<lparr>ac_apikey := apikey\<rparr>) (t_account db)\<rparr>))"

definition is_moderator :: "app_db \<Rightarrow> int \<Rightarrow> bool" where
  "is_moderator db i =
     truthy_str (case scalar (\<lambda>r. ac_id r = i) ac_mbuser (t_account db) of None \<Rightarrow> None | Some u \<Rightarrow> u)"

subsection \<open>Applications\<close>

definition lookup_application_id_by_apikey :: "app_db \<Rightarrow> string \<Rightarrow> bool \<Rightarrow> int option" where
  "lookup_application_id_by_apikey db apikey only_active =
     scalar (\<lambda>r. ap_apikey r = apikey \<and> (only_active \<longrightarrow> ap_active r = Some True)) ap_id (t_application db)"

definition lookup_application_id :: "app_db \<Rightarrow> int \<Rightarrow> int option \<Rightarrow> int option" where
  "lookup_application_id db application_id account_id =
     scalar (\<lambda>r. ap_id r = application_id
               \<and> (case account_id of None \<Rightarrow> True | Some a \<Rightarrow> ap_account_id r = a)) ap_id (t_application db)"

definition find_applications_by_account :: "(string \<Rightarrow> 'o::linorder) \<Rightarrow> app_db \<Rightarrow> int \<Rightarrow> application_row list" where
  "find_applications_by_account collate db account_id =
     sort_key (\<lambda>r. collate (ap_name r)) (sel (\<lambda>r. ap_account_id r = account_id) (t_application db))"

definition find_applications_by_apikeys :: "app_db \<Rightarrow> string list \<Rightarrow> application_row list" where
  "find_applications_by_apikeys db apikeys = sel (\<lambda>r. ap_apikey r \<in> set apikeys) (t_application db)"

record application_data =
  ad_name :: string
  ad_version :: string
  ad_email :: "string option"
  ad_website :: "string option"
  ad_account_id :: int

definition insert_application :: "string \<Rightarrow> application_data \<Rightarrow> app_db \<Rightarrow> py_exc + (int \<times> string) \<times> app_db" where
  "insert_application api_key data db =
     (if list_ex (\<lambda>r. ap_apikey r = api_key) (rows (t_application db))
         \<or> \<not> list_ex (\<lambda>r. ac_id r = ad_account_id data) (rows (t_account db))
      then Inl IntegrityError
      else
        let (i, t) = ins (\<lambda>i. \<lparr>ap_id = i, ap_name = ad_name data, ap_version = ad_version data,
              ap_apikey = api_key, ap_created = a_now db, ap_active = Some True,
              ap_account_id = ad_account_id data, ap_email = ad_email data,
              ap_website = ad_website data\<rparr>) (t_application db)
        in Inr ((i, api_key), db\<lparr>t_application := t\<rparr>))"

definition none_if_empty :: "string option \<Rightarrow> string option" where
  "none_if_empty s = (if truthy_str s then s else None)"

text \<open>\<open>data["version"] or None\<close> into a column that is not nullable.\<close>

definition update_application :: "app_db \<Rightarrow> int \<Rightarrow> application_data \<Rightarrow> py_exc + int \<times> app_db" where
  "update_application db i data =
     (if ad_version data = [] \<and> list_ex (\<lambda>r. ap_id r = i) (rows (t_application db)) then Inl IntegrityError
      else Inr (i, db\<lparr>t_application := upd (\<lambda>r. ap_id r = i)
             (\<lambda>r. r\<lparr>ap_name := ad_name data, ap_version := ad_version data,
                    ap_email := none_if_empty (ad_email data),
                    ap_website := none_if_empty (ad_website data)\<rparr>) (t_application db)\<rparr>))"

definition update_application_status :: "app_db \<Rightarrow> int \<Rightarrow> bool option \<Rightarrow> int \<times> app_db" where
  "update_application_status db i active =
     (i, db\<lparr>t_application := upd (\<lambda>r. ap_id r = i) (\<lambda>r. r\<lparr>ap_active := active\<rparr>) (t_application db)\<rparr>)"

subsection \<open>Properties\<close>

text \<open>The unique keys of the account and application tables.\<close>

definition wf_accounts :: "app_db \<Rightarrow> bool" where
  "wf_accounts db \<longleftrightarrow> wf_table ac_id (t_account db) \<and> distinct (map ac_apikey (rows (t_account db)))
     \<and> wf_table ap_id (t_application db) \<and> distinct (map ap_apikey (rows (t_application db)))"

lemma scalar_unique:
  assumes "distinct (map k (rows t))" and "r \<in> set (rows t)"
  shows "scalar (\<lambda>x. k x = k r) f t = Some (f r)"
proof -
  have "scalar (\<lambda>x. k x = k r) f t \<noteq> None"
    unfolding scalar_None_iff using assms(2) by blast
  then obtain v where v: "scalar (\<lambda>x. k x = k r) f t = Some v" by blast
  then obtain x where "x \<in> set (rows t)" "k x = k r" "f x = v" by (blast dest: scalar_SomeD)
  with assms v show ?thesis using distinct_map_unique [of k "rows t" x r] by simp
qed

lemma account_of_apikey:
  "wf_accounts db \<Longrightarrow> r \<in> set (rows (t_account db)) \<Longrightarrow>
     lookup_account_id_by_apikey db (ac_apikey r) = Some (ac_id r)"
  by (simp add: wf_accounts_def lookup_account_id_by_apikey_def scalar_unique)

lemma distinct_map_upd_one:
  assumes "distinct (map k xs)" and "\<And>x y. x \<in> set xs \<Longrightarrow> y \<in> set xs \<Longrightarrow> P x \<Longrightarrow> P y \<Longrightarrow> x = y"
    and "\<And>x. x \<in> set xs \<Longrightarrow> \<not> P x \<Longrightarrow> k x \<noteq> v" and "\<And>x. k (f x) = v"
  shows "distinct (map (\<lambda>x. k (if P x then f x else x)) xs)"
  using assms
proof (induction xs)
  case (Cons a xs)
  have ih: "distinct (map (\<lambda>x. k (if P x then f x else x)) xs)"
    using Cons.prems by (intro Cons.IH) auto
  have "k (if P a then f a else a) \<notin> (\<lambda>x. k (if P x then f x else x)) ` set xs"
  proof (cases "P a")
    case True
    then have "\<not> P x" if "x \<in> set xs" for x using Cons.prems(1,2) that by force
    with True Cons.prems(3,4) show ?thesis by (auto split: if_splits)
  next
    case False
    then show ?thesis using Cons.prems by (auto split: if_splits)
  qed
  with ih show ?case by simp
qed simp

text \<open>C6: Resetting an API key revokes the old one and makes the new one identify the account, and every
  other account keeps its key; the new key cannot silently take over the key of another account.\<close>

theorem reset_apikey_revokes:
  assumes "wf_accounts db" and r: "r \<in> set (rows (t_account db))" and new: "new \<noteq> ac_apikey r"
    and "reset_account_apikey new db (ac_id r) = Inr db'"
  shows "lookup_account_id_by_apikey db' new = Some (ac_id r)
     \<and> lookup_account_id_by_apikey db' (ac_apikey r) = None
     \<and> (\<forall>s \<in> set (rows (t_account db)). s = r \<or> lookup_account_id_by_apikey db' (ac_apikey s) = Some (ac_id s))
     \<and> wf_accounts db'"
proof -
  let ?P = "\<lambda>x. ac_id x = ac_id r" and ?f = "\<lambda>x. x\<lparr>ac_apikey := new\<rparr>"
  have ids: "distinct (map ac_id (rows (t_account db)))" and keys: "distinct (map ac_apikey (rows (t_account db)))"
    using assms(1) by (simp_all add: wf_accounts_def wf_table_def)
  have free: "ac_apikey x \<noteq> new" if "x \<in> set (rows (t_account db))" "\<not> ?P x" for x
    using assms(4) r that by (auto simp: reset_account_apikey_def list_ex_iff split: if_splits)
  have db': "db' = db\<lparr>t_account := upd ?P ?f (t_account db)\<rparr>"
    using assms(4) by (simp add: reset_account_apikey_def split: if_splits)
  have one: "x = r" if "x \<in> set (rows (t_account db))" "?P x" for x
    using distinct_map_unique [OF ids that(1) r] that(2) by simp
  have "distinct (map (\<lambda>x. ac_apikey (if ?P x then ?f x else x)) (rows (t_account db)))"
    using keys one free by (intro distinct_map_upd_one [where v = new]) auto
  then have wf: "wf_accounts db'"
    using assms(1) by (auto simp: wf_accounts_def db' table_simps comp_def intro!: wf_table_upd)
  have rows': "rows (t_account db') = map (\<lambda>x. if ?P x then ?f x else x) (rows (t_account db))"
    by (simp add: db' table_simps)
  have r': "?f r \<in> set (rows (t_account db'))" using r by (force simp: rows')
  have s': "s \<in> set (rows (t_account db'))" if "s \<in> set (rows (t_account db))" "s \<noteq> r" for s
    using that one by (force simp: rows')
  have "ac_apikey x \<noteq> ac_apikey r" if "x \<in> set (rows (t_account db'))" for x
    using that new one distinct_map_unique [OF keys _ r] by (auto simp: rows' split: if_splits)
  then have "lookup_account_id_by_apikey db' (ac_apikey r) = None"
    by (simp add: lookup_account_id_by_apikey_def scalar_None_iff)
  with account_of_apikey [OF wf r'] account_of_apikey [OF wf s'] wf show ?thesis by auto
qed

definition sample_account :: "int \<Rightarrow> string \<Rightarrow> account_row" where
  "sample_account i k = \<lparr>ac_id = i, ac_name = ''n'', ac_apikey = k, ac_mbuser = None, ac_anonymous = False,
     ac_created = 0, ac_lastlogin = None, ac_submission_count = 0, ac_application_id = None,
     ac_application_version = None, ac_created_from = None, ac_is_admin = False\<rparr>"

definition two_accounts :: app_db where
  "two_accounts = empty_app_db\<lparr>t_account := \<lparr>rows = [sample_account 1 ''aa'', sample_account 2 ''bb''], serial = 3\<rparr>\<rparr>"

theorem reset_apikey_revokes_witness:
  "\<exists>db'. reset_account_apikey ''cc'' two_accounts 1 = Inr db' \<and> lookup_account_id_by_apikey db' ''aa'' = None
     \<and> lookup_account_id_by_apikey db' ''cc'' = Some 1"
proof -
  have wf: "wf_accounts two_accounts"
    by (simp add: wf_accounts_def two_accounts_def sample_account_def empty_app_db_def wf_table_def empty_table_def)
  have r: "sample_account 1 ''aa'' \<in> set (rows (t_account two_accounts))" by (simp add: two_accounts_def)
  obtain db' where d: "reset_account_apikey ''cc'' two_accounts (ac_id (sample_account 1 ''aa'')) = Inr db'"
    by (simp add: reset_account_apikey_def two_accounts_def sample_account_def)
  have n: "''cc'' \<noteq> ac_apikey (sample_account 1 ''aa'')" by (simp add: sample_account_def)
  from reset_apikey_revokes [OF wf r n d] d show ?thesis by (auto simp: sample_account_def)
qed

end
