(* ===== verification/Links.thy ===== *)
theory Links
  imports Tables "HOL-Library.Char_ord" "HOL-Library.List_Lexorder"
begin

text \<open>
  The writers of the \<open>track_*\<close> link tables in \<^verbatim>\<open>data/track.py\<close>: \<open>_insert_gid\<close> and its four callers,
  \<open>disable_mbid\<close>, \<open>merge_mbids\<close>, \<open>_merge_tracks_gids\<close> and \<open>merge_tracks\<close>. What they promise is stated over
  the abstraction \<open>votes\<close>, the number of submissions that support a (track, value) pair: an insertion
  adds one vote, a merge moves votes and never loses one.
\<close>

subsection \<open>Adding a link\<close>

definition add_link_source :: "int \<Rightarrow> int \<Rightarrow> int option \<Rightarrow> int option \<Rightarrow> link_source_row table \<Rightarrow> link_source_row table" where
  "add_link_source now link_id submission_id source_id t =
     snd (ins (\<lambda>i. \<lparr>ls_id = i, ls_link_id = link_id, ls_submission_id = submission_id, ls_source_id = source_id,
                    ls_created = now, ls_updated = None\<rparr>) t)"

text \<open>
  \<open>_insert_gid\<close> on one link table and its source table. \<open>mk\<close> is the row that the \<open>INSERT\<close> and the
  column defaults produce, given its id.
\<close>

definition insert_gid ::
    "(int \<Rightarrow> ('g, 'z) link_row_scheme) \<Rightarrow> int \<Rightarrow> int \<Rightarrow> 'g \<Rightarrow> int option \<Rightarrow> int option
     \<Rightarrow> ('g, 'z) link_row_scheme table \<times> link_source_row table
     \<Rightarrow> ('g, 'z) link_row_scheme table \<times> link_source_row table" where
  "insert_gid mk now track_id gid submission_id source_id ts =
     (let (tab, tab_src) = ts;
          cond = (\<lambda>r. lk_track_id r = track_id \<and> lk_value r = gid);
          (link_id, tab) =
            (case scalar cond lk_id tab of
               Some i \<Rightarrow> (i, upd cond (\<lambda>r. r\<lparr>lk_submission_count := lk_submission_count r + 1\<rparr>) tab)
             | None \<Rightarrow> ins mk tab)
      in (tab, add_link_source now link_id submission_id source_id tab_src))"

definition new_link :: "int \<Rightarrow> int \<Rightarrow> 'g \<Rightarrow> int \<Rightarrow> int \<Rightarrow> 'g link_row" where
  "new_link now track_id gid n i =
     \<lparr>lk_id = i, lk_track_id = track_id, lk_value = gid, lk_created = now, lk_updated = None, lk_submission_count = n\<rparr>"

definition new_mbid_link :: "int \<Rightarrow> int \<Rightarrow> string \<Rightarrow> int \<Rightarrow> int \<Rightarrow> track_mbid_row" where
  "new_mbid_link now track_id gid n i =
     \<lparr>lk_id = i, lk_track_id = track_id, lk_value = gid, lk_created = now, lk_updated = None, lk_submission_count = n,
      tm_disabled = False, tm_merged_into = None\<rparr>"

definition insert_mbid ::
    "fingerprint_db \<Rightarrow> ingest_db \<Rightarrow> int \<Rightarrow> string \<Rightarrow> int option \<Rightarrow> int option \<Rightarrow> fingerprint_db \<times> ingest_db" where
  "insert_mbid fdb idb track_id mbid submission_id source_id =
     (let (t, s) = insert_gid (new_mbid_link (f_now fdb) track_id mbid 1) (i_now idb) track_id mbid submission_id
                     source_id (t_track_mbid fdb, t_track_mbid_source idb)
      in (fdb\<lparr>t_track_mbid := t\<rparr>, idb\<lparr>t_track_mbid_source := s\<rparr>))"

definition insert_puid ::
    "fingerprint_db \<Rightarrow> ingest_db \<Rightarrow> int \<Rightarrow> string \<Rightarrow> int option \<Rightarrow> int option \<Rightarrow> fingerprint_db \<times> ingest_db" where
  "insert_puid fdb idb track_id puid submission_id source_id =
     (let (t, s) = insert_gid (new_link (f_now fdb) track_id puid 1) (i_now idb) track_id puid submission_id
                     source_id (t_track_puid fdb, t_track_puid_source idb)
      in (fdb\<lparr>t_track_puid := t\<rparr>, idb\<lparr>t_track_puid_source := s\<rparr>))"

definition insert_track_foreignid ::
    "fingerprint_db \<Rightarrow> ingest_db \<Rightarrow> int \<Rightarrow> int \<Rightarrow> int option \<Rightarrow> int option \<Rightarrow> fingerprint_db \<times> ingest_db" where
  "insert_track_foreignid fdb idb track_id foreignid_id submission_id source_id =
     (let (t, s) = insert_gid (new_link (f_now fdb) track_id foreignid_id 1) (i_now idb) track_id foreignid_id
                     submission_id source_id (t_track_foreignid fdb, t_track_foreignid_source idb)
      in (fdb\<lparr>t_track_foreignid := t\<rparr>, idb\<lparr>t_track_foreignid_source := s\<rparr>))"

definition insert_track_meta ::
    "fingerprint_db \<Rightarrow> ingest_db \<Rightarrow> int \<Rightarrow> int \<Rightarrow> int option \<Rightarrow> int option \<Rightarrow> fingerprint_db \<times> ingest_db" where
  "insert_track_meta fdb idb track_id meta_id submission_id source_id =
     (let (t, s) = insert_gid (new_link (f_now fdb) track_id meta_id 1) (i_now idb) track_id meta_id
                     submission_id source_id (t_track_meta fdb, t_track_meta_source idb)
      in (fdb\<lparr>t_track_meta := t\<rparr>, idb\<lparr>t_track_meta_source := s\<rparr>))"

subsection \<open>Disabling and merging MBIDs\<close>

definition disable_mbid :: "fingerprint_db \<Rightarrow> ingest_db \<Rightarrow> string \<Rightarrow> int \<Rightarrow> string \<Rightarrow> fingerprint_db \<times> ingest_db" where
  "disable_mbid fdb idb mbid account_id note =
     (let result = map lk_id (sel (\<lambda>r. lk_value r = mbid) (t_track_mbid fdb));
          fdb = fdb\<lparr>t_track_mbid := upd (\<lambda>r. lk_value r = mbid)
                      (\<lambda>r. r\<lparr>tm_disabled := True, lk_updated := Some (f_now fdb)\<rparr>) (t_track_mbid fdb)\<rparr>;
          changes = fold (\<lambda>link_id t. snd (ins (\<lambda>i. \<lparr>tc_id = i, tc_track_mbid_id = link_id, tc_account_id = account_id,
                                                tc_created = i_now idb, tc_disabled = True, tc_note = Some note,
                                                tc_updated = Some (i_now idb)\<rparr>) t))
                      result (t_track_mbid_change idb)
      in (fdb, idb\<lparr>t_track_mbid_change := changes\<rparr>))"

text \<open>The rows of both MBIDs grouped by track, first the target's: \<open>track_mbids_by_track_id\<close>.\<close>

definition track_mbids_by_track_id ::
    "string \<Rightarrow> string \<Rightarrow> track_mbid_row table \<Rightarrow> (int, (string, track_mbid_row) dict) dict" where
  "track_mbids_by_track_id source_mbid target_mbid t =
     fold (\<lambda>r d. dict_set d (lk_track_id r)
                   (dict_set (case dict_get d (lk_track_id r) of None \<Rightarrow> [] | Some m \<Rightarrow> m) (lk_value r) r))
       (sel (\<lambda>r. lk_value r = target_mbid) t @ sel (\<lambda>r. lk_value r = source_mbid) t) []"

definition repoint :: "int list \<Rightarrow> int \<Rightarrow> int option \<Rightarrow> link_source_row table \<Rightarrow> link_source_row table" where
  "repoint old_ids new_id updated =
     upd (\<lambda>s. ls_link_id s \<in> set old_ids)
       (\<lambda>s. s\<lparr>ls_link_id := new_id, ls_updated := (if updated = None then ls_updated s else updated)\<rparr>)"

definition repoint_change ::
    "int list \<Rightarrow> int \<Rightarrow> int option \<Rightarrow> track_mbid_change_row table \<Rightarrow> track_mbid_change_row table" where
  "repoint_change old_ids new_id updated =
     upd (\<lambda>s. tc_track_mbid_id s \<in> set old_ids)
       (\<lambda>s. s\<lparr>tc_track_mbid_id := new_id, tc_updated := (if updated = None then tc_updated s else updated)\<rparr>)"

text \<open>One iteration of the loop over the tracks; \<open>source\<close> and \<open>target\<close> are the rows read before the loop.\<close>

definition merge_mbid_rows ::
    "string \<Rightarrow> int \<Rightarrow> track_mbid_row \<Rightarrow> track_mbid_row option \<Rightarrow> fingerprint_db \<times> ingest_db
     \<Rightarrow> py_exc + fingerprint_db \<times> ingest_db" where
  "merge_mbid_rows target_mbid track_id source target dbs =
     (let (fdb, idb) = dbs;
          (target_id, tab) =
            (case target of
               None \<Rightarrow> ins (new_mbid_link (f_now fdb) track_id target_mbid 0) (t_track_mbid fdb)
             | Some r \<Rightarrow> (lk_id r, t_track_mbid fdb))
      in if tm_merged_into source \<noteq> None \<and> tm_merged_into source \<noteq> Some target_id then Inl ValueError
         else
           (let tab = upd (\<lambda>r. lk_id r = lk_id source)
                        (\<lambda>r. r\<lparr>tm_merged_into := Some target_id, lk_submission_count := 0, tm_disabled := True,
                               lk_updated := Some (f_now fdb)\<rparr>) tab;
                tab = upd (\<lambda>r. lk_id r = target_id)
                        (\<lambda>r. r\<lparr>lk_submission_count := lk_submission_count r + lk_submission_count source,
                               tm_disabled := (tm_disabled r \<and> tm_disabled source),
                               lk_updated := Some (f_now fdb)\<rparr>) tab
            in Inr (fdb\<lparr>t_track_mbid := tab\<rparr>,
                    idb\<lparr>t_track_mbid_source := repoint [lk_id source] target_id (Some (i_now idb)) (t_track_mbid_source idb),
                        t_track_mbid_change := repoint_change [lk_id source] target_id (Some (i_now idb)) (t_track_mbid_change idb)\<rparr>)))"

fun merge_mbids_loop ::
    "string \<Rightarrow> string \<Rightarrow> (int, (string, track_mbid_row) dict) dict \<Rightarrow> fingerprint_db \<times> ingest_db
     \<Rightarrow> py_exc + fingerprint_db \<times> ingest_db" where
  "merge_mbids_loop source_mbid target_mbid [] dbs = Inr dbs"
| "merge_mbids_loop source_mbid target_mbid ((track_id, track_mbids) # rest) dbs =
     (case dict_get track_mbids source_mbid of
        None \<Rightarrow> merge_mbids_loop source_mbid target_mbid rest dbs
      | Some source \<Rightarrow>
          (case merge_mbid_rows target_mbid track_id source (dict_get track_mbids target_mbid) dbs of
             Inl e \<Rightarrow> Inl e
           | Inr dbs \<Rightarrow> merge_mbids_loop source_mbid target_mbid rest dbs))"

definition merge_mbids ::
    "fingerprint_db \<Rightarrow> ingest_db \<Rightarrow> string \<Rightarrow> string \<Rightarrow> py_exc + fingerprint_db \<times> ingest_db" where
  "merge_mbids fdb idb source_mbid target_mbid =
     merge_mbids_loop source_mbid target_mbid
       (track_mbids_by_track_id source_mbid target_mbid (t_track_mbid fdb)) (fdb, idb)"

text \<open>\<open>gid_of\<close> and \<open>redirect\<close> are the two MusicBrainz queries: the merged recording's new MBID, and the MBID itself.\<close>

definition merge_missing_mbid ::
    "(string \<Rightarrow> string option) \<Rightarrow> (string \<Rightarrow> string option) \<Rightarrow> fingerprint_db \<Rightarrow> ingest_db \<Rightarrow> string
     \<Rightarrow> py_exc + bool \<times> fingerprint_db \<times> ingest_db" where
  "merge_missing_mbid redirect gid_of fdb idb old_mbid =
     (case redirect old_mbid of
        Some new_mbid \<Rightarrow>
          (case merge_mbids fdb idb old_mbid new_mbid of
             Inl e \<Rightarrow> Inl e
           | Inr dbs \<Rightarrow> Inr (True, dbs))
      | None \<Rightarrow> if truthy_str (gid_of old_mbid) then Inr (True, fdb, idb) else Inr (False, fdb, idb))"

subsection \<open>Merging tracks\<close>

text \<open>
  \<open>_merge_tracks_gids\<close>: the rows of all the tracks are grouped by value, the smallest id of a group
  survives with the sum of the counts and the others are deleted. \<open>set_disabled\<close> is what only
  \<open>track_mbid\<close> adds (\<open>every(disabled)\<close>). The first result lists the ids that evidence has to be
  moved from, with the id it moves to.
\<close>

definition merge_groups ::
    "int list \<Rightarrow> ('g, 'z) link_row_scheme table \<Rightarrow> ('g, ('g, 'z) link_row_scheme list) dict" where
  "merge_groups track_ids tab =
     dict_group (map (\<lambda>r. (lk_value r, r)) (sel (\<lambda>r. lk_track_id r \<in> set track_ids) tab))"

definition group_id :: "('g, 'z) link_row_scheme list \<Rightarrow> int" where
  "group_id rs = min_list (map lk_id rs)"

definition group_old_ids :: "('g, 'z) link_row_scheme list \<Rightarrow> int list" where
  "group_old_ids rs = removeAll (group_id rs) (map lk_id rs)"

definition merge_tracks_gids ::
    "(('g, 'z) link_row_scheme list \<Rightarrow> ('g, 'z) link_row_scheme \<Rightarrow> ('g, 'z) link_row_scheme) \<Rightarrow> int \<Rightarrow> int \<Rightarrow> int list
     \<Rightarrow> ('g, 'z) link_row_scheme table \<Rightarrow> (int list \<times> int) list \<times> ('g, 'z) link_row_scheme table" where
  "merge_tracks_gids set_disabled now target_id source_ids tab =
     (let groups = map snd (merge_groups (source_ids @ [target_id]) tab);
          to_delete = concat (map group_old_ids groups);
          tab = (if to_delete = [] then tab else del (\<lambda>r. lk_id r \<in> set to_delete) tab);
          tab = fold (\<lambda>rs. upd (\<lambda>r. lk_id r = group_id rs)
                             (\<lambda>r. set_disabled rs (r\<lparr>lk_submission_count := sum_list (map lk_submission_count rs),
                                                      lk_track_id := target_id, lk_updated := Some now\<rparr>)))
                  groups tab
      in (map (\<lambda>rs. (group_old_ids rs, group_id rs)) groups, tab))"

definition repoint_groups :: "(int list \<times> int) list \<Rightarrow> link_source_row table \<Rightarrow> link_source_row table" where
  "repoint_groups moves = fold (\<lambda>(old_ids, i) t. if old_ids = [] then t else repoint old_ids i None t) moves"

definition repoint_change_groups ::
    "(int list \<times> int) list \<Rightarrow> track_mbid_change_row table \<Rightarrow> track_mbid_change_row table" where
  "repoint_change_groups moves =
     fold (\<lambda>(old_ids, i) t. if old_ids = [] then t else repoint_change old_ids i None t) moves"

definition every_disabled :: "track_mbid_row list \<Rightarrow> track_mbid_row \<Rightarrow> track_mbid_row" where
  "every_disabled rs r = r\<lparr>tm_disabled := list_all tm_disabled rs\<rparr>"

definition merge_tracks :: "fingerprint_db \<Rightarrow> ingest_db \<Rightarrow> int \<Rightarrow> int list \<Rightarrow> fingerprint_db \<times> ingest_db" where
  "merge_tracks fdb idb target_id source_ids =
     (let now = f_now fdb;
          (mbid_moves, mbids) = merge_tracks_gids every_disabled now target_id source_ids (t_track_mbid fdb);
          (puid_moves, puids) = merge_tracks_gids (\<lambda>_ r. r) now target_id source_ids (t_track_puid fdb);
          (meta_moves, metas) = merge_tracks_gids (\<lambda>_ r. r) now target_id source_ids (t_track_meta fdb);
          (foreign_moves, foreigns) = merge_tracks_gids (\<lambda>_ r. r) now target_id source_ids (t_track_foreignid fdb);
          fingerprints = upd (\<lambda>r. fp_track_id r \<in> set source_ids)
                           (\<lambda>r. r\<lparr>fp_track_id := target_id, fp_updated := Some now\<rparr>) (t_fingerprint fdb);
          tracks = upd (\<lambda>r. tr_id r \<in> set source_ids \<or> (\<exists>n \<in> set source_ids. tr_new_id r = Some n))
                     (\<lambda>r. r\<lparr>tr_new_id := Some target_id, tr_updated := Some now\<rparr>) (t_track fdb)
      in (fdb\<lparr>t_track_mbid := mbids, t_track_puid := puids, t_track_meta := metas, t_track_foreignid := foreigns,
              t_fingerprint := fingerprints, t_track := tracks\<rparr>,
          idb\<lparr>t_track_mbid_source := repoint_groups mbid_moves (t_track_mbid_source idb),
              t_track_mbid_change := repoint_change_groups mbid_moves (t_track_mbid_change idb),
              t_track_puid_source := repoint_groups puid_moves (t_track_puid_source idb),
              t_track_meta_source := repoint_groups meta_moves (t_track_meta_source idb),
              t_track_foreignid_source := repoint_groups foreign_moves (t_track_foreignid_source idb)\<rparr>))"

subsection \<open>Votes\<close>

text \<open>The abstraction: how many submissions support each (track, value) pair.\<close>

definition votes :: "('g, 'z) link_row_scheme table \<Rightarrow> int \<times> 'g \<Rightarrow> int" where
  "votes t k = sum_list (map lk_submission_count (sel (\<lambda>r. link_key r = k) t))"

lemma votes_row:
  assumes "wf_links t" and "r \<in> set (rows t)"
  shows "votes t (link_key r) = lk_submission_count r"
  using filter_unique [of link_key "rows t" r] assms by (simp add: votes_def sel_def wf_links_def)

lemma votes_none: "\<forall>r \<in> set (rows t). link_key r \<noteq> k \<Longrightarrow> votes t k = 0"
  by (auto simp: votes_def sel_def filter_empty_conv)

lemma votes_ins:
  "votes (snd (ins mk t)) k =
     votes t k + (if link_key (mk (serial t)) = k then lk_submission_count (mk (serial t)) else 0)"
  by (simp add: votes_def sel_def table_simps)

text \<open>A statement that rewrites one row, leaving its key alone, changes the votes of that key only.\<close>

lemma votes_upd_one:
  assumes wf: "wf_links t" and r: "r \<in> set (rows t)"
    and key: "\<And>x. link_key (f x) = link_key x" and P: "\<And>x. x \<in> set (rows t) \<Longrightarrow> P x \<longleftrightarrow> x = r"
  shows "votes (upd P f t) = (votes t)(link_key r := lk_submission_count (f r))"
proof
  fix k
  have u: "x = r" if "x \<in> set (rows t)" "link_key x = link_key r" for x
    using wf r that distinct_map_unique [of link_key] by (metis wf_links_def)
  have "map lk_submission_count (filter (\<lambda>x. link_key x = k) (map (\<lambda>x. if P x then f x else x) xs)) =
        map (\<lambda>x. if x = r then lk_submission_count (f r) else lk_submission_count x) (filter (\<lambda>x. link_key x = k) xs)"
    if "set xs \<subseteq> set (rows t)" for xs
    using that by (induction xs) (auto simp: key P)
  from this [of "rows t"]
  have e: "votes (upd P f t) k =
     sum_list (map (\<lambda>x. if x = r then lk_submission_count (f r) else lk_submission_count x)
                   (filter (\<lambda>x. link_key x = k) (rows t)))"
    by (simp add: votes_def sel_def table_simps)
  show "votes (upd P f t) k = ((votes t)(link_key r := lk_submission_count (f r))) k"
  proof (cases "k = link_key r")
    case True
    with e filter_unique [of link_key "rows t" r] wf r show ?thesis by (simp add: wf_links_def)
  next
    case False
    then have "map (\<lambda>x. if x = r then lk_submission_count (f r) else lk_submission_count x)
                   (filter (\<lambda>x. link_key x = k) (rows t)) =
               map lk_submission_count (filter (\<lambda>x. link_key x = k) (rows t))"
      by (auto intro!: map_cong)
    with e False show ?thesis by (simp add: votes_def sel_def)
  qed
qed

lemma rows_upd_one:
  assumes "r \<in> set (rows t)" and "\<And>x. x \<in> set (rows t) \<Longrightarrow> P x \<longleftrightarrow> x = r"
  shows "set (rows (upd P f t)) = insert (f r) (set (rows t) - {r})"
proof -
  have "(\<lambda>x. if P x then f x else x) ` set (rows t) = (\<lambda>x. if x = r then f x else x) ` set (rows t)"
    using assms(2) by (intro image_cong) simp_all
  also have "\<dots> = insert (f r) (set (rows t) - {r})" using assms(1) by force
  finally show ?thesis by (simp add: table_simps)
qed

lemma link_ids_unique:
  "wf_links t \<Longrightarrow> r \<in> set (rows t) \<Longrightarrow> x \<in> set (rows t) \<Longrightarrow> lk_id x = lk_id r \<longleftrightarrow> x = r"
  using distinct_map_unique [of lk_id "rows t" x r] by (auto simp: wf_links_def wf_table_def)

lemma link_keys_unique:
  "wf_links t \<Longrightarrow> r \<in> set (rows t) \<Longrightarrow> x \<in> set (rows t) \<Longrightarrow> link_key x = link_key r \<longleftrightarrow> x = r"
  using distinct_map_unique [of link_key "rows t" x r] by (auto simp: wf_links_def)

lemma cond_is_key: "(lk_track_id r = t \<and> lk_value r = g) \<longleftrightarrow> link_key r = (t, g)"
  by (simp add: link_key_def)

subsection \<open>An insertion adds one vote and one piece of evidence\<close>

lemma insert_gid_votes:
  assumes wf: "wf_links tab"
    and mk: "\<And>i. lk_id (mk i) = i" "\<And>i. link_key (mk i) = (track_id, gid)" "\<And>i. lk_submission_count (mk i) = 1"
    and res: "insert_gid mk now track_id gid submission_id source_id (tab, tab_src) = (tab', tab_src')"
  shows "wf_links tab'" and "votes tab' = (votes tab)((track_id, gid) := votes tab (track_id, gid) + 1)"
    and "\<exists>r \<in> set (rows tab'). link_key r = (track_id, gid) \<and>
           rows tab_src' = rows tab_src @ [\<lparr>ls_id = serial tab_src, ls_link_id = lk_id r, ls_submission_id = submission_id,
             ls_source_id = source_id, ls_created = now, ls_updated = None\<rparr>]"
proof -
  let ?f = "\<lambda>r. r\<lparr>lk_submission_count := lk_submission_count r + 1\<rparr>"
  let ?new = "\<lambda>i. \<lparr>ls_id = serial tab_src, ls_link_id = i, ls_submission_id = submission_id,
             ls_source_id = source_id, ls_created = now, ls_updated = None\<rparr>"
  have "wf_links tab' \<and> votes tab' = (votes tab)((track_id, gid) := votes tab (track_id, gid) + 1)
     \<and> (\<exists>r \<in> set (rows tab'). link_key r = (track_id, gid) \<and> rows tab_src' = rows tab_src @ [?new (lk_id r)])"
  proof (cases "scalar (\<lambda>r. link_key r = (track_id, gid)) lk_id tab")
    case None
    then have tab': "tab' = snd (ins mk tab)" and src: "rows tab_src' = rows tab_src @ [?new (serial tab)]"
      using res by (auto simp: insert_gid_def cond_is_key add_link_source_def ins_def Let_def)
    have none: "\<forall>r \<in> set (rows tab). link_key r \<noteq> (track_id, gid)"
      using None by (simp add: scalar_None_iff)
    have "wf_links tab'"
      unfolding tab' using wf none by (intro wf_links_ins) (auto simp: mk)
    moreover have "votes tab' = (votes tab)((track_id, gid) := votes tab (track_id, gid) + 1)"
      by (rule ext) (simp add: tab' votes_ins mk)
    moreover have "mk (serial tab) \<in> set (rows tab')" by (simp add: tab' table_simps)
    ultimately show ?thesis using src mk by metis
  next
    case (Some i)
    then obtain r where r: "r \<in> set (rows tab)" "link_key r = (track_id, gid)" "lk_id r = i"
      by (auto dest!: scalar_SomeD)
    have tab': "tab' = upd (\<lambda>r. link_key r = (track_id, gid)) ?f tab" and src: "rows tab_src' = rows tab_src @ [?new i]"
      using res Some by (auto simp: insert_gid_def cond_is_key add_link_source_def ins_def Let_def)
    have key: "link_key (?f x) = link_key x" for x :: "('a, 'b) link_row_scheme" by (simp add: link_key_def)
    have "wf_links tab'"
      unfolding tab' using wf by (intro wf_links_same_keys) (auto simp: key)
    moreover have "votes tab' = (votes tab)((track_id, gid) := votes tab (track_id, gid) + 1)"
      using votes_upd_one [OF wf r(1) key, of "\<lambda>r. link_key r = (track_id, gid)"] link_keys_unique [OF wf r(1)]
        votes_row [OF wf r(1)] r(2) by (simp add: tab')
    moreover have "?f r \<in> set (rows tab')" using r by (force simp: tab' table_simps)
    moreover have "link_key (?f r) = (track_id, gid)" "lk_id (?f r) = i" using r key by simp_all
    ultimately show ?thesis using src by metis
  qed
  then show "wf_links tab'" and "votes tab' = (votes tab)((track_id, gid) := votes tab (track_id, gid) + 1)"
    and "\<exists>r \<in> set (rows tab'). link_key r = (track_id, gid) \<and> rows tab_src' = rows tab_src @ [?new (lk_id r)]"
    by blast+
qed

text \<open>C3: Accepting a submission for a (track, MBID) pair adds exactly one vote to that pair, changes the
  votes of no other pair, keeps the table's unique keys, and records one piece of evidence that points
  to the link; the other link tables and the change log of the links are untouched.\<close>

theorem insert_mbid_adds_one_vote:
  assumes "wf_links (t_track_mbid fdb)"
    and "insert_mbid fdb idb track_id mbid submission_id source_id = (fdb', idb')"
  shows "wf_links (t_track_mbid fdb')
     \<and> votes (t_track_mbid fdb') =
           (votes (t_track_mbid fdb))((track_id, mbid) := votes (t_track_mbid fdb) (track_id, mbid) + 1)
     \<and> (\<exists>r \<in> set (rows (t_track_mbid fdb')). link_key r = (track_id, mbid) \<and>
           (\<exists>e. rows (t_track_mbid_source idb') = rows (t_track_mbid_source idb) @ [e] \<and> ls_link_id e = lk_id r
              \<and> ls_submission_id e = submission_id \<and> ls_source_id e = source_id))
     \<and> t_track_puid fdb' = t_track_puid fdb \<and> t_track_meta fdb' = t_track_meta fdb
           \<and> t_track_foreignid fdb' = t_track_foreignid fdb \<and> t_track_mbid_change idb' = t_track_mbid_change idb"
proof (intro conjI)
  obtain t s where ts: "insert_gid (new_mbid_link (f_now fdb) track_id mbid 1) (i_now idb) track_id mbid submission_id
                     source_id (t_track_mbid fdb, t_track_mbid_source idb) = (t, s)" by fastforce
  then have dbs: "fdb' = fdb\<lparr>t_track_mbid := t\<rparr>" "idb' = idb\<lparr>t_track_mbid_source := s\<rparr>"
    using assms(2) by (simp_all add: insert_mbid_def)
  note v = insert_gid_votes [OF assms(1) _ _ _ ts]
  have mk: "lk_id (new_mbid_link n track_id mbid c i) = i" "link_key (new_mbid_link n track_id mbid c i) = (track_id, mbid)"
    "lk_submission_count (new_mbid_link n track_id mbid c i) = c" for n c i
    by (simp_all add: new_mbid_link_def link_key_def)
  show "wf_links (t_track_mbid fdb')" using v(1) by (simp add: mk dbs)
  show "votes (t_track_mbid fdb') =
           (votes (t_track_mbid fdb))((track_id, mbid) := votes (t_track_mbid fdb) (track_id, mbid) + 1)"
    using v(2) by (simp add: mk dbs)
  obtain r where r: "r \<in> set (rows t)" "link_key r = (track_id, mbid)"
    "rows s = rows (t_track_mbid_source idb) @ [\<lparr>ls_id = serial (t_track_mbid_source idb), ls_link_id = lk_id r,
      ls_submission_id = submission_id, ls_source_id = source_id, ls_created = i_now idb, ls_updated = None\<rparr>]"
    using v(3) by (auto simp: mk)
  show "\<exists>r \<in> set (rows (t_track_mbid fdb')). link_key r = (track_id, mbid) \<and>
           (\<exists>e. rows (t_track_mbid_source idb') = rows (t_track_mbid_source idb) @ [e] \<and> ls_link_id e = lk_id r
              \<and> ls_submission_id e = submission_id \<and> ls_source_id e = source_id)"
    using r by (intro bexI [of _ r]) (simp_all add: dbs)
  show "t_track_puid fdb' = t_track_puid fdb" "t_track_meta fdb' = t_track_meta fdb"
    "t_track_foreignid fdb' = t_track_foreignid fdb" "t_track_mbid_change idb' = t_track_mbid_change idb"
    by (simp_all add: dbs)
qed

theorem insert_mbid_adds_one_vote_witness:
  "votes (t_track_mbid (fst (insert_mbid empty_fingerprint_db empty_ingest_db 7 ''m'' (Some 1) (Some 2)))) (7, ''m'') = 1"
proof -
  obtain fdb' idb' where i: "insert_mbid empty_fingerprint_db empty_ingest_db 7 ''m'' (Some 1) (Some 2) = (fdb', idb')"
    by fastforce
  have "wf_links (t_track_mbid empty_fingerprint_db)" by (simp add: empty_fingerprint_db_def)
  from insert_mbid_adds_one_vote [OF this i]
  have "votes (t_track_mbid fdb') (7, ''m'') = votes (t_track_mbid empty_fingerprint_db) (7, ''m'') + 1" by simp
  moreover have "votes (t_track_mbid empty_fingerprint_db) (7, ''m'') = 0"
    by (rule votes_none) (simp add: empty_fingerprint_db_def empty_table_def)
  ultimately show ?thesis by (simp add: i)
qed

subsection \<open>Merging MBIDs moves votes\<close>

lemma new_mbid_link_simps [simp]:
  "lk_id (new_mbid_link n track_id mbid c i) = i" "link_key (new_mbid_link n track_id mbid c i) = (track_id, mbid)"
  "lk_submission_count (new_mbid_link n track_id mbid c i) = c" "tm_disabled (new_mbid_link n track_id mbid c i) = False"
  "tm_merged_into (new_mbid_link n track_id mbid c i) = None" "lk_track_id (new_mbid_link n track_id mbid c i) = track_id"
  "lk_value (new_mbid_link n track_id mbid c i) = mbid"
  by (simp_all add: new_mbid_link_def link_key_def)

abbreviation clear_source :: "int \<Rightarrow> int \<Rightarrow> track_mbid_row \<Rightarrow> track_mbid_row" where
  "clear_source target_id now r \<equiv>
     r\<lparr>tm_merged_into := Some target_id, lk_submission_count := 0, tm_disabled := True, lk_updated := Some now\<rparr>"

abbreviation feed_target :: "track_mbid_row \<Rightarrow> int \<Rightarrow> track_mbid_row \<Rightarrow> track_mbid_row" where
  "feed_target source now r \<equiv>
     r\<lparr>lk_submission_count := lk_submission_count r + lk_submission_count source,
       tm_disabled := (tm_disabled r \<and> tm_disabled source), lk_updated := Some now\<rparr>"

text \<open>The target row as the loop finds or creates it, in the table it leaves.\<close>

lemma target_row_ready:
  assumes wf: "wf_links t" and src: "s \<in> set (rows t)"
    and tgt: "case target of None \<Rightarrow> \<forall>r \<in> set (rows t). link_key r \<noteq> (tid, m)
              | Some r \<Rightarrow> r \<in> set (rows t) \<and> link_key r = (tid, m)"
    and res: "(case target of None \<Rightarrow> ins (new_mbid_link now tid m 0) t | Some r \<Rightarrow> (lk_id r, t)) = (i, t1)"
  obtains r where "wf_links t1" "r \<in> set (rows t1)" "lk_id r = i" "link_key r = (tid, m)" "s \<in> set (rows t1)"
    "votes t1 = votes t" "set (rows t1) = insert r (set (rows t))"
    "target = None \<longrightarrow> \<not> tm_disabled r"
proof (cases target)
  case None
  then have t1: "t1 = snd (ins (new_mbid_link now tid m 0) t)" and i: "i = serial t"
    using res by (auto simp: ins_def)
  have "wf_links t1" using wf tgt None unfolding t1 by (intro wf_links_ins) auto
  moreover have "votes t1 = votes t" by (rule ext) (simp add: t1 votes_ins)
  ultimately show ?thesis
    using src by (intro that [of "new_mbid_link now tid m 0 i"]) (simp_all add: t1 i table_simps)
next
  case (Some r)
  then have "t1 = t" "i = lk_id r" "r \<in> set (rows t)" "link_key r = (tid, m)" using tgt res by simp_all
  then show ?thesis using wf src Some by (intro that [of r]) (simp_all add: insert_absorb)
qed

lemma merge_mbid_rows_votes:
  assumes wf: "wf_links (t_track_mbid fdb)" and src: "s \<in> set (rows (t_track_mbid fdb))" "link_key s = (tid, ms)"
    and ne: "ms \<noteq> m"
    and tgt: "case target of None \<Rightarrow> \<forall>r \<in> set (rows (t_track_mbid fdb)). link_key r \<noteq> (tid, m)
              | Some r \<Rightarrow> r \<in> set (rows (t_track_mbid fdb)) \<and> link_key r = (tid, m)"
    and res: "merge_mbid_rows m tid s target (fdb, idb) = Inr (fdb', idb')"
  obtains r i where "wf_links (t_track_mbid fdb')"
    and "votes (t_track_mbid fdb') = (votes (t_track_mbid fdb))
       ((tid, ms) := 0, (tid, m) := votes (t_track_mbid fdb) (tid, m) + votes (t_track_mbid fdb) (tid, ms))"
    and "{x \<in> set (rows (t_track_mbid fdb')). lk_track_id x \<noteq> tid} = {x \<in> set (rows (t_track_mbid fdb)). lk_track_id x \<noteq> tid}"
    and "r \<in> set (rows (t_track_mbid fdb'))" "link_key r = (tid, m)" "lk_id r = i"
    and "target = None \<Longrightarrow> \<not> tm_disabled r"
    and "\<And>x. x \<in> set (rows (t_track_mbid fdb')) \<Longrightarrow> link_key x = (tid, ms) \<Longrightarrow>
           tm_disabled x \<and> tm_merged_into x = Some i"
proof -
  let ?t = "t_track_mbid fdb" and ?now = "f_now fdb"
  obtain i t1 where it: "(case target of None \<Rightarrow> ins (new_mbid_link ?now tid m 0) ?t | Some r \<Rightarrow> (lk_id r, ?t)) = (i, t1)"
    by fastforce
  obtain r where r: "wf_links t1" "r \<in> set (rows t1)" "lk_id r = i" "link_key r = (tid, m)" "s \<in> set (rows t1)"
    "votes t1 = votes ?t" "set (rows t1) = insert r (set (rows ?t))" "target = None \<longrightarrow> \<not> tm_disabled r"
    using target_row_ready [OF wf src(1) tgt it] by blast
  define t2 where "t2 = upd (\<lambda>r. lk_id r = lk_id s) (clear_source i ?now) t1"
  define t3 where "t3 = upd (\<lambda>r. lk_id r = i) (feed_target s ?now) t2"
  have t': "t_track_mbid fdb' = t3"
    using res it by (auto simp: merge_mbid_rows_def Let_def t3_def t2_def split: if_splits)
  have sr: "s \<noteq> r" using src(2) r(4) ne by auto
  have k1: "link_key (clear_source j n x) = link_key x" for j n x by (simp add: link_key_def)
  have k2: "link_key (feed_target j n x) = link_key x" for j n x by (simp add: link_key_def)
  have wf2: "wf_links t2" unfolding t2_def using r(1) by (intro wf_links_same_keys) (auto simp: k1)
  have wf3: "wf_links t3" unfolding t3_def using wf2 by (intro wf_links_same_keys) (auto simp: k2)
  have v2: "votes t2 = (votes ?t)((tid, ms) := 0)"
    using votes_upd_one [OF r(1,5) k1, where P = "\<lambda>r. lk_id r = lk_id s"] link_ids_unique [OF r(1,5)] r(6) src(2)
    by (simp add: t2_def)
  have r2: "r \<in> set (rows t2)" using r sr link_ids_unique [OF r(1,5,2)] by (force simp: t2_def table_simps)
  have "votes t3 = (votes t2)((tid, m) := lk_submission_count r + lk_submission_count s)"
    using votes_upd_one [OF wf2 r2 k2, where P = "\<lambda>r. lk_id r = i"] link_ids_unique [OF wf2 r2] r(3,4)
    by (simp add: t3_def)
  moreover have "lk_submission_count r = votes ?t (tid, m)" "lk_submission_count s = votes ?t (tid, ms)"
    using votes_row [OF r(1,2)] votes_row [OF r(1,5)] r(4,6) src(2) by simp_all
  ultimately have v3: "votes t3 = (votes ?t)((tid, ms) := 0, (tid, m) := votes ?t (tid, m) + votes ?t (tid, ms))"
    using v2 by simp
  have rows2: "set (rows t2) = insert (clear_source i ?now s) (set (rows t1) - {s})"
    unfolding t2_def using r(5) link_ids_unique [OF r(1,5)] by (rule rows_upd_one)
  have rows3: "set (rows t3) = insert (feed_target s ?now r) (set (rows t2) - {r})"
    unfolding t3_def using r2 link_ids_unique [OF wf2 r2, unfolded r(3)] by (rule rows_upd_one)
  have tids: "lk_track_id s = tid" "lk_track_id r = tid" "lk_value s = ms" "lk_value r = m"
    using src(2) r(4) by (auto simp: link_key_def)
  have rows': "set (rows t3) = insert (feed_target s ?now r) (insert (clear_source i ?now s) (set (rows ?t) - {s, r}))"
  proof -
    have "clear_source i ?now s \<noteq> r" using tids ne by auto
    with rows2 rows3 r(7) sr show ?thesis by auto
  qed
  have frame: "{x \<in> set (rows t3). lk_track_id x \<noteq> tid} = {x \<in> set (rows ?t). lk_track_id x \<noteq> tid}"
    unfolding rows' using tids by auto
  have r': "feed_target s ?now r \<in> set (rows t3)" "link_key (feed_target s ?now r) = (tid, m)"
    "lk_id (feed_target s ?now r) = i" "target = None \<Longrightarrow> \<not> tm_disabled (feed_target s ?now r)"
    using rows' k2 r(3,4,8) by auto
  have src': "tm_disabled x \<and> tm_merged_into x = Some i" if "x \<in> set (rows t3)" "link_key x = (tid, ms)" for x
  proof -
    have "clear_source i ?now s \<in> set (rows t3)" "link_key (clear_source i ?now s) = (tid, ms)"
      using rows' k1 src(2) by simp_all
    then have "x = clear_source i ?now s" using that link_keys_unique [OF wf3] by metis
    then show ?thesis by simp
  qed
  show ?thesis
    by (rule that [unfolded t', OF wf3 v3 frame r'(1,2,3)]) (use r'(4) src' in auto)
qed

text \<open>
  The contract of a merge at one track: all votes of the source move to the target, nothing else
  changes, the source link stays as a disabled redirect to the target link, and a target link that the
  merge had to create is enabled (even where the source link had been disabled).
\<close>

definition track_rows :: "int \<Rightarrow> track_mbid_row table \<Rightarrow> track_mbid_row set" where
  "track_rows tid t = {x \<in> set (rows t). lk_track_id x = tid}"

definition merged_at :: "string \<Rightarrow> string \<Rightarrow> int \<Rightarrow> track_mbid_row table \<Rightarrow> track_mbid_row table \<Rightarrow> bool" where
  "merged_at ms m tid t t' \<longleftrightarrow>
     (\<forall>v. votes t' (tid, v) = (if v = ms then 0 else if v = m then votes t (tid, m) + votes t (tid, ms) else votes t (tid, v)))
   \<and> (\<forall>x \<in> track_rows tid t'. lk_value x = ms \<longrightarrow>
        tm_disabled x \<and> (\<exists>r \<in> track_rows tid t'. lk_value r = m \<and> tm_merged_into x = Some (lk_id r)))
   \<and> ((\<exists>s \<in> track_rows tid t. lk_value s = ms) \<and> (\<forall>x \<in> track_rows tid t. lk_value x \<noteq> m) \<longrightarrow>
        (\<exists>r \<in> track_rows tid t'. lk_value r = m \<and> \<not> tm_disabled r))"

text \<open>The rows read before the loop are still the rows of the table at the tracks that are left.\<close>

definition snapshot_of :: "string list \<Rightarrow> (int, (string, track_mbid_row) dict) dict \<Rightarrow> track_mbid_row table \<Rightarrow> bool" where
  "snapshot_of vs d t \<longleftrightarrow> (\<forall>(tid, row_of) \<in> set d. \<forall>v \<in> set vs.
     (case dict_get row_of v of
        None \<Rightarrow> \<forall>r \<in> set (rows t). link_key r \<noteq> (tid, v)
      | Some r \<Rightarrow> r \<in> set (rows t) \<and> link_key r = (tid, v)))"

lemma track_rows_key: "r \<in> set (rows t) \<and> link_key r = (tid, v) \<longleftrightarrow> r \<in> track_rows tid t \<and> lk_value r = v"
  by (auto simp: track_rows_def link_key_def)

lemma merged_at_frame:
  "merged_at ms m tid t t1 \<Longrightarrow> (\<And>v. votes t2 (tid, v) = votes t1 (tid, v)) \<Longrightarrow>
     track_rows tid t2 = track_rows tid t1 \<Longrightarrow> merged_at ms m tid t t2"
  unfolding merged_at_def by simp

lemma merged_at_frame0:
  "merged_at ms m tid t1 t2 \<Longrightarrow> (\<And>v. votes t1 (tid, v) = votes t (tid, v)) \<Longrightarrow>
     track_rows tid t1 = track_rows tid t \<Longrightarrow> merged_at ms m tid t t2"
  unfolding merged_at_def by simp

lemma snapshot_frame:
  assumes "snapshot_of vs d t" and "\<And>tid. tid \<in> set (dict_keys d) \<Longrightarrow> track_rows tid t1 = track_rows tid t"
  shows "snapshot_of vs d t1"
proof -
  have e: "r \<in> set (rows t1) \<and> link_key r = (tid, v) \<longleftrightarrow> r \<in> set (rows t) \<and> link_key r = (tid, v)"
    if "(tid, row_of) \<in> set d" for tid row_of r v
  proof -
    have "tid \<in> set (dict_keys d)" using that by (force simp: dict_keys_def)
    with assms(2) show ?thesis by (simp add: track_rows_key)
  qed
  show ?thesis unfolding snapshot_of_def
  proof (clarify, goal_cases)
    case (1 tid row_of v)
    with assms(1) e [OF 1(1)] show ?case
      unfolding snapshot_of_def by (fastforce split: option.splits)
  qed
qed

definition merge_post :: "string \<Rightarrow> string \<Rightarrow> int set \<Rightarrow> track_mbid_row table \<Rightarrow> track_mbid_row table \<Rightarrow> int \<Rightarrow> bool" where
  "merge_post ms m ks t t' tid \<longleftrightarrow>
     (if tid \<in> ks then merged_at ms m tid t t'
      else track_rows tid t' = track_rows tid t \<and> (\<forall>v. votes t' (tid, v) = votes t (tid, v)))"

lemma merge_post_step:
  assumes "merged_at ms m tid t t1" and "\<And>x. x \<noteq> tid \<Longrightarrow> track_rows x t1 = track_rows x t"
    and "\<And>x v. x \<noteq> tid \<Longrightarrow> votes t1 (x, v) = votes t (x, v)"
    and "\<And>x. merge_post ms m ks t1 t' x" and "tid \<notin> ks"
  shows "merge_post ms m (insert tid ks) t t' x"
proof (cases "x = tid")
  case True
  have "track_rows tid t' = track_rows tid t1" "\<And>v. votes t' (tid, v) = votes t1 (tid, v)"
    using assms(4) [of tid] assms(5) by (simp_all add: merge_post_def)
  with merged_at_frame [OF assms(1)] True show ?thesis by (simp add: merge_post_def)
next
  case False
  note o = assms(2,3) [OF False]
  show ?thesis
  proof (cases "x \<in> ks")
    case True
    then have "merged_at ms m x t1 t'" using assms(4) [of x] by (simp add: merge_post_def)
    from merged_at_frame0 [OF this] o True show ?thesis by (simp add: merge_post_def)
  next
    case False
    with \<open>x \<noteq> tid\<close> assms(4) [of x] o show ?thesis by (simp add: merge_post_def)
  qed
qed

lemma merge_mbids_loop_votes:
  assumes "wf_links (t_track_mbid fdb)" and ne: "ms \<noteq> m" and "distinct (dict_keys d)"
    and "snapshot_of [ms, m] d (t_track_mbid fdb)"
    and "merge_mbids_loop ms m d (fdb, idb) = Inr (fdb', idb')"
  shows "wf_links (t_track_mbid fdb')
    \<and> (\<forall>tid. merge_post ms m (set (dict_keys d)) (t_track_mbid fdb) (t_track_mbid fdb') tid)"
  using assms(1,3,4,5)
proof (induction d arbitrary: fdb idb)
  case Nil
  then show ?case by (simp add: merge_post_def dict_keys_def)
next
  case (Cons e d)
  obtain tid row_of where e: "e = (tid, row_of)" by fastforce
  have notin: "tid \<notin> set (dict_keys d)" and dist: "distinct (dict_keys d)"
    using Cons.prems(2) by (simp_all add: e)
  have snap: "snapshot_of [ms, m] d (t_track_mbid fdb)" using Cons.prems(3) by (simp add: snapshot_of_def)
  have look: "case dict_get row_of v of None \<Rightarrow> \<forall>r \<in> set (rows (t_track_mbid fdb)). link_key r \<noteq> (tid, v)
      | Some r \<Rightarrow> r \<in> set (rows (t_track_mbid fdb)) \<and> link_key r = (tid, v)" if "v = ms \<or> v = m" for v
    using Cons.prems(3) that by (auto simp: e snapshot_of_def)
  show ?case
  proof (cases "dict_get row_of ms")
    case None
    then have none: "\<forall>r \<in> set (rows (t_track_mbid fdb)). link_key r \<noteq> (tid, ms)" using look [of ms] by simp
    have "merged_at ms m tid (t_track_mbid fdb) (t_track_mbid fdb)"
      using none votes_none [OF none] by (auto simp: merged_at_def track_rows_def link_key_def)
    note here = this
    have "merge_mbids_loop ms m d (fdb, idb) = Inr (fdb', idb')"
      using Cons.prems(4) None by (simp add: e)
    note ih = Cons.IH [OF Cons.prems(1) dist snap this]
    have "merge_post ms m (insert tid (set (dict_keys d))) (t_track_mbid fdb) (t_track_mbid fdb') x" for x
      by (rule merge_post_step [OF here]) (use ih notin in auto)
    with ih show ?thesis by (simp add: e)
  next
    case (Some s)
    then have s: "s \<in> set (rows (t_track_mbid fdb))" "link_key s = (tid, ms)" using look [of ms] by simp_all
    obtain fdb1 idb1 where one: "merge_mbid_rows m tid s (dict_get row_of m) (fdb, idb) = Inr (fdb1, idb1)"
      and rest: "merge_mbids_loop ms m d (fdb1, idb1) = Inr (fdb', idb')"
      using Cons.prems(4) Some by (auto simp: e split: sum.splits)
    obtain r i where wf1: "wf_links (t_track_mbid fdb1)"
      and v1: "votes (t_track_mbid fdb1) = (votes (t_track_mbid fdb))
       ((tid, ms) := 0, (tid, m) := votes (t_track_mbid fdb) (tid, m) + votes (t_track_mbid fdb) (tid, ms))"
      and frame: "{x \<in> set (rows (t_track_mbid fdb1)). lk_track_id x \<noteq> tid} = {x \<in> set (rows (t_track_mbid fdb)). lk_track_id x \<noteq> tid}"
      and r: "r \<in> set (rows (t_track_mbid fdb1))" "link_key r = (tid, m)" "lk_id r = i"
         "dict_get row_of m = None \<Longrightarrow> \<not> tm_disabled r"
      and red: "\<And>x. x \<in> set (rows (t_track_mbid fdb1)) \<Longrightarrow> link_key x = (tid, ms) \<Longrightarrow>
           tm_disabled x \<and> tm_merged_into x = Some i"
      using merge_mbid_rows_votes [OF Cons.prems(1) s ne look one] by blast
    have other: "track_rows tid' (t_track_mbid fdb1) = track_rows tid' (t_track_mbid fdb)"
      "votes (t_track_mbid fdb1) (tid', v) = votes (t_track_mbid fdb) (tid', v)" if "tid' \<noteq> tid" for tid' v
      using frame that by (auto simp: track_rows_def v1)
    have no_m: "dict_get row_of m = None" if "\<forall>x \<in> set (rows (t_track_mbid fdb)). link_key x \<noteq> (tid, m)"
      using look [of m] that by (auto split: option.splits)
    have "merged_at ms m tid (t_track_mbid fdb) (t_track_mbid fdb1)"
      unfolding merged_at_def
    proof (intro conjI allI impI ballI)
      have rt: "r \<in> track_rows tid (t_track_mbid fdb1)" "lk_value r = m"
        using r(1,2) by (simp_all add: track_rows_def link_key_def)
      show "votes (t_track_mbid fdb1) (tid, v) = (if v = ms then 0
          else if v = m then votes (t_track_mbid fdb) (tid, m) + votes (t_track_mbid fdb) (tid, ms)
          else votes (t_track_mbid fdb) (tid, v))" for v using ne by (simp add: v1)
      fix x assume "x \<in> track_rows tid (t_track_mbid fdb1)" "lk_value x = ms"
      then have x: "tm_disabled x \<and> tm_merged_into x = Some i" using red by (simp add: track_rows_def link_key_def)
      then show "tm_disabled x" by simp
      show "\<exists>r \<in> track_rows tid (t_track_mbid fdb1). lk_value r = m \<and> tm_merged_into x = Some (lk_id r)"
        using x rt r(3) by blast
    next
      assume "(\<exists>s \<in> track_rows tid (t_track_mbid fdb). lk_value s = ms) \<and> (\<forall>x \<in> track_rows tid (t_track_mbid fdb). lk_value x \<noteq> m)"
      then have "dict_get row_of m = None" by (intro no_m) (auto simp: track_rows_def link_key_def)
      then show "\<exists>r \<in> track_rows tid (t_track_mbid fdb1). lk_value r = m \<and> \<not> tm_disabled r"
        using r by (auto simp: track_rows_def link_key_def)
    qed
    note here = this
    have snap1: "snapshot_of [ms, m] d (t_track_mbid fdb1)"
      using other notin by (intro snapshot_frame [OF snap]) metis
    note ih = Cons.IH [OF wf1 dist snap1 rest]
    have "merge_post ms m (insert tid (set (dict_keys d))) (t_track_mbid fdb) (t_track_mbid fdb') x" for x
      by (rule merge_post_step [OF here]) (use ih notin other in auto)
    with ih show ?thesis by (simp add: e)
  qed
qed

text \<open>What the dictionary built before the loop contains.\<close>

definition look2 :: "(int, (string, track_mbid_row) dict) dict \<Rightarrow> int \<times> string \<Rightarrow> track_mbid_row option" where
  "look2 d k = (case dict_get d (fst k) of None \<Rightarrow> None | Some row_of \<Rightarrow> dict_get row_of (snd k))"

abbreviation group_step :: "track_mbid_row \<Rightarrow> (int, (string, track_mbid_row) dict) dict \<Rightarrow> (int, (string, track_mbid_row) dict) dict" where
  "group_step r d \<equiv> dict_set d (lk_track_id r)
     (dict_set (case dict_get d (lk_track_id r) of None \<Rightarrow> [] | Some row_of \<Rightarrow> row_of) (lk_value r) r)"

lemma look2_step: "look2 (group_step r d) k = (if k = link_key r then Some r else look2 d k)"
proof -
  have "dict_get [] (snd k) = None" by (simp add: dict_get_def)
  then show ?thesis by (cases k) (auto simp: look2_def link_key_def split: option.split)
qed

lemma look2_fold:
  assumes "distinct (map link_key rs)"
  shows "look2 (fold group_step rs d) k = (case first_of (filter (\<lambda>r. link_key r = k) rs) of None \<Rightarrow> look2 d k | Some r \<Rightarrow> Some r)"
  using assms
proof (induction rs arbitrary: d)
  case (Cons r rs)
  have "filter (\<lambda>x. link_key x = link_key r) rs = []"
    using Cons.prems by (auto simp: filter_empty_conv) (metis imageI)
  with Cons show ?case
    by (cases "link_key r = k") (auto simp: look2_step simp del: dict_get_set split: option.split)
qed simp

lemma group_fold_distinct: "distinct (dict_keys d) \<Longrightarrow> distinct (dict_keys (fold group_step rs d))"
  by (induction rs arbitrary: d) (auto intro: dict_distinct_set)

lemma snapshot_track_mbids:
  assumes wf: "wf_links t" and ne: "ms \<noteq> m"
  shows "snapshot_of [ms, m] (track_mbids_by_track_id ms m t) t"
    and "distinct (dict_keys (track_mbids_by_track_id ms m t))"
proof -
  let ?rs = "sel (\<lambda>r. lk_value r = m) t @ sel (\<lambda>r. lk_value r = ms) t"
  let ?d = "track_mbids_by_track_id ms m t"
  have d: "?d = fold group_step ?rs []" by (simp add: track_mbids_by_track_id_def)
  show dist: "distinct (dict_keys ?d)" unfolding d by (rule group_fold_distinct) (simp add: dict_keys_def)
  have keys: "distinct (map link_key ?rs)"
    using wf ne by (auto simp: wf_links_def sel_def distinct_map_filter link_key_def)
  show "snapshot_of [ms, m] ?d t"
    unfolding snapshot_of_def
  proof (clarify, goal_cases)
    case (1 tid row_of v)
    have "dict_get ?d tid = Some row_of"
      using 1(1) dist by (simp add: dict_get_def dict_keys_def)
    then have "dict_get row_of v = look2 ?d (tid, v)" by (simp add: look2_def)
    also have "\<dots> = first_of (filter (\<lambda>r. link_key r = (tid, v)) ?rs)"
      unfolding d look2_fold [OF keys] by (simp add: look2_def dict_get_def split: option.split)
    finally have e: "dict_get row_of v = first_of (filter (\<lambda>r. link_key r = (tid, v)) ?rs)" .
    have mem: "r \<in> set ?rs \<and> link_key r = (tid, v) \<longleftrightarrow> r \<in> set (rows t) \<and> link_key r = (tid, v)" for r
      using 1(2) by (auto simp: sel_def link_key_def)
    show ?case
    proof (cases "dict_get row_of v")
      case None
      then have "filter (\<lambda>r. link_key r = (tid, v)) ?rs = []" using e by simp
      then have "\<forall>r \<in> set ?rs. link_key r \<noteq> (tid, v)" by (simp only: filter_empty_conv)
      with None mem show ?thesis by auto
    next
      case (Some r)
      then have "r \<in> set (filter (\<lambda>r. link_key r = (tid, v)) ?rs)" using e by (metis first_of_SomeD)
      then have "r \<in> set ?rs \<and> link_key r = (tid, v)" by (simp only: set_filter mem_Collect_eq)
      with Some mem show ?thesis by auto
    qed
  qed
qed

lemma track_mbids_keys:
  "tid \<notin> set (dict_keys (track_mbids_by_track_id ms m t)) \<Longrightarrow>
     x \<in> track_rows tid t \<Longrightarrow> lk_value x \<noteq> ms \<and> lk_value x \<noteq> m"
proof -
  have k: "set (dict_keys (fold group_step rs d)) = set (dict_keys d) \<union> lk_track_id ` set rs" for rs d
    by (induction rs arbitrary: d) (auto simp: dict_keys_set)
  show "tid \<notin> set (dict_keys (track_mbids_by_track_id ms m t)) \<Longrightarrow>
     x \<in> track_rows tid t \<Longrightarrow> lk_value x \<noteq> ms \<and> lk_value x \<noteq> m"
    by (auto simp: track_mbids_by_track_id_def k track_rows_def sel_def)
qed

text \<open>C1: Merging one MBID into another moves all of its votes to the target on every track and changes no
  other pair's votes; its own links stay behind as disabled redirects to the target's links; the unique
  keys are kept. A target link the merge has to create is enabled, even if the source link it replaces
  had been disabled.\<close>

theorem merge_mbids_moves_votes:
  assumes wf: "wf_links (t_track_mbid fdb)" and ne: "source \<noteq> target"
    and res: "merge_mbids fdb idb source target = Inr (fdb', idb')"
  shows "wf_links (t_track_mbid fdb') \<and> merged_at source target tid (t_track_mbid fdb) (t_track_mbid fdb')"
proof -
  let ?d = "track_mbids_by_track_id source target (t_track_mbid fdb)"
  have p: "wf_links (t_track_mbid fdb')" "merge_post source target (set (dict_keys ?d)) (t_track_mbid fdb) (t_track_mbid fdb') tid"
    using merge_mbids_loop_votes [OF wf ne snapshot_track_mbids(2,1) [OF wf ne]] res by (simp_all add: merge_mbids_def)
  show ?thesis
  proof (cases "tid \<in> set (dict_keys ?d)")
    case True
    with p show ?thesis by (simp add: merge_post_def)
  next
    case False
    then have none: "\<forall>x \<in> track_rows tid (t_track_mbid fdb). lk_value x \<noteq> source"
      using track_mbids_keys by blast
    then have z: "votes (t_track_mbid fdb) (tid, source) = 0"
      by (intro votes_none) (auto simp: track_rows_def link_key_def)
    have "track_rows tid (t_track_mbid fdb') = track_rows tid (t_track_mbid fdb)"
      "\<And>v. votes (t_track_mbid fdb') (tid, v) = votes (t_track_mbid fdb) (tid, v)"
      using False p(2) by (simp_all add: merge_post_def)
    with p(1) none z show ?thesis by (auto simp: merged_at_def)
  qed
qed

definition disabled_link_db :: fingerprint_db where
  "disabled_link_db = empty_fingerprint_db\<lparr>t_track_mbid := \<lparr>rows =
     [(new_mbid_link 0 7 ''old'' 5 1)\<lparr>tm_disabled := True\<rparr>], serial = 2\<rparr>\<rparr>"

theorem merge_mbids_moves_votes_witness:
  "\<exists>fdb' idb'. merge_mbids disabled_link_db empty_ingest_db ''old'' ''new'' = Inr (fdb', idb')
     \<and> votes (t_track_mbid fdb') (7, ''new'') = 5 \<and> votes (t_track_mbid fdb') (7, ''old'') = 0"
proof -
  have wf: "wf_links (t_track_mbid disabled_link_db)"
    by (simp add: disabled_link_db_def wf_links_def wf_table_def)
  have d: "track_mbids_by_track_id ''old'' ''new'' (t_track_mbid disabled_link_db)
      = [(7, [(''old'', (new_mbid_link 0 7 ''old'' 5 1)\<lparr>tm_disabled := True\<rparr>)])]"
    by (simp add: track_mbids_by_track_id_def disabled_link_db_def sel_def dict_get_def)
  have "\<exists>r. merge_mbids disabled_link_db empty_ingest_db ''old'' ''new'' = Inr r"
    by (simp add: merge_mbids_def d dict_get_def merge_mbid_rows_def Let_def case_prod_beta)
  then obtain fdb' idb' where m: "merge_mbids disabled_link_db empty_ingest_db ''old'' ''new'' = Inr (fdb', idb')"
    by auto
  have v: "votes (t_track_mbid disabled_link_db) (7, ''old'') = 5" "votes (t_track_mbid disabled_link_db) (7, ''new'') = 0"
    by (simp_all add: votes_def sel_def disabled_link_db_def link_key_def)
  from merge_mbids_moves_votes [OF wf _ m, of 7] v have "votes (t_track_mbid fdb') (7, ''new'') = 5 \<and> votes (t_track_mbid fdb') (7, ''old'') = 0"
    by (simp add: merged_at_def)
  with m show ?thesis by blast
qed

subsection \<open>Merging tracks pools votes\<close>

lemma rows_fold_upd:
  "rows (fold (\<lambda>x. upd (P x) (f x)) xs t) = map (\<lambda>r. fold (\<lambda>x r. if P x r then f x r else r) xs r) (rows t)"
  by (induction xs arbitrary: t) (simp_all add: table_simps comp_def)

lemma serial_fold_upd: "serial (fold (\<lambda>x. upd (P x) (f x)) xs t) = serial t"
  by (induction xs arbitrary: t) (simp_all add: table_simps)

lemma fold_match_none:
  "(\<And>x. x \<in> set xs \<Longrightarrow> k r \<noteq> i x) \<Longrightarrow> fold (\<lambda>x r. if k r = i x then f x r else r) xs r = r"
  by (induction xs) auto

lemma fold_match_one:
  "distinct xs \<Longrightarrow> y \<in> set xs \<Longrightarrow> (\<And>x. x \<in> set xs \<Longrightarrow> k r = i x \<longleftrightarrow> x = y) \<Longrightarrow> k (f y r) = k r \<Longrightarrow>
     fold (\<lambda>x r. if k r = i x then f x r else r) xs r = f y r"
proof (induction xs)
  case (Cons x xs)
  show ?case
  proof (cases "x = y")
    case True
    then have "k (f y r) \<noteq> i z" if "z \<in> set xs" for z using Cons.prems that by auto
    with True Cons.prems fold_match_none [of xs k "f y r" i f] show ?thesis by auto
  next
    case False
    with Cons show ?thesis by auto
  qed
qed simp

lemma sum_list_filter_partition:
  fixes f :: "'a \<Rightarrow> int"
  assumes "finite S"
  shows "sum_list (map f (filter (\<lambda>r. g r \<in> S \<and> P r) xs)) = (\<Sum>s \<in> S. sum_list (map f (filter (\<lambda>r. g r = s \<and> P r) xs)))"
proof (induction xs)
  case (Cons x xs)
  have "(\<Sum>s \<in> S. sum_list (map f (filter (\<lambda>r. g r = s \<and> P r) (x # xs)))) =
        (\<Sum>s \<in> S. (if g x = s then (if P x then f x else 0) else 0) + sum_list (map f (filter (\<lambda>r. g r = s \<and> P r) xs)))"
    by (intro sum.cong) auto
  also have "\<dots> = (if g x \<in> S then (if P x then f x else 0) else 0) + (\<Sum>s \<in> S. sum_list (map f (filter (\<lambda>r. g r = s \<and> P r) xs)))"
    using assms by (simp add: sum.distrib sum.delta)
  finally show ?case using Cons by simp
qed simp

lemma in_concat_map: "x \<in> set (concat (map f ys)) \<longleftrightarrow> (\<exists>y \<in> set ys. x \<in> set (f y))"
  by simp

lemma min_list_in: "xs \<noteq> [] \<Longrightarrow> min_list xs \<in> set (xs :: int list)"
  by (metis min_list_Min Min_in finite_set set_empty)

definition value_group :: "int set \<Rightarrow> ('g, 'z) link_row_scheme table \<Rightarrow> 'g \<Rightarrow> ('g, 'z) link_row_scheme list" where
  "value_group S tab v = filter (\<lambda>r. lk_track_id r \<in> S \<and> lk_value r = v) (rows tab)"

lemma merge_groups_entries:
  "(v, rs) \<in> set (merge_groups ids tab) \<longleftrightarrow> rs = value_group (set ids) tab v \<and> rs \<noteq> []"
  and distinct_merge_groups: "distinct (dict_keys (merge_groups ids tab))"
proof -
  show d: "distinct (dict_keys (merge_groups ids tab))"
    by (simp add: merge_groups_def distinct_dict_group)
  have "(v, rs) \<in> set (merge_groups ids tab) \<longleftrightarrow> dict_get (merge_groups ids tab) v = Some rs"
    using d by (simp add: dict_get_def dict_keys_def)
  also have "\<dots> \<longleftrightarrow> rs = value_group (set ids) tab v \<and> rs \<noteq> []"
    by (auto simp: merge_groups_def dict_get_group Let_def sel_def value_group_def filter_map comp_def conj_commute)
  finally show "(v, rs) \<in> set (merge_groups ids tab) \<longleftrightarrow> rs = value_group (set ids) tab v \<and> rs \<noteq> []" .
qed

lemma set_groups: "set (map snd (merge_groups ids tab)) = {value_group (set ids) tab v |v. value_group (set ids) tab v \<noteq> []}"
proof -
  have "snd ` set (merge_groups ids tab) = {rs. \<exists>v. (v, rs) \<in> set (merge_groups ids tab)}" by force
  then show ?thesis by (auto simp: merge_groups_entries)
qed

lemma distinct_groups: "distinct (map snd (merge_groups ids tab))"
proof -
  have "inj_on snd (set (merge_groups ids tab))"
  proof (rule inj_onI, goal_cases)
    case (1 x y)
    obtain v w rs where "x = (v, rs)" "y = (w, rs)" using 1(3) by (metis prod.collapse)
    with 1(1,2) have "rs = value_group (set ids) tab v" "rs = value_group (set ids) tab w" "rs \<noteq> []"
      using merge_groups_entries [of _ _ ids tab] by blast+
    moreover from this(3) obtain r where "r \<in> set rs" using hd_in_set by blast
    ultimately have "r \<in> set (value_group (set ids) tab v)" "r \<in> set (value_group (set ids) tab w)" by simp_all
    then have "v = w" by (simp add: value_group_def)
    with \<open>x = (v, rs)\<close> \<open>y = (w, rs)\<close> show ?case by simp
  qed
  moreover have "distinct (merge_groups ids tab)"
    using distinct_merge_groups [of ids tab] by (simp add: dict_keys_def distinct_map)
  ultimately show ?thesis by (simp add: distinct_map)
qed

lemma group_id_row:
  assumes "wf_links tab" and "r \<in> set (rows tab)" and "lk_id r = group_id (value_group S tab v)" and "value_group S tab v \<noteq> []"
  shows "r \<in> set (value_group S tab v)"
proof -
  have "group_id (value_group S tab v) \<in> lk_id ` set (value_group S tab v)"
    using min_list_in [of "map lk_id (value_group S tab v)"] assms(4) by (simp add: group_id_def)
  then obtain x where "x \<in> set (value_group S tab v)" "lk_id x = lk_id r" using assms(3) by auto
  moreover from this have "x = r" using assms(1,2) link_ids_unique by (metis filter_is_subset subsetD value_group_def)
  ultimately show ?thesis by simp
qed

text \<open>The table \<open>merge_tracks_gids\<close> leaves, row by row.\<close>

definition survives :: "int set \<Rightarrow> ('g, 'z) link_row_scheme table \<Rightarrow> ('g, 'z) link_row_scheme \<Rightarrow> bool" where
  "survives S tab r \<longleftrightarrow> (lk_track_id r \<in> S \<longrightarrow> lk_id r = group_id (value_group S tab (lk_value r)))"

abbreviation pooled ::
    "(('g, 'z) link_row_scheme list \<Rightarrow> ('g, 'z) link_row_scheme \<Rightarrow> ('g, 'z) link_row_scheme) \<Rightarrow> int \<Rightarrow> int
     \<Rightarrow> ('g, 'z) link_row_scheme list \<Rightarrow> ('g, 'z) link_row_scheme \<Rightarrow> ('g, 'z) link_row_scheme" where
  "pooled set_disabled now target_id rs r \<equiv>
     set_disabled rs (r\<lparr>lk_submission_count := sum_list (map lk_submission_count rs), lk_track_id := target_id,
                        lk_updated := Some now\<rparr>)"

lemma merged_rows:
  assumes wf: "wf_links tab" and sd: "\<And>rs r. lk_id (sd rs r) = lk_id r"
    and res: "merge_tracks_gids sd now target_id source_ids tab = (moves, tab')"
    and S: "S = set (source_ids @ [target_id])"
  shows "rows tab' = map (\<lambda>r. if lk_track_id r \<in> S then pooled sd now target_id (value_group S tab (lk_value r)) r else r)
                       (filter (survives S tab) (rows tab)) \<and> serial tab' = serial tab"
proof -
  let ?groups = "map snd (merge_groups (source_ids @ [target_id]) tab)"
  let ?del = "concat (map group_old_ids ?groups)"
  let ?f = "pooled sd now target_id"
  let ?t1 = "if ?del = [] then tab else del (\<lambda>r. lk_id r \<in> set ?del) tab"
  have groups: "set ?groups = {value_group S tab v |v. value_group S tab v \<noteq> []}" unfolding S by (rule set_groups)
  have tab': "tab' = fold (\<lambda>rs. upd (\<lambda>r. lk_id r = group_id rs) (?f rs)) ?groups ?t1"
    using res by (simp add: merge_tracks_gids_def Let_def)
  have own: "r \<in> set (value_group S tab (lk_value r))" if "r \<in> set (rows tab)" "lk_track_id r \<in> S" for r
    using that by (simp add: value_group_def)
  have del_iff: "lk_id r \<in> set ?del \<longleftrightarrow> \<not> survives S tab r" if r: "r \<in> set (rows tab)" for r
  proof
    assume "lk_id r \<in> set ?del"
    then obtain rs where "rs \<in> set ?groups" "lk_id r \<in> set (group_old_ids rs)" by auto
    then obtain v where v: "value_group S tab v \<noteq> []" "lk_id r \<in> set (group_old_ids (value_group S tab v))"
      unfolding groups by blast
    then obtain x where x: "x \<in> set (value_group S tab v)" "lk_id x = lk_id r" "lk_id r \<noteq> group_id (value_group S tab v)"
      by (auto simp: group_old_ids_def)
    then have "x = r" using r link_ids_unique [OF wf] by (metis filter_is_subset subsetD value_group_def)
    with x show "\<not> survives S tab r" by (auto simp: survives_def value_group_def)
  next
    assume n: "\<not> survives S tab r"
    then have "lk_track_id r \<in> S" "lk_id r \<noteq> group_id (value_group S tab (lk_value r))" by (simp_all add: survives_def)
    with own [OF r] have "lk_id r \<in> set (group_old_ids (value_group S tab (lk_value r)))" "value_group S tab (lk_value r) \<in> set ?groups"
      using groups by (auto simp: group_old_ids_def)
    then show "lk_id r \<in> set ?del" unfolding in_concat_map by blast
  qed
  have t1: "rows ?t1 = filter (survives S tab) (rows tab)"
  proof (cases "?del = []")
    case True
    with del_iff show ?thesis by (auto simp: filter_id_conv)
  next
    case False
    with del_iff show ?thesis by (auto simp: table_simps intro!: filter_cong)
  qed
  have each: "fold (\<lambda>rs r. if lk_id r = group_id rs then ?f rs r else r) ?groups r =
      (if lk_track_id r \<in> S then ?f (value_group S tab (lk_value r)) r else r)"
    if r: "r \<in> set (rows tab)" "survives S tab r" for r
  proof (cases "lk_track_id r \<in> S")
    case True
    let ?y = "value_group S tab (lk_value r)"
    have y: "?y \<in> set ?groups" using groups own [OF r(1) True] by auto
    have "lk_id r = group_id x \<longleftrightarrow> x = ?y" if xg: "x \<in> set ?groups" for x
    proof
      assume e: "lk_id r = group_id x"
      obtain v where "x = value_group S tab v" "x \<noteq> []" using xg unfolding groups by blast
      with group_id_row [OF wf r(1)] e have "r \<in> set (value_group S tab v)" by blast
      then show "x = ?y" using \<open>x = value_group S tab v\<close> by (simp add: value_group_def)
    next
      assume "x = ?y"
      with r(2) True show "lk_id r = group_id x" by (simp add: survives_def)
    qed
    then have "fold (\<lambda>rs r. if lk_id r = group_id rs then ?f rs r else r) ?groups r = ?f ?y r"
      using sd by (intro fold_match_one [OF distinct_groups y]) simp_all
    with True show ?thesis by simp
  next
    case False
    have "lk_id r \<noteq> group_id x" if xg: "x \<in> set ?groups" for x
    proof
      assume e: "lk_id r = group_id x"
      obtain v where "x = value_group S tab v" "x \<noteq> []" using xg unfolding groups by blast
      with group_id_row [OF wf r(1)] e have "r \<in> set (value_group S tab v)" by blast
      with False show False by (simp add: value_group_def)
    qed
    then have "fold (\<lambda>rs r. if lk_id r = group_id rs then ?f rs r else r) ?groups r = r" by (rule fold_match_none)
    with False show ?thesis by simp
  qed
  have "rows tab' = map (\<lambda>r. fold (\<lambda>rs r. if lk_id r = group_id rs then ?f rs r else r) ?groups r) (rows ?t1)"
    unfolding tab' by (rule rows_fold_upd)
  also have "\<dots> = map (\<lambda>r. if lk_track_id r \<in> S then ?f (value_group S tab (lk_value r)) r else r)
                       (filter (survives S tab) (rows tab))"
    unfolding t1 by (rule map_cong [OF refl]) (use each in auto)
  finally show ?thesis unfolding tab' serial_fold_upd by (simp add: table_simps)
qed

lemma merged_tracks_votes:
  assumes wf: "wf_links tab"
    and sd: "\<And>rs r. lk_id (sd rs r) = lk_id r" "\<And>rs r. link_key (sd rs r) = link_key r"
      "\<And>rs r. lk_submission_count (sd rs r) = lk_submission_count r"
    and res: "merge_tracks_gids sd now target_id source_ids tab = (moves, tab')"
  shows "wf_links tab'
    \<and> votes tab' (tid, v) =
           (if tid = target_id then (\<Sum>s \<in> insert target_id (set source_ids). votes tab (s, v))
            else if tid \<in> set source_ids then 0 else votes tab (tid, v))"
proof -
  let ?S = "insert target_id (set source_ids)"
  let ?g = "value_group ?S tab"
  let ?F = "\<lambda>r. if lk_track_id r \<in> ?S then pooled sd now target_id (?g (lk_value r)) r else r"
  let ?rs = "filter (survives ?S tab) (rows tab)"
  have rows': "rows tab' = map ?F ?rs" and ser: "serial tab' = serial tab"
    using merged_rows [OF wf sd(1) res] by auto
  have ids: "lk_id (?F r) = lk_id r" for r by (simp add: sd)
  have key: "link_key (?F r) = (if lk_track_id r \<in> ?S then (target_id, lk_value r) else link_key r)" for r
    by (simp add: sd) (simp add: link_key_def)
  have count: "lk_submission_count (?F r) =
      (if lk_track_id r \<in> ?S then sum_list (map lk_submission_count (?g (lk_value r))) else lk_submission_count r)" for r
    by (simp add: sd)
  have dist: "distinct (map lk_id (rows tab))" using wf by (simp add: wf_links_def wf_table_def)
  have "map lk_id (rows tab') = map lk_id ?rs" by (simp add: rows' sd)
  note ids' = this
  have "lk_id r \<in> lk_id ` set (rows tab)" if "r \<in> set (rows tab')" for r
  proof -
    have "lk_id r \<in> set (map lk_id ?rs)" using that by (metis ids' image_eqI list.set_map)
    then show ?thesis by auto
  qed
  then have wft: "wf_table lk_id tab'"
    using wf dist by (fastforce simp: wf_links_def wf_table_def ser ids' distinct_map_filter)
  have from_old: "\<exists>x \<in> set (rows tab). r = ?F x" if "r \<in> set (rows tab')" for r
  proof -
    have "r \<in> ?F ` set ?rs" using that by (simp only: rows' set_map)
    then show ?thesis by (elim imageE) (metis filter_is_subset subsetD)
  qed
  have surv: "lk_id r = group_id (?g (lk_value r))" if "r \<in> set ?rs" "lk_track_id r \<in> ?S" for r
    using that by (simp only: set_filter mem_Collect_eq survives_def simp_thms)
  have same: "r1 = r2" if "r1 \<in> set ?rs" "r2 \<in> set ?rs" "link_key (?F r1) = link_key (?F r2)" for r1 r2
  proof (cases "lk_track_id r1 \<in> ?S")
    case True
    then have "link_key (?F r2) = (target_id, lk_value r1)" using that(3) key by metis
    then have r2: "lk_track_id r2 \<in> ?S" "lk_value r2 = lk_value r1"
      using key [of r2] by (auto simp: link_key_def split: if_splits)
    with surv [OF that(1) True] surv [OF that(2) r2(1)] have "lk_id r1 = lk_id r2" by simp
    with that(1,2) link_ids_unique [OF wf] show ?thesis by (metis filter_is_subset subsetD)
  next
    case False
    then have k: "link_key (?F r2) = link_key r1" using that(3) key by metis
    have "lk_track_id r2 \<notin> ?S"
    proof
      assume "lk_track_id r2 \<in> ?S"
      then have "link_key r1 = (target_id, lk_value r2)" using k key [of r2] by metis
      with False show False by (simp add: link_key_def)
    qed
    then have "link_key r2 = link_key r1" using k key [of r2] by metis
    with that(1,2) link_keys_unique [OF wf] show ?thesis by (metis filter_is_subset subsetD)
  qed
  have "distinct (map (link_key \<circ> ?F) ?rs)"
    using same dist by (auto simp: distinct_map inj_on_def intro: distinct_filter)
  then have wf': "wf_links tab'" using wft by (simp add: wf_links_def rows')
  have sum_of: "sum_list (map lk_submission_count (?g v)) = (\<Sum>s \<in> ?S. votes tab (s, v))"
    using sum_list_filter_partition [of ?S lk_submission_count lk_track_id "\<lambda>r. lk_value r = v" "rows tab"]
    by (simp add: value_group_def votes_def sel_def link_key_def)
  have "votes tab' (tid, v) =
           (if tid = target_id then (\<Sum>s \<in> ?S. votes tab (s, v))
            else if tid \<in> set source_ids then 0 else votes tab (tid, v))"
  proof (cases "tid \<in> ?S")
    case True
    show ?thesis
    proof (cases "tid = target_id")
      case True
      show ?thesis
      proof (cases "?g v = []")
        case True
        have "\<forall>r \<in> set (rows tab'). link_key r \<noteq> (target_id, v)"
        proof
          fix r assume "r \<in> set (rows tab')"
          then obtain x where "x \<in> set (rows tab)" "r = ?F x" using from_old by blast
          with True key [of x] show "link_key r \<noteq> (target_id, v)"
            by (auto simp: value_group_def filter_empty_conv link_key_def split: if_splits)
        qed
        then have "votes tab' (target_id, v) = 0" by (rule votes_none)
        with sum_of True \<open>tid = target_id\<close> show ?thesis by simp
      next
        case False
        then obtain x where x: "x \<in> set (?g v)" "lk_id x = group_id (?g v)"
          using min_list_in [of "map lk_id (?g v)"] by (auto simp: group_id_def)
        then have x': "x \<in> set (rows tab)" "lk_track_id x \<in> ?S" "lk_value x = v" by (simp_all add: value_group_def)
        with x(2) have "?F x \<in> set (rows tab')" by (auto simp: rows' survives_def)
        from votes_row [OF wf' this] x' key [of x] count [of x] sum_of \<open>tid = target_id\<close> show ?thesis by simp
      qed
    next
      case False
      have "\<forall>r \<in> set (rows tab'). link_key r \<noteq> (tid, v)"
      proof
        fix r assume "r \<in> set (rows tab')"
        then obtain x where "r = ?F x" using from_old by blast
        with False True key [of x] show "link_key r \<noteq> (tid, v)" by (auto simp: link_key_def split: if_splits)
      qed
      with votes_none [of tab'] False True show ?thesis by simp
    qed
  next
    case False
    show ?thesis
    proof (cases "\<exists>r \<in> set (rows tab). link_key r = (tid, v)")
      case True
      then obtain r where r: "r \<in> set (rows tab)" "link_key r = (tid, v)" by blast
      then have out: "lk_track_id r \<notin> ?S" using False by (simp add: link_key_def)
      then have "?F r \<in> set (rows tab')" using r(1) by (simp add: rows' survives_def)
      then have "r \<in> set (rows tab')" using out by simp
      from votes_row [OF wf' this] votes_row [OF wf r(1)] r(2) False show ?thesis by simp
    next
      case none: False
      have "\<forall>r \<in> set (rows tab'). link_key r \<noteq> (tid, v)"
      proof
        fix r assume "r \<in> set (rows tab')"
        then obtain x where "x \<in> set (rows tab)" "r = ?F x" using from_old by blast
        with none False key [of x] show "link_key r \<noteq> (tid, v)" by (auto simp: link_key_def split: if_splits)
      qed
      with votes_none [of tab'] votes_none [of tab "(tid, v)"] none False show ?thesis by auto
    qed
  qed
  with wf' show ?thesis by simp
qed

text \<open>The contract of a merge of tracks, over votes: the target gets everything, the sources nothing.\<close>

definition pooled_votes :: "int \<Rightarrow> int list \<Rightarrow> (int \<times> 'g \<Rightarrow> int) \<Rightarrow> (int \<times> 'g \<Rightarrow> int) \<Rightarrow> bool" where
  "pooled_votes target_id source_ids before after \<longleftrightarrow>
     (\<forall>tid v. after (tid, v) =
        (if tid = target_id then (\<Sum>s \<in> insert target_id (set source_ids). before (s, v))
         else if tid \<in> set source_ids then 0 else before (tid, v)))"

definition wf_link_tables :: "fingerprint_db \<Rightarrow> bool" where
  "wf_link_tables db \<longleftrightarrow> wf_links (t_track_mbid db) \<and> wf_links (t_track_puid db)
     \<and> wf_links (t_track_meta db) \<and> wf_links (t_track_foreignid db)"

lemma merge_gids_contract:
  assumes "wf_links tab"
    and "\<And>rs r. lk_id (sd rs r) = lk_id r" "\<And>rs r. link_key (sd rs r) = link_key r"
      "\<And>rs r. lk_submission_count (sd rs r) = lk_submission_count r"
    and "tab' = snd (merge_tracks_gids sd now target_id source_ids tab)"
  shows "wf_links tab' \<and> pooled_votes target_id source_ids (votes tab) (votes tab')"
proof -
  obtain moves where m: "merge_tracks_gids sd now target_id source_ids tab = (moves, tab')"
    using assms(5) by (metis prod.collapse)
  show ?thesis
    unfolding pooled_votes_def using merged_tracks_votes [OF assms(1-4) m] by blast
qed


definition two_track_db :: fingerprint_db where
  "two_track_db = empty_fingerprint_db\<lparr>t_track_mbid := \<lparr>rows =
     [new_mbid_link 0 7 ''a'' 5 1, new_mbid_link 0 8 ''a'' 2 2, new_mbid_link 0 8 ''b'' 1 3], serial = 4\<rparr>\<rparr>"


end
