(* ===== verification/Track.thy ===== *)
theory Track
  imports Links
begin

text \<open>
  The rest of \<^verbatim>\<open>data/track.py\<close>: lookups of MBIDs, metadata and tracks, track redirects, and the
  decisions whether a fingerprint belongs to a track and which tracks could be merged. \<open>compare2\<close>
  stands for the PostgreSQL extension function \<open>acoustid_compare2(fp1, fp2, max_offset)\<close>; scores are
  exact rationals.
\<close>

subsection \<open>Constants\<close>

definition TRACK_MERGE_THRESHOLD :: rat where "TRACK_MERGE_THRESHOLD = 3 / 4"
definition TRACK_GROUP_MERGE_THRESHOLD :: rat where "TRACK_GROUP_MERGE_THRESHOLD = 2 / 5"
definition TRACK_MAX_OFFSET :: int where "TRACK_MAX_OFFSET = 80"
definition FINGERPRINT_MERGE_THRESHOLD :: rat where "FINGERPRINT_MERGE_THRESHOLD = 9 / 10"
definition FINGERPRINT_MIN_UNIQUE_ITEMS :: int where "FINGERPRINT_MIN_UNIQUE_ITEMS = 80"
definition FINGERPRINT_MAX_LENGTH_DIFF :: int where "FINGERPRINT_MAX_LENGTH_DIFF = 7"
definition FINGERPRINT_MAX_ALLOWED_LENGTH_DIFF :: int where "FINGERPRINT_MAX_ALLOWED_LENGTH_DIFF = 30"
definition MAX_REQUESTS_PER_SECOND :: rat where "MAX_REQUESTS_PER_SECOND = 4"
definition DEFAULT_GLOBAL_RATE_LIMIT :: rat where "DEFAULT_GLOBAL_RATE_LIMIT = 100"

subsection \<open>Tracks and redirects\<close>

definition resolve_track_gid :: "fingerprint_db \<Rightarrow> string \<Rightarrow> int option" where
  "resolve_track_gid db gid =
     (case first_of (sel (\<lambda>r. tr_gid r = gid) (t_track db)) of
        None \<Rightarrow> None
      | Some r \<Rightarrow>
          (case tr_new_id r of
             None \<Rightarrow> Some (tr_id r)
           | Some new_track_id \<Rightarrow> scalar (\<lambda>r. tr_id r = new_track_id) tr_id (t_track db)))"

definition insert_track :: "string \<Rightarrow> fingerprint_db \<Rightarrow> int \<times> fingerprint_db" where
  "insert_track gid db =
     (let (i, t) = ins (\<lambda>i. \<lparr>tr_id = i, tr_created = f_now db, tr_updated = None, tr_new_id = None, tr_gid = gid\<rparr>)
                     (t_track db)
      in (i, db\<lparr>t_track := t\<rparr>))"

subsection \<open>Lookups\<close>

definition lookup_mbids :: "fingerprint_db \<Rightarrow> int list \<Rightarrow> (int, (string \<times> int) list) dict" where
  "lookup_mbids db track_ids =
     (if track_ids = [] then []
      else dict_group (map (\<lambda>r. (lk_track_id r, (lk_value r, lk_submission_count r)))
             (sort_key lk_value (sel (\<lambda>r. lk_track_id r \<in> set track_ids \<and> \<not> tm_disabled r) (t_track_mbid db)))))"

definition add_meta_id :: "int option \<Rightarrow> int \<times> int \<Rightarrow> (int, int list) dict \<Rightarrow> (int, int list) dict" where
  "add_meta_id max_ids_per_track row results =
     (let (track_id, meta_id) = row;
          track_meta_ids = (case dict_get results track_id of None \<Rightarrow> [] | Some ids \<Rightarrow> ids)
      in if (case max_ids_per_track of None \<Rightarrow> False | Some m \<Rightarrow> int (length track_meta_ids) \<ge> m)
         then dict_set results track_id track_meta_ids
         else dict_set results track_id (track_meta_ids @ [meta_id]))"

definition lookup_meta_ids :: "fingerprint_db \<Rightarrow> int list \<Rightarrow> int option \<Rightarrow> (int, int list) dict" where
  "lookup_meta_ids db track_ids max_ids_per_track =
     (if track_ids = [] then []
      else fold (add_meta_id max_ids_per_track)
             (map (\<lambda>r. (lk_track_id r, lk_value r))
                (sort_key lk_track_id (sort_key (\<lambda>r. - lk_submission_count r)
                   (sel (\<lambda>r. lk_track_id r \<in> set track_ids) (t_track_meta db))))) [])"

definition lookup_tracks :: "fingerprint_db \<Rightarrow> string list \<Rightarrow> (string, (int \<times> string) list) dict" where
  "lookup_tracks db mbids =
     (if mbids = [] then []
      else dict_group (map (\<lambda>(l, t). (lk_value l, (lk_track_id l, tr_gid t)))
             (sort_key (\<lambda>(l, t). lk_track_id l)
                [(l, t). l \<leftarrow> rows (t_track_mbid db), t \<leftarrow> rows (t_track db),
                         lk_value l \<in> set mbids \<and> \<not> tm_disabled l \<and> lk_track_id l = tr_id t])))"

subsection \<open>Similarity\<close>

type_synonym compare_fn = "int list \<Rightarrow> int list \<Rightarrow> int \<Rightarrow> rat"

definition can_add_fp_to_track :: "compare_fn \<Rightarrow> fingerprint_db \<Rightarrow> int \<Rightarrow> int list \<Rightarrow> int \<Rightarrow> bool" where
  "can_add_fp_to_track compare2 db track_id fingerprint length' =
     list_all (\<lambda>f. \<not> compare2 (fp_fingerprint f) fingerprint TRACK_MAX_OFFSET < TRACK_GROUP_MERGE_THRESHOLD
                 \<and> \<not> \<bar>fp_length f - length'\<bar> > FINGERPRINT_MAX_LENGTH_DIFF)
       (sel (\<lambda>f. fp_track_id f = track_id) (t_fingerprint db))"

text \<open>The pairs of fingerprints the SQL self-join produces, ordered by the two keys.\<close>

definition fingerprint_pairs ::
    "(fingerprint_row \<Rightarrow> int) \<Rightarrow> (fingerprint_row \<Rightarrow> fingerprint_row \<Rightarrow> bool) \<Rightarrow> int list \<Rightarrow> fingerprint_db
     \<Rightarrow> (fingerprint_row \<times> fingerprint_row) list" where
  "fingerprint_pairs key join_cond track_ids db =
     (let fps = sel (\<lambda>f. fp_track_id f \<in> set track_ids) (t_fingerprint db)
      in sort_key (\<lambda>(f, g). key f) (sort_key (\<lambda>(f, g). key g) [(f, g). f \<leftarrow> fps, g \<leftarrow> fps, join_cond f g]))"

definition matrix_set :: "int \<Rightarrow> int \<Rightarrow> rat \<Rightarrow> (int, (int, rat) dict) dict \<Rightarrow> (int, (int, rat) dict) dict" where
  "matrix_set i j score m =
     dict_set m i (dict_set (case dict_get m i of None \<Rightarrow> [] | Some row \<Rightarrow> row) j score)"

definition calculate_fingerprint_similarity_matrix ::
    "compare_fn \<Rightarrow> fingerprint_db \<Rightarrow> int list \<Rightarrow> (int, (int, rat) dict) dict" where
  "calculate_fingerprint_similarity_matrix compare2 db track_ids =
     fold (\<lambda>(f, g) m.
             let score = compare2 (fp_fingerprint f) (fp_fingerprint g) TRACK_MAX_OFFSET
             in matrix_set (fp_id g) (fp_id g) 1 (matrix_set (fp_id f) (fp_id f) 1
                  (matrix_set (fp_id g) (fp_id f) score (matrix_set (fp_id f) (fp_id g) score m))))
       (fingerprint_pairs fp_id (\<lambda>f g. fp_id f < fp_id g) track_ids db) []"

text \<open>
  \<open>can_merge_tracks\<close>: the query groups the pairs of fingerprints of two tracks, with the largest
  difference in length and the worst score of the group; \<open>merge_step\<close> is the body of the loop.
\<close>

definition track_pair_rows ::
    "compare_fn \<Rightarrow> fingerprint_db \<Rightarrow> int list \<Rightarrow> ((int \<times> int) \<times> int \<times> rat) list" where
  "track_pair_rows compare2 db track_ids =
     map (\<lambda>(k, ps). (k, Max (set (map (\<lambda>(f, g). \<bar>fp_length f - fp_length g\<bar>) ps)),
                        Min (set (map (\<lambda>(f, g). compare2 (fp_fingerprint f) (fp_fingerprint g) TRACK_MAX_OFFSET) ps))))
       (dict_group (map (\<lambda>(f, g). ((fp_track_id f, fp_track_id g), (f, g)))
          (fingerprint_pairs fp_track_id (\<lambda>f g. fp_id f < fp_id g \<and> fp_track_id f < fp_track_id g) track_ids db)))"

definition mergeable :: "(int \<times> int) \<times> int \<times> rat \<Rightarrow> bool" where
  "mergeable row = (case row of (_, length_diff, score) \<Rightarrow>
     \<not> score < TRACK_GROUP_MERGE_THRESHOLD \<and> \<not> length_diff > FINGERPRINT_MAX_LENGTH_DIFF)"

definition merge_step :: "(int \<times> int) \<times> int \<times> rat \<Rightarrow> (int, int) dict \<Rightarrow> (int, int) dict" where
  "merge_step row merges =
     (let ((fp1_id, fp2_id), _) = row
      in if \<not> mergeable row then merges
         else dict_set merges fp2_id (case dict_get merges fp1_id of None \<Rightarrow> fp1_id | Some g \<Rightarrow> g))"

definition merge_groups_of :: "(int, int) dict \<Rightarrow> int set list" where
  "merge_groups_of merges =
     map (\<lambda>group. insert group {i \<in> set (dict_keys merges). dict_get merges i = Some group})
       (remdups (map snd merges))"

definition can_merge_tracks :: "compare_fn \<Rightarrow> fingerprint_db \<Rightarrow> int list \<Rightarrow> int set list" where
  "can_merge_tracks compare2 db track_ids =
     merge_groups_of (fold merge_step (track_pair_rows compare2 db track_ids) [])"

subsection \<open>Merge groups are disjoint and connected\<close>

lemma dict_keys_append_eq:
  "dict_keys (dict_append d k v) = (if k \<in> set (dict_keys d) then dict_keys d else dict_keys d @ [k])"
  by (induction d k v rule: dict_append.induct) (auto simp: dict_keys_def)

lemma sorted_dict_group:
  fixes f :: "'k \<Rightarrow> 'o::linorder"
  assumes "sorted (map (f \<circ> fst) kvs)"
  shows "sorted (map f (dict_keys (dict_group kvs)))"
proof -
  have "sorted (map f (dict_keys (fold (\<lambda>(k, v) d. dict_append d k v) kvs d)))"
    if "sorted (map f (dict_keys d))" "sorted (map (f \<circ> fst) kvs)" "\<forall>k \<in> set (dict_keys d). \<forall>kv \<in> set kvs. f k \<le> f (fst kv)" for d
    using that
  proof (induction kvs arbitrary: d)
    case (Cons kv kvs)
    then show ?case
      by (cases kv) (auto simp: dict_keys_append_eq sorted_append intro!: Cons.IH)
  qed simp
  from this [of "[]"] assms show ?thesis by (simp add: dict_group_def dict_keys_def)
qed

lemma dict_group_entries:
  "(k, vs) \<in> set (dict_group kvs) \<longleftrightarrow> vs \<noteq> [] \<and> vs = map snd (filter (\<lambda>kv. fst kv = k) kvs)"
  by (auto simp: in_dict_iff [OF distinct_dict_group] dict_get_group Let_def)

text \<open>\<open>pairs\<close> are the mergeable pairs processed so far and \<open>b\<close> bounds their first components.\<close>

definition merges_inv :: "(int \<times> int) set \<Rightarrow> int \<Rightarrow> (int, int) dict \<Rightarrow> bool" where
  "merges_inv pairs b m \<longleftrightarrow> distinct (dict_keys m) \<and>
     (\<forall>x g. dict_get m x = Some g \<longrightarrow>
        g \<le> b \<and> g < x \<and> dict_get m g = None \<and>
        (\<exists>y. (y, x) \<in> pairs \<and> y \<le> b \<and> y < x \<and> (y = g \<or> dict_get m y = Some g)))"

lemma merges_inv_step:
  assumes inv: "merges_inv pairs b m" and a: "b \<le> a" "a < c"
    and g: "g = (case dict_get m a of None \<Rightarrow> a | Some g \<Rightarrow> g)"
  shows "merges_inv (insert (a, c) pairs) a (dict_set m c g)"
proof -
  have old: "g' \<le> b" "g' < x" "dict_get m g' = None"
      "\<exists>y. (y, x) \<in> pairs \<and> y \<le> b \<and> y < x \<and> (y = g' \<or> dict_get m y = Some g')" if "dict_get m x = Some g'" for x g'
    using inv that unfolding merges_inv_def by blast+
  have gg: "g \<le> a" "dict_get m g = None" "a = g \<or> dict_get m a = Some g"
    using g old(1,3) [of a g] a by (auto split: option.splits)
  have "distinct (dict_keys (dict_set m c g))" using inv by (simp add: merges_inv_def dict_distinct_set)
  moreover have "g' \<le> a \<and> g' < x \<and> dict_get (dict_set m c g) g' = None \<and>
      (\<exists>y. (y, x) \<in> insert (a, c) pairs \<and> y \<le> a \<and> y < x \<and> (y = g' \<or> dict_get (dict_set m c g) y = Some g'))"
    if x: "dict_get (dict_set m c g) x = Some g'" for x g'
  proof (cases "x = c")
    case True
    then have "g' = g" using x by simp
    with True gg a show ?thesis by auto
  next
    case False
    then have m: "dict_get m x = Some g'" using x by simp
    obtain y where y: "(y, x) \<in> pairs" "y \<le> b" "y < x" "y = g' \<or> dict_get m y = Some g'" using old(4) [OF m] by blast
    have "y \<noteq> c" "g' \<noteq> c" using y(2) old(1) [OF m] a by simp_all
    then show ?thesis using old(1-3) [OF m] y a by (intro conjI exI [of _ y]) auto
  qed
  ultimately show ?thesis unfolding merges_inv_def by blast
qed

lemma merges_inv_fold:
  assumes "sorted (map (fst \<circ> fst) prows)" and "\<forall>r \<in> set prows. fst (fst r) < snd (fst r)"
    and "\<forall>r \<in> set prows. b \<le> fst (fst r)" and "merges_inv pairs b m"
  shows "\<exists>b'. merges_inv (pairs \<union> fst ` set (filter mergeable prows)) b' (fold merge_step prows m)"
  using assms
proof (induction prows arbitrary: b pairs m)
  case (Cons r prows)
  obtain a c w where r: "r = ((a, c), w)" by (metis prod.collapse)
  show ?case
  proof (cases "mergeable r")
    case True
    have "merges_inv (insert (a, c) pairs) a (merge_step r m)"
      using merges_inv_step [OF Cons.prems(4), of a c] Cons.prems(2,3) True by (simp add: r merge_step_def)
    from Cons.IH [OF _ _ _ this] Cons.prems(1,2) True show ?thesis by (auto simp: r)
  next
    case False
    then have "merge_step r m = m" by (simp add: merge_step_def case_prod_beta Let_def)
    with Cons.IH [OF _ _ _ Cons.prems(4)] Cons.prems(1,2,3) False show ?thesis by auto
  qed
qed auto

lemma track_pair_rows_sorted: "sorted (map (fst \<circ> fst) (track_pair_rows compare2 db track_ids))"
proof -
  let ?kvs = "map (\<lambda>(f, g). ((fp_track_id f, fp_track_id g), (f, g)))
          (fingerprint_pairs fp_track_id (\<lambda>f g. fp_id f < fp_id g \<and> fp_track_id f < fp_track_id g) track_ids db)"
  have "sorted (map (\<lambda>x. fp_track_id (fst x))
     (fingerprint_pairs fp_track_id (\<lambda>f g. fp_id f < fp_id g \<and> fp_track_id f < fp_track_id g) track_ids db))"
    unfolding fingerprint_pairs_def Let_def case_prod_beta by (rule sorted_sort_key)
  then have "sorted (map (fst \<circ> fst) ?kvs)" by (simp add: comp_def case_prod_beta)
  then have "sorted (map fst (dict_keys (dict_group ?kvs)))" by (rule sorted_dict_group)
  then show ?thesis by (simp add: track_pair_rows_def dict_keys_def comp_def case_prod_beta)
qed

lemma track_pair_rows_less:
  assumes "r \<in> set (track_pair_rows compare2 db track_ids)"
  shows "fst (fst r) < snd (fst r) \<and> fst (fst r) \<in> set track_ids \<and> snd (fst r) \<in> set track_ids"
proof -
  obtain k ps where k: "fst r = k" and e: "(k, ps) \<in> set (dict_group (map (\<lambda>(f, g). ((fp_track_id f, fp_track_id g), (f, g)))
          (fingerprint_pairs fp_track_id (\<lambda>f g. fp_id f < fp_id g \<and> fp_track_id f < fp_track_id g) track_ids db)))"
    using assms by (auto simp: track_pair_rows_def)
  then have "ps \<noteq> []" and ps: "ps = map snd (filter (\<lambda>kv. fst kv = k) (map (\<lambda>(f, g). ((fp_track_id f, fp_track_id g), (f, g)))
          (fingerprint_pairs fp_track_id (\<lambda>f g. fp_id f < fp_id g \<and> fp_track_id f < fp_track_id g) track_ids db)))"
    unfolding dict_group_entries by blast+
  from \<open>ps \<noteq> []\<close> obtain p where "p \<in> set ps" using hd_in_set by blast
  then obtain f g where fg: "(fp_track_id f, fp_track_id g) = k" and mem: "(f, g) \<in>
      set (fingerprint_pairs fp_track_id (\<lambda>f g. fp_id f < fp_id g \<and> fp_track_id f < fp_track_id g) track_ids db)"
    by (auto simp: ps)
  from mem have "fp_track_id f < fp_track_id g \<and> fp_track_id f \<in> set track_ids \<and> fp_track_id g \<in> set track_ids"
    by (auto simp: fingerprint_pairs_def Let_def sel_def split: if_splits)
  with fg k show ?thesis by (metis fst_conv snd_conv)
qed

text \<open>C5: The groups of tracks proposed for merging are disjoint sets of the given tracks, and each one hangs
  together: it has a smallest track, and every other member forms a mergeable pair (worst score at least
  the threshold, lengths close enough) with a smaller member of the same group.\<close>

theorem merge_groups_disjoint_connected:
  assumes "G \<in> set (can_merge_tracks compare2 db track_ids)" and "H \<in> set (can_merge_tracks compare2 db track_ids)"
  shows "(G = H \<or> G \<inter> H = {}) \<and> G \<subseteq> set track_ids
    \<and> (\<exists>root \<in> G. \<forall>x \<in> G. x = root \<or> root < x \<and>
          (\<exists>y \<in> G. y < x \<and> (\<exists>w. ((y, x), w) \<in> set (track_pair_rows compare2 db track_ids) \<and> mergeable ((y, x), w))))"
proof -
  let ?rows = "track_pair_rows compare2 db track_ids"
  let ?m = "fold merge_step ?rows []"
  let ?P = "fst ` set (filter mergeable ?rows)"
  have "\<exists>b. merges_inv ?P b ?m"
  proof (cases ?rows)
    case Nil
    then show ?thesis by (simp add: merges_inv_def dict_get_def dict_keys_def)
  next
    case (Cons r rs)
    have "merges_inv {} (fst (fst r)) []" by (simp add: merges_inv_def dict_get_def dict_keys_def)
    moreover have "\<forall>x \<in> set ?rows. fst (fst r) \<le> fst (fst x)"
      using track_pair_rows_sorted [of compare2 db track_ids] by (auto simp: Cons)
    ultimately show ?thesis
      using merges_inv_fold [OF track_pair_rows_sorted, of compare2 db track_ids "fst (fst r)" "{}" "[]"]
        track_pair_rows_less [of _ compare2 db track_ids] by auto
  qed
  then obtain b where inv: "merges_inv ?P b ?m" by blast
  have grp: "\<exists>g x0. X = insert g {i. dict_get ?m i = Some g} \<and> dict_get ?m x0 = Some g"
    if "X \<in> set (can_merge_tracks compare2 db track_ids)" for X
  proof -
    obtain g where g: "g \<in> set (map snd ?m)" "X = insert g {i \<in> set (dict_keys ?m). dict_get ?m i = Some g}"
      using \<open>X \<in> _\<close> by (auto simp: can_merge_tracks_def merge_groups_of_def)
    have "X = insert g {i. dict_get ?m i = Some g}"
      unfolding g(2) using dict_get_None_iff [of ?m] by (metis (mono_tags, lifting) option.distinct(1))
    moreover obtain x0 where "(x0, g) \<in> set ?m" using g(1) by auto
    then have "dict_get ?m x0 = Some g" using inv in_dict_iff by (metis merges_inv_def)
    ultimately show ?thesis by blast
  qed
  obtain g x0 where G: "G = insert g {i. dict_get ?m i = Some g}" "dict_get ?m x0 = Some g" using grp [OF assms(1)] by blast
  obtain h y0 where H: "H = insert h {i. dict_get ?m i = Some h}" "dict_get ?m y0 = Some h" using grp [OF assms(2)] by blast
  have root: "dict_get ?m g = None" "dict_get ?m h = None" using inv G(2) H(2) by (simp_all add: merges_inv_def)
  have link: "g < x \<and> (\<exists>y. (y, x) \<in> ?P \<and> y < x \<and> (y = g \<or> dict_get ?m y = Some g))" if "dict_get ?m x = Some g" for x
    using inv that unfolding merges_inv_def by blast
  have pair: "y \<in> set track_ids \<and> x \<in> set track_ids \<and> (\<exists>w. ((y, x), w) \<in> set ?rows \<and> mergeable ((y, x), w))"
    if yx: "(y, x) \<in> ?P" for x y
  proof -
    obtain r where "r \<in> set ?rows" "mergeable r" "fst r = (y, x)" using yx by auto
    then show ?thesis using track_pair_rows_less [of r compare2 db track_ids] by (metis fst_conv prod.collapse snd_conv)
  qed
  have in_ids: "x \<in> set track_ids" if "dict_get ?m x = Some g" for x using link [OF that] pair by blast
  have "g \<in> set track_ids"
  proof -
    have "\<exists>x. (g, x) \<in> ?P" if "dict_get ?m x = Some g" for x
      using that
    proof (induction "nat (x - g)" arbitrary: x rule: less_induct)
      case less
      obtain y where y: "(y, x) \<in> ?P" "y < x" "y = g \<or> dict_get ?m y = Some g" using link [OF less.prems] by blast
      show ?case
      proof (cases "y = g")
        case True
        with y(1) show ?thesis by blast
      next
        case False
        then have d: "dict_get ?m y = Some g" using y(3) by simp
        then have "g < y" using link by blast
        with y(2) have "nat (y - g) < nat (x - g)" by simp
        from less.hyps [OF this d] show ?thesis .
      qed
    qed
    with G(2) pair show ?thesis by blast
  qed
  with in_ids have sub: "G \<subseteq> set track_ids" by (auto simp: G(1))
  have dis: "G = H \<or> G \<inter> H = {}"
    using root by (auto simp: G(1) H(1))
  have con: "\<exists>root \<in> G. \<forall>x \<in> G. x = root \<or> root < x \<and>
          (\<exists>y \<in> G. y < x \<and> (\<exists>w. ((y, x), w) \<in> set ?rows \<and> mergeable ((y, x), w)))"
  proof (rule bexI [of _ g], rule ballI)
    show "g \<in> G" by (simp add: G(1))
    fix x assume "x \<in> G"
    then consider "x = g" | "dict_get ?m x = Some g" by (auto simp: G(1))
    then show "x = g \<or> g < x \<and> (\<exists>y \<in> G. y < x \<and> (\<exists>w. ((y, x), w) \<in> set ?rows \<and> mergeable ((y, x), w)))"
    proof cases
      case 2
      then obtain y where y: "g < x" "(y, x) \<in> ?P" "y < x" "y = g \<or> dict_get ?m y = Some g" using link by blast
      then have "y \<in> G" by (auto simp: G(1))
      with y pair show ?thesis by blast
    qed simp
  qed
  from dis sub con show ?thesis by blast
qed

definition sample_fp :: "int \<Rightarrow> int \<Rightarrow> int list \<Rightarrow> int \<Rightarrow> fingerprint_row" where
  "sample_fp i track_id hashes len = \<lparr>fp_id = i, fp_fingerprint = hashes, fp_length = len, fp_bitrate = None,
     fp_format_id = None, fp_created = 0, fp_updated = None, fp_track_id = track_id, fp_submission_count = 1\<rparr>"

definition two_fp_db :: fingerprint_db where
  "two_fp_db = empty_fingerprint_db\<lparr>t_fingerprint := \<lparr>rows = [sample_fp 1 7 [1] 10, sample_fp 2 8 [1] 12], serial = 3\<rparr>\<rparr>"

theorem merge_groups_disjoint_connected_witness:
  "{7, 8} \<in> set (can_merge_tracks (\<lambda>_ _ _. 1) two_fp_db [7, 8]) \<and> {7, 8} \<subseteq> set [7 :: int, 8]"
proof -
  have m: "can_merge_tracks (\<lambda>_ _ _. 1) two_fp_db [7, 8] = [{7, 8}]"
    by (simp add: can_merge_tracks_def merge_groups_of_def track_pair_rows_def fingerprint_pairs_def two_fp_db_def
        sample_fp_def sel_def dict_group_def merge_step_def mergeable_def dict_get_def dict_keys_def
        TRACK_GROUP_MERGE_THRESHOLD_def FINGERPRINT_MAX_LENGTH_DIFF_def)
  have g: "{7, 8} \<in> set (can_merge_tracks (\<lambda>_ _ _. 1) two_fp_db [7, 8])" by (simp add: m)
  from merge_groups_disjoint_connected [OF g g] g show ?thesis by blast
qed

subsection \<open>Redirects stay flat\<close>

definition flat_redirects :: "fingerprint_db \<Rightarrow> bool" where
  "flat_redirects db \<longleftrightarrow> wf_table tr_id (t_track db) \<and> distinct (map tr_gid (rows (t_track db))) \<and>
     (\<forall>r \<in> set (rows (t_track db)). \<forall>n. tr_new_id r = Some n \<longrightarrow>
        (\<exists>t \<in> set (rows (t_track db)). tr_id t = n \<and> tr_new_id t = None))"

lemma resolve_row:
  assumes "flat_redirects db" and r: "r \<in> set (rows (t_track db))"
  shows "resolve_track_gid db (tr_gid r) = Some (case tr_new_id r of None \<Rightarrow> tr_id r | Some n \<Rightarrow> n)"
proof -
  have "first_of (sel (\<lambda>x. tr_gid x = tr_gid r) (t_track db)) = Some r"
    using filter_unique [of tr_gid, OF _ r] assms(1) by (simp add: flat_redirects_def sel_def)
  moreover have "scalar (\<lambda>x. tr_id x = n) tr_id (t_track db) = Some n" if "tr_new_id r = Some n" for n
  proof -
    have "scalar (\<lambda>x. tr_id x = n) tr_id (t_track db) \<noteq> None"
      using assms that unfolding scalar_None_iff flat_redirects_def by blast
    then show ?thesis by (auto dest: scalar_SomeD)
  qed
  ultimately show ?thesis by (simp add: resolve_track_gid_def split: option.split)
qed

text \<open>C4: After a merge into a live track, every public identifier resolves in one step to a live track: the
  identifiers that resolved to a merged track now resolve to the target and all others resolve as before.\<close>

theorem merge_tracks_redirects:
  assumes flat: "flat_redirects fdb"
    and tgt: "t \<in> set (rows (t_track fdb))" "tr_id t = target_id" "tr_new_id t = None" "target_id \<notin> set source_ids"
    and res: "merge_tracks fdb idb target_id source_ids = (fdb', idb')"
  shows "flat_redirects fdb' \<and> (\<forall>r \<in> set (rows (t_track fdb)).
     resolve_track_gid fdb' (tr_gid r) =
       (case resolve_track_gid fdb (tr_gid r) of
          None \<Rightarrow> None
        | Some i \<Rightarrow> Some (if i \<in> set source_ids \<or> tr_id r \<in> set source_ids then target_id else i)))"
proof -
  let ?P = "\<lambda>r. tr_id r \<in> set source_ids \<or> (\<exists>n \<in> set source_ids. tr_new_id r = Some n)"
  let ?f = "\<lambda>r. r\<lparr>tr_new_id := Some target_id, tr_updated := Some (f_now fdb)\<rparr>"
  let ?g = "\<lambda>r. if ?P r then ?f r else r"
  have tracks: "t_track fdb' = upd ?P ?f (t_track fdb)"
    using res by (auto simp: merge_tracks_def Let_def case_prod_beta)
  have rows': "rows (t_track fdb') = map ?g (rows (t_track fdb))" by (simp add: tracks table_simps)
  have keep: "tr_id (?g r) = tr_id r" "tr_gid (?g r) = tr_gid r" for r by simp_all
  have t': "t \<in> set (rows (t_track fdb'))" using tgt by (force simp: rows')
  have live: "\<exists>x \<in> set (rows (t_track fdb')). tr_id x = n \<and> tr_new_id x = None"
    if r: "r \<in> set (rows (t_track fdb))" and n: "tr_new_id (?g r) = Some n" for r n
  proof (cases "?P r")
    case True
    with n t' tgt show ?thesis by auto
  next
    case False
    then have "tr_new_id r = Some n" using n by simp
    then obtain x where x: "x \<in> set (rows (t_track fdb))" "tr_id x = n" "tr_new_id x = None"
      using flat r by (auto simp: flat_redirects_def)
    moreover have "\<not> ?P x" using False \<open>tr_new_id r = Some n\<close> x by auto
    ultimately have "x \<in> set (rows (t_track fdb'))" by (force simp: rows')
    with x show ?thesis by blast
  qed
  have flat': "flat_redirects fdb'"
    unfolding flat_redirects_def
  proof (intro conjI ballI allI impI)
    show "wf_table tr_id (t_track fdb')" unfolding tracks using flat by (intro wf_table_upd) (simp_all add: flat_redirects_def)
    have "map tr_gid (rows (t_track fdb')) = map tr_gid (rows (t_track fdb))" by (simp add: rows')
    then show "distinct (map tr_gid (rows (t_track fdb')))" using flat by (simp add: flat_redirects_def)
    fix r n assume "r \<in> set (rows (t_track fdb'))" "tr_new_id r = Some n"
    then obtain r0 where "r0 \<in> set (rows (t_track fdb))" "r = ?g r0" unfolding rows' by auto
    with live \<open>tr_new_id r = Some n\<close> show "\<exists>t \<in> set (rows (t_track fdb')). tr_id t = n \<and> tr_new_id t = None" by blast
  qed
  have "resolve_track_gid fdb' (tr_gid r) =
       (case resolve_track_gid fdb (tr_gid r) of
          None \<Rightarrow> None
        | Some i \<Rightarrow> Some (if i \<in> set source_ids \<or> tr_id r \<in> set source_ids then target_id else i))"
    if r: "r \<in> set (rows (t_track fdb))" for r
  proof -
    have "?g r \<in> set (rows (t_track fdb'))" using r by (simp add: rows')
    from resolve_row [OF flat' this] resolve_row [OF flat r] show ?thesis
      by (auto simp: keep split: option.split)
  qed
  with flat' show ?thesis by blast
qed

definition sample_track :: "int \<Rightarrow> string \<Rightarrow> int option \<Rightarrow> track_row" where
  "sample_track i gid new_id = \<lparr>tr_id = i, tr_created = 0, tr_updated = None, tr_new_id = new_id, tr_gid = gid\<rparr>"

definition three_track_db :: fingerprint_db where
  "three_track_db = empty_fingerprint_db\<lparr>t_track :=
     \<lparr>rows = [sample_track 1 ''a'' None, sample_track 2 ''b'' None, sample_track 3 ''c'' (Some 2)], serial = 4\<rparr>\<rparr>"

theorem merge_tracks_redirects_witness:
  "resolve_track_gid (fst (merge_tracks three_track_db empty_ingest_db 1 [2])) ''c'' = Some 1"
proof -
  have flat: "flat_redirects three_track_db"
    by (simp add: flat_redirects_def three_track_db_def sample_track_def wf_table_def)
  have tgt: "sample_track 1 ''a'' None \<in> set (rows (t_track three_track_db))" "tr_id (sample_track 1 ''a'' None) = 1"
    "tr_new_id (sample_track 1 ''a'' None) = None" "(1 :: int) \<notin> set [2]"
    by (simp_all add: three_track_db_def sample_track_def)
  obtain fdb' idb' where m: "merge_tracks three_track_db empty_ingest_db 1 [2] = (fdb', idb')" by fastforce
  have r: "sample_track 3 ''c'' (Some 2) \<in> set (rows (t_track three_track_db))" by (simp add: three_track_db_def)
  have g: "tr_gid (sample_track 3 ''c'' (Some 2)) = ''c''" by (simp add: sample_track_def)
  have "resolve_track_gid three_track_db ''c'' = Some 2"
    by (simp add: resolve_track_gid_def three_track_db_def sample_track_def sel_def scalar_def)
  then show ?thesis
    using bspec [OF conjunct2 [OF merge_tracks_redirects [OF flat tgt m]] r] by (simp add: m g)
qed

subsection \<open>The best metadata per track\<close>

lemma take_room:
  "take (nat k - n) (m # l) = (if int n \<ge> k then [] else m # take (nat k - Suc n) l)"
proof (cases "int n \<ge> k")
  case False
  then have "nat k - n = Suc (nat k - Suc n)" by arith
  with False show ?thesis by simp
qed simp

lemma fold_add_meta_id:
  "dict_get (fold (add_meta_id max_ids) prs d) tid =
     (let l = map snd (filter (\<lambda>p. fst p = tid) prs)
      in if l = [] then dict_get d tid
         else Some (let old = (case dict_get d tid of None \<Rightarrow> [] | Some ids \<Rightarrow> ids)
                    in case max_ids of None \<Rightarrow> old @ l | Some m \<Rightarrow> old @ take (nat m - length old) l))"
proof (induction prs arbitrary: d)
  case (Cons p prs)
  obtain t m where p: "p = (t, m)" by fastforce
  show ?case
  proof (cases "t = tid")
    case False
    then have "dict_get (add_meta_id max_ids p d) tid = dict_get d tid"
      by (simp add: p add_meta_id_def Let_def)
    with Cons False show ?thesis by (simp add: p Let_def)
  next
    case True
    let ?old = "case dict_get d tid of None \<Rightarrow> [] | Some ids \<Rightarrow> ids"
    have step: "dict_get (add_meta_id max_ids p d) tid =
        Some (case max_ids of None \<Rightarrow> ?old @ [m] | Some k \<Rightarrow> if int (length ?old) \<ge> k then ?old else ?old @ [m])"
      by (simp add: p True add_meta_id_def Let_def split: option.split)
    let ?l = "map snd (filter (\<lambda>p. fst p = tid) prs)"
    show ?thesis
      unfolding fold_simps Cons.IH step
      by (cases max_ids) (auto simp: True p Let_def take_room simp del: take_Cons')
  qed
qed (simp add: Let_def)

lemma sort_key_const_on:
  "sort_key lk_track_id (sort_key f (filter (\<lambda>r. lk_track_id r = tid) xs)) = sort_key f (filter (\<lambda>r. lk_track_id r = tid) xs)"
proof -
  let ?ys = "sort_key f (filter (\<lambda>r. lk_track_id r = tid) xs)"
  have "map lk_track_id ?ys = replicate (length ?ys) tid"
    by (auto simp del: length_sort intro!: replicate_eqI)
  then have "sorted (map lk_track_id ?ys)" by (simp only: sorted_replicate)
  then show ?thesis by (rule sort_key_id_if_sorted)
qed

text \<open>The metadata looked up for a track is exactly its most supported records, in descending order of
  their submission counts and cut at the requested number per track; a track without metadata, or one
  that was not asked for, has no entry.\<close>

lemma lookup_meta_ids_top:
  "dict_get (lookup_meta_ids db track_ids max_ids) tid =
     (let best = map lk_value (sort_key (\<lambda>r. - lk_submission_count r) (sel (\<lambda>r. lk_track_id r = tid) (t_track_meta db)))
      in if tid \<in> set track_ids \<and> best \<noteq> []
         then Some (case max_ids of None \<Rightarrow> best | Some m \<Rightarrow> take (nat m) best) else None)"
proof (cases "track_ids = []")
  case False
  let ?sel = "sel (\<lambda>r. lk_track_id r \<in> set track_ids) (t_track_meta db)"
  let ?sorted = "sort_key lk_track_id (sort_key (\<lambda>r. - lk_submission_count r) ?sel)"
  let ?best = "map lk_value (sort_key (\<lambda>r. - lk_submission_count r) (sel (\<lambda>r. lk_track_id r = tid) (t_track_meta db)))"
  have "filter (\<lambda>r. lk_track_id r = tid) ?sorted =
      sort_key lk_track_id (sort_key (\<lambda>r. - lk_submission_count r) (filter (\<lambda>r. lk_track_id r = tid) ?sel))"
    by (simp add: filter_sort)
  also have "\<dots> = sort_key (\<lambda>r. - lk_submission_count r) (filter (\<lambda>r. lk_track_id r = tid) ?sel)"
    by (rule sort_key_const_on)
  also have "filter (\<lambda>r. lk_track_id r = tid) ?sel =
      (if tid \<in> set track_ids then sel (\<lambda>r. lk_track_id r = tid) (t_track_meta db) else [])"
    by (auto simp: sel_def filter_empty_conv intro!: filter_cong)
  finally have rows: "map snd (filter (\<lambda>p. fst p = tid) (map (\<lambda>r. (lk_track_id r, lk_value r)) ?sorted)) =
      (if tid \<in> set track_ids then ?best else [])"
    by (simp add: filter_map comp_def)
  show ?thesis
    using False by (auto simp: lookup_meta_ids_def fold_add_meta_id rows Let_def split: option.split)
qed (simp add: lookup_meta_ids_def dict_get_def Let_def)

end
