(* ===== verification/Fp_Search.thy ===== *)
theory Fp_Search
  imports Track Json Py_Strings
begin

text \<open>
  \<^verbatim>\<open>data/fingerprint.py\<close> and \<^verbatim>\<open>fpstore.py\<close>: searching fingerprints and storing them. Parameters stand for
  the PostgreSQL extension functions \<open>acoustid_compare2\<close> (\<open>compare2\<close>) and \<open>acoustid_extract_query\<close>
  (\<open>xq\<close>), for Chromaprint's decoder, for the index server behind the connection pool and for the HTTP
  transport. Whether a statement hits \<open>statement_timeout\<close> is an outcome the environment chooses.
\<close>

subsection \<open>Decoding\<close>

definition FINGERPRINT_VERSION :: int where "FINGERPRINT_VERSION = 1"

text \<open>\<open>decode_legacy\<close> is \<open>decode_legacy_fingerprint\<close>; \<open>None\<close> is its \<open>FingerprintError\<close>.\<close>

definition decode_fingerprint :: "(string \<Rightarrow> (int list \<times> int) option) \<Rightarrow> string \<Rightarrow> int list option" where
  "decode_fingerprint decode_legacy data =
     (case decode_legacy data of
        None \<Rightarrow> None
      | Some (fingerprint, version) \<Rightarrow> if version \<noteq> FINGERPRINT_VERSION then None else Some fingerprint)"

subsection \<open>The fingerprint store client\<close>

record http_response =
  status_code :: int
  body :: json

datatype transport_result = Response http_response | ReadTimeout | ConnectionFailed

record fpstore_request =
  rq_hashes :: "int list"
  rq_limit :: int
  rq_fast_mode :: bool
  rq_min_score :: rat
  rq_grpc_timeout :: string

definition build_search_request :: "int list \<Rightarrow> int \<Rightarrow> bool \<Rightarrow> rat \<Rightarrow> rat \<Rightarrow> fpstore_request" where
  "build_search_request query limit fast_mode min_score timeout =
     \<lparr>rq_hashes = map (\<lambda>h. h mod 2 ^ 32) query, rq_limit = limit, rq_fast_mode = fast_mode, rq_min_score = min_score,
      rq_grpc_timeout = int_str (if timeout * 1000 \<ge> 0 then \<lfloor>timeout * 1000\<rfloor> else \<lceil>timeout * 1000\<rceil>) @ ''m''\<rparr>"

text \<open>\<open>int(x)\<close> and \<open>float(x)\<close> of a JSON value; \<open>flt\<close> is Python's conversion of texts to floats.\<close>

fun py_int_of :: "json \<Rightarrow> py_exc + int" where
  "py_int_of (JInt i) = Inr i"
| "py_int_of (JNum q) = Inr (if q \<ge> 0 then \<lfloor>q\<rfloor> else \<lceil>q\<rceil>)"
| "py_int_of (JBool b) = Inr (if b then 1 else 0)"
| "py_int_of (JStr s) = (case py_int s of None \<Rightarrow> Inl ValueError | Some i \<Rightarrow> Inr i)"
| "py_int_of _ = Inl TypeError"

fun py_float_of :: "(string \<Rightarrow> rat option) \<Rightarrow> json \<Rightarrow> py_exc + rat" where
  "py_float_of flt (JInt i) = Inr (of_int i)"
| "py_float_of flt (JNum q) = Inr q"
| "py_float_of flt (JBool b) = Inr (if b then 1 else 0)"
| "py_float_of flt (JStr s) = (case flt s of None \<Rightarrow> Inl ValueError | Some q \<Rightarrow> Inr q)"
| "py_float_of flt _ = Inl TypeError"

fun parse_results :: "(string \<Rightarrow> rat option) \<Rightarrow> json list \<Rightarrow> py_exc + (int \<times> rat) list" where
  "parse_results flt [] = Inr []"
| "parse_results flt (r # rs) =
     (case (jget r ''id'', jget r ''score'') of
        (Some i, Some s) \<Rightarrow>
          (case py_int_of i of
             Inl e \<Rightarrow> Inl e
           | Inr i \<Rightarrow>
               (case py_float_of flt s of
                  Inl e \<Rightarrow> Inl e
                | Inr s \<Rightarrow>
                    (case parse_results flt rs of Inl e \<Rightarrow> Inl e | Inr out \<Rightarrow> Inr ((i, s) # out))))
      | _ \<Rightarrow> Inl KeyError)"

definition parse_search_response :: "(string \<Rightarrow> rat option) \<Rightarrow> http_response \<Rightarrow> py_exc + (int \<times> rat) list" where
  "parse_search_response flt response =
     (if status_code response \<noteq> 200 \<and> status_code response = 504 then Inl TimeoutError
      else if status_code response \<noteq> 200 \<and> status_code response \<ge> 400 \<and> status_code response < 600 then Inl HTTPError
      else case jget (body response) ''results'' of
             Some (JArr rs) \<Rightarrow> parse_results flt rs
           | None \<Rightarrow> Inl KeyError
           | Some _ \<Rightarrow> Inl TypeError)"

definition fpstore_search ::
    "(string \<Rightarrow> rat option) \<Rightarrow> (fpstore_request \<Rightarrow> rat \<Rightarrow> transport_result) \<Rightarrow> int list \<Rightarrow> int \<Rightarrow> bool \<Rightarrow> rat \<Rightarrow> rat option
     \<Rightarrow> py_exc + (int \<times> rat) list" where
  "fpstore_search flt send query limit fast_mode min_score timeout =
     (let timeout = (case timeout of None \<Rightarrow> 5 | Some t \<Rightarrow> t);
          request = build_search_request query limit fast_mode min_score timeout
      in case send request (timeout + 1 / 2) of
           ReadTimeout \<Rightarrow> Inl TimeoutError
         | ConnectionFailed \<Rightarrow> Inl HTTPError
         | Response response \<Rightarrow> parse_search_response flt response)"

subsection \<open>The searcher\<close>

record fp_match =
  fm_fingerprint_id :: int
  fm_track_id :: int
  fm_track_gid :: string
  fm_score :: rat

record searcher =
  s_min_score :: rat
  s_max_length_diff :: int
  s_max_offset :: int
  s_fast :: bool
  s_timeout :: "rat option"

definition new_searcher :: "bool \<Rightarrow> rat option \<Rightarrow> searcher" where
  "new_searcher fast timeout =
     \<lparr>s_min_score = TRACK_GROUP_MERGE_THRESHOLD, s_max_length_diff = FINGERPRINT_MAX_LENGTH_DIFF,
      s_max_offset = TRACK_MAX_OFFSET, s_fast = fast, s_timeout = timeout\<rparr>"

text \<open>
  What the searcher sees of its environment: the index client (or the error that connecting raises), the
  fate of the SQL statement, and the fingerprint store.
\<close>

datatype sql_outcome = Finished | StatementTimeout | OtherOperationalError

record index_view =
  ix_search :: "int list \<Rightarrow> py_exc + (int \<times> int) list"
  ix_attribute :: "string \<Rightarrow> string option"

record search_env =
  e_compare2 :: compare_fn
  e_xq :: "int list \<Rightarrow> int list"
  e_connect :: "py_exc + index_view"
  e_sql :: sql_outcome
  e_fpstore :: "(fpstore_request \<Rightarrow> rat \<Rightarrow> transport_result) option"
  e_only_database :: bool
  e_float :: "string \<Rightarrow> rat option"

definition score_of :: "search_env \<Rightarrow> searcher \<Rightarrow> int list option \<Rightarrow> fingerprint_row \<Rightarrow> rat" where
  "score_of env s compare_to f =
     (case compare_to of
        None \<Rightarrow> 1
      | Some fp \<Rightarrow> if fp = [] then 1 else e_compare2 env (fp_fingerprint f) fp (s_max_offset s))"

text \<open>\<open>_create_search_query\<close> and its execution.\<close>

definition search_rows ::
    "search_env \<Rightarrow> searcher \<Rightarrow> int \<Rightarrow> (fingerprint_row \<Rightarrow> bool) \<Rightarrow> int list option \<Rightarrow> fingerprint_db \<Rightarrow> fp_match list" where
  "search_rows env s len condition compare_to db =
     sort_key (\<lambda>m. - fm_score m) (sort_key fm_fingerprint_id
       [\<lparr>fm_fingerprint_id = fp_id f, fm_track_id = fp_track_id f, fm_track_gid = tr_gid t, fm_score = score_of env s compare_to f\<rparr>.
          f \<leftarrow> rows (t_fingerprint db), t \<leftarrow> rows (t_track db),
          condition f \<and> len - s_max_length_diff s \<le> fp_length f \<and> fp_length f \<le> len + s_max_length_diff s
          \<and> tr_id t = fp_track_id f \<and> score_of env s compare_to f > s_min_score s])"

definition sql_limit :: "int option \<Rightarrow> 'a list \<Rightarrow> 'a list" where
  "sql_limit max_results xs = (if truthy_int max_results then take (nat (the max_results)) xs else xs)"

definition run_search_query ::
    "search_env \<Rightarrow> searcher \<Rightarrow> int \<Rightarrow> (fingerprint_row \<Rightarrow> bool) \<Rightarrow> int option \<Rightarrow> int list option \<Rightarrow> fingerprint_db
     \<Rightarrow> py_exc + fp_match list" where
  "run_search_query env s len condition max_results compare_to db =
     (case e_sql env of
        Finished \<Rightarrow> Inr (sql_limit max_results (search_rows env s len condition compare_to db))
      | StatementTimeout \<Rightarrow> Inr []
      | OtherOperationalError \<Rightarrow> Inl OperationalError)"

definition search_index ::
    "search_env \<Rightarrow> int list \<Rightarrow> index_view \<Rightarrow> nat \<Rightarrow> rat \<Rightarrow> py_exc + int list option" where
  "search_index env fp index max_candidates min_score_pct =
     (let fp_query = e_xq env fp
      in if fp_query = [] then Inr None
         else case ix_search index fp_query of
           Inl e \<Rightarrow> Inl e
         | Inr results \<Rightarrow>
             (case sort_key (\<lambda>r. - snd r) results of
                [] \<Rightarrow> Inr None
              | best # rest \<Rightarrow>
                  (let min_score = of_int (snd best) * min_score_pct / 100;
                       results = take max_candidates (filter (\<lambda>r. of_int (snd r) > min_score) (best # rest))
                   in if results = [] then Inr None else Inr (Some (map fst results)))))"

definition search_database :: "search_env \<Rightarrow> int list \<Rightarrow> int \<Rightarrow> fingerprint_row \<Rightarrow> bool" where
  "search_database env fp min_fingerprint_id f \<longleftrightarrow>
     set (e_xq env (fp_fingerprint f)) \<inter> set (e_xq env fp) \<noteq> {} \<and> fp_id f > min_fingerprint_id"

definition get_max_indexed_fingerprint_id :: "index_view \<Rightarrow> py_exc + int" where
  "get_max_indexed_fingerprint_id index =
     (let s = (case ix_attribute index ''max_document_id'' of None \<Rightarrow> ''0'' | Some s \<Rightarrow> if s = [] then ''0'' else s)
      in case py_int s of None \<Rightarrow> Inl ValueError | Some i \<Rightarrow> Inr i)"

text \<open>The conditions \<open>_search_directly\<close> collects from the index: candidates, and the last indexed id.\<close>

definition index_conditions :: "search_env \<Rightarrow> searcher \<Rightarrow> int list \<Rightarrow> py_exc + int list option \<times> int" where
  "index_conditions env s fp =
     (if e_only_database env then Inr (None, 0)
      else case e_connect env of
        Inl e \<Rightarrow> Inl e
      | Inr index \<Rightarrow>
          if s_fast s then Inr (None, 0)
          else (case get_max_indexed_fingerprint_id index of
                  Inl e \<Rightarrow> Inl e
                | Inr max_indexed \<Rightarrow>
                    (case search_index env fp index (if s_fast s then 10 else 20) (if s_fast s then 40 else 10) of
                       Inl e \<Rightarrow> Inl e
                     | Inr candidates \<Rightarrow> Inr (candidates, max_indexed))))"

definition search_directly ::
    "search_env \<Rightarrow> searcher \<Rightarrow> int list \<Rightarrow> int \<Rightarrow> int option \<Rightarrow> fingerprint_db \<Rightarrow> py_exc + fp_match list" where
  "search_directly env s fp len max_results db =
     (case index_conditions env s fp of
        Inl e \<Rightarrow> Inl e
      | Inr (candidates, max_indexed) \<Rightarrow>
          (let conditions =
                 (case candidates of None \<Rightarrow> [] | Some ids \<Rightarrow> [\<lambda>f. fp_id f \<in> set ids])
                 @ (if \<not> s_fast s \<or> e_only_database env then [search_database env fp max_indexed] else [])
           in if conditions = [] then Inr []
              else run_search_query env s len (\<lambda>f. \<exists>c \<in> set conditions. c f) max_results (Some fp) db))"

definition score_dict :: "(int \<times> rat) list \<Rightarrow> (int, rat) dict" where
  "score_dict hits = fold (\<lambda>(i, score) d. dict_set d i score) hits []"

definition search_via_fpstore ::
    "(fpstore_request \<Rightarrow> rat \<Rightarrow> transport_result) \<Rightarrow> search_env \<Rightarrow> searcher \<Rightarrow> int list \<Rightarrow> int \<Rightarrow> int option
     \<Rightarrow> fingerprint_db \<Rightarrow> py_exc + fp_match list" where
  "search_via_fpstore send env s fp len max_results db =
     (let max_results = (case max_results of None \<Rightarrow> 100 | Some n \<Rightarrow> n)
      in case fpstore_search (e_float env) send fp max_results (s_fast s) (s_min_score s) (s_timeout s) of
           Inl e \<Rightarrow> if e = TimeoutError \<and> s_fast s then Inr [] else Inl e
         | Inr [] \<Rightarrow> Inr []
         | Inr (m # ms) \<Rightarrow>
             (let scores = score_dict (m # ms)
              in case run_search_query env s len (\<lambda>f. fp_id f \<in> set (dict_keys scores)) (Some max_results) None db of
                   Inl e \<Rightarrow> Inl e
                 | Inr results \<Rightarrow>
                     Inr (sort_key (\<lambda>m. - fm_score m)
                       (map (\<lambda>m. m\<lparr>fm_score := the (dict_get scores (fm_fingerprint_id m))\<rparr>) results))))"

definition search :: "search_env \<Rightarrow> searcher \<Rightarrow> int list \<Rightarrow> int \<Rightarrow> int option \<Rightarrow> fingerprint_db \<Rightarrow> py_exc + fp_match list" where
  "search env s fp len max_results db =
     (case e_fpstore env of
        Some send \<Rightarrow> if \<not> e_only_database env then search_via_fpstore send env s fp len max_results db
                     else search_directly env s fp len max_results db
      | None \<Rightarrow> search_directly env s fp len max_results db)"

subsection \<open>Storing fingerprints\<close>

record fp_data =
  fd_fingerprint :: "int list"
  fd_length :: int
  fd_bitrate :: "int option"
  fd_format_id :: "int option"
  fd_track_id :: int

definition add_fingerprint_source ::
    "int \<Rightarrow> int option \<Rightarrow> int option \<Rightarrow> ingest_db \<Rightarrow> ingest_db" where
  "add_fingerprint_source fingerprint_id submission_id source_id db =
     (if truthy_int submission_id \<and> truthy_int source_id
      then db\<lparr>t_fingerprint_source := snd (ins (\<lambda>i. \<lparr>fs_id = i, fs_fingerprint_id = fingerprint_id,
              fs_submission_id = the submission_id, fs_source_id = the source_id, fs_created = i_now db\<rparr>)
              (t_fingerprint_source db))\<rparr>
      else db)"

text \<open>The insertion fires the change-log trigger of the table.\<close>

definition insert_fingerprint ::
    "(int list \<Rightarrow> int list) \<Rightarrow> fingerprint_db \<Rightarrow> ingest_db \<Rightarrow> fp_data \<Rightarrow> int option \<Rightarrow> int option
     \<Rightarrow> int \<times> fingerprint_db \<times> ingest_db" where
  "insert_fingerprint xq fdb idb data submission_id source_id =
     (let mk = (\<lambda>i. \<lparr>fp_id = i, fp_fingerprint = fd_fingerprint data, fp_length = fd_length data,
                      fp_bitrate = fd_bitrate data, fp_format_id = fd_format_id data, fp_created = f_now fdb,
                      fp_updated = None, fp_track_id = fd_track_id data, fp_submission_count = 1\<rparr>);
          (fingerprint_id, t) = ins mk (t_fingerprint fdb);
          fdb = fpindex_changelog_insert xq (mk fingerprint_id) (fdb\<lparr>t_fingerprint := t\<rparr>)
      in (fingerprint_id, fdb, add_fingerprint_source fingerprint_id submission_id source_id idb))"

definition inc_fingerprint_submission_count ::
    "fingerprint_db \<Rightarrow> ingest_db \<Rightarrow> int \<Rightarrow> int option \<Rightarrow> int option \<Rightarrow> fingerprint_db \<times> ingest_db" where
  "inc_fingerprint_submission_count fdb idb fingerprint_id submission_id source_id =
     (fdb\<lparr>t_fingerprint := upd (\<lambda>r. fp_id r = fingerprint_id)
            (\<lambda>r. r\<lparr>fp_submission_count := fp_submission_count r + 1\<rparr>) (t_fingerprint fdb)\<rparr>,
      add_fingerprint_source fingerprint_id submission_id source_id idb)"

text \<open>The commands \<open>update_fingerprint_index\<close> sends to the index.\<close>

datatype index_cmd = Begin | Insert int "int list" | Commit

definition update_fingerprint_index ::
    "(int list \<Rightarrow> int list) \<Rightarrow> fingerprint_db \<Rightarrow> index_view \<Rightarrow> nat \<Rightarrow> py_exc + index_cmd list" where
  "update_fingerprint_index xq db index limit =
     (case get_max_indexed_fingerprint_id index of
        Inl e \<Rightarrow> Inl e
      | Inr max_id \<Rightarrow>
          (let new = take limit (sort_key fp_id (sel (\<lambda>r. fp_id r > max_id) (t_fingerprint db)))
           in Inr (if new = [] then []
                   else [Begin] @ map (\<lambda>r. Insert (fp_id r) (xq (fp_fingerprint r))) new @ [Commit])))"

subsection \<open>What a search returns\<close>

lemma in_search_rows:
  "m \<in> set (search_rows env s len condition compare_to db) \<longleftrightarrow>
     (\<exists>f \<in> set (rows (t_fingerprint db)). \<exists>t \<in> set (rows (t_track db)).
        condition f \<and> \<bar>fp_length f - len\<bar> \<le> s_max_length_diff s \<and> tr_id t = fp_track_id f
        \<and> score_of env s compare_to f > s_min_score s
        \<and> m = \<lparr>fm_fingerprint_id = fp_id f, fm_track_id = fp_track_id f, fm_track_gid = tr_gid t, fm_score = score_of env s compare_to f\<rparr>)"
proof -
  have abs: "len - d \<le> l \<and> l \<le> len + d \<longleftrightarrow> \<bar>l - len\<bar> \<le> d" for l d :: int by linarith
  have "m \<in> set (search_rows env s len condition compare_to db) \<longleftrightarrow>
     (\<exists>f \<in> set (rows (t_fingerprint db)). \<exists>t \<in> set (rows (t_track db)).
        condition f \<and> len - s_max_length_diff s \<le> fp_length f \<and> fp_length f \<le> len + s_max_length_diff s
        \<and> tr_id t = fp_track_id f \<and> score_of env s compare_to f > s_min_score s
        \<and> m = \<lparr>fm_fingerprint_id = fp_id f, fm_track_id = fp_track_id f, fm_track_gid = tr_gid t, fm_score = score_of env s compare_to f\<rparr>)"
    unfolding search_rows_def by (simp add: if_distrib [where f = set] cong: if_cong) blast
  then show ?thesis unfolding abs [symmetric] by blast
qed

lemma search_rows_sorted: "sorted (map (\<lambda>m. - fm_score m) (search_rows env s len condition compare_to db))"
  unfolding search_rows_def by (rule sorted_sort_key)

lemma sql_limit_subset: "set (sql_limit n xs) \<subseteq> set xs"
  by (auto simp: sql_limit_def dest: in_set_takeD)

lemma sorted_sql_limit: "sorted (map f xs) \<Longrightarrow> sorted (map f (sql_limit n xs))"
  by (simp add: sql_limit_def take_map [symmetric] sorted_wrt_take)

lemma length_sql_limit: "truthy_int n \<Longrightarrow> length (sql_limit n xs) \<le> nat (the n)"
  by (simp add: sql_limit_def)

text \<open>When a stored fingerprint matches a query: long enough, similar enough and on an existing track.\<close>

definition is_match :: "search_env \<Rightarrow> searcher \<Rightarrow> int list \<Rightarrow> int \<Rightarrow> fingerprint_db \<Rightarrow> fingerprint_row \<Rightarrow> fp_match \<Rightarrow> bool" where
  "is_match env s fp len db f m \<longleftrightarrow>
     f \<in> set (rows (t_fingerprint db)) \<and> \<bar>fp_length f - len\<bar> \<le> s_max_length_diff s
     \<and> fm_fingerprint_id m = fp_id f \<and> fm_track_id m = fp_track_id f
     \<and> (\<exists>t \<in> set (rows (t_track db)). tr_id t = fp_track_id f \<and> tr_gid t = fm_track_gid m)
     \<and> fm_score m = e_compare2 env (fp_fingerprint f) fp (s_max_offset s) \<and> fm_score m > s_min_score s"

lemma run_search_query_spec:
  assumes fp: "fp \<noteq> []" and res: "run_search_query env s len cond max_results (Some fp) db = Inr ms"
  shows "sorted (map (\<lambda>m. - fm_score m) ms)"
    and "m \<in> set ms \<Longrightarrow> \<exists>f. cond f \<and> is_match env s fp len db f m"
    and "e_sql env = Finished \<Longrightarrow> \<not> truthy_int max_results \<Longrightarrow> cond f \<Longrightarrow> is_match env s fp len db f m \<Longrightarrow> m \<in> set ms"
proof -
  let ?rows = "search_rows env s len cond (Some fp) db"
  have sc: "score_of env s (Some fp) f = e_compare2 env (fp_fingerprint f) fp (s_max_offset s)" for f
    using fp by (simp add: score_of_def)
  show "sorted (map (\<lambda>m. - fm_score m) ms)"
    using res sorted_sql_limit [OF search_rows_sorted] by (auto simp: run_search_query_def split: sql_outcome.splits)
  {
    assume "m \<in> set ms"
    then have "m \<in> set ?rows"
      using res subsetD [OF sql_limit_subset] by (auto simp: run_search_query_def split: sql_outcome.splits)
    then obtain f t where "cond f" and ft: "f \<in> set (rows (t_fingerprint db))" "t \<in> set (rows (t_track db))"
      "\<bar>fp_length f - len\<bar> \<le> s_max_length_diff s" "tr_id t = fp_track_id f" "score_of env s (Some fp) f > s_min_score s"
      "m = \<lparr>fm_fingerprint_id = fp_id f, fm_track_id = fp_track_id f, fm_track_gid = tr_gid t, fm_score = score_of env s (Some fp) f\<rparr>"
      unfolding in_search_rows by blast
    have "is_match env s fp len db f m" using ft by (auto simp: is_match_def sc)
    with \<open>cond f\<close> show "\<exists>f. cond f \<and> is_match env s fp len db f m" by blast
  }
  assume "e_sql env = Finished" "\<not> truthy_int max_results" "cond f" and m: "is_match env s fp len db f m"
  then have "ms = ?rows" using res by (auto simp: run_search_query_def sql_limit_def)
  moreover have "m \<in> set ?rows"
    using m \<open>cond f\<close> unfolding in_search_rows is_match_def sc by (metis fp_match.surjective old.unit.exhaust)
  ultimately show "m \<in> set ms" by simp
qed

lemma search_directly_query:
  assumes "search_directly env s fp len max_results db = Inr ms" and "\<not> s_fast s"
    and "index_conditions env s fp = Inr (candidates, max_indexed)"
  shows "run_search_query env s len
     (\<lambda>f. (\<exists>ids. candidates = Some ids \<and> fp_id f \<in> set ids) \<or>
        (fp_id f > max_indexed \<and> set (e_xq env (fp_fingerprint f)) \<inter> set (e_xq env fp) \<noteq> {}))
     max_results (Some fp) db = Inr ms"
proof -
  let ?conds = "(case candidates of None \<Rightarrow> [] | Some ids \<Rightarrow> [\<lambda>f. fp_id f \<in> set ids]) @ [search_database env fp max_indexed]"
  have "run_search_query env s len (\<lambda>f. \<exists>c \<in> set ?conds. c f) max_results (Some fp) db = Inr ms"
    using assms by (simp add: search_directly_def Let_def)
  moreover have "(\<exists>c \<in> set ?conds. c f) \<longleftrightarrow> (\<exists>ids. candidates = Some ids \<and> fp_id f \<in> set ids) \<or>
      (fp_id f > max_indexed \<and> set (e_xq env (fp_fingerprint f)) \<inter> set (e_xq env fp) \<noteq> {})" for f
    by (auto simp: search_database_def split: option.split)
  ultimately show ?thesis by simp
qed

lemma search_directly_matches:
  assumes "search_directly env s fp len max_results db = Inr ms" and "fp \<noteq> []" and "\<not> s_fast s"
    and "index_conditions env s fp = Inr (candidates, max_indexed)" and "m \<in> set ms"
  shows "\<exists>f. is_match env s fp len db f m"
  using run_search_query_spec(2) [OF assms(2) search_directly_query [OF assms(1,3,4)] assms(5)] by blast

text \<open>C12: A full search returns its matches in descending order of score, and only stored fingerprints of
  nearly the same length whose similarity to the query exceeds the threshold, each with its track; without
  a limit it misses no match that the index proposed, nor any match added after the last indexed
  fingerprint that shares a term with the query.\<close>

theorem full_search_sound_complete:
  assumes res: "search_directly env s fp len max_results db = Inr ms" and fp: "fp \<noteq> []" and full: "\<not> s_fast s"
    and ix: "index_conditions env s fp = Inr (candidates, max_indexed)"
  shows "sorted (map (\<lambda>m. - fm_score m) ms)
    \<and> (\<forall>m \<in> set ms. \<exists>f. is_match env s fp len db f m)
    \<and> (e_sql env = Finished \<and> \<not> truthy_int max_results \<longrightarrow>
        (\<forall>f m. is_match env s fp len db f m \<and>
           ((\<exists>ids. candidates = Some ids \<and> fp_id f \<in> set ids) \<or>
            (fp_id f > max_indexed \<and> set (e_xq env (fp_fingerprint f)) \<inter> set (e_xq env fp) \<noteq> {})) \<longrightarrow> m \<in> set ms))"
proof -
  note spec = run_search_query_spec [OF fp search_directly_query [OF res full ix]]
  show ?thesis
  proof (intro conjI ballI impI allI)
    show "sorted (map (\<lambda>m. - fm_score m) ms)" by (rule spec(1))
    show "\<exists>f. is_match env s fp len db f m" if "m \<in> set ms" for m using spec(2) [OF that] by blast
    show "m \<in> set ms" if "e_sql env = Finished \<and> \<not> truthy_int max_results"
      "is_match env s fp len db f m \<and> ((\<exists>ids. candidates = Some ids \<and> fp_id f \<in> set ids) \<or>
         (fp_id f > max_indexed \<and> set (e_xq env (fp_fingerprint f)) \<inter> set (e_xq env fp) \<noteq> {}))" for f m
      using spec(3) [of f m] that by blast
  qed
qed

text \<open>A fast search that goes to the index directly never finds anything: it does not ask the index at
  all, so it returns no match unless connecting to the index fails.\<close>

lemma fast_direct_search_finds_nothing:
  "s_fast s \<and> \<not> e_only_database env \<Longrightarrow>
     search_directly env s fp len max_results db = (case e_connect env of Inl e \<Rightarrow> Inl e | Inr _ \<Rightarrow> Inr [])"
  by (auto simp: search_directly_def index_conditions_def split: sum.splits)

definition demo_env :: search_env where
  "demo_env = \<lparr>e_compare2 = (\<lambda>a b _. if a = b then 1 else 0), e_xq = (\<lambda>fp. fp),
     e_connect = Inr \<lparr>ix_search = (\<lambda>_. Inr []), ix_attribute = (\<lambda>_. None)\<rparr>, e_sql = Finished, e_fpstore = None,
     e_only_database = False, e_float = (\<lambda>_. None)\<rparr>"

definition demo_search_db :: fingerprint_db where
  "demo_search_db = two_fp_db\<lparr>t_track := \<lparr>rows = [sample_track 7 ''g'' None], serial = 8\<rparr>\<rparr>"

theorem full_search_sound_complete_witness:
  "\<exists>ms. search_directly demo_env (new_searcher False None) [1] 11 None demo_search_db = Inr ms \<and> length ms = 1
     \<and> sorted (map (\<lambda>m. - fm_score m) ms)"
proof -
  have ix: "index_conditions demo_env (new_searcher False None) [1] = Inr (None, 0)"
    by (simp add: index_conditions_def demo_env_def new_searcher_def get_max_indexed_fingerprint_id_def search_index_def
        py_int_def py_strip_def is_space_def is_digit_def digit_val_def)
  have r: "search_directly demo_env (new_searcher False None) [1] 11 None demo_search_db =
      Inr [\<lparr>fm_fingerprint_id = 1, fm_track_id = 7, fm_track_gid = ''g'', fm_score = 1\<rparr>]"
    unfolding search_directly_def ix
    by (simp add: run_search_query_def search_rows_def sql_limit_def demo_search_db_def two_fp_db_def
        sample_fp_def sample_track_def new_searcher_def score_of_def demo_env_def search_database_def
        TRACK_GROUP_MERGE_THRESHOLD_def FINGERPRINT_MAX_LENGTH_DIFF_def empty_fingerprint_db_def)
  have "\<not> s_fast (new_searcher False None)" by (simp add: new_searcher_def)
  from full_search_sound_complete [OF r _ this ix] r show ?thesis by simp
qed

lemma dict_get_fold_set:
  "dict_get (fold (\<lambda>(i, v) d. dict_set d i v) kvs d) k = Some v \<Longrightarrow> (k, v) \<in> set kvs \<or> dict_get d k = Some v"
proof (induction kvs arbitrary: d)
  case (Cons kv kvs)
  obtain i w where "kv = (i, w)" by fastforce
  with Cons show ?case by (fastforce split: if_splits)
qed simp

text \<open>A search through the fingerprint store returns, in descending order of the store's scores, only
  stored fingerprints of nearly the same length that the store reported for this query, each with the
  score the store gave it, and never more than were asked for; a store that does not answer in time is an
  empty result in fast mode and an error otherwise.\<close>

lemma fpstore_search_sound:
  assumes res: "search_via_fpstore send env s fp len max_results db = r"
    and store: "fpstore_search (e_float env) send fp (case max_results of None \<Rightarrow> 100 | Some n \<Rightarrow> n) (s_fast s)
                  (s_min_score s) (s_timeout s) = store"
  shows "(\<forall>ms. r = Inr ms \<longrightarrow> sorted (map (\<lambda>m. - fm_score m) ms) \<and>
      (\<forall>m \<in> set ms. \<exists>hits. store = Inr hits \<and> (fm_fingerprint_id m, fm_score m) \<in> set hits \<and>
         (\<exists>f \<in> set (rows (t_fingerprint db)). fp_id f = fm_fingerprint_id m \<and> \<bar>fp_length f - len\<bar> \<le> s_max_length_diff s)) \<and>
      (max_results = None \<longrightarrow> length ms \<le> 100))
    \<and> (store = Inl TimeoutError \<longrightarrow> r = (if s_fast s then Inr [] else Inl TimeoutError))"
proof (cases store)
  case (Inl e)
  with res store show ?thesis
    by (cases "e = TimeoutError"; cases "s_fast s") (auto simp: search_via_fpstore_def Let_def)
next
  case (Inr hits)
  show ?thesis
  proof (cases hits)
    case Nil
    with Inr res store show ?thesis by (auto simp: search_via_fpstore_def Let_def)
  next
    case (Cons h hs)
    define n where "n = (case max_results of None \<Rightarrow> 100 | Some n \<Rightarrow> n)"
    define scores where "scores = score_dict hits"
    let ?set = "\<lambda>m. m\<lparr>fm_score := the (dict_get scores (fm_fingerprint_id m))\<rparr>"
    have r: "r = (case run_search_query env s len (\<lambda>f. fp_id f \<in> set (dict_keys scores)) (Some n) None db of
                   Inl e \<Rightarrow> Inl e
                 | Inr results \<Rightarrow> Inr (sort_key (\<lambda>m. - fm_score m) (map ?set results)))"
      unfolding res [symmetric] search_via_fpstore_def Let_def
      using store Inr Cons by (auto simp: n_def scores_def split: sum.split)
    have "sorted (map (\<lambda>m. - fm_score m) ms) \<and>
      (\<forall>m \<in> set ms. (fm_fingerprint_id m, fm_score m) \<in> set hits \<and>
         (\<exists>f \<in> set (rows (t_fingerprint db)). fp_id f = fm_fingerprint_id m \<and> \<bar>fp_length f - len\<bar> \<le> s_max_length_diff s)) \<and>
      (max_results = None \<longrightarrow> length ms \<le> 100)" if rm: "r = Inr ms" for ms
    proof -
      obtain results where q: "run_search_query env s len (\<lambda>f. fp_id f \<in> set (dict_keys scores)) (Some n) None db = Inr results"
        and ms: "ms = sort_key (\<lambda>m. - fm_score m) (map ?set results)"
        using r rm by (auto split: sum.splits)
      have sorted: "sorted (map (\<lambda>m. - fm_score m) ms)" unfolding ms by (rule sorted_sort_key)
      have "length ms \<le> 100" if "max_results = None"
        using q that by (auto simp: ms n_def run_search_query_def sql_limit_def split: sql_outcome.splits)
      moreover have "(fm_fingerprint_id m, fm_score m) \<in> set hits \<and>
         (\<exists>f \<in> set (rows (t_fingerprint db)). fp_id f = fm_fingerprint_id m \<and> \<bar>fp_length f - len\<bar> \<le> s_max_length_diff s)"
        if mm: "m \<in> set ms" for m
      proof -
        obtain x where x: "x \<in> set results" "m = ?set x" using mm by (auto simp: ms)
        then have "x \<in> set (search_rows env s len (\<lambda>f. fp_id f \<in> set (dict_keys scores)) None db)"
          using q subsetD [OF sql_limit_subset] by (auto simp: run_search_query_def split: sql_outcome.splits)
        then obtain f where f: "f \<in> set (rows (t_fingerprint db))" "fp_id f \<in> set (dict_keys scores)"
          "\<bar>fp_length f - len\<bar> \<le> s_max_length_diff s" "fm_fingerprint_id x = fp_id f"
          unfolding in_search_rows by auto
        then obtain v where v: "dict_get scores (fp_id f) = Some v" using dict_get_None_iff by (metis not_Some_eq)
        then have "(fp_id f, v) \<in> set hits"
          using dict_get_fold_set [of hits "[]" "fp_id f" v] by (simp add: scores_def score_dict_def)
        moreover have "fm_fingerprint_id m = fp_id f" "fm_score m = v" using f(4) v x(2) by simp_all
        ultimately show ?thesis using f(1,3) by metis
      qed
      ultimately show ?thesis using sorted by blast
    qed
    note main = this
    show ?thesis unfolding Inr
    proof (intro conjI allI impI ballI)
      fix ms assume rm: "r = Inr ms"
      show "sorted (map (\<lambda>m. - fm_score m) ms)" using main [OF rm] by simp
      show "length ms \<le> 100" if "max_results = None" using main [OF rm] that by simp
      show "\<exists>hits'. Inr hits = Inr hits' \<and> (fm_fingerprint_id m, fm_score m) \<in> set hits' \<and>
         (\<exists>f \<in> set (rows (t_fingerprint db)). fp_id f = fm_fingerprint_id m \<and> \<bar>fp_length f - len\<bar> \<le> s_max_length_diff s)"
        if "m \<in> set ms" for m using main [OF rm] that by simp
    qed simp
  qed
qed

definition demo_store :: "fpstore_request \<Rightarrow> rat \<Rightarrow> transport_result" where
  "demo_store rq timeout = Response \<lparr>status_code = 200, body = JObj [(''results'', JArr [JObj [(''id'', JInt 1), (''score'', JNum 1)]])]\<rparr>"

end
