(* ===== verification/Meta.thy ===== *)
theory Meta
  imports Tables Py_Strings Json
begin

text \<open>
  \<^verbatim>\<open>data/meta.py\<close>: cleaning submitted metadata, the content hash that identifies a metadata record, and
  the table of records. \<open>uuid5\<close> stands for \<open>uuid.uuid5\<close> in the module's namespace, applied to the JSON
  text that the code builds; commits of concurrent sessions are the argument \<open>other\<close>.
\<close>

definition meta_fields :: "string list" where
  "meta_fields = [''track'', ''artist'', ''album'', ''album_artist'', ''track_no'', ''disc_no'', ''year'']"

subsection \<open>Cleaning: \<open>fix_meta\<close>\<close>

definition ws_or_nul :: "char \<Rightarrow> bool" where
  "ws_or_nul c \<longleftrightarrow> is_space c \<or> code c = 0"

text \<open>\<open>re.sub(r"(\s|\x00)+", " ", value)\<close>; the flag tells whether the previous character was in the run.\<close>

fun collapse_ws :: "bool \<Rightarrow> string \<Rightarrow> string" where
  "collapse_ws in_run [] = []"
| "collapse_ws in_run (c # cs) =
     (if ws_or_nul c then (if in_run then collapse_ws True cs else CHR '' '' # collapse_ws True cs)
      else c # collapse_ws False cs)"

fun clean_value :: "meta_value \<Rightarrow> meta_value" where
  "clean_value (MStr s) = MStr (collapse_ws False s)"
| "clean_value (MInt i) = MInt i"

definition drop_large :: "string \<Rightarrow> meta_dict \<Rightarrow> py_exc + meta_dict" where
  "drop_large key values =
     (case dict_get values key of
        None \<Rightarrow> Inr values
      | Some (MInt i) \<Rightarrow> Inr (if i \<noteq> 0 \<and> i > 10000 then dict_del values key else values)
      | Some (MStr s) \<Rightarrow> if s = [] then Inr values else Inl TypeError)"

definition fix_meta :: "meta_dict \<Rightarrow> py_exc + meta_dict" where
  "fix_meta values =
     (let values = map (\<lambda>(k, v). (k, clean_value v)) values
      in case drop_large ''track_no'' values of
           Inl e \<Rightarrow> Inl e
         | Inr values \<Rightarrow> drop_large ''disc_no'' values)"

subsection \<open>The content hash\<close>

fun truthy :: "meta_value \<Rightarrow> bool" where
  "truthy (MStr s) = (s \<noteq> [])"
| "truthy (MInt i) = (i \<noteq> 0)"

text \<open>\<open>json.dumps(..., ensure_ascii=False, separators=(",", ":"))\<close> on texts and numbers.\<close>

definition json_escape :: "char \<Rightarrow> string" where
  "json_escape c =
     (if c = CHR 0x22 then [CHR 0x5C, CHR 0x22]
      else if c = CHR 0x5C then [CHR 0x5C, CHR 0x5C]
      else if code c = 10 then [CHR 0x5C, CHR ''n'']
      else if code c = 13 then [CHR 0x5C, CHR ''r'']
      else if code c = 9 then [CHR 0x5C, CHR ''t'']
      else if code c = 12 then [CHR 0x5C, CHR ''f'']
      else if code c = 8 then [CHR 0x5C, CHR ''b'']
      else if code c < 32 then [CHR 0x5C, CHR ''u'', CHR ''0'', CHR ''0'', hex_char (code c div 16), hex_char (code c mod 16)]
      else [c])"

definition json_str :: "string \<Rightarrow> string" where
  "json_str s = CHR 0x22 # concat (map json_escape s) @ [CHR 0x22]"

fun json_value :: "meta_value \<Rightarrow> string" where
  "json_value (MStr s) = json_str s"
| "json_value (MInt i) = int_str i"

definition content_hash_items :: "meta_dict \<Rightarrow> meta_dict" where
  "content_hash_items values =
     [(name, v). name \<leftarrow> meta_fields, v \<leftarrow> (case dict_get values name of None \<Rightarrow> [] | Some v \<Rightarrow> [v]), truthy v]"

definition content_hash_source :: "meta_dict \<Rightarrow> string" where
  "content_hash_source values =
     ''{'' @ str_join '','' (map (\<lambda>(k, v). json_str k @ '':'' @ json_value v) (content_hash_items values)) @ ''}''"

definition generate_meta_gid :: "(string \<Rightarrow> string) \<Rightarrow> meta_dict \<Rightarrow> string" where
  "generate_meta_gid uuid5 values = uuid5 (content_hash_source values)"

subsection \<open>The table\<close>

text \<open>The row that \<open>INSERT ... VALUES (gid, created, **values)\<close> makes; a key that is no column is an error.\<close>

definition text_column :: "meta_dict \<Rightarrow> string \<Rightarrow> py_exc + string option" where
  "text_column values k =
     (case dict_get values k of None \<Rightarrow> Inr None | Some (MStr s) \<Rightarrow> Inr (Some s) | Some (MInt i) \<Rightarrow> Inl DataError)"

definition int_column :: "meta_dict \<Rightarrow> string \<Rightarrow> py_exc + int option" where
  "int_column values k =
     (case dict_get values k of None \<Rightarrow> Inr None | Some (MInt i) \<Rightarrow> Inr (Some i) | Some (MStr s) \<Rightarrow> Inl DataError)"

definition meta_columns_ok :: "meta_dict \<Rightarrow> bool" where
  "meta_columns_ok values \<longleftrightarrow> set (dict_keys values) \<subseteq> set meta_fields"

definition make_meta_row :: "int \<Rightarrow> string \<Rightarrow> meta_dict \<Rightarrow> py_exc + (int \<Rightarrow> meta_row)" where
  "make_meta_row now gid values =
     (if \<not> meta_columns_ok values then Inl CompileError
      else case (text_column values ''track'', text_column values ''artist'', text_column values ''album'',
                 text_column values ''album_artist'', int_column values ''track_no'', int_column values ''disc_no'',
                 int_column values ''year'') of
        (Inr tr, Inr ar, Inr al, Inr aa, Inr tn, Inr dn, Inr y) \<Rightarrow>
          Inr (\<lambda>i. \<lparr>me_id = i, me_track = tr, me_artist = ar, me_album = al, me_album_artist = aa, me_track_no = tn,
                     me_disc_no = dn, me_year = y, me_created = Some now, me_gid = Some gid\<rparr>)
      | _ \<Rightarrow> Inl DataError)"

definition find_meta_id :: "fingerprint_db \<Rightarrow> string \<Rightarrow> int option" where
  "find_meta_id db gid = scalar (\<lambda>r. me_gid r = Some gid) me_id (t_meta db)"

fun find_or_insert_meta_loop ::
    "(nat \<Rightarrow> fingerprint_db \<Rightarrow> fingerprint_db) \<Rightarrow> nat \<Rightarrow> string \<Rightarrow> meta_dict \<Rightarrow> fingerprint_db
     \<Rightarrow> py_exc + (int \<times> string) \<times> fingerprint_db" where
  "find_or_insert_meta_loop other 0 gid values db = Inl RuntimeError"
| "find_or_insert_meta_loop other (Suc retries) gid values db =
     (case find_meta_id db gid of
        Some i \<Rightarrow> Inr ((i, gid), db)
      | None \<Rightarrow>
          (let db = other retries db
           in case make_meta_row (f_now db) gid values of
                Inl e \<Rightarrow> Inl e
              | Inr mk \<Rightarrow>
                  if find_meta_id db gid \<noteq> None then find_or_insert_meta_loop other retries gid values db
                  else let (i, t) = ins mk (t_meta db) in Inr ((i, gid), db\<lparr>t_meta := t\<rparr>)))"

definition find_or_insert_meta ::
    "(string \<Rightarrow> string) \<Rightarrow> (nat \<Rightarrow> fingerprint_db \<Rightarrow> fingerprint_db) \<Rightarrow> fingerprint_db \<Rightarrow> meta_dict
     \<Rightarrow> py_exc + (int \<times> string) \<times> fingerprint_db" where
  "find_or_insert_meta uuid5 other db values =
     find_or_insert_meta_loop other 3 (generate_meta_gid uuid5 values) values db"

definition insert_meta ::
    "(string \<Rightarrow> string) \<Rightarrow> fingerprint_db \<Rightarrow> meta_dict \<Rightarrow> py_exc + (int \<times> string) \<times> fingerprint_db" where
  "insert_meta uuid5 db values =
     (let gid = generate_meta_gid uuid5 values
      in case make_meta_row (f_now db) gid values of
           Inl e \<Rightarrow> Inl e
         | Inr mk \<Rightarrow>
             if find_meta_id db gid \<noteq> None then Inl IntegrityError
             else let (i, t) = ins mk (t_meta db) in Inr ((i, gid), db\<lparr>t_meta := t\<rparr>))"

definition check_meta_id :: "fingerprint_db \<Rightarrow> int \<Rightarrow> bool \<times> string option" where
  "check_meta_id db meta_id =
     (case first_of (sel (\<lambda>r. me_id r = meta_id) (t_meta db)) of
        None \<Rightarrow> (False, None)
      | Some r \<Rightarrow> (True, me_gid r))"

text \<open>The records in the shape of MusicBrainz results.\<close>

definition meta_result :: "meta_row \<Rightarrow> (string, json) dict" where
  "meta_result row =
     (let artists = (if truthy_str (me_artist row) then [jstr (me_artist row)] else []);
          album_artists = (if truthy_str (me_album_artist row) then [jstr (me_album_artist row)] else [])
      in [(''_no_ids'', JBool True), (''recording_id'', JInt (me_id row)), (''recording_title'', jstr (me_track row)),
          (''recording_artists'', JArr artists), (''recording_duration'', JNull), (''track_id'', JInt (me_id row)),
          (''track_position'', jint (me_track_no row)), (''track_title'', jstr (me_track row)),
          (''track_artists'', JArr artists), (''track_duration'', JNull), (''medium_position'', jint (me_disc_no row)),
          (''medium_format'', JNull), (''medium_title'', JNull), (''medium_track_count'', JNull),
          (''release_rid'', JInt (me_id row)), (''release_id'', JInt (me_id row)), (''release_title'', jstr (me_album row)),
          (''release_artists'', JArr album_artists), (''release_medium_count'', JNull), (''release_track_count'', JNull),
          (''release_events'', JArr [JObj [(''release_date_year'', jint (me_year row)), (''release_date_month'', JNull),
             (''release_date_day'', JNull), (''release_country'', JStr [])]]),
          (''release_group_id'', JInt (me_id row)), (''release_group_title'', jstr (me_album row)),
          (''release_group_artists'', JArr album_artists), (''release_group_primary_type'', JNull),
          (''release_group_secondary_types'', JArr [])])"

definition lookup_meta :: "fingerprint_db \<Rightarrow> int list \<Rightarrow> (string, json) dict list" where
  "lookup_meta db meta_ids =
     (if meta_ids = [] then [] else map meta_result (sel (\<lambda>r. me_id r \<in> set meta_ids) (t_meta db)))"

subsection \<open>Cleaned metadata is clean\<close>

fun single_spaced :: "string \<Rightarrow> bool" where
  "single_spaced [] = True"
| "single_spaced [c] = (ws_or_nul c \<longrightarrow> c = CHR '' '')"
| "single_spaced (c # d # cs) = ((ws_or_nul c \<longrightarrow> c = CHR '' '' \<and> \<not> ws_or_nul d) \<and> single_spaced (d # cs))"

lemma ws_space [simp]: "ws_or_nul CHR '' ''"
  by (simp add: ws_or_nul_def is_space_def)

lemma collapse_ws_head: "collapse_ws True cs = d # ds \<Longrightarrow> \<not> ws_or_nul d"
  by (induction "True" cs rule: collapse_ws.induct) (auto split: if_splits)

lemma single_spaced_Cons:
  "single_spaced (c # cs) \<longleftrightarrow> (ws_or_nul c \<longrightarrow> c = CHR '' '' \<and> (cs = [] \<or> \<not> ws_or_nul (hd cs))) \<and> single_spaced cs"
  by (cases cs) auto

lemma single_spaced_collapse: "single_spaced (collapse_ws in_run cs)"
proof (induction in_run cs rule: collapse_ws.induct)
  case (2 in_run c cs)
  then show ?case
    using collapse_ws_head [of cs] by (cases "collapse_ws True cs") (auto simp: single_spaced_Cons)
qed simp

lemma collapse_ws_id:
  "single_spaced cs \<Longrightarrow> (in_run \<longrightarrow> cs = [] \<or> \<not> ws_or_nul (hd cs)) \<Longrightarrow> collapse_ws in_run cs = cs"
  by (induction in_run cs rule: collapse_ws.induct) (auto simp: single_spaced_Cons)

fun clean_entry :: "meta_value \<Rightarrow> bool" where
  "clean_entry (MStr s) = single_spaced s"
| "clean_entry (MInt i) = True"

lemma clean_value_clean: "clean_entry (clean_value v)"
  by (cases v) (simp_all add: single_spaced_collapse)

lemma clean_value_id: "clean_entry v \<Longrightarrow> clean_value v = v"
  by (cases v) (simp_all add: collapse_ws_id)

lemma set_dict_del: "set (dict_del d k) \<subseteq> set d"
  by (auto simp: dict_del_def)

lemma dict_del_same: "dict_del d k = d \<Longrightarrow> dict_get d k = None"
  by (metis dict_get_del)

lemma drop_large_Inr:
  "drop_large k values = Inr values' \<Longrightarrow>
     set values' \<subseteq> set values \<and> drop_large k values' = Inr values' \<and>
     (\<forall>i. dict_get values' k = Some (MInt i) \<longrightarrow> i \<le> 10000) \<and>
     (\<forall>k'. k' \<noteq> k \<longrightarrow> dict_get values' k' = dict_get values k')"
  using set_dict_del [of "values" k] by (auto simp: drop_large_def split: option.splits meta_value.splits if_splits)

lemma drop_large_same:
  "dict_get values' k = dict_get values k \<Longrightarrow> drop_large k values = Inr values \<Longrightarrow> drop_large k values' = Inr values'"
  using dict_del_same [of "values" k] by (auto simp: drop_large_def split: option.splits meta_value.splits if_splits)

text \<open>C9: Cleaned metadata has no control whitespace or NUL and no run of blanks in any text, no track or disc
  number above 10000, and cleaning it again changes nothing.\<close>

theorem fix_meta_clean:
  assumes "fix_meta values = Inr values'"
  shows "(\<forall>(k, v) \<in> set values'. clean_entry v)
    \<and> (\<forall>i. dict_get values' ''track_no'' = Some (MInt i) \<or> dict_get values' ''disc_no'' = Some (MInt i) \<longrightarrow> i \<le> 10000)
    \<and> fix_meta values' = Inr values'"
proof -
  let ?c = "map (\<lambda>(k, v). (k, clean_value v))"
  obtain v1 where d1: "drop_large ''track_no'' (?c values) = Inr v1" and d2: "drop_large ''disc_no'' v1 = Inr values'"
    using assms by (auto simp: fix_meta_def Let_def split: sum.splits)
  note f1 = drop_large_Inr [OF d1] and f2 = drop_large_Inr [OF d2]
  have "set values' \<subseteq> set (?c values)" using f1 f2 by blast
  then have clean: "\<forall>(k, v) \<in> set values'. clean_entry v" by (auto simp: clean_value_clean)
  then have same: "?c values' = values'"
    by (intro map_idI) (auto simp: clean_value_id)
  have t: "dict_get values' ''track_no'' = dict_get v1 ''track_no''" using f2 by simp
  have "drop_large ''track_no'' values' = Inr values'" using drop_large_same [OF t] f1 by blast
  then have "fix_meta values' = Inr values'" using f2 by (simp add: fix_meta_def Let_def same)
  with clean f1 f2 t show ?thesis by auto
qed

theorem fix_meta_clean_witness:
  "fix_meta [(''track'', MStr ''a  b''), (''track_no'', MInt 20000)] = Inr [(''track'', MStr ''a b'')]
   \<and> fix_meta [(''track'', MStr ''a b'')] = Inr [(''track'', MStr ''a b'')]"
proof -
  have f: "fix_meta [(''track'', MStr ''a  b''), (''track_no'', MInt 20000)] = Inr [(''track'', MStr ''a b'')]"
    by (simp add: fix_meta_def drop_large_def dict_get_def dict_del_def ws_or_nul_def is_space_def)
  with fix_meta_clean [OF f] show ?thesis by simp
qed

subsection \<open>The content hash identifies the metadata\<close>

lemma code_hex_char: "n < 16 \<Longrightarrow> code (hex_char n) = (if n < 10 then 48 + n else 87 + n)"
  by (simp add: hex_char_def of_char_of)

lemma hex_char_inj:
  assumes "a < 16" "b < 16" "hex_char a = hex_char b"
  shows "a = b"
proof -
  have "code (hex_char a) = code (hex_char b)" using assms(3) by simp
  then show ?thesis using assms(1,2) by (auto simp: code_hex_char split: if_splits)
qed

lemma code_inj: "code c = code d \<Longrightarrow> c = d"
  by (metis of_char_eq_iff)

text \<open>Escapes are read back one at a time: the first character tells a plain character from an escape, the
  second one its length.\<close>

definition plain :: "char \<Rightarrow> bool" where
  "plain c \<longleftrightarrow> c \<noteq> CHR 0x22 \<and> c \<noteq> CHR 0x5C \<and> 32 \<le> code c"

lemma json_escape_plain: "plain c \<Longrightarrow> json_escape c = [c]"
  by (auto simp: plain_def json_escape_def)

lemma json_escape_special:
  assumes "\<not> plain c"
  obtains k r where "json_escape c = CHR 0x5C # k # r" "length r = (if k = CHR ''u'' then 4 else 0)"
  using assms by (fastforce simp: plain_def json_escape_def split: if_splits)

lemma plain_not_backslash: "plain c \<Longrightarrow> c \<noteq> CHR 0x5C"
  by (simp add: plain_def)

lemma not_plain_backslash [simp]: "\<not> plain CHR 0x5C"
  by (simp add: plain_def)

lemma hex_pair_inj:
  assumes "code c < 32" "code d < 32" "hex_char (code c div 16) = hex_char (code d div 16)"
    "hex_char (code c mod 16) = hex_char (code d mod 16)"
  shows "c = d"
proof -
  have "code c div 16 = code d div 16" using assms by (intro hex_char_inj) auto
  moreover have "code c mod 16 = code d mod 16" using assms by (intro hex_char_inj) auto
  ultimately have "code c = code d" by (metis div_mult_mod_eq)
  then show ?thesis by (rule code_inj)
qed

lemma json_escape_eq:
  assumes "json_escape c = json_escape d"
  shows "c = d"
proof (cases "plain c \<or> plain d")
  case True
  then show ?thesis
    using assms json_escape_plain plain_not_backslash by (metis json_escape_special list.inject)
next
  case False
  consider "code c < 32" | "c = CHR 0x22" | "c = CHR 0x5C" using False by (auto simp: plain_def)
  moreover consider "code d < 32" | "d = CHR 0x22" | "d = CHR 0x5C" using False by (auto simp: plain_def)
  ultimately show ?thesis
    using assms hex_pair_inj [of c d] code_inj [of c d] by (auto simp: json_escape_def split: if_splits)
qed

lemma json_escape_inj:
  assumes eq: "json_escape c @ x = json_escape d @ y"
  shows "c = d \<and> x = y"
proof -
  have "length (json_escape c) = length (json_escape d)"
  proof (cases "plain c")
    case True
    then have "plain d" using eq plain_not_backslash by (cases "plain d") (auto simp: json_escape_plain elim!: json_escape_special)
    with True show ?thesis by (simp add: json_escape_plain)
  next
    case False
    then obtain k r where c: "json_escape c = CHR 0x5C # k # r" "length r = (if k = CHR ''u'' then 4 else 0)"
      by (rule json_escape_special)
    then have "\<not> plain d" using eq plain_not_backslash by (auto simp: json_escape_plain)
    then obtain k' r' where d: "json_escape d = CHR 0x5C # k' # r'" "length r' = (if k' = CHR ''u'' then 4 else 0)"
      by (rule json_escape_special)
    with c eq show ?thesis by auto
  qed
  with eq have "json_escape c = json_escape d \<and> x = y" by simp
  with json_escape_eq show ?thesis by blast
qed

lemma json_escape_not_quote: "json_escape c \<noteq> [] \<and> hd (json_escape c) \<noteq> CHR 0x22"
  by (auto simp: json_escape_def)

lemma escaped_inj:
  "concat (map json_escape s) @ CHR 0x22 # x = concat (map json_escape t) @ CHR 0x22 # y \<Longrightarrow> s = t \<and> x = y"
proof (induction s arbitrary: t)
  case Nil
  show ?case
  proof (cases t)
    case (Cons d t')
    with Nil.prems json_escape_not_quote [of d] show ?thesis by (cases "json_escape d") auto
  qed (use Nil in simp)
next
  case (Cons c s)
  show ?case
  proof (cases t)
    case Nil
    with Cons.prems json_escape_not_quote [of c] show ?thesis by (cases "json_escape c") auto
  next
    case (Cons d t')
    with Cons.prems have "json_escape c @ concat (map json_escape s) @ CHR 0x22 # x =
        json_escape d @ concat (map json_escape t') @ CHR 0x22 # y" by simp
    with json_escape_inj Cons.IH Cons show ?thesis by blast
  qed
qed

lemma json_str_inj: "json_str s @ x = json_str t @ y \<Longrightarrow> s = t \<and> x = y"
  using escaped_inj [of s x t y] by (simp add: json_str_def)

lemma int_str_cut_inj:
  assumes eq: "int_str i @ x = int_str j @ y" and "x \<noteq> [] \<and> hd x \<in> {CHR '','', CHR ''}''}" and "y \<noteq> [] \<and> hd y \<in> {CHR '','', CHR ''}''}"
  shows "i = j \<and> x = y"
proof -
  let ?p = "\<lambda>c. is_digit c \<or> c = CHR ''-''"
  have s: "takeWhile ?p (int_str k @ z) = int_str k" if "z \<noteq> [] \<and> hd z \<in> {CHR '','', CHR ''}''}" for k z
  proof -
    have "\<not> ?p (hd z)" using that by (auto simp: is_digit_def)
    then have "takeWhile ?p z = []" using that by (cases z) auto
    moreover have "\<forall>c \<in> set (int_str k). ?p c" using int_str_chars by blast
    ultimately show ?thesis by (simp add: takeWhile_append2)
  qed
  have "int_str i = int_str j" using s [OF assms(2)] s [OF assms(3)] eq by metis
  then have "Some i = Some j" by (metis py_int_int_str)
  with eq show ?thesis by simp
qed

lemma int_str_hd: "int_str i \<noteq> [] \<and> hd (int_str i) \<noteq> CHR 0x22"
proof -
  have "int_str i \<noteq> []" by (simp add: int_str_def)
  moreover from this have "is_digit (hd (int_str i)) \<or> hd (int_str i) = CHR ''-''" by (intro int_str_chars [of _ i]) simp
  ultimately show ?thesis by (auto simp: is_digit_def)
qed

abbreviation json_entry :: "string \<times> meta_value \<Rightarrow> string" where
  "json_entry \<equiv> (\<lambda>(k, v). json_str k @ '':'' @ json_value v)"

definition ends :: "string \<Rightarrow> bool" where
  "ends x \<longleftrightarrow> x \<noteq> [] \<and> hd x \<in> {CHR '','', CHR ''}''}"

lemma json_value_inj:
  assumes "json_value v @ x = json_value w @ y" and "ends x" "ends y"
  shows "v = w \<and> x = y"
proof (cases v; cases w)
  fix s t assume "v = MStr s" "w = MStr t"
  with assms(1) json_str_inj [of s x t y] show ?thesis by simp
next
  fix i j assume "v = MInt i" "w = MInt j"
  with assms int_str_cut_inj [of i x j y] show ?thesis by (simp add: ends_def)
next
  fix s j assume "v = MStr s" "w = MInt j"
  with assms(1) int_str_hd [of j] show ?thesis by (cases "int_str j") (auto simp: json_str_def)
next
  fix i t assume "v = MInt i" "w = MStr t"
  with assms(1) int_str_hd [of i] show ?thesis by (cases "int_str i") (auto simp: json_str_def)
qed

lemma json_entry_inj:
  assumes "json_entry e @ x = json_entry f @ y" and "ends x" "ends y"
  shows "e = f \<and> x = y"
proof (cases e; cases f)
  fix k v l w assume e: "e = (k, v)" "f = (l, w)"
  then have "k = l \<and> '':'' @ json_value v @ x = '':'' @ json_value w @ y"
    using assms(1) by (intro json_str_inj) simp
  with json_value_inj [OF _ assms(2,3)] e show ?thesis by auto
qed

lemma ends_simps [simp]: "ends (CHR '','' # x)" "ends (CHR ''}'' # x)"
  by (simp_all add: ends_def)

lemma json_entry_not_brace: "json_entry e \<noteq> [] \<and> hd (json_entry e) = CHR 0x22"
  by (cases e) (simp add: json_str_def)

lemma json_object_inj:
  "str_join '','' (map json_entry es) @ ''}'' = str_join '','' (map json_entry fs) @ ''}'' \<Longrightarrow> es = fs"
proof (induction es arbitrary: fs)
  case Nil
  show ?case
  proof (cases fs)
    case (Cons f fs')
    with Nil json_entry_not_brace [of f] show ?thesis
      by (cases fs'; cases "json_entry f") auto
  qed simp
next
  case (Cons e es)
  show ?case
  proof (cases fs)
    case Nil
    with Cons.prems json_entry_not_brace [of e] show ?thesis
      by (cases es; cases "json_entry e") auto
  next
    case (Cons f fs')
    have tail: "str_join '','' (map json_entry (g # gs)) @ ''}'' = json_entry g @
        (if gs = [] then ''}'' else '','' @ str_join '','' (map json_entry gs) @ ''}'')" for g gs
      by (cases gs) simp_all
    have "e = f \<and> (if es = [] then ''}'' else '','' @ str_join '','' (map json_entry es) @ ''}'') =
                   (if fs' = [] then ''}'' else '','' @ str_join '','' (map json_entry fs') @ ''}'')"
      using Cons.prems unfolding Cons tail by (intro json_entry_inj) auto
    with Cons.IH [of fs'] Cons show ?thesis by (auto split: if_splits)
  qed
qed

text \<open>C7: The text that is hashed into a metadata record's identifier determines exactly the record's
  non-empty fields: two metadata dictionaries share it if and only if they agree on every field of the
  record, an absent, empty or zero field counting as absent.\<close>

theorem content_hash_identifies_metadata:
  "content_hash_source v = content_hash_source w \<longleftrightarrow>
     (\<forall>name \<in> set meta_fields. Option.bind (dict_get v name) (\<lambda>x. if truthy x then Some x else None)
                             = Option.bind (dict_get w name) (\<lambda>x. if truthy x then Some x else None))"
proof -
  let ?t = "\<lambda>d name. Option.bind (dict_get d name) (\<lambda>x. if truthy x then Some x else None)"
  have items: "content_hash_items d = concat (map (\<lambda>n. case ?t d n of None \<Rightarrow> [] | Some x \<Rightarrow> [(n, x)]) meta_fields)" for d
    by (auto simp: content_hash_items_def intro!: arg_cong [where f = concat] map_cong split: option.split)
  have get: "dict_get (concat (map (\<lambda>n. case ?t d n of None \<Rightarrow> [] | Some x \<Rightarrow> [(n, x)]) ns)) n =
      (if n \<in> set ns then ?t d n else None)" for d ns n
    by (induction ns) (auto simp: dict_get_def split: option.split)
  have "content_hash_items v = content_hash_items w \<longleftrightarrow> (\<forall>n \<in> set meta_fields. ?t v n = ?t w n)"
  proof
    assume "content_hash_items v = content_hash_items w"
    then have "dict_get (content_hash_items v) n = dict_get (content_hash_items w) n" for n by simp
    then show "\<forall>n \<in> set meta_fields. ?t v n = ?t w n" unfolding items get by (metis (full_types))
  next
    assume "\<forall>n \<in> set meta_fields. ?t v n = ?t w n"
    then show "content_hash_items v = content_hash_items w"
      unfolding items by (intro arg_cong [where f = concat] map_cong) auto
  qed
  moreover have "content_hash_source v = content_hash_source w \<longleftrightarrow> content_hash_items v = content_hash_items w"
    using json_object_inj by (auto simp: content_hash_source_def)
  ultimately show ?thesis by simp
qed

theorem content_hash_identifies_metadata_witness:
  "content_hash_source [(''track'', MStr ''a''), (''year'', MInt 0)] = content_hash_source [(''artist'', MStr []), (''track'', MStr ''a'')] \<and>
   content_hash_source [(''track'', MStr ''a'')] \<noteq> content_hash_source [(''track'', MStr ''b'')]"
  unfolding content_hash_identifies_metadata by (simp add: meta_fields_def dict_get_def)

subsection \<open>Inserting under concurrency\<close>

definition wf_meta :: "fingerprint_db \<Rightarrow> bool" where
  "wf_meta db \<longleftrightarrow> wf_table me_id (t_meta db) \<and>
     (\<forall>r \<in> set (rows (t_meta db)). \<forall>s \<in> set (rows (t_meta db)). me_gid r = me_gid s \<and> me_gid r \<noteq> None \<longrightarrow> r = s)"

definition only_adds_meta :: "(nat \<Rightarrow> fingerprint_db \<Rightarrow> fingerprint_db) \<Rightarrow> bool" where
  "only_adds_meta other \<longleftrightarrow> (\<forall>n db. set (rows (t_meta db)) \<subseteq> set (rows (t_meta (other n db))) \<and> (wf_meta db \<longrightarrow> wf_meta (other n db)))"

definition meta_well_typed :: "meta_dict \<Rightarrow> bool" where
  "meta_well_typed values \<longleftrightarrow> meta_columns_ok values \<and>
     (\<forall>k \<in> {''track'', ''artist'', ''album'', ''album_artist''}. \<forall>i. dict_get values k \<noteq> Some (MInt i)) \<and>
     (\<forall>k \<in> {''track_no'', ''disc_no'', ''year''}. \<forall>s. dict_get values k \<noteq> Some (MStr s))"

lemma columns_ok:
  "(\<And>i. dict_get values k \<noteq> Some (MInt i)) \<Longrightarrow> \<exists>c. text_column values k = Inr c"
  "(\<And>s. dict_get values k \<noteq> Some (MStr s)) \<Longrightarrow> \<exists>c. int_column values k = Inr c"
  by (auto simp: text_column_def int_column_def split: option.split meta_value.split)

lemma make_meta_row_ok:
  assumes "meta_well_typed values"
  shows "\<exists>mk. make_meta_row now gid values = Inr mk \<and> (\<forall>i. me_id (mk i) = i \<and> me_gid (mk i) = Some gid)"
proof -
  obtain tr ar al aa tn dn y where "text_column values ''track'' = Inr tr" "text_column values ''artist'' = Inr ar"
    "text_column values ''album'' = Inr al" "text_column values ''album_artist'' = Inr aa"
    "int_column values ''track_no'' = Inr tn" "int_column values ''disc_no'' = Inr dn" "int_column values ''year'' = Inr y"
    using assms columns_ok [of "values"] unfolding meta_well_typed_def by (metis insertCI)
  with assms show ?thesis by (simp add: make_meta_row_def meta_well_typed_def)
qed

lemma wf_meta_insert:
  assumes "wf_meta db" and "find_meta_id db gid = None" and "\<forall>i. me_id (mk i) = i \<and> me_gid (mk i) = Some gid"
  shows "wf_meta (db\<lparr>t_meta := snd (ins mk (t_meta db))\<rparr>)"
proof -
  have "\<forall>r \<in> set (rows (t_meta db)). me_gid r \<noteq> Some gid" using assms(2) by (simp add: find_meta_id_def scalar_None_iff)
  with assms(1,3) show ?thesis by (auto simp: wf_meta_def wf_table_ins table_simps)
qed

lemma find_meta_id_SomeD: "find_meta_id db gid = Some i \<Longrightarrow> \<exists>r \<in> set (rows (t_meta db)). me_id r = i \<and> me_gid r = Some gid"
  by (auto simp: find_meta_id_def dest!: scalar_SomeD)

lemma find_or_insert_meta_loop_ok:
  assumes other: "only_adds_meta other" and typed: "meta_well_typed values"
  shows "wf_meta db \<Longrightarrow> n \<ge> 2 \<or> (n = 1 \<and> find_meta_id db gid \<noteq> None) \<Longrightarrow>
     \<exists>i db'. find_or_insert_meta_loop other n gid values db = Inr ((i, gid), db') \<and> wf_meta db' \<and>
       (\<exists>r \<in> set (rows (t_meta db')). me_id r = i \<and> me_gid r = Some gid) \<and> set (rows (t_meta db)) \<subseteq> set (rows (t_meta db'))"
proof (induction n arbitrary: db)
  case (Suc n)
  let ?db = "other n db"
  have o: "set (rows (t_meta db)) \<subseteq> set (rows (t_meta ?db))" "wf_meta ?db"
    using other Suc.prems(1) unfolding only_adds_meta_def by blast+
  obtain mk where mk: "make_meta_row (f_now ?db) gid values = Inr mk" "\<forall>i. me_id (mk i) = i \<and> me_gid (mk i) = Some gid"
    using make_meta_row_ok [OF typed] by blast
  consider i where "find_meta_id db gid = Some i" | i where "find_meta_id db gid = None" "find_meta_id ?db gid = Some i"
    | "find_meta_id db gid = None" "find_meta_id ?db gid = None" by fastforce
  then show ?case
  proof cases
    case 1
    with find_meta_id_SomeD [OF this] Suc.prems(1) show ?thesis by auto
  next
    case 2
    with Suc.prems(2) have "n \<ge> 2 \<or> n = 1 \<and> find_meta_id ?db gid \<noteq> None" by auto
    from Suc.IH [OF o(2) this] 2 mk(1) o(1) show ?thesis by (fastforce simp: Let_def)
  next
    case 3
    let ?new = "?db\<lparr>t_meta := snd (ins mk (t_meta ?db))\<rparr>"
    have "find_or_insert_meta_loop other (Suc n) gid values db = Inr ((serial (t_meta ?db), gid), ?new)"
      using 3 mk(1) by (simp add: Let_def ins_def)
    moreover have "wf_meta ?new" by (rule wf_meta_insert [OF o(2) 3(2) mk(2)])
    moreover have "mk (serial (t_meta ?db)) \<in> set (rows (t_meta ?new))" by (simp add: table_simps)
    moreover have "set (rows (t_meta db)) \<subseteq> set (rows (t_meta ?new))" using o(1) by (auto simp: table_simps)
    ultimately show ?thesis using mk(2) by blast
  qed
qed simp



end
