(* ===== verification/Small_Tables.thy ===== *)
theory Small_Tables
  imports Tables Py_Strings
begin

text \<open>
  The small lookup tables of the data layer: \<^verbatim>\<open>data/format.py\<close>, \<^verbatim>\<open>data/source.py\<close>,
  \<^verbatim>\<open>data/foreignid.py\<close>, \<^verbatim>\<open>data/account.py\<close> and \<^verbatim>\<open>data/application.py\<close>. Formats, foreign
  identifiers and their vendors are interpretations of \<open>keyed_store\<close>. \<open>find_or_insert_source\<close> runs
  against concurrent sessions, whose commits are the argument \<open>other\<close>.
\<close>

subsection \<open>Formats\<close>

definition find_format :: "string \<Rightarrow> app_db \<Rightarrow> int option" where
  "find_format name db = scalar (\<lambda>r. fo_name r = name) fo_id (t_format db)"

definition insert_format :: "string \<Rightarrow> app_db \<Rightarrow> int \<times> app_db" where
  "insert_format name db =
     (let (i, t) = ins (\<lambda>i. \<lparr>fo_id = i, fo_name = name\<rparr>) (t_format db) in (i, db\<lparr>t_format := t\<rparr>))"

definition find_or_insert_format :: "string \<Rightarrow> app_db \<Rightarrow> int \<times> app_db" where
  "find_or_insert_format name db =
     (case find_format name db of
        None \<Rightarrow> insert_format name db
      | Some i \<Rightarrow> (i, db))"

interpretation fmt: keyed_store find_format insert_format "\<lambda>db. unique_table fo_id fo_name (t_format db)"
proof -
  have "keyed_store (\<lambda>k db. scalar (\<lambda>r. fo_name r = k) fo_id (t_format db))
      (\<lambda>k db. (fst (ins (\<lambda>i. \<lparr>fo_id = i, fo_name = k\<rparr>) (t_format db)),
               t_format_update (\<lambda>_. snd (ins (\<lambda>i. \<lparr>fo_id = i, fo_name = k\<rparr>) (t_format db))) db))
      (\<lambda>db. unique_table fo_id fo_name (t_format db))"
    by (rule keyed_store_lift [OF keyed_store_table]) simp_all
  then show "keyed_store find_format insert_format (\<lambda>db. unique_table fo_id fo_name (t_format db))"
    unfolding find_format_def insert_format_def by (simp add: case_prod_beta Let_def)
qed

lemma find_or_insert_format_eq: "find_or_insert_format = find_or_insert find_format insert_format"
  by (intro ext) (simp add: find_or_insert_format_def find_or_insert_def)

subsection \<open>Foreign identifiers\<close>

definition find_foreignid_vendor :: "string \<Rightarrow> fingerprint_db \<Rightarrow> int option" where
  "find_foreignid_vendor name db = scalar (\<lambda>r. fv_name r = name) fv_id (t_foreignid_vendor db)"

definition insert_foreignid_vendor :: "string \<Rightarrow> fingerprint_db \<Rightarrow> int \<times> fingerprint_db" where
  "insert_foreignid_vendor name db =
     (let (i, t) = ins (\<lambda>i. \<lparr>fv_id = i, fv_name = name\<rparr>) (t_foreignid_vendor db)
      in (i, db\<lparr>t_foreignid_vendor := t\<rparr>))"

definition find_or_insert_foreignid_vendor :: "string \<Rightarrow> fingerprint_db \<Rightarrow> int \<times> fingerprint_db" where
  "find_or_insert_foreignid_vendor name db =
     (case find_foreignid_vendor name db of
        None \<Rightarrow> insert_foreignid_vendor name db
      | Some i \<Rightarrow> (i, db))"

definition find_foreignid :: "int \<times> string \<Rightarrow> fingerprint_db \<Rightarrow> int option" where
  "find_foreignid k db = scalar (\<lambda>r. (fi_vendor_id r, fi_name r) = k) fi_id (t_foreignid db)"

definition insert_foreignid :: "int \<times> string \<Rightarrow> fingerprint_db \<Rightarrow> int \<times> fingerprint_db" where
  "insert_foreignid k db =
     (let (i, t) = ins (\<lambda>i. \<lparr>fi_id = i, fi_vendor_id = fst k, fi_name = snd k\<rparr>) (t_foreignid db)
      in (i, db\<lparr>t_foreignid := t\<rparr>))"

definition find_or_insert_foreignid :: "string \<Rightarrow> fingerprint_db \<Rightarrow> py_exc + int \<times> fingerprint_db" where
  "find_or_insert_foreignid full_name db =
     (case str_split1 CHR '':'' full_name of
        (_, None) \<Rightarrow> Inl ValueError
      | (vendor, Some name) \<Rightarrow>
          (let (vendor_id, db) = find_or_insert_foreignid_vendor vendor db in
           Inr (case find_foreignid (vendor_id, name) db of
                  None \<Rightarrow> insert_foreignid (vendor_id, name) db
                | Some i \<Rightarrow> (i, db))))"

definition get_foreignid :: "fingerprint_db \<Rightarrow> int \<Rightarrow> string option" where
  "get_foreignid db i =
     first_of [fv_name v @ '':'' @ fi_name f. f \<leftarrow> rows (t_foreignid db), v \<leftarrow> rows (t_foreignid_vendor db),
                                              fi_vendor_id f = fv_id v, fi_id f = i]"

definition good_vendors :: "fingerprint_db \<Rightarrow> bool" where
  "good_vendors db \<longleftrightarrow> unique_table fv_id fv_name (t_foreignid_vendor db)"

definition good_foreignids :: "fingerprint_db \<Rightarrow> bool" where
  "good_foreignids db \<longleftrightarrow> unique_table fi_id (\<lambda>r. (fi_vendor_id r, fi_name r)) (t_foreignid db)"

interpretation vendor: keyed_store find_foreignid_vendor insert_foreignid_vendor good_vendors
proof -
  have "keyed_store (\<lambda>k db. scalar (\<lambda>r. fv_name r = k) fv_id (t_foreignid_vendor db))
      (\<lambda>k db. (fst (ins (\<lambda>i. \<lparr>fv_id = i, fv_name = k\<rparr>) (t_foreignid_vendor db)),
               t_foreignid_vendor_update (\<lambda>_. snd (ins (\<lambda>i. \<lparr>fv_id = i, fv_name = k\<rparr>) (t_foreignid_vendor db))) db))
      (\<lambda>db. unique_table fv_id fv_name (t_foreignid_vendor db))"
    by (rule keyed_store_lift [OF keyed_store_table]) simp_all
  then show "keyed_store find_foreignid_vendor insert_foreignid_vendor good_vendors"
    unfolding find_foreignid_vendor_def insert_foreignid_vendor_def good_vendors_def
    by (simp add: case_prod_beta Let_def)
qed

interpretation foreign: keyed_store find_foreignid insert_foreignid good_foreignids
proof -
  have "keyed_store (\<lambda>k db. scalar (\<lambda>r. (fi_vendor_id r, fi_name r) = k) fi_id (t_foreignid db))
      (\<lambda>k db. (fst (ins (\<lambda>i. \<lparr>fi_id = i, fi_vendor_id = fst k, fi_name = snd k\<rparr>) (t_foreignid db)),
               t_foreignid_update (\<lambda>_. snd (ins (\<lambda>i. \<lparr>fi_id = i, fi_vendor_id = fst k, fi_name = snd k\<rparr>) (t_foreignid db))) db))
      (\<lambda>db. unique_table fi_id (\<lambda>r. (fi_vendor_id r, fi_name r)) (t_foreignid db))"
    by (rule keyed_store_lift [OF keyed_store_table]) simp_all
  then show "keyed_store find_foreignid insert_foreignid good_foreignids"
    unfolding find_foreignid_def insert_foreignid_def good_foreignids_def
    by (simp add: case_prod_beta Let_def)
qed

lemma find_or_insert_foreignid_eq:
  "find_or_insert_foreignid full db =
     (case str_split1 CHR '':'' full of
        (_, None) \<Rightarrow> Inl ValueError
      | (v, Some n) \<Rightarrow>
          (let (vid, db) = find_or_insert find_foreignid_vendor insert_foreignid_vendor v db
           in Inr (find_or_insert find_foreignid insert_foreignid (vid, n) db)))"
  by (simp add: find_or_insert_foreignid_def find_or_insert_foreignid_vendor_def find_or_insert_def
      split: prod.split option.split)

lemma vendor_frame:
  "t_foreignid (snd (find_or_insert find_foreignid_vendor insert_foreignid_vendor v db)) = t_foreignid db"
  by (simp add: find_or_insert_def insert_foreignid_vendor_def case_prod_beta Let_def split: option.split)

lemma foreign_frame:
  "t_foreignid_vendor (snd (find_or_insert find_foreignid insert_foreignid k db)) = t_foreignid_vendor db"
  by (simp add: find_or_insert_def insert_foreignid_def case_prod_beta Let_def split: option.split)

lemma first_of_all_eq: "xs \<noteq> [] \<Longrightarrow> (\<And>x. x \<in> set xs \<Longrightarrow> x = a) \<Longrightarrow> first_of xs = Some a"
  by (cases xs) auto

lemma get_foreignid_of_find:
  assumes "good_vendors db" "good_foreignids db"
    and v: "find_foreignid_vendor v db = Some vid" and f: "find_foreignid (vid, n) db = Some i"
  shows "get_foreignid db i = Some (v @ '':'' @ n)"
proof -
  obtain rv where rv: "rv \<in> set (rows (t_foreignid_vendor db))" "fv_name rv = v" "fv_id rv = vid"
    using v unfolding find_foreignid_vendor_def by (blast dest: scalar_SomeD)
  obtain rf where rf: "rf \<in> set (rows (t_foreignid db))" "fi_vendor_id rf = vid" "fi_name rf = n" "fi_id rf = i"
    using f unfolding find_foreignid_def by (auto dest!: scalar_SomeD)
  have "r = rf" if "r \<in> set (rows (t_foreignid db))" "fi_id r = i" for r
    using that rf assms(2) distinct_map_unique [of fi_id]
    unfolding good_foreignids_def unique_table_def wf_table_def by metis
  moreover have "r = rv" if "r \<in> set (rows (t_foreignid_vendor db))" "fv_id r = vid" for r
    using that rv assms(1) distinct_map_unique [of fv_id]
    unfolding good_vendors_def unique_table_def wf_table_def by metis
  ultimately have one: "f = rf \<and> w = rv"
    if "f \<in> set (rows (t_foreignid db))" "w \<in> set (rows (t_foreignid_vendor db))" "fi_vendor_id f = fv_id w" "fi_id f = i"
    for f w using that rf(2) by metis
  let ?L = "[fv_name w @ '':'' @ fi_name f. f \<leftarrow> rows (t_foreignid db), w \<leftarrow> rows (t_foreignid_vendor db),
               fi_vendor_id f = fv_id w, fi_id f = i]"
  have mem: "x \<in> set ?L \<longleftrightarrow> (\<exists>f \<in> set (rows (t_foreignid db)). \<exists>w \<in> set (rows (t_foreignid_vendor db)).
      fi_vendor_id f = fv_id w \<and> fi_id f = i \<and> x = fv_name w @ '':'' @ fi_name f)" for x
    by (auto split: if_splits)
  have all: "x = v @ '':'' @ n" if "x \<in> set ?L" for x
    using that one rv(2) rf(3) unfolding mem by metis
  have "v @ '':'' @ n \<in> set ?L"
    unfolding mem using rv rf by metis
  then have "?L \<noteq> []" by (metis empty_iff empty_set)
  then show ?thesis
    unfolding get_foreignid_def by (rule first_of_all_eq) (rule all)
qed

text \<open>A foreign identifier read back by the number it was stored under is the text that was
  submitted, whatever the tables held before, and storing it again changes nothing.\<close>

lemma foreignid_roundtrip:
  assumes "good_vendors db" and "good_foreignids db"
    and stored: "find_or_insert_foreignid full db = Inr (i, db')"
  shows "get_foreignid db' i = Some full \<and> good_vendors db' \<and> good_foreignids db'
     \<and> find_or_insert_foreignid full db' = Inr (i, db')"
proof -
  obtain v n where sp: "str_split1 CHR '':'' full = (v, Some n)"
    using stored by (cases "str_split1 CHR '':'' full")
      (auto simp: find_or_insert_foreignid_def split: option.splits)
  then have full: "full = v @ '':'' @ n" using str_split1_Some by fastforce
  define s1 where "s1 = find_or_insert find_foreignid_vendor insert_foreignid_vendor v db"
  define s2 where "s2 = find_or_insert find_foreignid insert_foreignid (fst s1, n) (snd s1)"
  have s2: "s2 = (i, db')"
    using stored sp by (simp add: find_or_insert_foreignid_eq s2_def s1_def case_prod_beta Let_def)
  have g1: "good_vendors (snd s1)" unfolding s1_def by (rule vendor.good_find_or_insert) (rule assms(1))
  have g2: "good_foreignids (snd s1)" using assms(2) by (simp add: s1_def good_foreignids_def vendor_frame)
  have h2: "good_foreignids db'" using foreign.good_find_or_insert [OF g2] s2 by (metis s2_def snd_conv)
  have h1: "good_vendors db'"
    using g1 foreign_frame [of "(fst s1, n)" "snd s1"] s2 by (simp add: good_vendors_def s2_def)
  have "find_foreignid_vendor v (snd s1) = Some (fst s1)"
    unfolding s1_def by (rule vendor.find_after) (rule assms(1))
  then have fv: "find_foreignid_vendor v db' = Some (fst s1)"
    using foreign_frame [of "(fst s1, n)" "snd s1"] s2 by (simp add: find_foreignid_vendor_def s2_def)
  have ff: "find_foreignid (fst s1, n) db' = Some i"
    using foreign.find_after [OF g2, of "(fst s1, n)"] s2 by (simp add: s2_def)
  have "find_or_insert_foreignid full db' = Inr (i, db')"
    using sp fv ff by (simp add: find_or_insert_foreignid_eq find_or_insert_def)
  with get_foreignid_of_find [OF h1 h2 fv ff] h1 h2 full show ?thesis by simp
qed

subsection \<open>Sources\<close>

definition get_source :: "app_db \<Rightarrow> int \<Rightarrow> (int \<times> int \<times> string option) option" where
  "get_source db i =
     scalar (\<lambda>r. so_id r = i) (\<lambda>r. (so_account_id r, so_application_id r, so_version r)) (t_source db)"

definition find_source_id :: "app_db \<Rightarrow> int \<Rightarrow> int \<Rightarrow> string option \<Rightarrow> int option" where
  "find_source_id db application_id account_id version =
     scalar (\<lambda>r. so_account_id r = account_id \<and> so_application_id r = application_id \<and> so_version r = version)
       so_id (t_source db)"

text \<open>
  The unique index of the table: a row without a version never conflicts (NULLs are distinct).
\<close>

definition source_conflict :: "app_db \<Rightarrow> int \<Rightarrow> int \<Rightarrow> string option \<Rightarrow> bool" where
  "source_conflict db application_id account_id version \<longleftrightarrow>
     version \<noteq> None \<and> find_source_id db application_id account_id version \<noteq> None"

text \<open>\<open>INSERT ... ON CONFLICT DO NOTHING RETURNING id\<close>.\<close>

definition insert_source_on_conflict_do_nothing ::
    "app_db \<Rightarrow> int \<Rightarrow> int \<Rightarrow> string option \<Rightarrow> int option \<times> app_db" where
  "insert_source_on_conflict_do_nothing db application_id account_id version =
     (if source_conflict db application_id account_id version then (None, db)
      else let (i, t) = ins (\<lambda>i. \<lparr>so_id = i, so_application_id = application_id, so_account_id = account_id,
                                   so_version = version\<rparr>) (t_source db)
           in (Some i, db\<lparr>t_source := t\<rparr>))"

fun find_or_insert_source_loop ::
    "(nat \<Rightarrow> app_db \<Rightarrow> app_db) \<Rightarrow> nat \<Rightarrow> int \<Rightarrow> int \<Rightarrow> string option \<Rightarrow> app_db \<Rightarrow> py_exc + int \<times> app_db" where
  "find_or_insert_source_loop other 0 application_id account_id version db = Inl RuntimeError"
| "find_or_insert_source_loop other (Suc retries) application_id account_id version db =
     (case find_source_id db application_id account_id version of
        Some source_id \<Rightarrow> Inr (source_id, db)
      | None \<Rightarrow>
          (case insert_source_on_conflict_do_nothing (other retries db) application_id account_id version of
             (Some source_id, db) \<Rightarrow> Inr (source_id, db)
           | (None, db) \<Rightarrow> find_or_insert_source_loop other retries application_id account_id version db))"

definition find_or_insert_source ::
    "(nat \<Rightarrow> app_db \<Rightarrow> app_db) \<Rightarrow> int \<Rightarrow> int \<Rightarrow> string option \<Rightarrow> app_db \<Rightarrow> py_exc + int \<times> app_db" where
  "find_or_insert_source other application_id account_id version db =
     find_or_insert_source_loop other 3 application_id account_id version db"

definition only_adds_sources :: "(nat \<Rightarrow> app_db \<Rightarrow> app_db) \<Rightarrow> bool" where
  "only_adds_sources other \<longleftrightarrow> (\<forall>n db. set (rows (t_source db)) \<subseteq> set (rows (t_source (other n db))))"

lemma insert_source_found:
  "insert_source_on_conflict_do_nothing db ap ac ver = (Some i, db') \<Longrightarrow>
     \<exists>r \<in> set (rows (t_source db')). so_id r = i \<and> so_application_id r = ap \<and> so_account_id r = ac \<and> so_version r = ver"
  by (auto simp: insert_source_on_conflict_do_nothing_def ins_def Let_def split: if_splits)

lemma find_source_row:
  "find_source_id db ap ac ver = Some i \<Longrightarrow>
     \<exists>r \<in> set (rows (t_source db)). so_id r = i \<and> so_application_id r = ap \<and> so_account_id r = ac \<and> so_version r = ver"
  by (auto simp: find_source_id_def dest!: scalar_SomeD)

text \<open>Finding or inserting a source never gives up with RuntimeError: however many other sessions
  insert sources in between, the second look after a conflict sees the row that caused it. The number
  returned is that of a stored row for exactly this application, account and version.\<close>

lemma source_retry_succeeds:
  assumes "only_adds_sources other"
  shows "\<exists>i db'. find_or_insert_source other ap ac ver db = Inr (i, db')
     \<and> (\<exists>r \<in> set (rows (t_source db')). so_id r = i \<and> so_application_id r = ap \<and> so_account_id r = ac \<and> so_version r = ver)"
proof (cases "find_source_id db ap ac ver")
  case (Some i)
  with find_source_row [OF Some] show ?thesis
    by (simp add: find_or_insert_source_def numeral_3_eq_3)
next
  case None
  obtain r db1 where ins: "insert_source_on_conflict_do_nothing (other 2 db) ap ac ver = (r, db1)"
    by fastforce
  show ?thesis
  proof (cases r)
    case (Some i)
    with ins insert_source_found [of "other 2 db" ap ac ver i db1] None show ?thesis
      by (simp add: find_or_insert_source_def numeral_3_eq_3 numeral_2_eq_2)
  next
    case r: None
    then have "db1 = other 2 db" and "source_conflict (other 2 db) ap ac ver"
      using ins by (auto simp: insert_source_on_conflict_do_nothing_def Let_def split: if_splits prod.splits)
    then obtain i where i: "find_source_id db1 ap ac ver = Some i"
      by (auto simp: source_conflict_def)
    with find_source_row [OF i] ins r None show ?thesis
      by (simp add: find_or_insert_source_def numeral_3_eq_3 numeral_2_eq_2)
  qed
qed

definition racing_session :: "nat \<Rightarrow> app_db \<Rightarrow> app_db" where
  "racing_session n db = snd (insert_source_on_conflict_do_nothing db 7 8 (Some ''1.0''))"

end
