(* ===== verification/Submission.thy ===== *)
theory Submission
  imports Fp_Search Meta Small_Tables
begin

text \<open>
  \<^verbatim>\<open>data/submission.py\<close>: the queue of submissions and their import into the fingerprint database. A run is
  a transaction on the three databases, threaded through the steps as \<open>dbs\<close>; an exception (\<open>Inl\<close>)
  rolls all of them back. The environment supplies what is outside the repository: the advisory locks of
  the other importers, the similarity hash that names the lock, the search environment, the UUID functions
  and the commits of other sessions.
\<close>

record dbs =
  d_ingest :: ingest_db
  d_app :: app_db
  d_fp :: fingerprint_db

record import_env =
  m_search :: search_env
  m_simhash :: "int list \<Rightarrow> int"
  m_lock_fp :: "int \<Rightarrow> bool"
  m_lock_mbid :: "string \<Rightarrow> bool"
  m_now :: int
  m_uuid4 :: string
  m_uuid5 :: "string \<Rightarrow> string"
  m_other_app :: "nat \<Rightarrow> app_db \<Rightarrow> app_db"
  m_other_fp :: "nat \<Rightarrow> fingerprint_db \<Rightarrow> fingerprint_db"

subsection \<open>The queue\<close>

text \<open>\<open>insert_submission\<close>: the row of the given values, and its entry in the queue.\<close>

definition insert_submission :: "ingest_db \<Rightarrow> (int \<Rightarrow> submission_row) \<Rightarrow> int \<times> ingest_db" where
  "insert_submission db mk =
     (let (submission_id, t) = ins mk (t_submission db);
          p = t_pending_submission db
      in (submission_id, db\<lparr>t_submission := t, t_pending_submission := p\<lparr>rows := rows p @ [\<lparr>ps_id = submission_id\<rparr>]\<rparr>\<rparr>))"

definition insert_submission_result :: "ingest_db \<Rightarrow> submission_result_row \<Rightarrow> py_exc + int \<times> ingest_db" where
  "insert_submission_result db r =
     (let t = t_submission_result db
      in if \<exists>x \<in> set (rows t). sr_submission_id x = sr_submission_id r then Inl IntegrityError
         else Inr (sr_submission_id r, db\<lparr>t_submission_result := t\<lparr>rows := rows t @ [r]\<rparr>\<rparr>))"

subsection \<open>Import of one submission\<close>

text \<open>
  A UUID column reads as a \<open>uuid.UUID\<close> object, which Python never considers equal to a \<open>str\<close>, and which
  is always true; the test against the text of the nil UUID therefore never filters anything.
\<close>

definition uuid_equals_text :: "string \<Rightarrow> string \<Rightarrow> bool" where
  "uuid_equals_text uuid s = False"

definition has_uuid :: "string option \<Rightarrow> bool" where
  "has_uuid u = (case u of None \<Rightarrow> False | Some x \<Rightarrow> \<not> uuid_equals_text x ''00000000-0000-0000-0000-000000000000'')"

definition has_meta :: "submission_row \<Rightarrow> bool" where
  "has_meta sub \<longleftrightarrow> truthy_int (su_meta_id sub) \<or> (case su_meta sub of None \<Rightarrow> False | Some m \<Rightarrow> m \<noteq> [])"

definition mark_handled :: "int \<Rightarrow> int \<Rightarrow> ingest_db \<Rightarrow> ingest_db" where
  "mark_handled submission_id handled_at db =
     db\<lparr>t_submission := upd (\<lambda>r. su_id r = submission_id)
                          (\<lambda>r. r\<lparr>su_handled := True, su_handled_at := Some handled_at\<rparr>) (t_submission db)\<rparr>"

text \<open>The locks: the similarity hash, then the MBID. \<open>True\<close> means that the import may go on.\<close>

definition try_locks :: "import_env \<Rightarrow> submission_row \<Rightarrow> bool" where
  "try_locks env sub \<longleftrightarrow> m_lock_fp env (m_simhash env (su_fingerprint sub)) \<and>
     (case su_mbid sub of None \<Rightarrow> True | Some mbid \<Rightarrow> m_lock_mbid env mbid)"

definition worth_importing :: "import_env \<Rightarrow> submission_row \<Rightarrow> bool" where
  "worth_importing env sub \<longleftrightarrow>
     (has_uuid (su_mbid sub) \<or> has_uuid (su_puid sub) \<or> has_meta sub) \<and>
     \<not> int (card (set (su_fingerprint sub))) < FINGERPRINT_MIN_UNIQUE_ITEMS \<and>
     e_xq (m_search env) (su_fingerprint sub) \<noteq> []"

text \<open>The source of the submission: \<open>None\<close> when its id is unknown.\<close>

record source_info =
  si_id :: int
  si_application_id :: int
  si_account_id :: int
  si_version :: "string option"

definition resolve_source ::
    "import_env \<Rightarrow> submission_row \<Rightarrow> app_db \<Rightarrow> py_exc + source_info option \<times> app_db" where
  "resolve_source env sub db =
     (case su_source_id sub of
        Some source_id \<Rightarrow>
          (case get_source db source_id of
             None \<Rightarrow> Inr (None, db)
           | Some (account_id, application_id, version) \<Rightarrow>
               Inr (Some \<lparr>si_id = source_id, si_application_id = application_id, si_account_id = account_id,
                          si_version = version\<rparr>, db))
      | None \<Rightarrow>
          (case (su_application_id sub, su_account_id sub) of
             (Some application_id, Some account_id) \<Rightarrow>
               (case find_or_insert_source (m_other_app env) application_id account_id (su_application_version sub) db of
                  Inl e \<Rightarrow> Inl e
                | Inr (source_id, db) \<Rightarrow>
                    Inr (Some \<lparr>si_id = source_id, si_application_id = application_id, si_account_id = account_id,
                               si_version = su_application_version sub\<rparr>, db))
           | _ \<Rightarrow> Inl IntegrityError))"

definition resolve_format :: "submission_row \<Rightarrow> app_db \<Rightarrow> int option \<times> app_db" where
  "resolve_format sub db =
     (case (su_format_id sub, su_format sub) of
        (Some i, _) \<Rightarrow> (Some i, db)
      | (None, Some name) \<Rightarrow> (let (i, db) = find_or_insert_format name db in (Some i, db))
      | (None, None) \<Rightarrow> (None, db))"

text \<open>
  The loop over the matches: the first track that accepts the fingerprint is taken, and with it the
  matching fingerprint when the two are nearly identical.
\<close>

fun pick_track ::
    "compare_fn \<Rightarrow> fingerprint_db \<Rightarrow> submission_row \<Rightarrow> fp_match list \<Rightarrow> int set \<Rightarrow> int option \<Rightarrow> int option
     \<Rightarrow> int option \<times> int option" where
  "pick_track compare2 db sub [] all_track_ids track_id fingerprint_id = (track_id, fingerprint_id)"
| "pick_track compare2 db sub (m # ms) all_track_ids track_id fingerprint_id =
     (if fm_track_id m \<in> all_track_ids then pick_track compare2 db sub ms all_track_ids track_id fingerprint_id
      else if can_add_fp_to_track compare2 db (fm_track_id m) (su_fingerprint sub) (su_length sub) \<and> \<not> truthy_int track_id
      then pick_track compare2 db sub ms (insert (fm_track_id m) all_track_ids) (Some (fm_track_id m))
             (if fm_score m > FINGERPRINT_MERGE_THRESHOLD then Some (fm_fingerprint_id m) else fingerprint_id)
      else pick_track compare2 db sub ms (insert (fm_track_id m) all_track_ids) track_id fingerprint_id)"

definition find_track :: "import_env \<Rightarrow> submission_row \<Rightarrow> fingerprint_db \<Rightarrow> py_exc + int option \<times> int option" where
  "find_track env sub db =
     (case search_directly (m_search env) ((new_searcher False None)\<lparr>s_min_score := TRACK_MERGE_THRESHOLD\<rparr>)
             (su_fingerprint sub) (su_length sub) None db of
        Inl e \<Rightarrow> Inl e
      | Inr matches \<Rightarrow> Inr (pick_track (e_compare2 (m_search env)) db sub matches {} None None))"

definition store_fingerprint ::
    "import_env \<Rightarrow> submission_row \<Rightarrow> int option \<Rightarrow> int \<Rightarrow> int option \<times> int option \<Rightarrow> fingerprint_db \<times> ingest_db
     \<Rightarrow> (int \<times> int) \<times> fingerprint_db \<times> ingest_db" where
  "store_fingerprint env sub format_id source_id found s =
     (let (fdb, idb) = s;
          (track_id, fdb) = (if truthy_int (fst found) then (the (fst found), fdb) else insert_track (m_uuid4 env) fdb)
      in if \<not> truthy_int (snd found)
         then (let (i, fdb, idb) = insert_fingerprint (e_xq (m_search env)) fdb idb
                     \<lparr>fd_fingerprint = su_fingerprint sub, fd_length = su_length sub, fd_bitrate = su_bitrate sub,
                      fd_format_id = format_id, fd_track_id = track_id\<rparr> (Some (su_id sub)) (Some source_id)
               in ((track_id, i), fdb, idb))
         else (let (fdb, idb) = inc_fingerprint_submission_count fdb idb (the (snd found)) (Some (su_id sub)) (Some source_id)
               in ((track_id, the (snd found)), fdb, idb)))"

text \<open>The metadata to link: its id and content identifier, or nothing when the given id is unknown.\<close>

definition resolve_meta ::
    "import_env \<Rightarrow> submission_row \<Rightarrow> fingerprint_db \<Rightarrow> py_exc + (int \<times> string option) option \<times> fingerprint_db" where
  "resolve_meta env sub db =
     (case su_meta_id sub of
        None \<Rightarrow>
          (case fix_meta (case su_meta sub of None \<Rightarrow> [] | Some m \<Rightarrow> m) of
             Inl e \<Rightarrow> Inl e
           | Inr meta \<Rightarrow>
               (case find_or_insert_meta (m_uuid5 env) (m_other_fp env) db meta of
                  Inl e \<Rightarrow> Inl e
                | Inr ((i, gid), db) \<Rightarrow> Inr (Some (i, Some gid), db)))
      | Some meta_id \<Rightarrow>
          (let (found, gid) = check_meta_id db meta_id
           in Inr (if found then Some (meta_id, gid) else None, db)))"

definition resolve_foreignid ::
    "submission_row \<Rightarrow> fingerprint_db \<Rightarrow> py_exc + (int \<times> string option) option \<times> fingerprint_db" where
  "resolve_foreignid sub db =
     (if \<not> truthy_int (su_foreignid_id sub) \<and> \<not> truthy_str (su_foreignid sub) then Inr (None, db)
      else case su_foreignid_id sub of
        Some i \<Rightarrow> Inr (Some (i, get_foreignid db i), db)
      | None \<Rightarrow>
          (case find_or_insert_foreignid (the (su_foreignid sub)) db of
             Inl e \<Rightarrow> Inl e
           | Inr (i, db) \<Rightarrow> Inr (Some (i, su_foreignid sub), db)))"

text \<open>The links a submission adds to its track, and the fields they set in the result.\<close>

definition link_mbid :: "submission_row \<Rightarrow> int \<Rightarrow> int \<Rightarrow> fingerprint_db \<times> ingest_db \<Rightarrow> string option \<times> fingerprint_db \<times> ingest_db" where
  "link_mbid sub track_id source_id s =
     (if has_uuid (su_mbid sub)
      then (su_mbid sub, insert_mbid (fst s) (snd s) track_id (the (su_mbid sub)) (Some (su_id sub)) (Some source_id))
      else (None, s))"

definition link_puid :: "submission_row \<Rightarrow> int \<Rightarrow> int \<Rightarrow> fingerprint_db \<times> ingest_db \<Rightarrow> string option \<times> fingerprint_db \<times> ingest_db" where
  "link_puid sub track_id source_id s =
     (if has_uuid (su_puid sub)
      then (su_puid sub, insert_puid (fst s) (snd s) track_id (the (su_puid sub)) (Some (su_id sub)) (Some source_id))
      else (None, s))"

definition link_meta ::
    "import_env \<Rightarrow> submission_row \<Rightarrow> int \<Rightarrow> int \<Rightarrow> fingerprint_db \<times> ingest_db
     \<Rightarrow> py_exc + (int option \<times> string option) \<times> fingerprint_db \<times> ingest_db" where
  "link_meta env sub track_id source_id s =
     (if \<not> has_meta sub then Inr ((None, None), s)
      else case resolve_meta env sub (fst s) of
        Inl e \<Rightarrow> Inl e
      | Inr (None, fdb) \<Rightarrow> Inr ((None, None), fdb, snd s)
      | Inr (Some (meta_id, gid), fdb) \<Rightarrow>
          Inr ((Some meta_id, gid), insert_track_meta fdb (snd s) track_id meta_id (Some (su_id sub)) (Some source_id)))"

definition link_foreignid ::
    "submission_row \<Rightarrow> int \<Rightarrow> int \<Rightarrow> fingerprint_db \<times> ingest_db \<Rightarrow> py_exc + string option \<times> fingerprint_db \<times> ingest_db" where
  "link_foreignid sub track_id source_id s =
     (case resolve_foreignid sub (fst s) of
        Inl e \<Rightarrow> Inl e
      | Inr (None, fdb) \<Rightarrow> Inr (None, fdb, snd s)
      | Inr (Some (i, name), fdb) \<Rightarrow>
          Inr (name, insert_track_foreignid fdb (snd s) track_id i (Some (su_id sub)) (Some source_id)))"

definition import_with_source ::
    "import_env \<Rightarrow> submission_row \<Rightarrow> source_info \<Rightarrow> dbs \<Rightarrow> py_exc + (int \<times> int) \<times> dbs" where
  "import_with_source env sub src s =
     (let (format_id, app) = resolve_format sub (d_app s)
      in case find_track env sub (d_fp s) of
        Inl e \<Rightarrow> Inl e
      | Inr found \<Rightarrow>
          (let ((track_id, fingerprint_id), st) = store_fingerprint env sub format_id (si_id src) found (d_fp s, d_ingest s);
               (mbid, st) = link_mbid sub track_id (si_id src) st;
               (puid, st) = link_puid sub track_id (si_id src) st
           in case link_meta env sub track_id (si_id src) st of
             Inl e \<Rightarrow> Inl e
           | Inr ((meta_id, meta_gid), st) \<Rightarrow>
               (case link_foreignid sub track_id (si_id src) st of
                  Inl e \<Rightarrow> Inl e
                | Inr (foreignid, fdb, idb) \<Rightarrow>
                    (case insert_submission_result idb
                            \<lparr>sr_submission_id = su_id sub, sr_created = su_created sub, sr_handled_at = Some (m_now env),
                             sr_account_id = si_account_id src, sr_application_id = si_application_id src,
                             sr_application_version = si_version src, sr_fingerprint_id = fingerprint_id,
                             sr_track_id = track_id, sr_meta_gid = meta_gid, sr_meta_id = meta_id, sr_mbid = mbid,
                             sr_puid = puid, sr_foreignid = foreignid\<rparr> of
                       Inl e \<Rightarrow> Inl e
                     | Inr (_, idb) \<Rightarrow>
                         Inr ((track_id, fingerprint_id), s\<lparr>d_ingest := idb, d_app := app, d_fp := fdb\<rparr>)))))"

text \<open>
  The result tells whether the submission was handled, and the (track, fingerprint) it went to unless it
  was not worth importing.
\<close>

definition import_submission ::
    "import_env \<Rightarrow> submission_row \<Rightarrow> dbs \<Rightarrow> py_exc + (bool \<times> (int \<times> int) option) \<times> dbs" where
  "import_submission env sub s =
     (if \<not> try_locks env sub then Inr ((False, None), s)
      else
        (let s = s\<lparr>d_ingest := mark_handled (su_id sub) (m_now env) (d_ingest s)\<rparr>
         in if \<not> worth_importing env sub then Inr ((True, None), s)
            else case resolve_source env sub (d_app s) of
              Inl e \<Rightarrow> Inl e
            | Inr (None, app) \<Rightarrow> Inr ((True, None), s\<lparr>d_app := app\<rparr>)
            | Inr (Some src, app) \<Rightarrow>
                (case import_with_source env sub src (s\<lparr>d_app := app\<rparr>) of
                   Inl e \<Rightarrow> Inl e
                 | Inr (fingerprint, s) \<Rightarrow> Inr ((True, Some fingerprint), s))))"

subsection \<open>Import of the queue\<close>

text \<open>
  \<open>env_of\<close> gives each submission its environment (locks, clock, search results differ from one to the
  next). The rows are read before the loop; \<open>limit\<close> and \<open>ids\<close> restrict the queue entries that are taken,
  and \<open>locked\<close> are the entries that another importer holds (\<open>SKIP LOCKED\<close>).
\<close>

fun import_each ::
    "(submission_row \<Rightarrow> import_env) \<Rightarrow> submission_row list \<Rightarrow> int list \<Rightarrow> int \<Rightarrow> dbs \<Rightarrow> py_exc + (int list \<times> int) \<times> dbs" where
  "import_each env_of [] submission_ids count s = Inr ((submission_ids, count), s)"
| "import_each env_of (sub # subs) submission_ids count s =
     (case import_submission (env_of sub) sub s of
        Inl e \<Rightarrow> Inl e
      | Inr ((handled, _), s) \<Rightarrow>
          import_each env_of subs (if handled then submission_ids else removeAll (su_id sub) submission_ids) (count + 1) s)"

definition import_queued_submissions ::
    "(submission_row \<Rightarrow> import_env) \<Rightarrow> (int \<Rightarrow> bool) \<Rightarrow> nat option \<Rightarrow> int list option \<Rightarrow> dbs \<Rightarrow> py_exc + int \<times> dbs" where
  "import_queued_submissions env_of locked limit ids s =
     (let queue = map ps_id (sel (\<lambda>r. \<not> locked (ps_id r) \<and> (case ids of None \<Rightarrow> True | Some l \<Rightarrow> ps_id r \<in> set l))
                               (t_pending_submission (d_ingest s)));
          submission_ids = remdups (case limit of None \<Rightarrow> queue | Some n \<Rightarrow> take n queue)
      in if submission_ids = [] then Inr (0, s)
         else
           (case import_each env_of (sel (\<lambda>r. su_id r \<in> set submission_ids \<and> \<not> su_handled r) (t_submission (d_ingest s)))
                   submission_ids 0 s of
              Inl e \<Rightarrow> Inl e
            | Inr ((submission_ids, count), s) \<Rightarrow>
                Inr (count, s\<lparr>d_ingest := (d_ingest s)\<lparr>t_pending_submission :=
                       del (\<lambda>r. ps_id r \<in> set submission_ids) (t_pending_submission (d_ingest s))\<rparr>\<rparr>)))"

definition lookup_submission_status :: "ingest_db \<Rightarrow> fingerprint_db \<Rightarrow> int list \<Rightarrow> (int, string) dict" where
  "lookup_submission_status idb fdb ids =
     (let fingerprint_ids = fold (\<lambda>r d. dict_set d (fs_submission_id r) (fs_fingerprint_id r))
            (sel (\<lambda>r. fs_submission_id r \<in> set ids) (t_fingerprint_source idb)) [];
          track_gids = fold (\<lambda>(i, gid) d. dict_set d i gid)
            [(fp_id f, tr_gid t). f \<leftarrow> rows (t_fingerprint fdb), t \<leftarrow> rows (t_track fdb),
                                  fp_track_id f = tr_id t \<and> fp_id f \<in> set (map snd fingerprint_ids)] []
      in fold (\<lambda>i results.
                 case Option.bind (dict_get fingerprint_ids i) (dict_get track_gids) of
                   None \<Rightarrow> results
                 | Some gid \<Rightarrow> dict_set results i gid) ids [])"

subsection \<open>What an import leaves alone\<close>

text \<open>The queue tables of the ingest database that only the two ends of an import write.\<close>

definition same_queue :: "ingest_db \<Rightarrow> ingest_db \<Rightarrow> bool" where
  "same_queue a b \<longleftrightarrow> t_submission b = t_submission a \<and> t_pending_submission b = t_pending_submission a"

lemma same_queue_refl [simp]: "same_queue a a"
  by (simp add: same_queue_def)

lemma same_queue_trans: "same_queue a b \<Longrightarrow> same_queue b c \<Longrightarrow> same_queue a c"
  by (simp add: same_queue_def)

lemma queue_frames:
  "same_queue idb (snd (insert_mbid fdb idb t v su so))" "same_queue idb (snd (insert_puid fdb idb t v su so))"
  "same_queue idb (snd (insert_track_meta fdb idb t i su so))" "same_queue idb (snd (insert_track_foreignid fdb idb t i su so))"
  "same_queue idb (add_fingerprint_source i su so idb)"
  "same_queue idb (snd (inc_fingerprint_submission_count fdb idb i su so))"
  "same_queue idb (snd (snd (insert_fingerprint xq fdb idb d su so)))"
  by (simp_all add: same_queue_def insert_mbid_def insert_puid_def insert_track_meta_def insert_track_foreignid_def
      add_fingerprint_source_def inc_fingerprint_submission_count_def insert_fingerprint_def case_prod_beta Let_def)

lemma store_fingerprint_queue: "same_queue (snd st) (snd (snd (store_fingerprint env sub f so found st)))"
  using queue_frames by (auto simp: store_fingerprint_def case_prod_beta Let_def)

lemma link_queue:
  "same_queue (snd st) (snd (snd (link_mbid sub t so st)))" "same_queue (snd st) (snd (snd (link_puid sub t so st)))"
  "link_meta env sub t so st = Inr (a, st') \<Longrightarrow> same_queue (snd st) (snd st')"
  "link_foreignid sub t so st = Inr (b, st') \<Longrightarrow> same_queue (snd st) (snd st')"
  using queue_frames
  by (auto simp: link_mbid_def link_puid_def link_meta_def link_foreignid_def split: if_splits sum.splits option.splits)

lemma insert_submission_result_queue: "insert_submission_result idb r = Inr (i, idb') \<Longrightarrow> same_queue idb idb'"
  by (auto simp: insert_submission_result_def same_queue_def Let_def split: if_splits)

text \<open>The steps of a successful import.\<close>

lemma import_with_source_steps [consumes 1, case_names steps]:
  assumes "import_with_source env sub src s = Inr ((track_id, fingerprint_id), s')"
  obtains format_id app found st mbid st1 puid st2 meta_id meta_gid st3 foreignid fdb idb r x idb' where
    "resolve_format sub (d_app s) = (format_id, app)"
    "find_track env sub (d_fp s) = Inr found"
    "store_fingerprint env sub format_id (si_id src) found (d_fp s, d_ingest s) = ((track_id, fingerprint_id), st)"
    "link_mbid sub track_id (si_id src) st = (mbid, st1)"
    "link_puid sub track_id (si_id src) st1 = (puid, st2)"
    "link_meta env sub track_id (si_id src) st2 = Inr ((meta_id, meta_gid), st3)"
    "link_foreignid sub track_id (si_id src) st3 = Inr (foreignid, fdb, idb)"
    "r = \<lparr>sr_submission_id = su_id sub, sr_created = su_created sub, sr_handled_at = Some (m_now env),
          sr_account_id = si_account_id src, sr_application_id = si_application_id src,
          sr_application_version = si_version src, sr_fingerprint_id = fingerprint_id,
          sr_track_id = track_id, sr_meta_gid = meta_gid, sr_meta_id = meta_id, sr_mbid = mbid,
          sr_puid = puid, sr_foreignid = foreignid\<rparr>"
    "insert_submission_result idb r = Inr (x, idb')"
    "d_ingest s' = idb'" "d_fp s' = fdb"
proof -
  obtain format_id app where fmt: "resolve_format sub (d_app s) = (format_id, app)" by fastforce
  obtain found where fnd: "find_track env sub (d_fp s) = Inr found"
    using assms by (auto simp: import_with_source_def fmt split: sum.splits)
  obtain t i st where sf: "store_fingerprint env sub format_id (si_id src) found (d_fp s, d_ingest s) = ((t, i), st)"
    by (metis prod.collapse)
  obtain mbid st1 where mb: "link_mbid sub t (si_id src) st = (mbid, st1)" by (meson surj_pair)
  obtain puid st2 where pu: "link_puid sub t (si_id src) st1 = (puid, st2)" by (meson surj_pair)
  obtain meta_id meta_gid st3 where me: "link_meta env sub t (si_id src) st2 = Inr ((meta_id, meta_gid), st3)"
    using assms by (auto simp: import_with_source_def fmt fnd sf mb pu case_prod_beta Let_def split: sum.splits)
  obtain foreignid fdb idb where fo: "link_foreignid sub t (si_id src) st3 = Inr (foreignid, fdb, idb)"
    using assms by (auto simp: import_with_source_def fmt fnd sf mb pu me case_prod_beta Let_def split: sum.splits)
  define r where "r = \<lparr>sr_submission_id = su_id sub, sr_created = su_created sub, sr_handled_at = Some (m_now env),
          sr_account_id = si_account_id src, sr_application_id = si_application_id src,
          sr_application_version = si_version src, sr_fingerprint_id = i,
          sr_track_id = t, sr_meta_gid = meta_gid, sr_meta_id = meta_id, sr_mbid = mbid,
          sr_puid = puid, sr_foreignid = foreignid\<rparr>"
  have eq: "import_with_source env sub src s = (case insert_submission_result idb r of Inl e \<Rightarrow> Inl e
      | Inr (x, idb') \<Rightarrow> Inr ((t, i), s\<lparr>d_ingest := idb', d_app := app, d_fp := fdb\<rparr>))"
    unfolding import_with_source_def fmt fnd sf mb pu me fo Let_def prod.case sum.case r_def by (rule refl)
  obtain x idb' where ir: "insert_submission_result idb r = Inr (x, idb')"
    using assms by (auto simp: eq split: sum.splits)
  have ti: "t = track_id" "i = fingerprint_id" and s': "d_ingest s' = idb'" "d_fp s' = fdb"
    using assms by (auto simp: eq ir)
  from that [OF fmt fnd sf [unfolded ti] mb [unfolded ti] pu [unfolded ti] me [unfolded ti] fo [unfolded ti] r_def [unfolded ti] ir s'] show ?thesis .
qed

lemma import_with_source_queue:
  assumes "import_with_source env sub src s = Inr (res, s')"
  shows "same_queue (d_ingest s) (d_ingest s')"
proof -
  obtain t i where "res = (t, i)" by fastforce
  with assms have "import_with_source env sub src s = Inr ((t, i), s')" by simp
  then show ?thesis
  proof (cases rule: import_with_source_steps)
    case (steps format_id app found st mbid st1 puid st2 meta_id meta_gid st3 foreignid fdb idb r x idb')
    have "same_queue (d_ingest s) (snd st)" using store_fingerprint_queue [of "(d_fp s, d_ingest s)"] steps(3) by (metis snd_conv)
    moreover have "same_queue (snd st) (snd st1)" using link_queue(1) steps(4) by (metis snd_conv)
    moreover have "same_queue (snd st1) (snd st2)" using link_queue(2) steps(5) by (metis snd_conv)
    moreover note link_queue(3) [OF steps(6)] link_queue(4) [OF steps(7)] insert_submission_result_queue [OF steps(9)]
    ultimately show ?thesis unfolding steps(10) by (metis same_queue_trans snd_conv)
  qed
qed

lemma import_submission_queue:
  assumes "import_submission env sub s = Inr ((handled, res), s')"
  shows "t_pending_submission (d_ingest s') = t_pending_submission (d_ingest s)"
    and "t_submission (d_ingest s') =
           (if handled then t_submission (mark_handled (su_id sub) (m_now env) (d_ingest s)) else t_submission (d_ingest s))"
proof -
  have mh: "t_pending_submission (mark_handled i n db) = t_pending_submission db" for i n db by (simp add: mark_handled_def)
  show "t_pending_submission (d_ingest s') = t_pending_submission (d_ingest s)"
    "t_submission (d_ingest s') =
           (if handled then t_submission (mark_handled (su_id sub) (m_now env) (d_ingest s)) else t_submission (d_ingest s))"
    using assms import_with_source_queue
    by (force simp: import_submission_def Let_def mh same_queue_def split: if_splits sum.splits option.splits)+
qed

subsection \<open>No submission is lost from the queue\<close>

definition all_handled :: "int \<Rightarrow> submission_row table \<Rightarrow> bool" where
  "all_handled i t \<longleftrightarrow> (\<forall>r \<in> set (rows t). su_id r = i \<longrightarrow> su_handled r)"

definition handled_kept :: "submission_row table \<Rightarrow> submission_row table \<Rightarrow> bool" where
  "handled_kept t t' \<longleftrightarrow> (\<forall>r' \<in> set (rows t'). \<exists>r \<in> set (rows t). su_id r' = su_id r \<and> (su_handled r \<longrightarrow> su_handled r'))"

lemma handled_kept_refl [simp]: "handled_kept t t"
  by (auto simp: handled_kept_def)

lemma handled_kept_trans: "handled_kept a b \<Longrightarrow> handled_kept b c \<Longrightarrow> handled_kept a c"
  unfolding handled_kept_def by metis

lemma all_handled_kept: "all_handled i t \<Longrightarrow> handled_kept t t' \<Longrightarrow> all_handled i t'"
  unfolding all_handled_def handled_kept_def by metis

lemma mark_handled_kept:
  "handled_kept (t_submission db) (t_submission (mark_handled i n db)) \<and> all_handled i (t_submission (mark_handled i n db))"
proof
  let ?f = "\<lambda>r. if su_id r = i then r\<lparr>su_handled := True, su_handled_at := Some n\<rparr> else r"
  have t: "rows (t_submission (mark_handled i n db)) = map ?f (rows (t_submission db))"
    by (simp add: mark_handled_def table_simps)
  have "su_id (?f r) = su_id r \<and> (su_handled r \<longrightarrow> su_handled (?f r))" for r by simp
  then show "handled_kept (t_submission db) (t_submission (mark_handled i n db))"
    unfolding handled_kept_def t set_map by blast
  show "all_handled i (t_submission (mark_handled i n db))"
    unfolding all_handled_def t set_map by (intro ballI impI) (elim imageE, simp split: if_splits)
qed

lemma import_each_queue:
  "import_each env_of subs ids count s = Inr ((ids', count'), s') \<Longrightarrow>
     set ids' \<subseteq> set ids \<and> t_pending_submission (d_ingest s') = t_pending_submission (d_ingest s) \<and>
     handled_kept (t_submission (d_ingest s)) (t_submission (d_ingest s')) \<and>
     (\<forall>sub \<in> set subs. su_id sub \<in> set ids' \<longrightarrow> all_handled (su_id sub) (t_submission (d_ingest s'))) \<and>
     count' = count + int (length subs)"
proof (induction env_of subs ids count s rule: import_each.induct)
  case (2 env_of sub subs ids count s)
  obtain handled res s1 where one: "import_submission (env_of sub) sub s = Inr ((handled, res), s1)"
    and rest: "import_each env_of subs (if handled then ids else removeAll (su_id sub) ids) (count + 1) s1 = Inr ((ids', count'), s')"
    using 2(2) by (auto split: sum.splits)
  note q = import_submission_queue [OF one]
  note ih = 2(1) [OF one refl refl rest]
  have k: "handled_kept (t_submission (d_ingest s)) (t_submission (d_ingest s1))"
    "handled \<Longrightarrow> all_handled (su_id sub) (t_submission (d_ingest s1))"
    using q(2) mark_handled_kept [of "d_ingest s" "su_id sub" "m_now (env_of sub)"] by auto
  have "all_handled (su_id sub) (t_submission (d_ingest s'))" if "su_id sub \<in> set ids'"
  proof -
    have handled using ih that by (cases handled) auto
    then show ?thesis using k(2) ih all_handled_kept by blast
  qed
  moreover have "handled_kept (t_submission (d_ingest s)) (t_submission (d_ingest s'))"
    using k(1) ih handled_kept_trans by blast
  moreover have "set ids' \<subseteq> set ids" using ih by (auto split: if_splits)
  ultimately show ?case using ih q(1) by simp
qed simp

text \<open>C10: An import run never loses a submission: whatever leaves the queue has been marked as handled, so
  that a submission skipped because of a lock held by another importer is still queued, a handled
  submission stays handled, no entry another importer has locked is touched, and nothing is added to the
  queue. A run that fails changes nothing.\<close>

theorem import_never_loses_submissions:
  assumes "import_queued_submissions env_of locked limit ids s = Inr (count, s')"
    and p: "p \<in> set (rows (t_pending_submission (d_ingest s)))"
  shows "(p \<in> set (rows (t_pending_submission (d_ingest s'))) \<or> all_handled (ps_id p) (t_submission (d_ingest s')))
    \<and> (locked (ps_id p) \<longrightarrow> p \<in> set (rows (t_pending_submission (d_ingest s'))))
    \<and> handled_kept (t_submission (d_ingest s)) (t_submission (d_ingest s'))
    \<and> set (rows (t_pending_submission (d_ingest s'))) \<subseteq> set (rows (t_pending_submission (d_ingest s)))"
proof -
  define queue where "queue = map ps_id (sel (\<lambda>r. \<not> locked (ps_id r) \<and> (case ids of None \<Rightarrow> True | Some l \<Rightarrow> ps_id r \<in> set l))
                               (t_pending_submission (d_ingest s)))"
  define sids where "sids = remdups (case limit of None \<Rightarrow> queue | Some n \<Rightarrow> take n queue)"
  let ?subs = "sel (\<lambda>r. su_id r \<in> set sids \<and> \<not> su_handled r) (t_submission (d_ingest s))"
  have run: "(if sids = [] then Inr (0, s)
         else (case import_each env_of ?subs sids 0 s of
              Inl e \<Rightarrow> Inl e
            | Inr ((submission_ids, count), s) \<Rightarrow>
                Inr (count, s\<lparr>d_ingest := (d_ingest s)\<lparr>t_pending_submission :=
                       del (\<lambda>r. ps_id r \<in> set submission_ids) (t_pending_submission (d_ingest s))\<rparr>\<rparr>))) = Inr (count, s')"
    using assms(1) unfolding import_queued_submissions_def Let_def queue_def [symmetric] sids_def [symmetric] .
  show ?thesis
  proof (cases "sids = []")
    case True
    then have "s' = s" using run by simp
    with p show ?thesis by simp
  next
    case False
    obtain ids' c s1 where each: "import_each env_of ?subs sids 0 s = Inr ((ids', c), s1)"
      and s': "s' = s1\<lparr>d_ingest := (d_ingest s1)\<lparr>t_pending_submission :=
                       del (\<lambda>r. ps_id r \<in> set ids') (t_pending_submission (d_ingest s1))\<rparr>\<rparr>"
      using run False by (auto split: sum.splits)
    note q = import_each_queue [OF each]
    have pend: "rows (t_pending_submission (d_ingest s')) = filter (\<lambda>r. ps_id r \<notin> set ids') (rows (t_pending_submission (d_ingest s)))"
      using q by (simp add: s' table_simps)
    have subs: "t_submission (d_ingest s') = t_submission (d_ingest s1)" by (simp add: s')
    have not_locked: "\<not> locked i" if "i \<in> set sids" for i
    proof -
      have "i \<in> set queue" using that by (auto simp: sids_def split: option.splits dest: in_set_takeD)
      then show ?thesis by (auto simp: queue_def sel_def)
    qed
    have "all_handled i (t_submission (d_ingest s1))" if i: "i \<in> set ids'" for i
      unfolding all_handled_def
    proof (intro ballI impI)
      fix r assume r: "r \<in> set (rows (t_submission (d_ingest s1)))" "su_id r = i"
      then obtain r0 where r0: "r0 \<in> set (rows (t_submission (d_ingest s)))" "su_id r0 = i" "su_handled r0 \<longrightarrow> su_handled r"
        using q unfolding handled_kept_def by metis
      show "su_handled r"
      proof (cases "su_handled r0")
        case False
        then have "r0 \<in> set ?subs" using r0 i q by (auto simp: sel_def)
        then have "all_handled i (t_submission (d_ingest s1))" using q r0(2) i by blast
        with r show ?thesis by (simp add: all_handled_def)
      qed (use r0 in simp)
    qed
    with p q not_locked show ?thesis by (auto simp: pend subs)
  qed
qed

subsection \<open>What an import records\<close>

lemma pick_track_sound:
  "pick_track compare2 db sub ms seen t0 f0 = (t, f) \<Longrightarrow> (t0 = None \<longrightarrow> f0 = None) \<Longrightarrow>
     (t = t0 \<and> f = f0) \<or>
     (\<exists>m \<in> set ms. t = Some (fm_track_id m) \<and> (\<not> truthy_int t0) \<and>
        can_add_fp_to_track compare2 db (fm_track_id m) (su_fingerprint sub) (su_length sub) \<and>
        (f = f0 \<or> (f = Some (fm_fingerprint_id m) \<and> fm_score m > FINGERPRINT_MERGE_THRESHOLD))) \<or>
     (\<exists>m \<in> set ms. fm_track_id m = 0)"
proof (induction ms arbitrary: seen t0 f0)
  case (Cons m ms)
  show ?case
  proof (cases "fm_track_id m = 0 \<or> fm_track_id m \<in> seen \<or>
      \<not> (can_add_fp_to_track compare2 db (fm_track_id m) (su_fingerprint sub) (su_length sub) \<and> \<not> truthy_int t0)")
    case True
    then show ?thesis using Cons.prems Cons.IH by (auto split: if_splits) 
  next
    case False
    let ?f1 = "if fm_score m > FINGERPRINT_MERGE_THRESHOLD then Some (fm_fingerprint_id m) else f0"
    have "pick_track compare2 db sub ms (insert (fm_track_id m) seen) (Some (fm_track_id m)) ?f1 = (t, f)"
      using Cons.prems(1) False by simp
    from Cons.IH [OF this] have "t = Some (fm_track_id m) \<and> f = ?f1 \<or> (\<exists>m \<in> set ms. fm_track_id m = 0)"
      using False by auto
    with False show ?thesis by auto
  qed
qed simp

text \<open>The fingerprint tables that linking never writes.\<close>

definition same_core :: "fingerprint_db \<Rightarrow> fingerprint_db \<Rightarrow> bool" where
  "same_core a b \<longleftrightarrow> t_fingerprint b = t_fingerprint a \<and> t_track b = t_track a \<and> t_changelog b = t_changelog a"

lemma same_core_trans: "same_core a b \<Longrightarrow> same_core b c \<Longrightarrow> same_core a c"
  by (simp add: same_core_def)

definition only_meta :: "(nat \<Rightarrow> fingerprint_db \<Rightarrow> fingerprint_db) \<Rightarrow> bool" where
  "only_meta other \<longleftrightarrow> (\<forall>n db. same_core db (other n db) \<and> t_track_mbid (other n db) = t_track_mbid db)"

lemma find_or_insert_meta_loop_core:
  "only_meta other \<Longrightarrow> find_or_insert_meta_loop other n gid values db = Inr (x, db') \<Longrightarrow>
     same_core db db' \<and> t_track_mbid db' = t_track_mbid db"
proof (induction other n gid "values" db rule: find_or_insert_meta_loop.induct)
  case (2 other retries gid "values" db)
  have o: "same_core db (other retries db)" "t_track_mbid (other retries db) = t_track_mbid db"
    using 2(2) by (auto simp: only_meta_def)
  show ?case
  proof (cases "find_meta_id db gid")
    case None
    obtain mk where mk: "make_meta_row (f_now (other retries db)) gid values = Inr mk"
      using 2(3) None by (auto simp: Let_def split: sum.splits)
    show ?thesis
    proof (cases "find_meta_id (other retries db) gid = None")
      case True
      then show ?thesis using 2(3) None mk o by (auto simp: Let_def case_prod_beta same_core_def)
    next
      case False
      then have "find_or_insert_meta_loop other retries gid values (other retries db) = Inr (x, db')"
        using 2(3) None mk by (simp add: Let_def)
      with 2(1) [OF None refl mk False] 2(2) o show ?thesis using same_core_trans by fastforce
    qed
  next
    case (Some i)
    then show ?thesis using 2(3) by (simp add: same_core_def)
  qed
qed simp

lemma link_core:
  "same_core (fst st) (fst (snd (link_mbid sub t so st)))" "same_core (fst st) (fst (snd (link_puid sub t so st)))"
  "t_track_mbid (fst (snd (link_puid sub t so st))) = t_track_mbid (fst st)"
  by (simp_all add: same_core_def link_mbid_def link_puid_def insert_mbid_def insert_puid_def case_prod_beta Let_def)

lemma link_meta_core:
  assumes other: "only_meta (m_other_fp env)" and res: "link_meta env sub t so st = Inr (a, st')"
  shows "same_core (fst st) (fst st') \<and> t_track_mbid (fst st') = t_track_mbid (fst st)"
proof (cases "has_meta sub")
  case True
  have ins: "same_core db (fst (insert_track_meta db i t x su so))" "t_track_mbid (fst (insert_track_meta db i t x su so)) = t_track_mbid db"
    for db i t x su so by (simp_all add: same_core_def insert_track_meta_def case_prod_beta Let_def)
  have rm: "same_core (fst st) db \<and> t_track_mbid db = t_track_mbid (fst st)" if "resolve_meta env sub (fst st) = Inr (x, db)" for x db
  proof (cases "su_meta_id sub")
    case None
    then show ?thesis
      using that find_or_insert_meta_loop_core [OF other]
      by (auto simp: resolve_meta_def find_or_insert_meta_def split: sum.splits)
  next
    case (Some i)
    with that show ?thesis by (auto simp: resolve_meta_def same_core_def case_prod_beta Let_def)
  qed
  obtain x db where r: "resolve_meta env sub (fst st) = Inr (x, db)"
    using res True by (auto simp: link_meta_def split: sum.splits)
  have "fst st' = db \<or> (\<exists>i. fst st' = fst (insert_track_meta db (snd st) t i (Some (su_id sub)) (Some so)))"
    using res True r by (cases x) (auto simp: link_meta_def)
  with rm [OF r] ins same_core_trans show ?thesis by metis
qed (use res in \<open>auto simp: link_meta_def same_core_def\<close>)

lemma link_foreignid_core:
  assumes res: "link_foreignid sub t so st = Inr (a, st')"
  shows "same_core (fst st) (fst st') \<and> t_track_mbid (fst st') = t_track_mbid (fst st)"
proof -
  have ins: "same_core db (fst (insert_track_foreignid db i t x su so))" "t_track_mbid (fst (insert_track_foreignid db i t x su so)) = t_track_mbid db"
    for db i t x su so by (simp_all add: same_core_def insert_track_foreignid_def case_prod_beta Let_def)
  have foi: "same_core db db' \<and> t_track_mbid db' = t_track_mbid db" if "find_or_insert_foreignid n db = Inr (i, db')" for n db i db'
    using that by (auto simp: find_or_insert_foreignid_def find_or_insert_foreignid_vendor_def insert_foreignid_vendor_def
        insert_foreignid_def same_core_def case_prod_beta Let_def split: prod.splits option.splits)
  obtain x db where r: "resolve_foreignid sub (fst st) = Inr (x, db)"
    using res by (auto simp: link_foreignid_def split: sum.splits)
  have "same_core (fst st) db \<and> t_track_mbid db = t_track_mbid (fst st)"
    using r foi by (auto simp: resolve_foreignid_def same_core_def split: if_splits option.splits sum.splits) 
  moreover have "fst st' = db \<or> (\<exists>i. fst st' = fst (insert_track_foreignid db (snd st) t i (Some (su_id sub)) (Some so)))"
    using res r by (cases x) (auto simp: link_foreignid_def)
  ultimately show ?thesis using ins same_core_trans by metis
qed

lemma wf_id_truthy: "wf_table key t \<Longrightarrow> r \<in> set (rows t) \<Longrightarrow> truthy_int (Some (key r))"
  by (force simp: wf_table_def)

lemma find_track_sound:
  assumes res: "find_track env sub db = Inr (t, f)" and ne: "su_fingerprint sub \<noteq> []"
    and wf: "wf_table fp_id (t_fingerprint db)" "wf_table tr_id (t_track db)"
  shows "case t of
      None \<Rightarrow> f = None
    | Some tid \<Rightarrow> truthy_int t \<and> (\<exists>r \<in> set (rows (t_track db)). tr_id r = tid)
        \<and> can_add_fp_to_track (e_compare2 (m_search env)) db tid (su_fingerprint sub) (su_length sub)
        \<and> (case f of None \<Rightarrow> True
            | Some i \<Rightarrow> truthy_int f \<and> (\<exists>x \<in> set (rows (t_fingerprint db)). fp_id x = i \<and> fp_track_id x = tid \<and>
                 e_compare2 (m_search env) (fp_fingerprint x) (su_fingerprint sub) TRACK_MAX_OFFSET > FINGERPRINT_MERGE_THRESHOLD))"
proof -
  let ?s = "(new_searcher False None)\<lparr>s_min_score := TRACK_MERGE_THRESHOLD\<rparr>"
  obtain ms where ms: "search_directly (m_search env) ?s (su_fingerprint sub) (su_length sub) None db = Inr ms"
    and p: "pick_track (e_compare2 (m_search env)) db sub ms {} None None = (t, f)"
    using res by (auto simp: find_track_def split: sum.splits)
  obtain cand mx where ix: "index_conditions (m_search env) ?s (su_fingerprint sub) = Inr (cand, mx)"
    using ms by (auto simp: search_directly_def split: sum.splits)
  have "\<not> s_fast ?s" by (simp add: new_searcher_def)
  then have sound: "\<exists>x. is_match (m_search env) ?s (su_fingerprint sub) (su_length sub) db x m" if "m \<in> set ms" for m
    using search_directly_matches [OF ms ne _ ix] that by blast
  have track: "\<exists>r \<in> set (rows (t_track db)). tr_id r = fm_track_id m" if "m \<in> set ms" for m
    using sound [OF that] by (auto simp: is_match_def)
  then have nz: "fm_track_id m \<noteq> 0" if "m \<in> set ms" for m
    using that wf_id_truthy [OF wf(2)] by fastforce
  from pick_track_sound [OF p] nz consider "t = None" "f = None"
    | m where "m \<in> set ms" "t = Some (fm_track_id m)"
        "can_add_fp_to_track (e_compare2 (m_search env)) db (fm_track_id m) (su_fingerprint sub) (su_length sub)"
        "f = None \<or> (f = Some (fm_fingerprint_id m) \<and> fm_score m > FINGERPRINT_MERGE_THRESHOLD)"
    by auto
  then show ?thesis
  proof cases
    case 2
    obtain x where x: "is_match (m_search env) ?s (su_fingerprint sub) (su_length sub) db x m" using sound [OF 2(1)] by blast
    then have "truthy_int (Some (fp_id x))" using wf_id_truthy [OF wf(1)] by (simp add: is_match_def)
    with 2 x track [OF 2(1)] nz [OF 2(1)] show ?thesis
      by (auto simp: is_match_def new_searcher_def split: option.split)
  qed simp
qed

lemma store_fingerprint_sound:
  assumes res: "store_fingerprint env sub f so found (db, idb) = ((tid, fid), db', idb')"
    and fnd: "find_track env sub db = Inr found" and ne: "su_fingerprint sub \<noteq> []"
    and wf: "wf_table fp_id (t_fingerprint db)" "wf_table tr_id (t_track db)"
  shows "(\<exists>r \<in> set (rows (t_track db')). tr_id r = tid)
    \<and> (\<exists>x \<in> set (rows (t_fingerprint db')). fp_id x = fid \<and> fp_track_id x = tid)
    \<and> t_track_mbid db' = t_track_mbid db
    \<and> (tid \<in> tr_id ` set (rows (t_track db)) \<longrightarrow>
         can_add_fp_to_track (e_compare2 (m_search env)) db tid (su_fingerprint sub) (su_length sub))"
proof -
  obtain t f where tf: "found = (t, f)" by fastforce
  note sound = find_track_sound [OF fnd [unfolded tf] ne wf]
  have fresh: "serial (t_track db) \<notin> tr_id ` set (rows (t_track db))" using wf(2) by (auto simp: wf_table_def)
  show ?thesis
  proof (cases t)
    case None
    then have "f = None" using sound by simp
    with res None fresh show ?thesis
      by (auto simp: store_fingerprint_def tf insert_track_def insert_fingerprint_def fpindex_changelog_insert_def
          ins_def case_prod_beta Let_def)
  next
    case (Some i)
    then have i: "i \<noteq> 0" "\<exists>r \<in> set (rows (t_track db)). tr_id r = i"
      "can_add_fp_to_track (e_compare2 (m_search env)) db i (su_fingerprint sub) (su_length sub)" using sound by simp_all
    show ?thesis
    proof (cases f)
      case None
      with res Some i show ?thesis
        by (auto simp: store_fingerprint_def tf insert_fingerprint_def fpindex_changelog_insert_def ins_def case_prod_beta Let_def)
    next
      case j: (Some j)
      then obtain x where x: "j \<noteq> 0" "x \<in> set (rows (t_fingerprint db))" "fp_id x = j" "fp_track_id x = i"
        using sound Some by auto
      let ?upd = "\<lambda>r. if fp_id r = j then r\<lparr>fp_submission_count := fp_submission_count r + 1\<rparr> else r"
      have db': "db' = db\<lparr>t_fingerprint := upd (\<lambda>r. fp_id r = j) (\<lambda>r. r\<lparr>fp_submission_count := fp_submission_count r + 1\<rparr>) (t_fingerprint db)\<rparr>"
        and ids: "tid = i" "fid = j"
        using res Some j x(1) i(1) by (auto simp: store_fingerprint_def tf inc_fingerprint_submission_count_def)
      have "?upd x \<in> set (rows (t_fingerprint db'))" using x(2) by (simp add: db' table_simps)
      moreover have "fp_id (?upd x) = j \<and> fp_track_id (?upd x) = i" using x by simp
      ultimately show ?thesis using i ids db' by auto
    qed
  qed
qed

lemma worth_importing_nonempty: "worth_importing env sub \<Longrightarrow> su_fingerprint sub \<noteq> []"
  by (auto simp: worth_importing_def FINGERPRINT_MIN_UNIQUE_ITEMS_def)

lemma link_mbid_votes:
  assumes "link_mbid sub t so st = (m, st')" and wf: "wf_links (t_track_mbid (fst st))"
  shows "votes (t_track_mbid (fst st')) = (case su_mbid sub of None \<Rightarrow> votes (t_track_mbid (fst st))
     | Some mbid \<Rightarrow> (votes (t_track_mbid (fst st)))((t, mbid) := votes (t_track_mbid (fst st)) (t, mbid) + 1))"
proof (cases "su_mbid sub")
  case None
  with assms show ?thesis by (simp add: link_mbid_def has_uuid_def)
next
  case (Some mbid)
  obtain tab src where g: "insert_gid (new_mbid_link (f_now (fst st)) t mbid 1) (i_now (snd st)) t mbid (Some (su_id sub)) (Some so)
      (t_track_mbid (fst st), t_track_mbid_source (snd st)) = (tab, src)" by (meson surj_pair)
  have "t_track_mbid (fst st') = tab"
    using assms(1) Some g by (auto simp: link_mbid_def has_uuid_def uuid_equals_text_def insert_mbid_def)
  with insert_gid_votes(2) [OF wf _ _ _ g] Some show ?thesis by simp
qed

text \<open>C11: An imported submission ends up consistently everywhere: its result names an existing track and a
  fingerprint of that track, an existing track was chosen only if all of its fingerprints are similar
  enough to the new one, and the submitted MBID (when there is one) has exactly one vote more on that
  track while no other vote changed.\<close>

theorem import_submission_records:
  assumes res: "import_submission env sub s = Inr ((True, Some (track_id, fid)), s')"
    and wf: "wf_table fp_id (t_fingerprint (d_fp s))" "wf_table tr_id (t_track (d_fp s))" "wf_links (t_track_mbid (d_fp s))"
    and other: "only_meta (m_other_fp env)"
  shows "(\<exists>r \<in> set (rows (t_submission_result (d_ingest s'))).
            sr_submission_id r = su_id sub \<and> sr_track_id r = track_id \<and> sr_fingerprint_id r = fid)
    \<and> (\<exists>t \<in> set (rows (t_track (d_fp s'))). tr_id t = track_id)
    \<and> (\<exists>f \<in> set (rows (t_fingerprint (d_fp s'))). fp_id f = fid \<and> fp_track_id f = track_id)
    \<and> (track_id \<in> tr_id ` set (rows (t_track (d_fp s))) \<longrightarrow>
         can_add_fp_to_track (e_compare2 (m_search env)) (d_fp s) track_id (su_fingerprint sub) (su_length sub))
    \<and> votes (t_track_mbid (d_fp s')) = (case su_mbid sub of None \<Rightarrow> votes (t_track_mbid (d_fp s))
         | Some mbid \<Rightarrow> (votes (t_track_mbid (d_fp s)))((track_id, mbid) := votes (t_track_mbid (d_fp s)) (track_id, mbid) + 1))"
proof -
  obtain src app where worth: "worth_importing env sub"
    and iws: "import_with_source env sub src (s\<lparr>d_ingest := mark_handled (su_id sub) (m_now env) (d_ingest s), d_app := app\<rparr>)
      = Inr ((track_id, fid), s')"
    using res by (auto simp: import_submission_def Let_def split: if_splits sum.splits option.splits)
  define s1 where "s1 = s\<lparr>d_ingest := mark_handled (su_id sub) (m_now env) (d_ingest s), d_app := app\<rparr>"
  have dfp: "d_fp s1 = d_fp s" by (simp add: s1_def)
  note iws = iws [folded s1_def]
  from iws show ?thesis
  proof (cases rule: import_with_source_steps)
    case (steps format_id app2 found st mbid st1 puid st2 meta_id meta_gid st3 foreignid fdb4 idb4 r x idb5)
    obtain fdb idb where st: "st = (fdb, idb)" by fastforce
    have result: "r \<in> set (rows (t_submission_result idb5))"
      using steps(9) by (auto simp: insert_submission_result_def Let_def split: if_splits)
    have r: "sr_submission_id r = su_id sub" "sr_track_id r = track_id" "sr_fingerprint_id r = fid" by (simp_all add: steps(8))
    note stored = store_fingerprint_sound [OF steps(3) [unfolded st dfp] steps(2) [unfolded dfp] worth_importing_nonempty [OF worth] wf(1,2)]
    note meta = link_meta_core [OF other steps(6)]
    note foreign = link_foreignid_core [OF steps(7)]
    have core: "same_core fdb fdb4"
      using link_core(1) [of st sub track_id "si_id src"] link_core(2) [of st1 sub track_id "si_id src"] meta foreign steps(4,5) st
      by (simp add: same_core_def)
    have "t_track_mbid fdb4 = t_track_mbid (fst st1)"
      using link_core(3) [of sub track_id "si_id src" st1] meta foreign steps(5) by simp
    moreover have "t_track_mbid fdb = t_track_mbid (d_fp s)" using stored by blast
    ultimately have "votes (t_track_mbid (d_fp s')) = (case su_mbid sub of None \<Rightarrow> votes (t_track_mbid (d_fp s))
         | Some mbid \<Rightarrow> (votes (t_track_mbid (d_fp s)))((track_id, mbid) := votes (t_track_mbid (d_fp s)) (track_id, mbid) + 1))"
      using link_mbid_votes [OF steps(4)] wf(3) steps(11) st by (simp split: option.split)
    with result r stored core steps(10,11) show ?thesis unfolding same_core_def by auto
  qed
qed

definition sample_mbid :: string where
  "sample_mbid = ''b9ed9c6a-0001-4444-8888-0123456789ab''"

definition sample_submission :: submission_row where
  "sample_submission = \<lparr>su_id = 1, su_created = 0, su_handled_at = None, su_handled = False, su_account_id = Some 1,
     su_application_id = Some 1, su_application_version = None, su_source_id = None,
     su_fingerprint = map int [0..<80], su_length = 100, su_bitrate = None, su_format = None, su_format_id = None,
     su_meta = None, su_meta_gid = None, su_meta_id = None, su_mbid = Some sample_mbid, su_puid = None,
     su_foreignid = None, su_foreignid_id = None\<rparr>"

definition sample_import_env :: "bool \<Rightarrow> import_env" where
  "sample_import_env free = \<lparr>m_search = demo_env, m_simhash = (\<lambda>_. 0), m_lock_fp = (\<lambda>_. free), m_lock_mbid = (\<lambda>_. True),
     m_now = 5, m_uuid4 = ''g'', m_uuid5 = (\<lambda>s. s), m_other_app = (\<lambda>_ db. db), m_other_fp = (\<lambda>_ db. db)\<rparr>"

definition sample_dbs :: dbs where
  "sample_dbs = \<lparr>d_ingest = empty_ingest_db\<lparr>t_submission := \<lparr>rows = [sample_submission], serial = 2\<rparr>,
       t_pending_submission := \<lparr>rows = [\<lparr>ps_id = 1\<rparr>], serial = 1\<rparr>\<rparr>,
     d_app = empty_app_db, d_fp = empty_fingerprint_db\<rparr>"

theorem import_never_loses_submissions_witness:
  "\<exists>s'. import_queued_submissions (\<lambda>_. sample_import_env False) (\<lambda>_. False) None None sample_dbs = Inr (1, s')
     \<and> (\<lparr>ps_id = 1\<rparr> \<in> set (rows (t_pending_submission (d_ingest s'))) \<or> all_handled 1 (t_submission (d_ingest s')))"
proof -
  have skip: "import_submission (sample_import_env False) sample_submission s = Inr ((False, None), s)" for s
    by (simp add: import_submission_def try_locks_def sample_import_env_def)
  have u: "\<not> su_handled sample_submission" "su_id sample_submission = 1" by (simp_all add: sample_submission_def)
  obtain s' where r: "import_queued_submissions (\<lambda>_. sample_import_env False) (\<lambda>_. False) None None sample_dbs = Inr (1, s')"
    by (simp add: import_queued_submissions_def sample_dbs_def sel_def u skip Let_def)
  have p: "\<lparr>ps_id = 1\<rparr> \<in> set (rows (t_pending_submission (d_ingest sample_dbs)))" by (simp add: sample_dbs_def)
  from import_never_loses_submissions [OF r p] r show ?thesis by auto
qed

lemma sample_import_succeeds:
  "\<exists>track_id fid s'. import_submission (sample_import_env True) sample_submission sample_dbs = Inr ((True, Some (track_id, fid)), s')"
proof -
  let ?env = "sample_import_env True"
  have "card (set (map int [0..<80])) = 80" by (subst distinct_card) (auto simp: distinct_map)
  then have worth: "worth_importing ?env sample_submission"
    by (simp add: worth_importing_def sample_submission_def has_uuid_def uuid_equals_text_def sample_import_env_def demo_env_def
        FINGERPRINT_MIN_UNIQUE_ITEMS_def)
  have found: "find_track ?env sample_submission empty_fingerprint_db = Inr (None, None)"
    by (simp add: find_track_def search_directly_def index_conditions_def sample_import_env_def demo_env_def new_searcher_def
        get_max_indexed_fingerprint_id_def py_int_def py_strip_def is_space_def is_digit_def digit_val_def search_index_def
        run_search_query_def search_rows_def sql_limit_def empty_fingerprint_db_def empty_table_def Let_def)
  have "\<exists>src app. resolve_source ?env sample_submission empty_app_db = Inr (Some src, app)"
    by (simp add: resolve_source_def sample_submission_def find_or_insert_source_def find_source_id_def
        insert_source_on_conflict_do_nothing_def source_conflict_def scalar_def sel_def sample_import_env_def
        empty_app_db_def empty_table_def numeral_eq_Suc case_prod_beta Let_def)
  then obtain src app where src: "resolve_source ?env sample_submission empty_app_db = Inr (Some src, app)" by blast
  have fields: "su_mbid sample_submission = Some sample_mbid" "su_puid sample_submission = None" "su_meta_id sample_submission = None"
    "su_meta sample_submission = None" "su_foreignid sample_submission = None" "su_foreignid_id sample_submission = None"
    "su_id sample_submission = 1" by (simp_all add: sample_submission_def)
  have "\<exists>track_id fid s'. import_with_source ?env sample_submission src s = Inr ((track_id, fid), s')"
    if "d_fp s = empty_fingerprint_db" "t_submission_result (d_ingest s) = empty_table" for s
  proof -
    obtain format_id app2 where fmt: "resolve_format sample_submission (d_app s) = (format_id, app2)" by fastforce
    obtain tid i fdb idb where sf: "store_fingerprint ?env sample_submission format_id (si_id src) (None, None) (d_fp s, d_ingest s)
        = ((tid, i), fdb, idb)" by (metis prod.collapse)
    have r1: "t_submission_result idb = empty_table"
      using sf that by (auto simp: store_fingerprint_def insert_fingerprint_def add_fingerprint_source_def case_prod_beta Let_def)
    obtain m st1 where mb: "link_mbid sample_submission tid (si_id src) (fdb, idb) = (m, st1)" by (metis prod.collapse)
    have r2: "t_submission_result (snd st1) = empty_table"
      using mb r1 by (auto simp: link_mbid_def insert_mbid_def fields case_prod_beta Let_def split: if_splits)
    obtain fdb1 idb1 where st1: "st1 = (fdb1, idb1)" by fastforce
    show ?thesis
      using r2 by (simp add: import_with_source_def fmt that(1) found sf [unfolded that(1)] mb link_puid_def link_meta_def
          link_foreignid_def resolve_foreignid_def has_meta_def has_uuid_def fields insert_submission_result_def st1 empty_table_def)
  qed
  note run = this
  show ?thesis
  proof -
    let ?s = "sample_dbs\<lparr>d_ingest := mark_handled 1 5 (d_ingest sample_dbs), d_app := app\<rparr>"
    have "d_fp ?s = empty_fingerprint_db" "t_submission_result (d_ingest ?s) = empty_table"
      by (simp_all add: sample_dbs_def mark_handled_def empty_ingest_db_def)
    from run [OF this] obtain track_id fid s' where
      "import_with_source ?env sample_submission src ?s = Inr ((track_id, fid), s')" by blast
    moreover have "try_locks ?env sample_submission" "m_now ?env = 5"
      by (simp_all add: try_locks_def sample_import_env_def fields)
    moreover have "d_app (sample_dbs\<lparr>d_ingest := x\<rparr>) = empty_app_db" for x by (simp add: sample_dbs_def)
    ultimately show ?thesis using src worth fields(7) by (simp add: import_submission_def Let_def)
  qed
qed

theorem import_submission_records_witness:
  "\<exists>track_id fid s'. import_submission (sample_import_env True) sample_submission sample_dbs = Inr ((True, Some (track_id, fid)), s')
     \<and> votes (t_track_mbid (d_fp s')) (track_id, sample_mbid) = 1"
proof -
  let ?env = "sample_import_env True"
  have fields: "su_mbid sample_submission = Some sample_mbid" by (simp add: sample_submission_def)
  obtain track_id fid s' where
    i: "import_submission ?env sample_submission sample_dbs = Inr ((True, Some (track_id, fid)), s')"
    using sample_import_succeeds by blast
  have wf: "wf_table fp_id (t_fingerprint (d_fp sample_dbs))" "wf_table tr_id (t_track (d_fp sample_dbs))"
    "wf_links (t_track_mbid (d_fp sample_dbs))" by (simp_all add: sample_dbs_def empty_fingerprint_db_def)
  have "only_meta (m_other_fp ?env)" by (simp add: only_meta_def same_core_def sample_import_env_def)
  from import_submission_records [OF i wf this] have "votes (t_track_mbid (d_fp s')) (track_id, sample_mbid) =
      votes (t_track_mbid (d_fp sample_dbs)) (track_id, sample_mbid) + 1" by (simp add: fields)
  moreover have "votes (t_track_mbid (d_fp sample_dbs)) (track_id, sample_mbid) = 0"
    by (rule votes_none) (simp add: sample_dbs_def empty_fingerprint_db_def empty_table_def)
  ultimately show ?thesis using i by auto
qed

end
