(* ===== verification/Changelog.thy ===== *)
theory Changelog
  imports Tables Py_Strings
begin

text \<open>
  The change log of the fingerprint table: the calendar and the partitions of \<^verbatim>\<open>tables.py\<close>, the trigger
  that writes it, and the retention job of \<^verbatim>\<open>scripts/fpindex_changelog.py\<close>. A partition is a named range
  of dates with its rows; \<open>date_of\<close> is the database's calendar, from timestamps to dates. Which
  statements of the job fail (lock timeouts, mostly) is a choice of the environment.
\<close>

subsection \<open>Dates\<close>

datatype py_date = Date (d_year: int) (d_month: int) (d_day: int)

instantiation py_date :: linorder
begin

definition less_eq_py_date :: "py_date \<Rightarrow> py_date \<Rightarrow> bool" where
  "less_eq_py_date a b \<longleftrightarrow> d_year a < d_year b \<or> (d_year a = d_year b \<and>
     (d_month a < d_month b \<or> (d_month a = d_month b \<and> d_day a \<le> d_day b)))"

definition less_py_date :: "py_date \<Rightarrow> py_date \<Rightarrow> bool" where
  "less_py_date a b \<longleftrightarrow> a \<le> b \<and> \<not> b \<le> (a :: py_date)"

instance
  by standard (auto simp: less_eq_py_date_def less_py_date_def intro: py_date.expand)

end

text \<open>A date with a month from 1 to 12; days are not checked against the month's length.\<close>

definition valid_date :: "py_date \<Rightarrow> bool" where
  "valid_date d \<longleftrightarrow> 1 \<le> d_year d \<and> d_year d \<le> 9999 \<and> 1 \<le> d_month d \<and> d_month d \<le> 12 \<and> 1 \<le> d_day d"

definition fpindex_changelog_month :: "py_date \<Rightarrow> py_date" where
  "fpindex_changelog_month day = Date (d_year day) (d_month day) 1"

definition fpindex_changelog_add_months :: "py_date \<Rightarrow> int \<Rightarrow> py_exc + py_date" where
  "fpindex_changelog_add_months month count =
     (let index = d_year month * 12 + (d_month month - 1) + count
      in if 1 \<le> index div 12 \<and> index div 12 \<le> 9999 then Inr (Date (index div 12) (index mod 12 + 1) 1)
         else Inl ValueError)"

definition zero_pad :: "nat \<Rightarrow> int \<Rightarrow> string" where
  "zero_pad n i = replicate (n - length (int_str i)) CHR ''0'' @ int_str i"

definition month_digits :: "py_date \<Rightarrow> string" where
  "month_digits month = zero_pad 4 (d_year month) @ zero_pad 2 (d_month month)"

definition fpindex_changelog_partition_name :: "py_date \<Rightarrow> string" where
  "fpindex_changelog_partition_name month = ''fpindex_changelog_'' @ month_digits month"

text \<open>
  The pattern \<open>^fpindex_changelog_(\d{6})$\<close>, followed by \<open>strptime(..., "%Y%m")\<close>, which raises for year
  0 and for months outside 1 to 12.
\<close>

definition parse_partition_name :: "string \<Rightarrow> (py_exc + py_date) option" where
  "parse_partition_name name =
     (let s = (if name \<noteq> [] \<and> last name = newline then butlast name else name);
          digits = drop 18 s
      in if take 18 s = ''fpindex_changelog_'' \<and> length digits = 6 \<and> list_all is_digit digits
         then Some (case (parse_nat (take 4 digits), parse_nat (drop 4 digits)) of
             (Some y, Some m) \<Rightarrow> if 1 \<le> y \<and> 1 \<le> m \<and> m \<le> 12 then Inr (Date y m 1) else Inl ValueError
           | _ \<Rightarrow> Inl ValueError)
         else None)"

subsection \<open>Partitions\<close>

record partition =
  pt_name :: string
  pt_from :: py_date
  pt_to :: py_date
  pt_rows :: "changelog_row list"

text \<open>The table as the database sees it, with the sequence of its ids and the retention watermark.\<close>

record changelog =
  ch_parts :: "partition list"
  ch_meta :: "fpindex_meta_row option"
  ch_next :: int

definition FPINDEX_CHANGELOG_CREATE_AHEAD_MONTHS :: nat where "FPINDEX_CHANGELOG_CREATE_AHEAD_MONTHS = 12"
definition RETENTION_MONTHS :: int where "RETENTION_MONTHS = 2"

text \<open>\<open>CREATE TABLE IF NOT EXISTS ... PARTITION OF fpindex_changelog FOR VALUES FROM month TO next month\<close>.\<close>

definition create_partition :: "py_date \<Rightarrow> py_date \<Rightarrow> changelog \<Rightarrow> changelog" where
  "create_partition month end c =
     (if \<exists>p \<in> set (ch_parts c). pt_name p = fpindex_changelog_partition_name month then c
      else c\<lparr>ch_parts := ch_parts c @ [\<lparr>pt_name = fpindex_changelog_partition_name month, pt_from = month, pt_to = end,
                                       pt_rows = []\<rparr>]\<rparr>)"

definition covers :: "py_date \<Rightarrow> partition \<Rightarrow> bool" where
  "covers d p \<longleftrightarrow> pt_from p \<le> d \<and> d < pt_to p"

definition all_rows :: "changelog \<Rightarrow> changelog_row list" where
  "all_rows c = concat (map pt_rows (ch_parts c))"

text \<open>
  The trigger \<open>fpindex_changelog_insert\<close>: the id is drawn from the sequence under the advisory lock, and
  the row goes to the partition that covers its date; without one the insertion fails.
\<close>

definition add_row :: "py_date \<Rightarrow> changelog_row \<Rightarrow> partition \<Rightarrow> partition" where
  "add_row d r p = (if covers d p then p\<lparr>pt_rows := pt_rows p @ [r]\<rparr> else p)"

definition changelog_insert ::
    "(int list \<Rightarrow> int list) \<Rightarrow> (int \<Rightarrow> py_date) \<Rightarrow> int \<Rightarrow> int \<Rightarrow> int list \<Rightarrow> changelog \<Rightarrow> py_exc + changelog" where
  "changelog_insert xq date_of now fingerprint_id fingerprint c =
     (if list_ex (covers (date_of now)) (ch_parts c)
      then Inr (c\<lparr>ch_parts := map (add_row (date_of now) \<lparr>cl_id = ch_next c, cl_fingerprint_id = fingerprint_id,
                                                      cl_query = xq fingerprint, cl_created = now\<rparr>) (ch_parts c),
                  ch_next := ch_next c + 1\<rparr>)
      else Inl IntegrityError)"

subsection \<open>The maintenance job\<close>

text \<open>\<open>_existing_partitions\<close>: the partitions with a conventional name, with their months.\<close>

fun parse_names :: "string list \<Rightarrow> py_exc + (string \<times> py_date) list" where
  "parse_names [] = Inr []"
| "parse_names (name # names) =
     (case parse_partition_name name of
        None \<Rightarrow> parse_names names
      | Some (Inl e) \<Rightarrow> Inl e
      | Some (Inr month) \<Rightarrow>
          (case parse_names names of Inl e \<Rightarrow> Inl e | Inr rest \<Rightarrow> Inr ((name, month) # rest)))"

definition existing_partitions :: "changelog \<Rightarrow> py_exc + (string \<times> py_date) list" where
  "existing_partitions c = parse_names (map pt_name (ch_parts c))"

text \<open>\<open>fails\<close> chooses the statements that raise an \<open>SQLAlchemyError\<close>.\<close>

fun create_partitions_from :: "(py_date \<Rightarrow> bool) \<Rightarrow> py_date \<Rightarrow> nat list \<Rightarrow> changelog \<Rightarrow> py_exc + changelog" where
  "create_partitions_from fails current [] c = Inr c"
| "create_partitions_from fails current (offset # offsets) c =
     (case fpindex_changelog_add_months current (int offset) of
        Inl e \<Rightarrow> Inl e
      | Inr month \<Rightarrow>
          (case fpindex_changelog_add_months month 1 of
             Inl e \<Rightarrow> Inl e
           | Inr end \<Rightarrow>
               create_partitions_from fails current offsets (if fails month then c else create_partition month end c)))"

definition create_partitions :: "(py_date \<Rightarrow> bool) \<Rightarrow> py_date \<Rightarrow> changelog \<Rightarrow> py_exc + changelog" where
  "create_partitions fails today c =
     create_partitions_from fails (fpindex_changelog_month today) [0..<FPINDEX_CHANGELOG_CREATE_AHEAD_MONTHS + 1] c"

text \<open>\<open>_record_last_deleted\<close>: the highest row of the partition, if it moves the watermark forward.\<close>

fun last_row :: "changelog_row list \<Rightarrow> changelog_row option" where
  "last_row [] = None"
| "last_row (r # rs) = (case last_row rs of None \<Rightarrow> Some r | Some s \<Rightarrow> if cl_id s < cl_id r then Some r else Some s)"

definition record_last_deleted :: "string \<Rightarrow> changelog \<Rightarrow> int option \<times> changelog" where
  "record_last_deleted name c =
     (case last_row (concat (map pt_rows (filter (\<lambda>p. pt_name p = name) (ch_parts c)))) of
        None \<Rightarrow> (None, c)
      | Some r \<Rightarrow>
          (case ch_meta c of
             Some meta \<Rightarrow>
               if fm_last_deleted_id meta < cl_id r
               then (Some (cl_id r), c\<lparr>ch_meta := Some \<lparr>fm_last_deleted_id = cl_id r, fm_last_deleted_created = cl_created r\<rparr>\<rparr>)
               else (None, c)
           | None \<Rightarrow>
               (Some (cl_id r), c\<lparr>ch_meta := Some \<lparr>fm_last_deleted_id = cl_id r, fm_last_deleted_created = cl_created r\<rparr>\<rparr>)))"

definition drop_table :: "string \<Rightarrow> changelog \<Rightarrow> changelog" where
  "drop_table name c = c\<lparr>ch_parts := filter (\<lambda>p. pt_name p \<noteq> name) (ch_parts c)\<rparr>"

fun drop_each ::
    "(string \<Rightarrow> bool) \<Rightarrow> (string \<Rightarrow> bool) \<Rightarrow> py_date \<Rightarrow> (string \<times> py_date) list \<Rightarrow> changelog \<Rightarrow> changelog" where
  "drop_each record_fails drop_fails cutoff [] c = c"
| "drop_each record_fails drop_fails cutoff ((name, month) # rest) c =
     (if month \<ge> cutoff \<or> record_fails name then drop_each record_fails drop_fails cutoff rest c
      else let c = snd (record_last_deleted name c)
           in drop_each record_fails drop_fails cutoff rest (if drop_fails name then c else drop_table name c))"

definition retention_cutoff :: "py_date \<Rightarrow> py_exc + py_date" where
  "retention_cutoff today = fpindex_changelog_add_months (fpindex_changelog_month today) (- RETENTION_MONTHS)"

definition drop_partitions ::
    "(string \<Rightarrow> bool) \<Rightarrow> (string \<Rightarrow> bool) \<Rightarrow> py_date \<Rightarrow> changelog \<Rightarrow> py_exc + changelog" where
  "drop_partitions record_fails drop_fails today c =
     (case retention_cutoff today of
        Inl e \<Rightarrow> Inl e
      | Inr cutoff \<Rightarrow>
          (case existing_partitions c of
             Inl e \<Rightarrow> Inl e
           | Inr parts \<Rightarrow> Inr (drop_each record_fails drop_fails cutoff (sort_key snd parts) c)))"

text \<open>\<open>_consecutive_months\<close>: the loop ends because the months it visits are members of a finite set and grow.\<close>

lemma add_months_valid:
  "fpindex_changelog_add_months month count = Inr m \<Longrightarrow> valid_date m \<and> d_day m = 1"
  by (auto simp: fpindex_changelog_add_months_def valid_date_def Let_def split: if_splits)

lemma add_months_index:
  "fpindex_changelog_add_months month count = Inr m \<Longrightarrow>
     d_year m * 12 + (d_month m - 1) = d_year month * 12 + (d_month month - 1) + count"
  by (auto simp: fpindex_changelog_add_months_def Let_def split: if_splits)

definition month_index :: "py_date \<Rightarrow> int" where
  "month_index d = d_year d * 12 + (d_month d - 1)"

lemma month_index_less: "valid_date a \<Longrightarrow> valid_date b \<Longrightarrow> month_index a < month_index b \<Longrightarrow> a < b"
  by (auto simp: month_index_def valid_date_def less_py_date_def less_eq_py_date_def)

lemma month_index_le: "valid_date a \<Longrightarrow> valid_date b \<Longrightarrow> a \<le> b \<Longrightarrow> month_index a \<le> month_index b"
  by (auto simp: month_index_def valid_date_def less_eq_py_date_def)

function consecutive_months :: "py_date list \<Rightarrow> py_date \<Rightarrow> py_exc + nat" where
  "consecutive_months months month =
     (if month \<in> set months
      then case fpindex_changelog_add_months month 1 of
             Inl e \<Rightarrow> Inl e
           | Inr next_month \<Rightarrow>
               (case consecutive_months months next_month of Inl e \<Rightarrow> Inl e | Inr n \<Rightarrow> Inr (n + 1))
      else Inr 0)"
  by pat_completeness auto

termination
proof (relation "measures [\<lambda>(months, month). if 1 \<le> d_month month \<and> d_month month \<le> 12 \<and> 1 \<le> d_year month \<and> d_year month \<le> 9999 then 0 else 1,
      \<lambda>(months, month). card {d \<in> set months. month_index d \<ge> month_index month}]", simp, goal_cases)
  case (1 months month m)
  have m: "valid_date m" "month_index m = month_index month + 1"
    using add_months_valid [OF 1(2)] add_months_index [OF 1(2)] by (simp_all add: month_index_def)
  have "{d \<in> set months. month_index d \<ge> month_index m} \<subset> {d \<in> set months. month_index d \<ge> month_index month}"
  proof
    show "{d \<in> set months. month_index d \<ge> month_index m} \<subseteq> {d \<in> set months. month_index d \<ge> month_index month}"
      using m(2) by auto
    have "month \<in> {d \<in> set months. month_index d \<ge> month_index month}" "month \<notin> {d \<in> set months. month_index d \<ge> month_index m}"
      using 1(1) m(2) by auto
    then show "{d \<in> set months. month_index d \<ge> month_index m} \<noteq> {d \<in> set months. month_index d \<ge> month_index month}" by blast
  qed
  then have "card {d \<in> set months. month_index d \<ge> month_index m} < card {d \<in> set months. month_index d \<ge> month_index month}"
    by (intro psubset_card_mono) auto
  with m(1) show ?case by (auto simp: valid_date_def)
qed

declare consecutive_months.simps [simp del]

definition report_headroom :: "py_date \<Rightarrow> changelog \<Rightarrow> py_exc + nat" where
  "report_headroom today c =
     (case existing_partitions c of
        Inl e \<Rightarrow> Inl e
      | Inr parts \<Rightarrow> consecutive_months (map snd parts) (fpindex_changelog_month today))"

definition run_manage_fpindex_changelog ::
    "(py_date \<Rightarrow> bool) \<Rightarrow> (string \<Rightarrow> bool) \<Rightarrow> (string \<Rightarrow> bool) \<Rightarrow> py_date \<Rightarrow> changelog \<Rightarrow> py_exc + nat \<times> changelog" where
  "run_manage_fpindex_changelog create_fails record_fails drop_fails today c =
     (case create_partitions create_fails today c of
        Inl e \<Rightarrow> Inl e
      | Inr c \<Rightarrow>
          (case drop_partitions record_fails drop_fails today c of
             Inl e \<Rightarrow> Inl e
           | Inr c \<Rightarrow> (case report_headroom today c of Inl e \<Rightarrow> Inl e | Inr n \<Rightarrow> Inr (n, c))))"

subsection \<open>The calendar\<close>

lemma changelog_month_simps [simp]:
  "d_year (fpindex_changelog_month d) = d_year d" "d_month (fpindex_changelog_month d) = d_month d"
  "d_day (fpindex_changelog_month d) = 1" "month_index (fpindex_changelog_month d) = month_index d"
  by (simp_all add: fpindex_changelog_month_def month_index_def)

lemma valid_changelog_month: "valid_date d \<Longrightarrow> valid_date (fpindex_changelog_month d)"
  by (simp add: valid_date_def)

lemma changelog_month_le: "valid_date d \<Longrightarrow> fpindex_changelog_month d \<le> d"
  by (auto simp: less_eq_py_date_def valid_date_def)

definition first_of_month :: "py_date \<Rightarrow> bool" where
  "first_of_month d \<longleftrightarrow> valid_date d \<and> d_day d = 1"

lemma month_index_parts:
  assumes "valid_date d"
  shows "d_year d = month_index d div 12" and "d_month d = month_index d mod 12 + 1"
  using assms unfolding month_index_def valid_date_def by presburger+

lemma first_of_month_eq:
  assumes "first_of_month a" "first_of_month b" "month_index a = month_index b"
  shows "a = b"
proof (rule py_date.expand, intro conjI)
  have v: "valid_date a" "valid_date b" using assms(1,2) by (simp_all add: first_of_month_def)
  show "d_year a = d_year b" "d_month a = d_month b"
    using month_index_parts [OF v(1)] month_index_parts [OF v(2)] assms(3) by simp_all
  show "d_day a = d_day b" using assms(1,2) by (simp add: first_of_month_def)
qed

lemma first_of_month_le:
  assumes "first_of_month a" "valid_date b" "month_index a \<le> month_index b"
  shows "a \<le> b"
proof (cases "month_index a = month_index b")
  case True
  have v: "valid_date a" "d_day a = 1" using assms(1) by (simp_all add: first_of_month_def)
  have "d_year a = d_year b" "d_month a = d_month b"
    using month_index_parts [OF v(1)] month_index_parts [OF assms(2)] True by simp_all
  with v assms(2) show ?thesis by (simp add: less_eq_py_date_def valid_date_def)
next
  case False
  with assms month_index_less [of a b] show ?thesis by (simp add: first_of_month_def)
qed

text \<open>A partition covers exactly the dates of its month.\<close>

lemma partition_covers_month:
  assumes "first_of_month month" and "fpindex_changelog_add_months month 1 = Inr end'" and "valid_date d"
  shows "month \<le> d \<and> d < end' \<longleftrightarrow> fpindex_changelog_month d = month"
proof -
  have e: "first_of_month end'" "month_index end' = month_index month + 1"
    using add_months_valid [OF assms(2)] add_months_index [OF assms(2)] by (simp_all add: first_of_month_def month_index_def)
  have vm: "valid_date month" "valid_date end'" using assms(1) e(1) by (simp_all add: first_of_month_def)
  show ?thesis
  proof
    assume "month \<le> d \<and> d < end'"
    then have "month_index month \<le> month_index d" "month_index d < month_index end'"
      using month_index_le [OF vm(1) assms(3)] first_of_month_le [OF e(1) assms(3)] by (auto simp: not_le [symmetric])
    then have "month_index d = month_index month" using e(2) by simp
    then show "fpindex_changelog_month d = month"
      using assms(1,3) by (intro first_of_month_eq) (simp_all add: first_of_month_def valid_changelog_month)
  next
    assume m: "fpindex_changelog_month d = month"
    then have "month_index d = month_index month" by (metis changelog_month_simps(4))
    with e vm assms(3) m show "month \<le> d \<and> d < end'"
      using month_index_less [of d end'] changelog_month_le by auto
  qed
qed

subsection \<open>Partition names\<close>

lemma length_nat_str: "n < 10 ^ k \<Longrightarrow> 1 \<le> k \<Longrightarrow> length (nat_str n) \<le> k"
proof (induction k arbitrary: n)
  case (Suc k)
  show ?case
  proof (cases "n < 10")
    case True
    then show ?thesis by (subst nat_str.simps) simp
  next
    case False
    then have "k \<ge> 1" using Suc.prems(1) by (cases k) auto
    moreover have "n div 10 < 10 ^ k" using Suc.prems(1) by (simp add: less_mult_imp_div_less mult.commute)
    ultimately have "length (nat_str (n div 10)) \<le> k" using Suc.IH by blast
    with False show ?thesis by (subst nat_str.simps) simp
  qed
qed simp

lemma parse_nat_zeros: "parse_nat (replicate k CHR ''0'' @ nat_str n) = Some (int n)"
proof (induction k)
  case (Suc k)
  have "parse_digits 0 s = parse_nat s" if "s \<noteq> []" "is_digit (hd s)" for s
    using that by (cases s) auto
  moreover have "hd (replicate k CHR ''0'' @ nat_str n) \<in> set (replicate k CHR ''0'' @ nat_str n)" by (rule hd_in_set) simp
  then have "is_digit (hd (replicate k CHR ''0'' @ nat_str n))"
    using nat_str_digits [of _ n] by (auto simp: is_digit_def)
  ultimately show ?case using Suc by (simp add: is_digit_def digit_val_def)
qed (simp add: parse_nat_str)

lemma zero_pad_facts:
  assumes "0 \<le> i" "i < 10 ^ n" "1 \<le> n"
  shows "length (zero_pad n i) = n" "list_all is_digit (zero_pad n i)" "parse_nat (zero_pad n i) = Some i"
proof -
  have i: "int_str i = nat_str (nat i)" using assms(1) by (simp add: int_str_def)
  have "nat i < 10 ^ n" using assms(1,2) by (simp add: nat_less_iff)
  then have "length (nat_str (nat i)) \<le> n" using assms(3) by (rule length_nat_str)
  then show "length (zero_pad n i) = n" by (simp add: zero_pad_def i)
  show "list_all is_digit (zero_pad n i)"
    using nat_str_digits [of _ "nat i"] by (auto simp: zero_pad_def i list_all_iff is_digit_def)
  show "parse_nat (zero_pad n i) = Some i" using assms(1) by (simp add: zero_pad_def i parse_nat_zeros)
qed

lemma partition_name_parses:
  assumes "first_of_month month"
  shows "parse_partition_name (fpindex_changelog_partition_name month) = Some (Inr month)"
proof -
  have v: "1 \<le> d_year month" "d_year month \<le> 9999" "1 \<le> d_month month" "d_month month \<le> 12" "d_day month = 1"
    using assms by (simp_all add: first_of_month_def valid_date_def)
  note y = zero_pad_facts [of "d_year month" 4] and m = zero_pad_facts [of "d_month month" 2]
  have len: "length (month_digits month) = 6" "list_all is_digit (month_digits month)"
    using y m v by (simp_all add: month_digits_def)
  have nonempty: "month_digits month \<noteq> []" using len(1) by auto
  then have "last (month_digits month) \<in> set (month_digits month)" by simp
  then have "is_digit (last (month_digits month))" using len(2) unfolding list_all_iff by blast
  then have last: "last (month_digits month) \<noteq> newline" by (auto simp: is_digit_def newline_def)
  have four: "length (zero_pad 4 (d_year month)) = 4" using y(1) v by simp
  have "take 4 (month_digits month) = zero_pad 4 (d_year month)" "drop 4 (month_digits month) = zero_pad 2 (d_month month)"
    unfolding month_digits_def using four by (simp_all del: append_assoc)
  then have parts: "parse_nat (take 4 (month_digits month)) = Some (d_year month)"
    "parse_nat (drop 4 (month_digits month)) = Some (d_month month)"
    using y(3) m(3) v by simp_all
  have date: "Date (d_year month) (d_month month) 1 = month" using v(5) py_date.collapse [of month] by simp
  show ?thesis
    unfolding parse_partition_name_def Let_def fpindex_changelog_partition_name_def
    using nonempty last len parts v by (simp add: date)
qed

text \<open>The retention job recognises every partition that the create-ahead job makes, and reads its month
  back from the name; so it can never miss one of them.\<close>

lemma partition_name_roundtrip:
  assumes "first_of_month month"
  shows "parse_partition_name (fpindex_changelog_partition_name month) = Some (Inr month)"
  using assms by (rule partition_name_parses)

end
