(* ===== verification/Retention.thy ===== *)
theory Retention
  imports Changelog "HOL-Library.Multiset"
begin

text \<open>
  The change log under its three users at once: the fingerprint trigger, the clock, and the retention
  job, one statement of which is one step (the job's connection commits each statement by itself).
  \<open>w_history\<close> is a ghost: every row the trigger ever wrote. The invariant says that whatever is no
  longer in the log is at or below the watermark.
\<close>

subsection \<open>The world and its steps\<close>

datatype job =
    Idle
  | Dropping py_date "(string \<times> py_date) list"
  | Recorded py_date string "(string \<times> py_date) list"

record world =
  w_now :: int
  w_log :: changelog
  w_fingerprints :: "(int \<times> int list) list"
  w_history :: "changelog_row list"
  w_job :: job

text \<open>The database's calendar: monotone, with dates Python can represent, of four-digit years.\<close>

definition calendar :: "(int \<Rightarrow> py_date) \<Rightarrow> bool" where
  "calendar date_of \<longleftrightarrow> (\<forall>s t. s \<le> t \<longrightarrow> date_of s \<le> date_of t) \<and> (\<forall>t. valid_date (date_of t))"

inductive retention_step :: "(int list \<Rightarrow> int list) \<Rightarrow> (int \<Rightarrow> py_date) \<Rightarrow> world \<Rightarrow> world \<Rightarrow> bool"
  for xq :: "int list \<Rightarrow> int list" and date_of :: "int \<Rightarrow> py_date" where
  Tick: "w_now w \<le> t \<Longrightarrow> retention_step xq date_of w (w\<lparr>w_now := t\<rparr>)"
| Store: "\<lbrakk>fid \<notin> fst ` set (w_fingerprints w);
     changelog_insert xq date_of (w_now w) fid fp (w_log w) = Inr c\<rbrakk> \<Longrightarrow>
     retention_step xq date_of w (w\<lparr>w_log := c, w_fingerprints := w_fingerprints w @ [(fid, fp)],
       w_history := w_history w @ [\<lparr>cl_id = ch_next (w_log w), cl_fingerprint_id = fid, cl_query = xq fp, cl_created = w_now w\<rparr>]\<rparr>)"
| Create: "\<lbrakk>first_of_month month; fpindex_changelog_add_months month 1 = Inr end\<rbrakk> \<Longrightarrow>
     retention_step xq date_of w (w\<lparr>w_log := create_partition month end (w_log w)\<rparr>)"
| Start: "\<lbrakk>w_job w = Idle; retention_cutoff (date_of (w_now w)) = Inr cutoff;
     existing_partitions (w_log w) = Inr parts\<rbrakk> \<Longrightarrow>
     retention_step xq date_of w (w\<lparr>w_job := Dropping cutoff (sort_key snd parts)\<rparr>)"
| Skip: "w_job w = Dropping cutoff ((name, month) # rest) \<Longrightarrow>
     retention_step xq date_of w (w\<lparr>w_job := Dropping cutoff rest\<rparr>)"
| Record: "\<lbrakk>w_job w = Dropping cutoff ((name, month) # rest); \<not> cutoff \<le> month\<rbrakk> \<Longrightarrow>
     retention_step xq date_of w (w\<lparr>w_log := snd (record_last_deleted name (w_log w)), w_job := Recorded cutoff name rest\<rparr>)"
| Drop: "w_job w = Recorded cutoff name rest \<Longrightarrow>
     retention_step xq date_of w (w\<lparr>w_log := drop_table name (w_log w), w_job := Dropping cutoff rest\<rparr>)"
| Drop_Failed: "w_job w = Recorded cutoff name rest \<Longrightarrow>
     retention_step xq date_of w (w\<lparr>w_job := Dropping cutoff rest\<rparr>)"
| Stop: "retention_step xq date_of w (w\<lparr>w_job := Idle\<rparr>)"

abbreviation retention_steps :: "(int list \<Rightarrow> int list) \<Rightarrow> (int \<Rightarrow> py_date) \<Rightarrow> world \<Rightarrow> world \<Rightarrow> bool" where
  "retention_steps xq date_of \<equiv> (retention_step xq date_of)\<^sup>*\<^sup>*"

text \<open>A database just created: no log yet; fingerprints may already be there.\<close>

definition new_world :: "int \<Rightarrow> (int \<times> int list) list \<Rightarrow> world" where
  "new_world now fps = \<lparr>w_now = now, w_log = \<lparr>ch_parts = [], ch_meta = None, ch_next = 1\<rparr>, w_fingerprints = fps,
     w_history = [], w_job = Idle\<rparr>"

inductive_cases retention_stepE: "retention_step xq date_of w w'"

subsection \<open>The invariant\<close>

definition part_ok :: "partition \<Rightarrow> bool" where
  "part_ok p \<longleftrightarrow> first_of_month (pt_from p) \<and> fpindex_changelog_add_months (pt_from p) 1 = Inr (pt_to p) \<and>
     pt_name p = fpindex_changelog_partition_name (pt_from p)"

definition parts_ok :: "partition list \<Rightarrow> bool" where
  "parts_ok ps \<longleftrightarrow> distinct (map pt_name ps) \<and> (\<forall>p \<in> set ps. part_ok p)"

text \<open>The row is at or below the watermark.\<close>

definition gone :: "changelog \<Rightarrow> changelog_row \<Rightarrow> bool" where
  "gone c r \<longleftrightarrow> (case ch_meta c of None \<Rightarrow> False | Some m \<Rightarrow> cl_id r \<le> fm_last_deleted_id m)"

definition log_ok :: "changelog_row list \<Rightarrow> changelog \<Rightarrow> bool" where
  "log_ok history c \<longleftrightarrow> parts_ok (ch_parts c) \<and> distinct (all_rows c) \<and> set (all_rows c) \<subseteq> set history \<and>
     (\<forall>r \<in> set history. r \<in> set (all_rows c) \<or> gone c r)"

definition history_ok :: "(int list \<Rightarrow> int list) \<Rightarrow> world \<Rightarrow> bool" where
  "history_ok xq w \<longleftrightarrow> sorted_wrt (<) (map cl_id (w_history w)) \<and> 1 \<le> ch_next (w_log w) \<and>
     (\<forall>r \<in> set (w_history w). 1 \<le> cl_id r \<and> cl_id r < ch_next (w_log w) \<and>
        (\<exists>fp. (cl_fingerprint_id r, fp) \<in> set (w_fingerprints w) \<and> cl_query r = xq fp)) \<and>
     (\<forall>m. ch_meta (w_log w) = Some m \<longrightarrow> (\<exists>r \<in> set (w_history w). cl_id r = fm_last_deleted_id m))"

definition cutoff_ok :: "(int \<Rightarrow> py_date) \<Rightarrow> int \<Rightarrow> py_date \<Rightarrow> (string \<times> py_date) list \<Rightarrow> bool" where
  "cutoff_ok date_of now cutoff todo \<longleftrightarrow> first_of_month cutoff \<and> cutoff \<le> date_of now \<and>
     (\<forall>(name, month) \<in> set todo. parse_partition_name name = Some (Inr month))"

fun job_ok :: "(int \<Rightarrow> py_date) \<Rightarrow> int \<Rightarrow> changelog \<Rightarrow> job \<Rightarrow> bool" where
  "job_ok date_of now c Idle \<longleftrightarrow> True"
| "job_ok date_of now c (Dropping cutoff todo) \<longleftrightarrow> cutoff_ok date_of now cutoff todo"
| "job_ok date_of now c (Recorded cutoff name todo) \<longleftrightarrow> cutoff_ok date_of now cutoff todo \<and>
     (\<exists>month. parse_partition_name name = Some (Inr month) \<and> \<not> cutoff \<le> month) \<and>
     (\<forall>p \<in> set (ch_parts c). pt_name p = name \<longrightarrow> pt_to p \<le> cutoff \<and> (\<forall>r \<in> set (pt_rows p). gone c r))"

definition world_ok :: "(int list \<Rightarrow> int list) \<Rightarrow> (int \<Rightarrow> py_date) \<Rightarrow> world \<Rightarrow> bool" where
  "world_ok xq date_of w \<longleftrightarrow> log_ok (w_history w) (w_log w) \<and> history_ok xq w \<and>
     job_ok date_of (w_now w) (w_log w) (w_job w) \<and> distinct (map fst (w_fingerprints w))"


subsection \<open>Partitions\<close>

lemma covers_same_month:
  assumes "part_ok p" "valid_date d"
  shows "covers d p \<longleftrightarrow> pt_from p = fpindex_changelog_month d"
  using partition_covers_month [of "pt_from p" "pt_to p" d] assms by (auto simp: part_ok_def covers_def)

lemma covering_partition_unique:
  assumes "parts_ok ps" "p \<in> set ps" "q \<in> set ps" "valid_date d" "covers d p" "covers d q"
  shows "pt_name p = pt_name q"
proof -
  have "part_ok p" "part_ok q" using assms(1-3) by (simp_all add: parts_ok_def)
  with assms(4-6) show ?thesis by (simp add: covers_same_month) (simp add: part_ok_def)
qed

definition partition_rows :: "partition list \<Rightarrow> changelog_row list" where
  "partition_rows ps = concat (map pt_rows ps)"

lemma all_rows_eq: "all_rows c = partition_rows (ch_parts c)"
  by (simp add: all_rows_def partition_rows_def)

lemma add_row_other: "\<not> covers d p \<Longrightarrow> add_row d r p = p"
  by (simp add: add_row_def)

lemma add_row_frame [simp]: "pt_name (add_row d r p) = pt_name p" "pt_from (add_row d r p) = pt_from p"
  "pt_to (add_row d r p) = pt_to p" "part_ok (add_row d r p) = part_ok p"
  by (simp_all add: add_row_def part_ok_def)

lemma add_row_once:
  assumes "distinct (map pt_name ps)" "\<And>p q. p \<in> set ps \<Longrightarrow> q \<in> set ps \<Longrightarrow> covers d p \<Longrightarrow> covers d q \<Longrightarrow> pt_name p = pt_name q"
    and "list_ex (covers d) ps"
  shows "mset (partition_rows (map (add_row d r) ps)) = add_mset r (mset (partition_rows ps))"
  using assms
proof (induction ps)
  case (Cons p ps)
  show ?case
  proof (cases "covers d p")
    case True
    have "\<not> covers d q" if "q \<in> set ps" for q
      using Cons.prems(1) Cons.prems(2) [of p q] True that by auto
    then have "map (add_row d r) ps = ps" by (intro map_idI add_row_other) blast
    moreover have "pt_rows (add_row d r p) = pt_rows p @ [r]" using True by (simp add: add_row_def)
    ultimately show ?thesis by (simp add: partition_rows_def del: map_map)
  next
    case False
    have "mset (partition_rows (map (add_row d r) ps)) = add_mset r (mset (partition_rows ps))"
    proof (rule Cons.IH)
      show "distinct (map pt_name ps)" "list_ex (covers d) ps" using Cons.prems(1,3) False by simp_all
      show "pt_name p = pt_name q" if "p \<in> set ps" "q \<in> set ps" "covers d p" "covers d q" for p q
        by (rule Cons.prems(2)) (use that in simp_all)
    qed
    with False show ?thesis by (simp add: partition_rows_def add_row_other)
  qed
qed simp

lemma insert_rows:
  assumes "parts_ok (ch_parts c)" "valid_date (date_of now)" "changelog_insert xq date_of now fid fp c = Inr c'"
  shows "mset (all_rows c') = add_mset \<lparr>cl_id = ch_next c, cl_fingerprint_id = fid, cl_query = xq fp, cl_created = now\<rparr> (mset (all_rows c)) \<and>
    parts_ok (ch_parts c') \<and> ch_meta c' = ch_meta c \<and> ch_next c' = ch_next c + 1"
proof -
  let ?r = "\<lparr>cl_id = ch_next c, cl_fingerprint_id = fid, cl_query = xq fp, cl_created = now\<rparr>"
  from assms(3) have ex: "list_ex (covers (date_of now)) (ch_parts c)"
    and c': "c' = c\<lparr>ch_parts := map (add_row (date_of now) ?r) (ch_parts c), ch_next := ch_next c + 1\<rparr>"
    by (simp_all add: changelog_insert_def split: if_splits)
  have "mset (partition_rows (map (add_row (date_of now) ?r) (ch_parts c))) = add_mset ?r (mset (partition_rows (ch_parts c)))"
  proof (rule add_row_once)
    show "distinct (map pt_name (ch_parts c))" using assms(1) by (simp add: parts_ok_def)
    show "list_ex (covers (date_of now)) (ch_parts c)" by (rule ex)
  qed (rule covering_partition_unique [OF assms(1) _ _ assms(2)])
  moreover have "parts_ok (map (add_row (date_of now) ?r) (ch_parts c))"
    using assms(1) by (simp add: parts_ok_def comp_def)
  ultimately show ?thesis by (simp add: c' all_rows_eq)
qed

lemma insert_parts:
  assumes "changelog_insert xq date_of now fid fp c = Inr c'" "p' \<in> set (ch_parts c')"
  shows "\<exists>p \<in> set (ch_parts c). pt_name p' = pt_name p \<and> pt_to p' = pt_to p \<and> (p' = p \<or> covers (date_of now) p)"
proof -
  obtain r p where p: "p \<in> set (ch_parts c)" "p' = add_row (date_of now) r p"
    using assms by (auto simp: changelog_insert_def split: if_splits)
  then have "p' = p \<or> covers (date_of now) p" by (simp add: add_row_def)
  with p show ?thesis by (intro bexI [of _ p]) simp_all
qed

text \<open>Creating a partition.\<close>

lemma create_partition_ok:
  assumes "parts_ok (ch_parts c)" "first_of_month month" "fpindex_changelog_add_months month 1 = Inr end'"
  shows "parts_ok (ch_parts (create_partition month end' c)) \<and> all_rows (create_partition month end' c) = all_rows c \<and>
    ch_meta (create_partition month end' c) = ch_meta c \<and> ch_next (create_partition month end' c) = ch_next c"
  using assms by (auto simp: create_partition_def parts_ok_def part_ok_def all_rows_def)

lemma create_partition_parts:
  "p \<in> set (ch_parts (create_partition month end' c)) \<Longrightarrow> p \<in> set (ch_parts c) \<or> pt_rows p = [] \<and> pt_to p = end' \<and>
     pt_name p = fpindex_changelog_partition_name month"
  by (auto simp: create_partition_def split: if_splits)

text \<open>Dropping a partition.\<close>

lemma drop_table_rows:
  "set (all_rows (drop_table name c)) \<subseteq> set (all_rows c) \<and>
   (distinct (all_rows c) \<longrightarrow> distinct (all_rows (drop_table name c))) \<and>
   (\<forall>r \<in> set (all_rows c) - set (all_rows (drop_table name c)). \<exists>p \<in> set (ch_parts c). pt_name p = name \<and> r \<in> set (pt_rows p))"
proof -
  have "distinct (partition_rows ps) \<Longrightarrow> distinct (partition_rows (filter P ps))" for P ps
    by (induction ps) (auto simp: partition_rows_def)
  then show ?thesis by (auto simp: all_rows_eq drop_table_def) (auto simp: partition_rows_def)
qed

lemma drop_table_frame [simp]: "ch_meta (drop_table name c) = ch_meta c" "ch_next (drop_table name c) = ch_next c"
  by (simp_all add: drop_table_def)

lemma drop_table_parts_ok: "parts_ok (ch_parts c) \<Longrightarrow> parts_ok (ch_parts (drop_table name c))"
  by (simp add: parts_ok_def drop_table_def distinct_map_filter)

text \<open>Recording the watermark.\<close>

lemma last_row_max:
  "(case last_row rs of None \<Rightarrow> rs = [] | Some r \<Rightarrow> r \<in> set rs \<and> (\<forall>s \<in> set rs. cl_id s \<le> cl_id r))"
  by (induction rs) (auto split: option.splits)

lemma record_last_deleted_frame [simp]:
  "ch_parts (snd (record_last_deleted name c)) = ch_parts c" "ch_next (snd (record_last_deleted name c)) = ch_next c"
  "all_rows (snd (record_last_deleted name c)) = all_rows c"
  by (auto simp: record_last_deleted_def all_rows_def split: option.splits)

lemma record_last_deleted_grows: "gone c r \<Longrightarrow> gone (snd (record_last_deleted name c)) r"
  by (auto simp: record_last_deleted_def gone_def split: option.splits)

lemma record_last_deleted_covers:
  assumes "p \<in> set (ch_parts c)" "pt_name p = name" "r \<in> set (pt_rows p)"
  shows "gone (snd (record_last_deleted name c)) r"
proof -
  let ?rows = "concat (map pt_rows (filter (\<lambda>p. pt_name p = name) (ch_parts c)))"
  have r: "r \<in> set ?rows" using assms by auto
  with last_row_max [of ?rows] obtain l where l: "last_row ?rows = Some l" "cl_id r \<le> cl_id l"
    by (cases "last_row ?rows") auto
  then show ?thesis by (auto simp: record_last_deleted_def gone_def split: option.splits)
qed

lemma record_last_deleted_meta:
  assumes "ch_meta (snd (record_last_deleted name c)) = Some m"
  shows "ch_meta c = Some m \<or> (\<exists>r \<in> set (all_rows c). cl_id r = fm_last_deleted_id m)"
proof -
  let ?rows = "concat (map pt_rows (filter (\<lambda>p. pt_name p = name) (ch_parts c)))"
  have "set ?rows \<subseteq> set (all_rows c)" by (auto simp: all_rows_def)
  with assms last_row_max [of ?rows] show ?thesis
    by (auto simp: record_last_deleted_def split: option.splits if_splits) force+
qed


subsection \<open>Every step keeps the invariant\<close>

lemma gone_meta_cong: "ch_meta c' = ch_meta c \<Longrightarrow> gone c' = gone c"
  by (rule ext) (simp add: gone_def)

lemma calendarD: "calendar date_of \<Longrightarrow> valid_date (date_of t)" "calendar date_of \<Longrightarrow> s \<le> t \<Longrightarrow> date_of s \<le> date_of t"
  by (simp_all add: calendar_def)

text \<open>The retention job only ever looks at partitions that no date from now on can fall into.\<close>

lemma past_partition:
  assumes "part_ok p" "first_of_month cutoff" "\<not> cutoff \<le> pt_from p"
  shows "pt_to p \<le> cutoff"
proof -
  have e: "first_of_month (pt_from p)" "first_of_month (pt_to p)" "month_index (pt_to p) = month_index (pt_from p) + 1"
    using assms(1) add_months_valid [of "pt_from p" 1] add_months_index [of "pt_from p" 1]
    by (auto simp: part_ok_def first_of_month_def month_index_def)
  then have "month_index (pt_from p) < month_index cutoff"
    using first_of_month_le [OF assms(2), of "pt_from p"] assms(3) by (auto simp: first_of_month_def not_le [symmetric])
  then show ?thesis using e assms(2) by (intro first_of_month_le) (auto simp: first_of_month_def)
qed

lemma not_covers_past: "pt_to p \<le> cutoff \<Longrightarrow> cutoff \<le> d \<Longrightarrow> \<not> covers d p"
  by (auto simp: covers_def not_less)

lemma cutoff_ok_tick: "calendar date_of \<Longrightarrow> now \<le> t \<Longrightarrow> cutoff_ok date_of now cutoff todo \<Longrightarrow> cutoff_ok date_of t cutoff todo"
  unfolding cutoff_ok_def using calendarD(2) [of date_of now t] by (auto intro: order_trans)

lemma job_ok_tick: "calendar date_of \<Longrightarrow> now \<le> t \<Longrightarrow> job_ok date_of now c job \<Longrightarrow> job_ok date_of t c job"
  by (cases job) (auto intro: cutoff_ok_tick)

lemma store_ok:
  assumes cal: "calendar date_of" and ok: "world_ok xq date_of w" and new: "fid \<notin> fst ` set (w_fingerprints w)"
    and ins: "changelog_insert xq date_of (w_now w) fid fp (w_log w) = Inr c"
  shows "world_ok xq date_of (w\<lparr>w_log := c, w_fingerprints := w_fingerprints w @ [(fid, fp)],
       w_history := w_history w @ [\<lparr>cl_id = ch_next (w_log w), cl_fingerprint_id = fid, cl_query = xq fp, cl_created = w_now w\<rparr>]\<rparr>)"
    (is "world_ok xq date_of ?w'")
proof -
  let ?r = "\<lparr>cl_id = ch_next (w_log w), cl_fingerprint_id = fid, cl_query = xq fp, cl_created = w_now w\<rparr>"
  have l: "log_ok (w_history w) (w_log w)" and h: "history_ok xq w" and j: "job_ok date_of (w_now w) (w_log w) (w_job w)"
    and d: "distinct (map fst (w_fingerprints w))" using ok by (simp_all add: world_ok_def)
  from l have po: "parts_ok (ch_parts (w_log w))" by (simp add: log_ok_def)
  have rows: "mset (all_rows c) = add_mset ?r (mset (all_rows (w_log w)))" and parts: "parts_ok (ch_parts c)"
    and meta: "ch_meta c = ch_meta (w_log w)" and nxt: "ch_next c = ch_next (w_log w) + 1"
    using insert_rows [OF po calendarD(1) [OF cal] ins] by simp_all
  note gone = gone_meta_cong [OF meta]
  have set: "set (all_rows c) = insert ?r (set (all_rows (w_log w)))"
    using arg_cong [OF rows, of set_mset] by simp
  have fresh: "?r \<notin> set (w_history w)" using h by (auto simp: history_ok_def)
  moreover have "set (all_rows (w_log w)) \<subseteq> set (w_history w)" using l by (simp add: log_ok_def)
  ultimately have "?r \<notin> set (all_rows (w_log w))" by blast
  then have "distinct (all_rows c)"
    using rows l by (simp add: log_ok_def flip: mset_eq_imp_distinct_iff [of "?r # all_rows (w_log w)"])
  then have "log_ok (w_history ?w') (w_log ?w')"
    using l parts set by (auto simp: log_ok_def gone)
  moreover have "history_ok xq ?w'"
    using h nxt meta unfolding history_ok_def by (auto simp: sorted_wrt_append)
  moreover have "job_ok date_of (w_now w) c (w_job w)"
  proof (cases "w_job w")
    case (Recorded cutoff name todo)
    have "pt_to p' \<le> cutoff \<and> (\<forall>r \<in> set (pt_rows p'). gone c r)" if p': "p' \<in> set (ch_parts c)" "pt_name p' = name" for p'
    proof -
      obtain p where p: "p \<in> set (ch_parts (w_log w))" "pt_name p' = pt_name p" "pt_to p' = pt_to p"
        "p' = p \<or> covers (date_of (w_now w)) p" using insert_parts [OF ins p'(1)] by blast
      then have "pt_to p \<le> cutoff" "\<forall>r \<in> set (pt_rows p). gone c r" "cutoff \<le> date_of (w_now w)"
        using j p'(2) Recorded by (auto simp: gone cutoff_ok_def)
      with p not_covers_past show ?thesis by auto
    qed
    with j Recorded show ?thesis by simp
  qed (use j in simp_all)
  ultimately show ?thesis using new d by (simp add: world_ok_def)
qed


lemma history_ok_frame:
  assumes "history_ok xq w" "ch_next c = ch_next (w_log w)" "ch_meta c = ch_meta (w_log w)"
  shows "history_ok xq (w\<lparr>w_log := c, w_job := job\<rparr>)"
  using assms by (simp add: history_ok_def)

lemma create_ok:
  assumes ok: "world_ok xq date_of w" and "first_of_month month" "fpindex_changelog_add_months month 1 = Inr end'"
  shows "world_ok xq date_of (w\<lparr>w_log := create_partition month end' (w_log w)\<rparr>)"
proof -
  let ?c = "create_partition month end' (w_log w)"
  have l: "log_ok (w_history w) (w_log w)" and h: "history_ok xq w" and j: "job_ok date_of (w_now w) (w_log w) (w_job w)"
    using ok by (simp_all add: world_ok_def)
  have c: "parts_ok (ch_parts ?c)" "all_rows ?c = all_rows (w_log w)" "ch_meta ?c = ch_meta (w_log w)" "ch_next ?c = ch_next (w_log w)"
    using create_partition_ok [OF _ assms(2,3)] l by (simp_all add: log_ok_def)
  note gone = gone_meta_cong [OF c(3)]
  have "job_ok date_of (w_now w) ?c (w_job w)"
  proof (cases "w_job w")
    case (Recorded cutoff name todo)
    have "pt_to p \<le> cutoff \<and> (\<forall>r \<in> set (pt_rows p). gone ?c r)" if p: "p \<in> set (ch_parts ?c)" "pt_name p = name" for p
      using create_partition_parts [OF p(1)]
    proof
      assume "p \<in> set (ch_parts (w_log w))"
      then show ?thesis using j Recorded p(2) by (auto simp: gone)
    next
      assume new: "pt_rows p = [] \<and> pt_to p = end' \<and> pt_name p = fpindex_changelog_partition_name month"
      then have "\<not> cutoff \<le> month" "first_of_month cutoff"
        using j Recorded p(2) partition_name_parses [OF assms(2)] by (auto simp: cutoff_ok_def)
      then have "end' \<le> cutoff"
        using past_partition [of "\<lparr>pt_name = fpindex_changelog_partition_name month, pt_from = month, pt_to = end', pt_rows = []\<rparr>" cutoff]
          assms(2,3) by (simp add: part_ok_def)
      then show ?thesis using new by simp
    qed
    with j Recorded show ?thesis by simp
  qed (use j in simp_all)
  with l h c show ?thesis using ok
    by (simp add: world_ok_def log_ok_def gone history_ok_def)
qed


lemma parse_names_sound:
  "parse_names names = Inr parts \<Longrightarrow> (name, month) \<in> set parts \<Longrightarrow> parse_partition_name name = Some (Inr month)"
  by (induction names arbitrary: parts) (auto split: option.splits sum.splits)

lemma retention_cutoff_past:
  assumes "valid_date d" "retention_cutoff d = Inr cutoff"
  shows "first_of_month cutoff" "cutoff \<le> d"
proof -
  from assms(2) have c: "valid_date cutoff \<and> d_day cutoff = 1" "month_index cutoff = month_index d - RETENTION_MONTHS"
    unfolding retention_cutoff_def
    using add_months_valid [of _ _ cutoff] add_months_index [of _ _ cutoff] by (auto simp: month_index_def)
  then show "first_of_month cutoff" by (simp add: first_of_month_def)
  with assms(1) c(2) show "cutoff \<le> d" by (intro first_of_month_le) (simp_all add: RETENTION_MONTHS_def)
qed

lemma start_ok:
  assumes cal: "calendar date_of" and ok: "world_ok xq date_of w"
    and "retention_cutoff (date_of (w_now w)) = Inr cutoff" "existing_partitions (w_log w) = Inr parts"
  shows "world_ok xq date_of (w\<lparr>w_job := Dropping cutoff (sort_key snd parts)\<rparr>)"
proof -
  have "cutoff_ok date_of (w_now w) cutoff (sort_key snd parts)"
    using retention_cutoff_past [OF calendarD(1) [OF cal] assms(3)] assms(4)
    by (auto simp: cutoff_ok_def existing_partitions_def dest: parse_names_sound)
  with ok show ?thesis by (simp add: world_ok_def history_ok_def)
qed

lemma record_ok:
  assumes ok: "world_ok xq date_of w" and job: "w_job w = Dropping cutoff ((name, month) # rest)" and past: "\<not> cutoff \<le> month"
  shows "world_ok xq date_of (w\<lparr>w_log := snd (record_last_deleted name (w_log w)), w_job := Recorded cutoff name rest\<rparr>)"
proof -
  let ?c = "snd (record_last_deleted name (w_log w))"
  have l: "log_ok (w_history w) (w_log w)" and h: "history_ok xq w"
    and j: "cutoff_ok date_of (w_now w) cutoff ((name, month) # rest)" using ok job by (simp_all add: world_ok_def)
  from j have parse: "parse_partition_name name = Some (Inr month)" and c: "first_of_month cutoff" by (simp_all add: cutoff_ok_def)
  have "pt_to p \<le> cutoff" if "p \<in> set (ch_parts (w_log w))" "pt_name p = name" for p
  proof (rule past_partition [OF _ c])
    show p: "part_ok p" using l that(1) by (simp add: log_ok_def parts_ok_def)
    then have "pt_from p = month" using partition_name_parses [of "pt_from p"] parse that(2) by (simp add: part_ok_def)
    with past show "\<not> cutoff \<le> pt_from p" by simp
  qed
  then have "job_ok date_of (w_now w) ?c (Recorded cutoff name rest)"
    using j parse past by (auto simp: cutoff_ok_def intro: record_last_deleted_covers)
  moreover have "log_ok (w_history w) ?c"
    using l by (auto simp: log_ok_def intro: record_last_deleted_grows)
  moreover have "history_ok xq (w\<lparr>w_log := ?c, w_job := Recorded cutoff name rest\<rparr>)"
  proof -
    have "\<exists>r \<in> set (w_history w). cl_id r = fm_last_deleted_id m" if "ch_meta ?c = Some m" for m
    proof -
      have "set (all_rows (w_log w)) \<subseteq> set (w_history w)" using l by (simp add: log_ok_def)
      moreover have "ch_meta (w_log w) = Some m \<Longrightarrow> \<exists>r \<in> set (w_history w). cl_id r = fm_last_deleted_id m"
        using h by (simp add: history_ok_def)
      ultimately show ?thesis using record_last_deleted_meta [OF that] by blast
    qed
    then show ?thesis using h unfolding history_ok_def by simp
  qed
  ultimately show ?thesis using ok by (simp add: world_ok_def)
qed

lemma drop_ok:
  assumes ok: "world_ok xq date_of w" and job: "w_job w = Recorded cutoff name rest"
  shows "world_ok xq date_of (w\<lparr>w_log := drop_table name (w_log w), w_job := Dropping cutoff rest\<rparr>)"
proof -
  let ?c = "drop_table name (w_log w)"
  have l: "log_ok (w_history w) (w_log w)" and h: "history_ok xq w"
    and j: "cutoff_ok date_of (w_now w) cutoff rest"
      "\<forall>p \<in> set (ch_parts (w_log w)). pt_name p = name \<longrightarrow> (\<forall>r \<in> set (pt_rows p). gone (w_log w) r)"
    using ok job by (simp_all add: world_ok_def)
  have gone: "gone ?c = gone (w_log w)" by (rule gone_meta_cong) simp
  have "log_ok (w_history w) ?c"
    unfolding log_ok_def gone
  proof (intro conjI ballI)
    show "parts_ok (ch_parts ?c)" using l by (simp add: log_ok_def drop_table_parts_ok)
    show "distinct (all_rows ?c)" "set (all_rows ?c) \<subseteq> set (w_history w)"
      using l drop_table_rows [of name "w_log w"] by (auto simp: log_ok_def)
    show "r \<in> set (all_rows ?c) \<or> gone (w_log w) r" if r: "r \<in> set (w_history w)" for r
    proof (cases "r \<in> set (all_rows (w_log w))")
      case True
      with drop_table_rows [of name "w_log w"] j(2) show ?thesis by blast
    next
      case False
      with l r show ?thesis by (auto simp: log_ok_def)
    qed
  qed
  with ok h j(1) show ?thesis by (simp add: world_ok_def history_ok_def)
qed

lemma step_ok: "retention_step xq date_of w w' \<Longrightarrow> calendar date_of \<Longrightarrow> world_ok xq date_of w \<Longrightarrow> world_ok xq date_of w'"
proof (induction rule: retention_step.induct)
  case (Tick w t)
  then show ?case by (auto simp: world_ok_def history_ok_def intro: job_ok_tick)
next
  case (Skip w cutoff name month rest)
  then show ?case by (simp add: world_ok_def history_ok_def cutoff_ok_def)
next
  case (Drop_Failed w cutoff name rest)
  then show ?case by (simp add: world_ok_def history_ok_def)
next
  case (Stop w)
  then show ?case by (simp add: world_ok_def history_ok_def)
qed (simp_all add: store_ok create_ok start_ok record_ok drop_ok)

lemma steps_ok: "retention_steps xq date_of w w' \<Longrightarrow> calendar date_of \<Longrightarrow> world_ok xq date_of w \<Longrightarrow> world_ok xq date_of w'"
  by (induction rule: rtranclp_induct) (auto intro: step_ok)

lemma new_world_ok: "distinct (map fst fps) \<Longrightarrow> world_ok xq date_of (new_world now fps)"
  by (simp add: world_ok_def new_world_def log_ok_def parts_ok_def all_rows_def history_ok_def)


subsection \<open>What every step leaves in place\<close>

definition log_extends :: "world \<Rightarrow> world \<Rightarrow> bool" where
  "log_extends w w' \<longleftrightarrow> (\<exists>new. w_history w' = w_history w @ new \<and> (\<forall>r \<in> set new. ch_next (w_log w) \<le> cl_id r)) \<and>
     ch_next (w_log w) \<le> ch_next (w_log w') \<and> (\<forall>r. gone (w_log w) r \<longrightarrow> gone (w_log w') r) \<and>
     set (w_fingerprints w) \<subseteq> set (w_fingerprints w')"

text \<open>Fingerprints stored since \<open>w\<close> have their entries in the history.\<close>

definition new_logged :: "(int list \<Rightarrow> int list) \<Rightarrow> world \<Rightarrow> world \<Rightarrow> bool" where
  "new_logged xq w w' \<longleftrightarrow> (\<forall>(fid, fp) \<in> set (w_fingerprints w') - set (w_fingerprints w).
     \<exists>r \<in> set (w_history w'). ch_next (w_log w) \<le> cl_id r \<and> cl_fingerprint_id r = fid \<and> cl_query r = xq fp)"

lemma log_extends_refl: "log_extends w w" "new_logged xq w w"
  by (auto simp: log_extends_def new_logged_def)

lemma insert_frame:
  "changelog_insert xq date_of now fid fp c = Inr c' \<Longrightarrow> ch_meta c' = ch_meta c \<and> ch_next c' = ch_next c + 1"
  by (auto simp: changelog_insert_def split: if_splits)

lemma create_frame [simp]: "ch_meta (create_partition m e c) = ch_meta c" "ch_next (create_partition m e c) = ch_next c"
  by (simp_all add: create_partition_def)

lemma step_extends: "retention_step xq date_of w w' \<Longrightarrow> log_extends w w' \<and> new_logged xq w w'"
proof (induction rule: retention_step.induct)
  case (Store fid w fp c)
  then show ?case using insert_frame [OF Store(2)] gone_meta_cong [of c "w_log w"]
    by (auto simp: log_extends_def new_logged_def)
next
  case (Create month "end" w)
  then show ?case using gone_meta_cong [of "create_partition month end (w_log w)" "w_log w"]
    by (auto simp: log_extends_def new_logged_def)
next
  case (Record w cutoff name month rest)
  then show ?case by (auto simp: log_extends_def new_logged_def record_last_deleted_grows)
next
  case (Drop w cutoff name rest)
  then show ?case using gone_meta_cong [of "drop_table name (w_log w)" "w_log w"]
    by (auto simp: log_extends_def new_logged_def)
qed (simp_all add: log_extends_def new_logged_def)

lemma log_extends_trans:
  assumes "log_extends w w'" "log_extends w' w''"
  shows "log_extends w w''"
proof -
  obtain new new' where "w_history w' = w_history w @ new" "\<forall>r \<in> set new. ch_next (w_log w) \<le> cl_id r"
    "w_history w'' = w_history w' @ new'" "\<forall>r \<in> set new'. ch_next (w_log w') \<le> cl_id r"
    using assms unfolding log_extends_def by blast
  moreover have "ch_next (w_log w) \<le> ch_next (w_log w')" using assms(1) by (simp add: log_extends_def)
  ultimately have "w_history w'' = w_history w @ new @ new' \<and> (\<forall>r \<in> set (new @ new'). ch_next (w_log w) \<le> cl_id r)"
    by force
  with assms show ?thesis unfolding log_extends_def by (meson order_trans)
qed

lemma new_logged_trans:
  assumes "log_extends w w'" "log_extends w' w''" "new_logged xq w w'" "new_logged xq w' w''"
  shows "new_logged xq w w''"
proof -
  have grow: "set (w_history w') \<subseteq> set (w_history w'')" "ch_next (w_log w) \<le> ch_next (w_log w')"
    using assms(1,2) by (auto simp: log_extends_def)
  have "\<exists>r \<in> set (w_history w''). ch_next (w_log w) \<le> cl_id r \<and> cl_fingerprint_id r = fid \<and> cl_query r = xq fp"
    if f: "(fid, fp) \<in> set (w_fingerprints w'')" "(fid, fp) \<notin> set (w_fingerprints w)" for fid fp
  proof (cases "(fid, fp) \<in> set (w_fingerprints w')")
    case True
    then obtain r where "r \<in> set (w_history w')" "ch_next (w_log w) \<le> cl_id r" "cl_fingerprint_id r = fid" "cl_query r = xq fp"
      using assms(3) f(2) unfolding new_logged_def by blast
    then show ?thesis using grow(1) by blast
  next
    case False
    then obtain r where r: "r \<in> set (w_history w'')" "ch_next (w_log w') \<le> cl_id r" "cl_fingerprint_id r = fid" "cl_query r = xq fp"
      using assms(4) f(1) unfolding new_logged_def by blast
    then have "ch_next (w_log w) \<le> cl_id r" using grow(2) by simp
    with r show ?thesis by blast
  qed
  then show ?thesis by (auto simp: new_logged_def)
qed

lemma steps_extend: "retention_steps xq date_of w w' \<Longrightarrow> log_extends w w' \<and> new_logged xq w w'"
proof (induction rule: rtranclp_induct)
  case (step w' w'')
  then show ?case using step_extends [OF step(2)] log_extends_trans new_logged_trans by blast
qed (simp add: log_extends_refl)


subsection \<open>A log that ages out\<close>

text \<open>One fingerprint stored in January 2026, with nothing after it until the partition is dropped in May.\<close>

definition months_calendar :: "int \<Rightarrow> py_date" where
  "months_calendar t = Date 2026 (max 1 (min 12 t)) 1"

lemma months_calendar_ok: "calendar months_calendar"
  by (auto simp: calendar_def months_calendar_def less_eq_py_date_def valid_date_def)

definition january :: "changelog_row list \<Rightarrow> partition" where
  "january rs = \<lparr>pt_name = fpindex_changelog_partition_name (Date 2026 1 1), pt_from = Date 2026 1 1,
     pt_to = Date 2026 2 1, pt_rows = rs\<rparr>"

definition first_entry :: changelog_row where
  "first_entry = \<lparr>cl_id = 1, cl_fingerprint_id = 7, cl_query = [- 1], cl_created = 1\<rparr>"

definition stored_world :: world where
  "stored_world = \<lparr>w_now = 1, w_log = \<lparr>ch_parts = [january [first_entry]], ch_meta = None, ch_next = 2\<rparr>,
     w_fingerprints = [(7, [- 1])], w_history = [first_entry], w_job = Idle\<rparr>"

definition aged_world :: world where
  "aged_world = stored_world\<lparr>w_now := 5,
     w_log := \<lparr>ch_parts = [], ch_meta = Some \<lparr>fm_last_deleted_id = 1, fm_last_deleted_created = 1\<rparr>, ch_next = 2\<rparr>\<rparr>"

lemma january_name: "parse_partition_name (pt_name (january rs)) = Some (Inr (Date 2026 1 1))"
  by (simp add: january_def partition_name_parses first_of_month_def valid_date_def)

lemma stored_reachable: "retention_steps (\<lambda>fp. fp) months_calendar (new_world 1 []) stored_world"
proof -
  let ?w = "(new_world 1 [])\<lparr>w_log := \<lparr>ch_parts = [january []], ch_meta = None, ch_next = 1\<rparr>\<rparr>"
  have "retention_step (\<lambda>fp. fp) months_calendar (new_world 1 []) ?w"
    using retention_step.Create [of "Date 2026 1 1" "Date 2026 2 1" "\<lambda>fp. fp" months_calendar "new_world 1 []"]
    by (simp add: first_of_month_def valid_date_def fpindex_changelog_add_months_def new_world_def create_partition_def january_def)
  moreover have "retention_step (\<lambda>fp. fp) months_calendar ?w stored_world"
    using retention_step.Store [of 7 ?w "\<lambda>fp. fp" months_calendar "[- 1]" "w_log stored_world"]
    by (simp add: changelog_insert_def add_row_def covers_def january_def new_world_def stored_world_def months_calendar_def
        less_eq_py_date_def less_py_date_def first_entry_def)
  ultimately show ?thesis by simp
qed

lemma aged_reachable: "retention_steps (\<lambda>fp. fp) months_calendar stored_world aged_world"
proof -
  let ?n = "pt_name (january [first_entry])"
  let ?t = "stored_world\<lparr>w_now := 5\<rparr>"
  let ?s = "?t\<lparr>w_job := Dropping (Date 2026 3 1) [(?n, Date 2026 1 1)]\<rparr>"
  let ?r = "?t\<lparr>w_log := (w_log ?t)\<lparr>ch_meta := ch_meta (w_log aged_world)\<rparr>, w_job := Recorded (Date 2026 3 1) ?n []\<rparr>"
  let ?d = "aged_world\<lparr>w_job := Dropping (Date 2026 3 1) []\<rparr>"
  note step = converse_rtranclp_into_rtranclp [of "retention_step (\<lambda>fp. fp) months_calendar"]
  have "retention_step (\<lambda>fp. fp) months_calendar stored_world ?t" by (rule retention_step.Tick) (simp add: stored_world_def)
  moreover have "retention_step (\<lambda>fp. fp) months_calendar ?t ?s"
    using retention_step.Start [of ?t months_calendar "Date 2026 3 1" "[(?n, Date 2026 1 1)]"]
    by (simp add: stored_world_def retention_cutoff_def fpindex_changelog_month_def fpindex_changelog_add_months_def
        months_calendar_def RETENTION_MONTHS_def existing_partitions_def january_name)
  moreover have "retention_step (\<lambda>fp. fp) months_calendar ?s ?r"
    using retention_step.Record [of ?s "Date 2026 3 1" ?n "Date 2026 1 1" "[]"]
    by (simp add: less_eq_py_date_def record_last_deleted_def stored_world_def aged_world_def january_def first_entry_def)
  moreover have "retention_step (\<lambda>fp. fp) months_calendar ?r ?d"
    using retention_step.Drop [of ?r "Date 2026 3 1" ?n "[]"]
    by (simp add: drop_table_def stored_world_def aged_world_def january_def)
  moreover have "retention_step (\<lambda>fp. fp) months_calendar ?d aged_world"
    using retention_step.Stop [of _ _ ?d] by (simp add: aged_world_def stored_world_def)
  ultimately show ?thesis by (meson converse_rtranclp_into_rtranclp rtranclp.rtrancl_refl)
qed

subsection \<open>A run of the job is a run of steps\<close>

lemma create_steps:
  assumes "create_partitions_from fails current offsets (w_log w) = Inr c"
  shows "retention_steps xq date_of w (w\<lparr>w_log := c\<rparr>)"
  using assms
proof (induction offsets arbitrary: w)
  case (Cons offset offsets)
  then obtain month end' where m: "fpindex_changelog_add_months current (int offset) = Inr month"
    "fpindex_changelog_add_months month 1 = Inr end'" by (auto split: sum.splits)
  show ?case
  proof (cases "fails month")
    case True
    then show ?thesis using Cons m by simp
  next
    case False
    let ?w = "w\<lparr>w_log := create_partition month end' (w_log w)\<rparr>"
    have "first_of_month month" using add_months_valid [OF m(1)] by (simp add: first_of_month_def)
    then have "retention_step xq date_of w ?w" using m(2) by (rule retention_step.Create)
    moreover have "retention_steps xq date_of ?w (?w\<lparr>w_log := c\<rparr>)"
      using Cons.IH [of ?w] Cons.prems m False by simp
    ultimately show ?thesis by (simp add: converse_rtranclp_into_rtranclp)
  qed
next
  case Nil
  then have "w\<lparr>w_log := c\<rparr> = w" by auto
  then show ?case by simp
qed

lemma drop_steps:
  assumes "w_job w = Dropping cutoff todo"
  shows "retention_steps xq date_of w
    (w\<lparr>w_log := drop_each record_fails drop_fails cutoff todo (w_log w), w_job := Dropping cutoff []\<rparr>)"
  using assms
proof (induction todo arbitrary: w)
  case (Cons nm todo)
  obtain name month where nm: "nm = (name, month)" by (cases nm)
  show ?case
  proof (cases "cutoff \<le> month \<or> record_fails name")
    case True
    let ?w = "w\<lparr>w_job := Dropping cutoff todo\<rparr>"
    have "retention_step xq date_of w ?w" by (rule retention_step.Skip) (use Cons.prems nm in simp)
    then show ?thesis using Cons.IH [of ?w] True nm by (simp add: converse_rtranclp_into_rtranclp)
  next
    case False
    let ?c = "snd (record_last_deleted name (w_log w))"
    let ?w = "w\<lparr>w_log := ?c, w_job := Recorded cutoff name todo\<rparr>"
    let ?v = "?w\<lparr>w_log := if drop_fails name then ?c else drop_table name ?c, w_job := Dropping cutoff todo\<rparr>"
    have "retention_step xq date_of w ?w" by (rule retention_step.Record) (use Cons.prems nm False in auto)
    moreover have "retention_step xq date_of ?w ?v"
    proof (cases "drop_fails name")
      case True
      then show ?thesis using retention_step.Drop_Failed [of ?w cutoff name todo xq date_of] by simp
    next
      case False
      then show ?thesis using retention_step.Drop [of ?w cutoff name todo xq date_of] by simp
    qed
    moreover have "retention_steps xq date_of ?v
        (?v\<lparr>w_log := drop_each record_fails drop_fails cutoff todo (w_log ?v), w_job := Dropping cutoff []\<rparr>)"
      by (rule Cons.IH) simp
    ultimately show ?thesis using False nm
      by (simp add: Let_def converse_rtranclp_into_rtranclp)
  qed
next
  case Nil
  then have "w\<lparr>w_job := Dropping cutoff []\<rparr> = w" by auto
  then show ?case by simp
qed


lemma drop_partitions_steps:
  assumes "w_job w = Idle" "drop_partitions record_fails drop_fails (date_of (w_now w)) (w_log w) = Inr c"
  shows "retention_steps xq date_of w (w\<lparr>w_log := c\<rparr>)"
proof -
  obtain cutoff parts where p: "retention_cutoff (date_of (w_now w)) = Inr cutoff" "existing_partitions (w_log w) = Inr parts"
    and c: "c = drop_each record_fails drop_fails cutoff (sort_key snd parts) (w_log w)"
    using assms(2) by (auto simp: drop_partitions_def split: sum.splits)
  let ?w = "w\<lparr>w_job := Dropping cutoff (sort_key snd parts)\<rparr>"
  let ?v = "?w\<lparr>w_log := c, w_job := Dropping cutoff []\<rparr>"
  have "retention_step xq date_of w ?w" by (rule retention_step.Start) (use assms(1) p in simp_all)
  moreover have "retention_steps xq date_of ?w ?v" using drop_steps [of ?w] c by simp
  moreover have "retention_step xq date_of ?v (?v\<lparr>w_job := Idle\<rparr>)" by (rule retention_step.Stop)
  moreover have "?v\<lparr>w_job := Idle\<rparr> = w\<lparr>w_log := c\<rparr>" using assms(1) by simp
  ultimately show ?thesis by (metis converse_rtranclp_into_rtranclp rtranclp.rtrancl_into_rtrancl)
qed

text \<open>C14: A whole run of the maintenance job, whatever statements of it fail, is a run of the steps the invariant
  is proved of; so what holds of the interleaved system holds of the job as it is written.\<close>

theorem maintenance_job_refines_steps:
  assumes "w_job w = Idle"
    and "run_manage_fpindex_changelog create_fails record_fails drop_fails (date_of (w_now w)) (w_log w) = Inr (n, c)"
  shows "retention_steps xq date_of w (w\<lparr>w_log := c\<rparr>)"
proof -
  obtain c1 where c1: "create_partitions create_fails (date_of (w_now w)) (w_log w) = Inr c1"
    and c: "drop_partitions record_fails drop_fails (date_of (w_now w)) c1 = Inr c"
    using assms(2) by (auto simp: run_manage_fpindex_changelog_def split: sum.splits)
  have "retention_steps xq date_of w (w\<lparr>w_log := c1\<rparr>)"
    using c1 unfolding create_partitions_def by (rule create_steps)
  moreover have "retention_steps xq date_of (w\<lparr>w_log := c1\<rparr>) (w\<lparr>w_log := c1\<rparr>\<lparr>w_log := c\<rparr>)"
    using assms(1) c by (intro drop_partitions_steps) simp_all
  ultimately show ?thesis by simp
qed

theorem maintenance_job_refines_steps_witness:
  "retention_steps (\<lambda>fp. fp) months_calendar (new_world 1 [])
     ((new_world 1 [])\<lparr>w_log := \<lparr>ch_parts = [], ch_meta = None, ch_next = 1\<rparr>\<rparr>)"
proof (rule maintenance_job_refines_steps)
  show "w_job (new_world 1 []) = Idle" by (simp add: new_world_def)
  have upt: "upt 0 13 = [0, 1, 2, 3, 4, 5, 6, 7, 8, 9, 10, 11, 12]"
    by (simp add: upt_rec)
  show "run_manage_fpindex_changelog (\<lambda>_. True) (\<lambda>_. False) (\<lambda>_. False) (months_calendar (w_now (new_world 1 [])))
      (w_log (new_world 1 [])) = Inr (0, \<lparr>ch_parts = [], ch_meta = None, ch_next = 1\<rparr>)"
    by (simp add: run_manage_fpindex_changelog_def create_partitions_def drop_partitions_def report_headroom_def existing_partitions_def
        new_world_def months_calendar_def retention_cutoff_def fpindex_changelog_month_def fpindex_changelog_add_months_def
        RETENTION_MONTHS_def consecutive_months.simps FPINDEX_CHANGELOG_CREATE_AHEAD_MONTHS_def upt del: upt_Suc)
qed

text \<open>C13: Retention never loses an entry silently: in every state that interleaved insertions, clock ticks,
  partition creations, job runs and their failures can reach, each entry ever logged is still in the log, or it is
  at or below the recorded watermark.\<close>

theorem retention_never_loses_silently:
  assumes "calendar date_of" "distinct (map fst fps)" "retention_steps xq date_of (new_world now fps) w"
    and "r \<in> set (w_history w)"
  shows "r \<in> set (all_rows (w_log w)) \<or> (\<exists>m. ch_meta (w_log w) = Some m \<and> cl_id r \<le> fm_last_deleted_id m)"
proof -
  have "world_ok xq date_of w" using steps_ok [OF assms(3,1) new_world_ok [OF assms(2)]] .
  then have "r \<in> set (all_rows (w_log w)) \<or> gone (w_log w) r" using assms(4) by (simp add: world_ok_def log_ok_def)
  then show ?thesis by (auto simp: gone_def split: option.splits)
qed


theorem retention_never_loses_silently_witness:
  "first_entry \<in> set (all_rows (w_log aged_world)) \<or>
   (\<exists>m. ch_meta (w_log aged_world) = Some m \<and> cl_id first_entry \<le> fm_last_deleted_id m)"
proof (rule retention_never_loses_silently [OF months_calendar_ok])
  show "distinct (map fst ([] :: (int \<times> int list) list))" by simp
  show "retention_steps (\<lambda>fp. fp) months_calendar (new_world 1 []) aged_world"
    using stored_reachable aged_reachable by (rule rtranclp_trans)
  show "first_entry \<in> set (w_history aged_world)" by (simp add: aged_world_def stored_world_def)
qed

subsection \<open>A year of runway\<close>

lemma partition_name_inj:
  assumes "part_ok p" "first_of_month month" "pt_name p = fpindex_changelog_partition_name month"
  shows "pt_from p = month"
  using assms partition_name_parses [of "pt_from p"] partition_name_parses [of month] by (simp add: part_ok_def)

definition has_partition :: "changelog \<Rightarrow> py_date \<Rightarrow> bool" where
  "has_partition c month \<longleftrightarrow> (\<exists>p \<in> set (ch_parts c). pt_from p = month)"

lemma year_bounds: "12 \<le> i \<Longrightarrow> i < 120000 \<Longrightarrow> 1 \<le> i div 12 \<and> i div 12 \<le> (9999::int)"
  by presburger

lemma add_months_0: "first_of_month d \<Longrightarrow> fpindex_changelog_add_months d 0 = Inr d"
proof -
  assume d: "first_of_month d"
  then have "(d_year d * 12 + (d_month d - 1)) div 12 = d_year d" "(d_year d * 12 + (d_month d - 1)) mod 12 = d_month d - 1"
    using month_index_parts [of d] unfolding month_index_def by (simp_all add: first_of_month_def)
  then have "fpindex_changelog_add_months d 0 = Inr (Date (d_year d) (d_month d) 1)"
    using d by (simp add: fpindex_changelog_add_months_def first_of_month_def valid_date_def Let_def)
  moreover have "Date (d_year d) (d_month d) 1 = d" using d py_date.collapse [of d] by (simp add: first_of_month_def)
  ultimately show ?thesis by simp
qed

lemma add_months_ok:
  assumes "valid_date d" "d_year d \<le> 9997" "0 \<le> k" "k \<le> 13"
  shows "\<exists>m. fpindex_changelog_add_months d k = Inr m \<and> first_of_month m \<and> month_index m = month_index d + k"
proof -
  let ?i = "d_year d * 12 + (d_month d - 1) + k"
  have "1 \<le> ?i div 12 \<and> ?i div 12 \<le> 9999" using assms by (intro year_bounds) (simp_all add: valid_date_def)
  then have "fpindex_changelog_add_months d k = Inr (Date (?i div 12) (?i mod 12 + 1) 1)"
    by (simp add: fpindex_changelog_add_months_def Let_def)
  then obtain m where m: "fpindex_changelog_add_months d k = Inr m" by blast
  then have "first_of_month m" "month_index m = month_index d + k"
    using add_months_valid [OF m] add_months_index [OF m] by (simp_all add: first_of_month_def month_index_def)
  with m show ?thesis by blast
qed

lemma create_from_covers:
  assumes "parts_ok (ch_parts c)" "valid_date current" "d_year current \<le> 9997" "\<forall>k \<in> set offsets. k \<le> 12"
  shows "\<exists>c'. create_partitions_from (\<lambda>_. False) current offsets c = Inr c' \<and> parts_ok (ch_parts c') \<and>
    (\<forall>m. has_partition c m \<longrightarrow> has_partition c' m) \<and>
    (\<forall>k \<in> set offsets. \<exists>m. fpindex_changelog_add_months current (int k) = Inr m \<and> has_partition c' m)"
  using assms
proof (induction offsets arbitrary: c)
  case (Cons k ks)
  obtain m where m: "fpindex_changelog_add_months current (int k) = Inr m" "first_of_month m"
    using add_months_ok [OF Cons.prems(2,3), of "int k"] Cons.prems(4) by auto
  obtain e where e: "fpindex_changelog_add_months m 1 = Inr e"
  proof -
    have "fpindex_changelog_add_months m 1 = fpindex_changelog_add_months current (int k + 1)"
      unfolding fpindex_changelog_add_months_def [of m] fpindex_changelog_add_months_def [of current "int k + 1"]
      using add_months_index [OF m(1)] by (simp add: add.assoc)
    then show ?thesis using add_months_ok [OF Cons.prems(2,3), of "int k + 1"] Cons.prems(4) that by auto
  qed
  let ?c = "create_partition m e c"
  have ok: "parts_ok (ch_parts ?c)" using create_partition_ok [OF Cons.prems(1) m(2) e] by simp
  have new: "has_partition ?c m"
  proof (cases "\<exists>p \<in> set (ch_parts c). pt_name p = fpindex_changelog_partition_name m")
    case True
    then show ?thesis using partition_name_inj [OF _ m(2)] Cons.prems(1)
      by (auto simp: has_partition_def create_partition_def parts_ok_def)
  qed (simp add: has_partition_def create_partition_def)
  have old: "has_partition c x \<Longrightarrow> has_partition ?c x" for x by (auto simp: has_partition_def create_partition_def)
  obtain c' where c': "create_partitions_from (\<lambda>_. False) current ks ?c = Inr c'" "parts_ok (ch_parts c')"
    "\<forall>m. has_partition ?c m \<longrightarrow> has_partition c' m"
    "\<forall>k \<in> set ks. \<exists>m. fpindex_changelog_add_months current (int k) = Inr m \<and> has_partition c' m"
    using Cons.IH [OF ok Cons.prems(2,3)] Cons.prems(4) by auto
  with m e new old show ?case by auto
qed simp

lemma drop_each_keeps:
  assumes "\<forall>(name, month) \<in> set todo. parse_partition_name name = Some (Inr month)" "parts_ok (ch_parts c)"
  shows "parts_ok (ch_parts (drop_each rf df cutoff todo c)) \<and>
    (\<forall>m. cutoff \<le> m \<longrightarrow> has_partition c m \<longrightarrow> has_partition (drop_each rf df cutoff todo c) m)"
  using assms
proof (induction todo arbitrary: c)
  case (Cons nm todo)
  obtain name month where nm: "nm = (name, month)" by (cases nm)
  show ?case
  proof (cases "cutoff \<le> month \<or> rf name")
    case True
    then show ?thesis using Cons nm by simp
  next
    case False
    let ?c = "snd (record_last_deleted name c)"
    let ?d = "if df name then ?c else drop_table name ?c"
    have ok: "parts_ok (ch_parts ?d)" using Cons.prems(2) drop_table_parts_ok [of ?c name] by simp
    have "has_partition ?d m" if "cutoff \<le> m" "has_partition c m" for m
    proof -
      obtain p where p: "p \<in> set (ch_parts c)" "pt_from p = m" using \<open>has_partition c m\<close> by (auto simp: has_partition_def)
      then have "parse_partition_name (pt_name p) = Some (Inr m)"
        using Cons.prems(2) partition_name_parses [of m] by (auto simp: parts_ok_def part_ok_def)
      then have "pt_name p \<noteq> name" using Cons.prems(1) nm False \<open>cutoff \<le> m\<close> by auto
      with p show ?thesis by (auto simp: has_partition_def drop_table_def)
    qed
    moreover have "\<forall>(name, month) \<in> set todo. parse_partition_name name = Some (Inr month)" using Cons.prems(1) by simp
    ultimately show ?thesis using Cons.IH [OF _ ok] False nm by (auto simp: Let_def)
  qed
qed simp


lemma parse_names_ok:
  assumes "\<forall>p \<in> set ps. part_ok p"
  shows "parse_names (map pt_name ps) = Inr (map (\<lambda>p. (pt_name p, pt_from p)) ps)"
  using assms
proof (induction ps)
  case (Cons p ps)
  then have "parse_partition_name (pt_name p) = Some (Inr (pt_from p))"
    using partition_name_parses [of "pt_from p"] by (simp add: part_ok_def)
  with Cons show ?case by simp
qed simp

lemma consecutive_months_at_least:
  assumes "\<forall>m \<in> set months. \<exists>e. fpindex_changelog_add_months m 1 = Inr e"
    and "\<forall>i < k. \<exists>m \<in> set months. fpindex_changelog_add_months start (int i) = Inr m" "first_of_month start"
  shows "\<exists>n. consecutive_months months start = Inr n \<and> k \<le> n"
  using assms
proof (induction months start arbitrary: k rule: consecutive_months.induct)
  case (1 months start)
  show ?case
  proof (cases "start \<in> set months")
    case True
    then obtain e where e: "fpindex_changelog_add_months start 1 = Inr e" using 1(2) by blast
    have shift: "fpindex_changelog_add_months e (int i) = fpindex_changelog_add_months start (int (Suc i))" for i
      unfolding fpindex_changelog_add_months_def [of e] fpindex_changelog_add_months_def [of start "int (Suc i)"]
      using add_months_index [OF e] by (simp add: algebra_simps)
    have "\<exists>m \<in> set months. fpindex_changelog_add_months e (int i) = Inr m" if "i < k - 1" for i
      unfolding shift using 1(3) that by (metis Suc_eq_plus1 less_diff_conv)
    moreover have "first_of_month e" using add_months_valid [OF e] by (simp add: first_of_month_def)
    ultimately obtain n where "consecutive_months months e = Inr n" "k - 1 \<le> n" using 1(1) [OF True e 1(2)] by blast
    then show ?thesis using consecutive_months.simps [of months start] by (simp add: True e)
  next
    case False
    have "fpindex_changelog_add_months start 0 = Inr start" using 1(4) by (rule add_months_0)
    moreover have "\<not> 0 < k"
    proof
      assume "0 < k"
      then obtain m where "m \<in> set months" "fpindex_changelog_add_months start 0 = Inr m" using 1(3) by fastforce
      with calculation False show False by simp
    qed
    then have "k = 0" by simp
    then show ?thesis using False consecutive_months.simps [of months start] by simp
  qed
qed


lemma has_partition_covers:
  assumes "parts_ok (ch_parts c)" "has_partition c m" "valid_date d" "fpindex_changelog_month d = m"
  shows "list_ex (covers d) (ch_parts c)"
  using assms covers_same_month by (fastforce simp: has_partition_def parts_ok_def list_ex_iff)

lemma existing_partitions_ok:
  "parts_ok (ch_parts c) \<Longrightarrow> existing_partitions c = Inr (map (\<lambda>p. (pt_name p, pt_from p)) (ch_parts c))"
  unfolding existing_partitions_def parts_ok_def by (intro parse_names_ok) simp

lemma drop_partitions_keeps:
  assumes "parts_ok (ch_parts c)" "valid_date today" "2 \<le> d_year today" "d_year today \<le> 9997"
  shows "\<exists>c'. drop_partitions record_fails drop_fails today c = Inr c' \<and> parts_ok (ch_parts c') \<and>
    (\<forall>m. first_of_month m \<longrightarrow> month_index today \<le> month_index m \<longrightarrow> has_partition c m \<longrightarrow> has_partition c' m)"
proof -
  let ?now = "fpindex_changelog_month today"
  have "1 \<le> (d_year today * 12 + (d_month today - 1) - RETENTION_MONTHS) div 12 \<and>
      (d_year today * 12 + (d_month today - 1) - RETENTION_MONTHS) div 12 \<le> 9999"
    by (rule year_bounds) (use assms(2-4) in \<open>simp_all add: RETENTION_MONTHS_def valid_date_def\<close>)
  then obtain cutoff where cutoff: "retention_cutoff today = Inr cutoff"
    by (simp add: retention_cutoff_def fpindex_changelog_add_months_def Let_def)
  note past = retention_cutoff_past [OF assms(2) cutoff]
  let ?parts = "map (\<lambda>p. (pt_name p, pt_from p)) (ch_parts c)"
  let ?c = "drop_each record_fails drop_fails cutoff (sort_key snd ?parts) c"
  have "\<forall>(name, month) \<in> set (sort_key snd ?parts). parse_partition_name name = Some (Inr month)"
    using parse_names_sound [OF existing_partitions_ok [OF assms(1), unfolded existing_partitions_def]] by auto
  note kept = drop_each_keeps [OF this assms(1), of record_fails drop_fails cutoff]
  have "cutoff \<le> m" if "first_of_month m" "month_index today \<le> month_index m" for m
    using that month_index_le [of cutoff today] past assms(2)
    by (intro first_of_month_le [OF past(1)]) (simp_all add: first_of_month_def)
  with kept have "parts_ok (ch_parts ?c) \<and>
    (\<forall>m. first_of_month m \<longrightarrow> month_index today \<le> month_index m \<longrightarrow> has_partition c m \<longrightarrow> has_partition ?c m)" by blast
  moreover have "drop_partitions record_fails drop_fails today c = Inr ?c"
    using cutoff existing_partitions_ok [OF assms(1)] by (simp add: drop_partitions_def)
  ultimately show ?thesis by blast
qed

lemma report_headroom_at_least:
  assumes "parts_ok (ch_parts c)" "first_of_month (fpindex_changelog_month today)"
    and "\<And>i. i < k \<Longrightarrow> \<exists>m. fpindex_changelog_add_months (fpindex_changelog_month today) (int i) = Inr m \<and> has_partition c m"
  shows "\<exists>n. report_headroom today c = Inr n \<and> k \<le> n"
proof -
  have "\<exists>n. consecutive_months (map pt_from (ch_parts c)) (fpindex_changelog_month today) = Inr n \<and> k \<le> n"
  proof (rule consecutive_months_at_least [OF _ _ assms(2)])
    show "\<forall>m \<in> set (map pt_from (ch_parts c)). \<exists>e. fpindex_changelog_add_months m 1 = Inr e"
      using assms(1) by (auto simp: parts_ok_def part_ok_def)
    show "\<forall>i<k. \<exists>m \<in> set (map pt_from (ch_parts c)). fpindex_changelog_add_months (fpindex_changelog_month today) (int i) = Inr m"
      using assms(3) by (fastforce simp: has_partition_def)
  qed
  then show ?thesis using existing_partitions_ok [OF assms(1)] by (simp add: report_headroom_def comp_def)
qed

text \<open>C15: After a run of the maintenance job in which every partition could be created, the reported headroom is
  at least the current month and the twelve after it, and the trigger can log a fingerprint on any day of these
  months (it has a partition to put the entry in), whatever the retention half of the job did.\<close>

theorem maintenance_gives_runway:
  assumes "parts_ok (ch_parts c)" "valid_date today" "2 \<le> d_year today" "d_year today \<le> 9997"
  shows "\<exists>n c'. run_manage_fpindex_changelog (\<lambda>_. False) record_fails drop_fails today c = Inr (n, c') \<and> 13 \<le> n \<and>
    (\<forall>t. valid_date (date_of t) \<longrightarrow> month_index today \<le> month_index (date_of t) \<longrightarrow>
      month_index (date_of t) \<le> month_index today + 12 \<longrightarrow> (\<exists>c''. changelog_insert xq date_of t fid fp c' = Inr c''))"
proof -
  let ?now = "fpindex_changelog_month today"
  have v: "first_of_month ?now" "valid_date ?now" "d_year ?now \<le> 9997"
    using assms(2,4) by (simp_all add: first_of_month_def valid_date_def)
  obtain c1 where c1: "create_partitions (\<lambda>_. False) today c = Inr c1" "parts_ok (ch_parts c1)"
    "\<And>k. k < 13 \<Longrightarrow> \<exists>m. fpindex_changelog_add_months ?now (int k) = Inr m \<and> has_partition c1 m"
    using create_from_covers [OF assms(1) v(2,3), of "[0..<FPINDEX_CHANGELOG_CREATE_AHEAD_MONTHS + 1]"]
    unfolding create_partitions_def by (auto simp: FPINDEX_CHANGELOG_CREATE_AHEAD_MONTHS_def)
  obtain c' where drop: "drop_partitions record_fails drop_fails today c1 = Inr c'" and c': "parts_ok (ch_parts c')"
    "\<And>m. first_of_month m \<Longrightarrow> month_index today \<le> month_index m \<Longrightarrow> has_partition c1 m \<Longrightarrow> has_partition c' m"
    using drop_partitions_keeps [OF c1(2) assms(2-4), of record_fails drop_fails] by blast
  have ahead: "\<exists>m. fpindex_changelog_add_months ?now (int k) = Inr m \<and> has_partition c' m \<and> first_of_month m \<and>
      month_index m = month_index today + int k" if k: "k < 13" for k
  proof -
    obtain m where m: "fpindex_changelog_add_months ?now (int k) = Inr m" "has_partition c1 m" using c1(3) [OF k] by blast
    then have "first_of_month m" "month_index m = month_index today + int k"
      using add_months_ok [OF v(2,3), of "int k"] k by auto
    with m c'(2) show ?thesis by simp
  qed
  obtain n where n: "report_headroom today c' = Inr n" "13 \<le> n"
    using report_headroom_at_least [OF c'(1) v(1), of 13] ahead by blast
  have "\<exists>c''. changelog_insert xq date_of t fid fp c' = Inr c''"
    if d: "valid_date (date_of t)" "month_index today \<le> month_index (date_of t)" "month_index (date_of t) \<le> month_index today + 12" for t
  proof -
    have "nat (month_index (date_of t) - month_index today) < 13" using d by simp
    then obtain m where m: "has_partition c' m" "first_of_month m"
      "month_index m = month_index today + int (nat (month_index (date_of t) - month_index today))"
      using ahead by blast
    then have "fpindex_changelog_month (date_of t) = m"
      using d by (intro first_of_month_eq) (simp_all add: first_of_month_def valid_changelog_month)
    with c'(1) m(1) d(1) have "list_ex (covers (date_of t)) (ch_parts c')" by (intro has_partition_covers) simp_all
    then show ?thesis by (simp add: changelog_insert_def)
  qed
  then show ?thesis using c1(1) drop n by (simp add: run_manage_fpindex_changelog_def)
qed

theorem maintenance_gives_runway_witness:
  "\<exists>n c'. run_manage_fpindex_changelog (\<lambda>_. False) (\<lambda>_. False) (\<lambda>_. False) (Date 2026 5 17) \<lparr>ch_parts = [], ch_meta = None, ch_next = 1\<rparr>
      = Inr (n, c') \<and> 13 \<le> n \<and>
    (\<forall>t. valid_date (months_calendar t) \<longrightarrow> month_index (Date 2026 5 17) \<le> month_index (months_calendar t) \<longrightarrow>
      month_index (months_calendar t) \<le> month_index (Date 2026 5 17) + 12 \<longrightarrow>
      (\<exists>c''. changelog_insert (\<lambda>fp. fp) months_calendar t 7 [1] c' = Inr c''))"
  by (rule maintenance_gives_runway) (simp_all add: parts_ok_def valid_date_def)


subsection \<open>The log as a client may see it\<close>

text \<open>
  What a reader of the log relies on: entries are totally ordered by id in the order they were made, the
  rows still there are some of them, and those no longer there are known to be lost.
\<close>

locale retained_log =
  fixes ok :: "'w \<Rightarrow> bool"
    and kept :: "'w \<Rightarrow> changelog_row list"
    and history :: "'w \<Rightarrow> changelog_row list"
    and lost :: "'w \<Rightarrow> changelog_row \<Rightarrow> bool"
  assumes history_sorted: "ok w \<Longrightarrow> sorted_wrt (<) (map cl_id (history w))"
    and kept_distinct: "ok w \<Longrightarrow> distinct (kept w)"
    and kept_history: "ok w \<Longrightarrow> set (kept w) \<subseteq> set (history w)"
    and kept_or_lost: "ok w \<Longrightarrow> r \<in> set (history w) \<Longrightarrow> r \<in> set (kept w) \<or> lost w r"
begin

lemma history_inj: "ok w \<Longrightarrow> inj_on cl_id (set (history w)) \<and> distinct (history w)"
  using history_sorted [of w] by (metis distinct_map strict_sorted_iff)

text \<open>Reading in id order from a position at which nothing is lost gives exactly the history from there.\<close>

lemma read_is_history:
  assumes ok: "ok w" and pos: "\<And>r. r \<in> set (history w) \<Longrightarrow> lost w r \<Longrightarrow> cl_id r \<le> after"
  shows "filter (\<lambda>r. after < cl_id r) (sort_key cl_id (kept w)) = filter (\<lambda>r. after < cl_id r) (history w)"
proof -
  have "set (filter (\<lambda>r. after < cl_id r) (kept w)) = set (filter (\<lambda>r. after < cl_id r) (history w))"
    using kept_history [OF ok] kept_or_lost [OF ok] pos by (auto simp: not_le [symmetric])
  then have "mset (filter (\<lambda>r. after < cl_id r) (kept w)) = mset (filter (\<lambda>r. after < cl_id r) (history w))"
    using kept_distinct [OF ok] history_inj [OF ok] by (subst set_eq_iff_mset_eq_distinct [symmetric]) simp_all
  moreover have "inj_on cl_id (set (filter (\<lambda>r. after < cl_id r) (kept w)))"
    using history_inj [OF ok] kept_history [OF ok] by (auto intro: inj_on_subset)
  moreover have "sorted (map cl_id (filter (\<lambda>r. after < cl_id r) (history w)))"
    using history_sorted [OF ok] by (simp add: sorted_filter strict_sorted_iff)
  ultimately have "sort_key cl_id (filter (\<lambda>r. after < cl_id r) (kept w)) = filter (\<lambda>r. after < cl_id r) (history w)"
    by (rule sort_key_inj_key_eq)
  then show ?thesis by (simp add: filter_sort)
qed

end

interpretation world: retained_log "world_ok xq date_of" "\<lambda>w. all_rows (w_log w)" w_history "\<lambda>w. gone (w_log w)" for xq date_of
  by unfold_locales (auto simp: world_ok_def log_ok_def history_ok_def)

end
