(* ===== verification/Fp_Codec.thy ===== *)
theory Fp_Codec
  imports Py_Strings "HOL-Library.Word"
begin

unbundle bit_operations_syntax

text \<open>
  Fingerprints as numbers: \<^verbatim>\<open>acoustid/fingerprint.py\<close> and the Cython module
  \<^verbatim>\<open>libs/acoustid_ext/.../fingerprint.pyx\<close>. C integers are words of their width; a Python integer that does
  not fit the C type it is converted to raises \<open>OverflowError\<close>. Chromaprint, zstd and \<open>uuid5\<close> are
  parameters, and so is the memory an array has before it is written.
\<close>

subsection \<open>Signed and unsigned hashes\<close>

definition to_unsigned :: "int list \<Rightarrow> int list" where
  "to_unsigned hashes = map (\<lambda>h. h AND 0xFFFFFFFF) hashes"

definition to_signed :: "int list \<Rightarrow> int list" where
  "to_signed hashes = map (\<lambda>h. if h AND 0x80000000 \<noteq> 0 then h - 0x100000000 else h) hashes"

definition NUM_QUERY_BITS :: nat where "NUM_QUERY_BITS = 28"
definition QUERY_BIT_MASK :: int where
  "QUERY_BIT_MASK = push_bit (32 - NUM_QUERY_BITS) (push_bit NUM_QUERY_BITS 1 - 1)"
definition SILENCE_HASH :: int where "SILENCE_HASH = 627964279"

text \<open>
  \<open>array.array("i").append\<close> takes a C \<open>int\<close>. The loop visits the hashes from \<open>start_idx\<close>; \<open>query\<close> is in
  order of insertion, and \<open>query_hashes\<close> has the same members.
\<close>

definition fits_int :: "int \<Rightarrow> bool" where "fits_int i \<longleftrightarrow> - 0x80000000 \<le> i \<and> i < 0x80000000"
definition fits_uint :: "int \<Rightarrow> bool" where "fits_uint i \<longleftrightarrow> 0 \<le> i \<and> i < 0x100000000"

fun extract_query_loop :: "int \<Rightarrow> int list \<Rightarrow> int list \<Rightarrow> py_exc + int list" where
  "extract_query_loop limit query [] = Inr query"
| "extract_query_loop limit query (h # hashes) =
     (if int (length query) \<ge> limit then Inr query
      else let hash_val = h AND 0xFFFFFFFF
           in if hash_val = SILENCE_HASH then extract_query_loop limit query hashes
              else let hash_val = hash_val AND QUERY_BIT_MASK
                   in if hash_val \<in> set query then extract_query_loop limit query hashes
                      else if fits_int hash_val then extract_query_loop limit (query @ [hash_val]) hashes
                      else Inl OverflowError)"

definition clean_size :: "int list \<Rightarrow> int" where
  "clean_size hashes = int (length (filter (\<lambda>h. h AND 0xFFFFFFFF \<noteq> SILENCE_HASH) hashes))"

definition extract_query :: "int list \<Rightarrow> int \<Rightarrow> int \<Rightarrow> py_exc + int list" where
  "extract_query hashes limit start =
     (if limit \<le> 0 then Inr []
      else if clean_size hashes \<le> 0 then Inr []
      else extract_query_loop limit [] (drop (nat (max 0 (min (clean_size hashes - limit) start))) hashes))"

subsection \<open>The binary format\<close>

datatype typecode = Type_i | Type_I | Type_Other nat

text \<open>What Python code may pass for the hashes; the items of an array are the machine words it holds.\<close>

datatype hashes_arg = Hash_List "int list" | Hash_Array typecode "32 word list" | Hash_Other

record fingerprint_value =
  fv_typecode :: typecode
  fv_hashes :: "32 word list"
  fv_version :: int

definition itemsize :: "typecode \<Rightarrow> nat" where
  "itemsize tc = (case tc of Type_i \<Rightarrow> 4 | Type_I \<Rightarrow> 4 | Type_Other n \<Rightarrow> n)"

definition byteswap_uint32 :: "32 word \<Rightarrow> 32 word" where
  "byteswap_uint32 v = push_bit 24 (v AND 0xFF) OR push_bit 8 (v AND 0xFF00) OR
     drop_bit 8 (v AND 0xFF0000) OR drop_bit 24 (v AND 0xFF000000)"

text \<open>How the platform lays a 32-bit store out in memory, and reads it back.\<close>

definition store32 :: "bool \<Rightarrow> 32 word \<Rightarrow> 8 word list" where
  "store32 little w = (let bs = [ucast w, ucast (drop_bit 8 w), ucast (drop_bit 16 w), ucast (drop_bit 24 w)]
                       in if little then bs else rev bs)"

fun load32 :: "bool \<Rightarrow> 8 word list \<Rightarrow> 32 word" where
  "load32 little [a, b, c, d] =
     (let word = (\<lambda>a b c d. ucast a OR push_bit 8 (ucast b) OR push_bit 16 (ucast c) OR push_bit 24 (ucast d))
      in if little then word a b c d else word d c b a)"
| "load32 little _ = 0"

definition MAGIC_B0 :: "8 word" where "MAGIC_B0 = 70"
definition MAGIC_B1 :: "8 word" where "MAGIC_B1 = 112"
definition FORMAT_VERSION :: "8 word" where "FORMAT_VERSION = 1"

text \<open>The C conversions of the list's items: through \<open>int\<close> for is_signed hashes, to \<open>uint32_t\<close> otherwise.\<close>

fun hash_words :: "bool \<Rightarrow> int list \<Rightarrow> py_exc + 32 word list" where
  "hash_words is_signed [] = Inr []"
| "hash_words is_signed (h # hs) =
     (if (if is_signed then fits_int h else fits_uint h)
      then (case hash_words is_signed hs of Inl e \<Rightarrow> Inl e | Inr ws \<Rightarrow> Inr (word_of_int h # ws))
      else Inl OverflowError)"

fun xor_diffs :: "32 word \<Rightarrow> 32 word list \<Rightarrow> 32 word list" where
  "xor_diffs last_hash [] = []"
| "xor_diffs last_hash (hash # hs) = (hash XOR last_hash) # xor_diffs hash hs"

fun undo_diffs :: "32 word \<Rightarrow> 32 word list \<Rightarrow> 32 word list" where
  "undo_diffs last_hash [] = []"
| "undo_diffs last_hash (diff # ds) = (last_hash XOR diff) # undo_diffs (last_hash XOR diff) ds"

definition diff_word :: "bool \<Rightarrow> 32 word \<Rightarrow> 32 word" where
  "diff_word IS_LITTLE_ENDIAN diff = (if IS_LITTLE_ENDIAN then diff else byteswap_uint32 diff)"

definition encode_words :: "bool \<Rightarrow> int \<Rightarrow> 32 word list \<Rightarrow> 8 word list" where
  "encode_words le version ws =
     [MAGIC_B0, MAGIC_B1, FORMAT_VERSION, word_of_int version] @
     concat (map (\<lambda>d. store32 le (diff_word le d)) (xor_diffs 0 ws))"

definition encode_fingerprint :: "bool \<Rightarrow> hashes_arg \<Rightarrow> int \<Rightarrow> bool \<Rightarrow> py_exc + 8 word list" where
  "encode_fingerprint le hashes version is_signed =
     (if \<not> fits_int version then Inl OverflowError
      else case hashes of
        Hash_List hs \<Rightarrow> (case hash_words is_signed hs of Inl e \<Rightarrow> Inl e | Inr ws \<Rightarrow> Inr (encode_words le version ws))
      | Hash_Array tc ws \<Rightarrow>
          if itemsize tc \<noteq> 4 then Inl TypeError
          else if tc \<noteq> Type_i \<and> tc \<noteq> Type_I then Inl TypeError
          else Inr (encode_words le version ws)
      | Hash_Other \<Rightarrow> Inl TypeError)"

text \<open>Reading \<open>n\<close> words of four bytes each; bytes after the last whole word are ignored.\<close>

fun read_words :: "bool \<Rightarrow> nat \<Rightarrow> 8 word list \<Rightarrow> 32 word list" where
  "read_words le 0 bs = []"
| "read_words le (Suc n) bs = diff_word le (load32 le (take 4 bs)) # read_words le n (drop 4 bs)"

definition decode_fingerprint_bytes :: "bool \<Rightarrow> 8 word list \<Rightarrow> bool \<Rightarrow> py_exc + fingerprint_value" where
  "decode_fingerprint_bytes le inp is_signed =
     (let num_hashes = (int (length inp) - 4) div 4
      in if num_hashes < 0 then Inl ValueError
         else if inp ! 0 \<noteq> MAGIC_B0 \<or> inp ! 1 \<noteq> MAGIC_B1 then Inl ValueError
         else if inp ! 2 \<noteq> FORMAT_VERSION then Inl ValueError
         else Inr \<lparr>fv_typecode = (if is_signed then Type_i else Type_I),
                   fv_hashes = undo_diffs 0 (read_words le (nat num_hashes) (drop 4 inp)),
                   fv_version = uint (inp ! 3)\<rparr>)"

text \<open>\<open>list(hashes)\<close>: an array gives its items as its type code reads them.\<close>

definition array_list :: "fingerprint_value \<Rightarrow> int list" where
  "array_list f = map (if fv_typecode f = Type_i then sint else uint) (fv_hashes f)"

definition compress_fingerprint ::
    "(8 word list \<Rightarrow> 8 word list) \<Rightarrow> bool \<Rightarrow> int list \<Rightarrow> int \<Rightarrow> bool \<Rightarrow> py_exc + 8 word list" where
  "compress_fingerprint zstd_compress le hashes version is_signed =
     (case encode_fingerprint le (Hash_List hashes) version is_signed of
        Inl e \<Rightarrow> Inl e | Inr data \<Rightarrow> Inr (zstd_compress data))"

definition decompress_fingerprint ::
    "(8 word list \<Rightarrow> 8 word list option) \<Rightarrow> bool \<Rightarrow> 8 word list \<Rightarrow> bool \<Rightarrow> py_exc + int list \<times> int" where
  "decompress_fingerprint zstd_decompress le data is_signed =
     (case zstd_decompress data of
        None \<Rightarrow> Inl ValueError
      | Some inp \<Rightarrow>
          (case decode_fingerprint_bytes le inp is_signed of
             Inl e \<Rightarrow> Inl e | Inr f \<Rightarrow> Inr (array_list f, fv_version f)))"

subsection \<open>Chromaprint's own format, and its hash\<close>

datatype py_data = Data_Str string | Data_Bytes "8 word list" | Data_Other

text \<open>What \<open>chromaprint_decode_fingerprint\<close> leaves behind: its result, and the hashes, size and version it set.\<close>

record decode_result =
  dr_res :: int
  dr_version :: int
  dr_hashes :: "32 word list option"

definition decode_legacy_fingerprint ::
    "(8 word list \<Rightarrow> bool \<Rightarrow> decode_result) \<Rightarrow> py_data \<Rightarrow> bool \<Rightarrow> bool \<Rightarrow> py_exc + fingerprint_value" where
  "decode_legacy_fingerprint chromaprint data base64 is_signed =
     (case (case data of
              Data_Str s \<Rightarrow> if base64 then Inr (utf8 s) else Inl TypeError
            | Data_Bytes bs \<Rightarrow> Inr bs
            | Data_Other \<Rightarrow> Inl TypeError) of
        Inl e \<Rightarrow> Inl e
      | Inr data_as_bytes \<Rightarrow>
          let r = chromaprint data_as_bytes base64
          in if dr_res r \<noteq> 1 then Inl FingerprintError
             else if dr_version r = -1 then Inl FingerprintError
             else case dr_hashes r of
                    None \<Rightarrow> Inl FingerprintError
                  | Some hashes \<Rightarrow> Inr \<lparr>fv_typecode = (if is_signed then Type_i else Type_I), fv_hashes = hashes,
                                       fv_version = dr_version r\<rparr>)"

definition encode_legacy_fingerprint ::
    "(32 word list \<Rightarrow> int \<Rightarrow> bool \<Rightarrow> 'text option) \<Rightarrow> hashes_arg \<Rightarrow> int \<Rightarrow> bool \<Rightarrow> bool \<Rightarrow> py_exc + 'text" where
  "encode_legacy_fingerprint chromaprint hashes version base64 is_signed =
     (if \<not> fits_int version then Inl OverflowError
      else case (case hashes of
              Hash_List hs \<Rightarrow> hash_words is_signed hs
            | Hash_Array tc ws \<Rightarrow>
                if itemsize tc \<noteq> 4 then Inl TypeError
                else if tc \<noteq> (if is_signed then Type_i else Type_I) then Inl TypeError
                else Inr ws
            | Hash_Other \<Rightarrow> Inl TypeError) of
        Inl e \<Rightarrow> Inl e
      | Inr ws \<Rightarrow> (case chromaprint ws version base64 of None \<Rightarrow> Inl FingerprintError | Some text \<Rightarrow> Inr text))"

definition c_result :: "bool \<Rightarrow> 32 word \<Rightarrow> int" where
  "c_result is_signed w = (if is_signed then sint w else uint w)"

definition compute_simhash :: "(32 word list \<Rightarrow> 32 word) \<Rightarrow> typecode \<Rightarrow> 32 word list \<Rightarrow> bool \<Rightarrow> py_exc + int" where
  "compute_simhash chromaprint_hash tc hashes is_signed =
     (if tc \<noteq> Type_I \<and> tc \<noteq> Type_i then Inl TypeError else Inr (c_result is_signed (chromaprint_hash hashes)))"

definition compute_shingled_simhashes ::
    "(32 word list \<Rightarrow> 32 word) \<Rightarrow> typecode \<Rightarrow> 32 word list \<Rightarrow> int \<Rightarrow> int \<Rightarrow> py_exc + 32 word list" where
  "compute_shingled_simhashes chromaprint_hash tc hashes shingle_size step =
     (if tc \<noteq> Type_I \<and> tc \<noteq> Type_i then Inl TypeError
      else if shingle_size \<le> 0 then Inl ValueError
      else if step \<le> 0 then Inl ValueError
      else let n = int (length hashes);
               num_shingles = (if n = 0 then 0 else (n + step - 1) div step)
           in Inr (map (\<lambda>i. let start_idx = int i * step; remaining = n - start_idx;
                               remaining_size = (if remaining > shingle_size then shingle_size else remaining)
                           in chromaprint_hash (take (nat remaining_size) (drop (nat start_idx) hashes)))
                  [0..<nat num_shingles]))"

subsection \<open>Arrays as PostgreSQL prints them\<close>

text \<open>The first pass counts elements by their separators, the second reads numbers until that many are found.\<close>

fun pg_count :: "char \<Rightarrow> nat \<Rightarrow> string \<Rightarrow> nat" where
  "pg_count prev_char count [] =
     (if prev_char \<noteq> CHR '','' \<and> prev_char \<noteq> CHR ''{'' then count + 1 else count)"
| "pg_count prev_char count (c # cs) =
     pg_count c (if c = CHR '','' \<and> prev_char \<noteq> CHR '','' \<and> prev_char \<noteq> CHR ''{'' then count + 1 else count) cs"

fun pg_digits :: "32 word \<Rightarrow> string \<Rightarrow> 32 word \<times> string" where
  "pg_digits value [] = (value, [])"
| "pg_digits value (c # cs) =
     (if is_digit c then pg_digits (value * 10 + word_of_int (digit_val c)) cs else (value, c # cs))"

lemma pg_digits_shorter: "length (snd (pg_digits v cs)) \<le> length cs"
  by (induction v cs rule: pg_digits.induct) auto

function pg_numbers :: "nat \<Rightarrow> bool \<Rightarrow> string \<Rightarrow> 32 word list" where
  "pg_numbers missing negative [] = []"
| "pg_numbers missing negative (c # cs) =
     (if missing = 0 then []
      else if c = CHR ''-'' then pg_numbers missing True cs
      else if is_digit c then
        (let (value, rest) = pg_digits (word_of_int (digit_val c)) cs
         in (if negative then - value else value) # pg_numbers (missing - 1) False rest)
      else pg_numbers missing negative cs)"
  by pat_completeness auto

termination
  by (relation "measure (\<lambda>(m, n, cs). length cs)") (auto simp: less_Suc_eq_le, metis pg_digits_shorter snd_conv)

text \<open>\<open>junk\<close> is what \<open>array.resize\<close> leaves in the slots that no number is stored in.\<close>

definition decode_postgres_array :: "(nat \<Rightarrow> 32 word list) \<Rightarrow> string \<Rightarrow> py_exc + 32 word list" where
  "decode_postgres_array junk s =
     (if length s < 2 \<or> hd s \<noteq> CHR ''{'' \<or> last s \<noteq> CHR ''}'' then Inl ValueError
      else let body = butlast (tl s); count = pg_count (CHR ''{'') 0 body;
               numbers = pg_numbers count False body
           in Inr (numbers @ drop (length numbers) (junk count)))"

subsection \<open>Identifiers of fingerprints\<close>

record fingerprint_info =
  fi_version :: int
  fi_hashes :: "32 word list"
  fi_gid :: string
  fi_simhash :: int

definition compute_fingerprint_gid ::
    "(8 word list \<Rightarrow> string) \<Rightarrow> bool \<Rightarrow> int \<Rightarrow> 32 word list \<Rightarrow> py_exc + string" where
  "compute_fingerprint_gid uuid5 le version hashes =
     (if \<not> fits_uint version then Inl StructError
      else Inr (uuid5 (store32 True (word_of_int version) @ concat (map (store32 le) hashes))))"

definition process_fingerprint ::
    "(8 word list \<Rightarrow> bool \<Rightarrow> decode_result) \<Rightarrow> (32 word list \<Rightarrow> 32 word) \<Rightarrow> (8 word list \<Rightarrow> string) \<Rightarrow> bool \<Rightarrow>
     string \<Rightarrow> py_exc + fingerprint_info" where
  "process_fingerprint chromaprint chromaprint_hash uuid5 le fp_str =
     (case decode_legacy_fingerprint chromaprint (Data_Str fp_str) True True of
        Inl e \<Rightarrow> Inl e
      | Inr fp \<Rightarrow>
          (case compute_fingerprint_gid uuid5 le (fv_version fp) (fv_hashes fp) of
             Inl e \<Rightarrow> Inl e
           | Inr gid \<Rightarrow>
               (case compute_simhash chromaprint_hash (fv_typecode fp) (fv_hashes fp) False of
                  Inl e \<Rightarrow> Inl e
                | Inr simhash \<Rightarrow> Inr \<lparr>fi_version = fv_version fp, fi_hashes = fv_hashes fp, fi_gid = gid, fi_simhash = simhash\<rparr>)))"

subsection \<open>The codec's round trip\<close>

lemma join_bytes:
  fixes w :: "32 word"
  shows "ucast (ucast w :: 8 word) OR push_bit 8 (ucast (ucast (drop_bit 8 w) :: 8 word)) OR
      push_bit 16 (ucast (ucast (drop_bit 16 w) :: 8 word)) OR push_bit 24 (ucast (ucast (drop_bit 24 w) :: 8 word)) = w"
proof (rule bit_word_eqI)
  fix n assume "n < LENGTH(32)"
  then consider "n < 8" | "8 \<le> n" "n < 16" | "16 \<le> n" "n < 24" | "24 \<le> n" "n < 32" by fastforce
  then show "bit ((ucast (ucast w :: 8 word) :: 32 word) OR push_bit 8 (ucast (ucast (drop_bit 8 w) :: 8 word)) OR
      push_bit 16 (ucast (ucast (drop_bit 16 w) :: 8 word)) OR push_bit 24 (ucast (ucast (drop_bit 24 w) :: 8 word))) n = bit w n"
    by cases (auto simp: bit_simps)
qed

lemma load_store32 [simp]: "load32 le (store32 le w) = w"
  by (cases le) (simp_all add: store32_def join_bytes)

lemma byte_masks:
  "(0xFF :: 32 word) = mask 8" "(0xFF00 :: 32 word) = push_bit 8 (mask 8)"
  "(0xFF0000 :: 32 word) = push_bit 16 (mask 8)" "(0xFF000000 :: 32 word) = push_bit 24 (mask 8)"
  by (simp_all add: mask_eq_exp_minus_1 push_bit_eq_mult)

lemma store_byteswap: "store32 False (byteswap_uint32 w) = store32 True w"
  by (auto simp: store32_def byteswap_uint32_def byte_masks Let_def bit_eq_iff bit_simps)

lemma store_rev: "store32 (\<not> le) w = rev (store32 le w)"
  by (cases le) (simp_all add: store32_def)

lemma store_inj: "store32 le v = store32 le w \<Longrightarrow> v = w"
  by (metis load_store32)

lemma byteswap_twice: "byteswap_uint32 (byteswap_uint32 w) = w"
proof (rule store_inj [of False])
  have "store32 False (byteswap_uint32 (byteswap_uint32 w)) = rev (store32 False (byteswap_uint32 w))"
    using store_rev [of False] by (simp add: store_byteswap)
  also have "\<dots> = store32 False w" using store_rev [of True w] by (simp add: store_byteswap)
  finally show "store32 False (byteswap_uint32 (byteswap_uint32 w)) = store32 False w" .
qed

lemma load_diff: "diff_word le (load32 le (store32 True d)) = d"
  using load_store32 [of False "byteswap_uint32 d"] by (cases le) (simp_all add: diff_word_def store_byteswap byteswap_twice)

text \<open>Whatever the platform, the memory holds the little-endian bytes of the difference.\<close>

lemma store_diff: "store32 le (diff_word le d) = store32 True d"
  by (cases le) (simp_all add: diff_word_def store_byteswap)

lemma length_store32 [simp]: "length (store32 le w) = 4"
  by (simp add: store32_def Let_def)

lemma undo_xor_diffs: "undo_diffs h (xor_diffs h ws) = ws"
proof (induction ws arbitrary: h)
  case (Cons w ws)
  have "h XOR (w XOR h) = w" by (simp add: xor.commute [of w h] xor.assoc [symmetric])
  with Cons show ?case by simp
qed simp

lemma read_stored: "read_words le (length ds) (concat (map (\<lambda>d. store32 le' (diff_word le' d)) ds) @ rest) = ds"
  by (induction ds) (simp_all add: store_diff load_diff)

lemma length_xor_diffs [simp]: "length (xor_diffs h ws) = length ws"
  by (induction ws arbitrary: h) simp_all

lemma length_stored: "length (concat (map (\<lambda>d. store32 le (diff_word le d)) ds)) = 4 * length ds"
  by (induction ds) simp_all

lemma decode_encode_words:
  assumes "0 \<le> version" "version < 256"
  shows "decode_fingerprint_bytes le (encode_words le' version ws) is_signed =
    Inr \<lparr>fv_typecode = (if is_signed then Type_i else Type_I), fv_hashes = ws, fv_version = version\<rparr>"
proof -
  let ?data = "concat (map (\<lambda>d. store32 le' (diff_word le' d)) (xor_diffs 0 ws))"
  have len: "(int (length (encode_words le' version ws)) - 4) div 4 = int (length ws)"
    by (simp add: encode_words_def length_stored del: length_concat)
  have "undo_diffs 0 (read_words le (length ws) ?data) = ws"
    using read_stored [of le "xor_diffs 0 ws" le' "[]"] by (simp add: undo_xor_diffs)
  moreover have "drop 4 (encode_words le' version ws) = ?data" by (simp add: encode_words_def)
  moreover have "encode_words le' version ws ! 3 = word_of_int version" "uint (word_of_int version :: 8 word) = version"
    using assms by (simp_all add: encode_words_def uint_word_of_int)
  ultimately show ?thesis
    unfolding decode_fingerprint_bytes_def Let_def len by (simp add: encode_words_def)
qed

lemma hash_words_ok:
  assumes "list_all (if is_signed then fits_int else fits_uint) hashes"
  shows "\<exists>ws. hash_words is_signed hashes = Inr ws \<and> map (if is_signed then sint else uint) ws = hashes"
  using assms
proof (induction hashes)
  case (Cons h hs)
  moreover have "fits_int h \<Longrightarrow> sint (word_of_int h :: 32 word) = h"
    by (simp add: fits_int_def signed_of_int signed_take_bit_int_eq_self)
  moreover have "fits_uint h \<Longrightarrow> uint (word_of_int h :: 32 word) = h"
    by (simp add: fits_uint_def uint_word_of_int take_bit_int_eq_self)
  ultimately show ?case by (cases is_signed) auto
qed simp

text \<open>C16: A fingerprint that was compressed decompresses to the same hashes and version, also when it was
  written on a machine of the other byte order, provided the hashes fit their C type and the version fits its byte.\<close>

theorem compress_roundtrip:
  assumes "\<And>data. zstd_decompress (zstd_compress data) = Some data"
    and "list_all (if is_signed then fits_int else fits_uint) hashes" and "0 \<le> version" "version < 256"
  shows "\<exists>data. compress_fingerprint zstd_compress le hashes version is_signed = Inr data \<and>
    decompress_fingerprint zstd_decompress le' data is_signed = Inr (hashes, version)"
proof -
  obtain ws where ws: "hash_words is_signed hashes = Inr ws" "map (if is_signed then sint else uint) ws = hashes"
    using hash_words_ok [OF assms(2)] by blast
  then have "compress_fingerprint zstd_compress le hashes version is_signed = Inr (zstd_compress (encode_words le version ws))"
    using assms(3,4) by (simp add: compress_fingerprint_def encode_fingerprint_def fits_int_def)
  moreover have "decompress_fingerprint zstd_decompress le' (zstd_compress (encode_words le version ws)) is_signed = Inr (hashes, version)"
    using ws(2) by (cases is_signed) (simp_all add: decompress_fingerprint_def array_list_def assms(1) decode_encode_words [OF assms(3,4)])
  ultimately show ?thesis by blast
qed

theorem compress_roundtrip_witness:
  "\<exists>data. compress_fingerprint (\<lambda>d. d) True [0x80000000, 7] 1 False = Inr data \<and>
    decompress_fingerprint Some False data False = Inr ([0x80000000, 7], 1)"
  by (rule compress_roundtrip) (simp_all add: fits_uint_def)

subsection \<open>Signs\<close>

lemma and_32_bits: "h AND 0xFFFFFFFF = h mod 0x100000000" for h :: int
proof -
  have "h AND mask 32 = take_bit 32 h" by (simp add: take_bit_eq_mask)
  then show ?thesis by (simp add: take_bit_eq_mod mask_eq_exp_minus_1)
qed

lemma top_bit: "fits_uint h \<Longrightarrow> h AND 0x80000000 \<noteq> 0 \<longleftrightarrow> 0x80000000 \<le> h"
proof -
  assume h: "fits_uint h"
  have "h AND 0x80000000 \<noteq> 0 \<longleftrightarrow> bit h 31"
    using bit_iff_and_push_bit_not_eq_0 [of h 31] by (simp add: push_bit_eq_mult)
  also have "\<dots> \<longleftrightarrow> odd (h div 0x80000000)" by (simp add: bit_iff_odd)
  also have "h div 0x80000000 = (if 0x80000000 \<le> h then 1 else 0)"
    using h by (auto simp: fits_uint_def div_pos_geq div_pos_pos_trivial)
  finally show ?thesis by simp
qed

lemma mod_32_bits: "fits_int h \<Longrightarrow> h mod 0x100000000 = (if h < 0 then h + 0x100000000 else h)"
proof -
  assume h: "fits_int h"
  show ?thesis
  proof (cases "h < 0")
    case True
    have "h mod 0x100000000 = (h + 0x100000000) mod 0x100000000" by simp
    also have "\<dots> = h + 0x100000000" using h True by (intro mod_pos_pos_trivial) (simp_all add: fits_int_def)
    finally show ?thesis using True by simp
  next
    case False
    then show ?thesis using h by (simp add: fits_int_def mod_pos_pos_trivial)
  qed
qed

lemma sign_conversions:
  "list_all fits_uint hs \<Longrightarrow> to_unsigned (to_signed hs) = hs" "list_all fits_int hs \<Longrightarrow> to_signed (to_unsigned hs) = hs"
proof -
  show "to_unsigned (to_signed hs) = hs" if "list_all fits_uint hs"
    using that by (induction hs) (auto simp: to_unsigned_def to_signed_def top_bit and_32_bits fits_uint_def)
  have "(if (h AND 0xFFFFFFFF) AND 0x80000000 \<noteq> 0 then (h AND 0xFFFFFFFF) - 0x100000000 else h AND 0xFFFFFFFF) = h"
    if h: "fits_int h" for h
  proof -
    have "fits_uint (h mod 0x100000000)" by (simp add: fits_uint_def)
    from top_bit [OF this] h show ?thesis by (simp add: and_32_bits mod_32_bits) (auto simp: fits_int_def)
  qed
  then show "to_signed (to_unsigned hs) = hs" if "list_all fits_int hs"
    using that by (induction hs) (simp_all add: to_unsigned_def to_signed_def)
qed

lemma to_unsigned_fits: "list_all fits_uint (to_unsigned hs)"
  by (induction hs) (simp_all add: to_unsigned_def and_32_bits fits_uint_def)

subsection \<open>Query extraction against its reference\<close>

text \<open>The audible hashes, masked; and a list's elements in order of first occurrence.\<close>

definition query_candidates :: "int list \<Rightarrow> int list" where
  "query_candidates hashes =
     map (\<lambda>h. (h AND 0xFFFFFFFF) AND QUERY_BIT_MASK) (filter (\<lambda>h. h AND 0xFFFFFFFF \<noteq> SILENCE_HASH) hashes)"

definition first_occurrences :: "int list \<Rightarrow> int list" where
  "first_occurrences xs = rev (remdups (rev xs))"

lemma remdups_snoc: "remdups (xs @ [x]) = filter (\<lambda>y. y \<noteq> x) (remdups xs) @ [x]"
  by (induction xs) auto

lemma first_occurrences_simps [simp]: "first_occurrences [] = []"
  "first_occurrences (x # xs) = x # filter (\<lambda>y. y \<noteq> x) (first_occurrences xs)"
  by (simp_all add: first_occurrences_def remdups_snoc rev_filter)

lemma query_candidates_simps [simp]: "query_candidates [] = []"
  "query_candidates (h # hs) = (if h AND 0xFFFFFFFF = SILENCE_HASH then query_candidates hs
     else ((h AND 0xFFFFFFFF) AND QUERY_BIT_MASK) # query_candidates hs)"
  by (simp_all add: query_candidates_def)

definition checked :: "int list \<Rightarrow> int list \<Rightarrow> py_exc + int list" where
  "checked query rest = (if list_all fits_int rest then Inr (query @ rest) else Inl OverflowError)"

lemma extract_query_loop_reference:
  "extract_query_loop limit query hs =
     checked query (take (nat limit - length query) (filter (\<lambda>c. c \<notin> set query) (first_occurrences (query_candidates hs))))"
proof (induction limit query hs rule: extract_query_loop.induct)
  case (2 limit query h hashes)
  let ?c = "(h AND 0xFFFFFFFF) AND QUERY_BIT_MASK"
  show ?case
  proof (cases "limit \<le> int (length query)")
    case True
    then show ?thesis by (simp add: checked_def)
  next
    case more: False
    consider "h AND 0xFFFFFFFF = SILENCE_HASH" | "h AND 0xFFFFFFFF \<noteq> SILENCE_HASH" "?c \<in> set query"
      | "h AND 0xFFFFFFFF \<noteq> SILENCE_HASH" "?c \<notin> set query" by blast
    then show ?thesis
    proof cases
      case 1
      then show ?thesis using 2(1) more by simp
    next
      case 2
      then have "filter (\<lambda>c. c \<notin> set query) (filter (\<lambda>y. y \<noteq> ?c) ys) = filter (\<lambda>c. c \<notin> set query) ys" for ys
        by (auto intro: filter_cong)
      then show ?thesis using "2.IH"(2) 2 more by (simp add: Let_def)
    next
      case 3
      have "filter (\<lambda>c. c \<notin> set query) (filter (\<lambda>y. y \<noteq> ?c) ys) = filter (\<lambda>c. c \<notin> set (query @ [?c])) ys" for ys
        by (auto intro: filter_cong)
      moreover have "nat limit - length query = Suc (nat limit - length (query @ [?c]))" using more by simp
      ultimately show ?thesis using "2.IH"(3) 3 more by (simp add: Let_def checked_def del: filter_filter)
    qed
  qed
qed (simp add: checked_def)

text \<open>C17: Query extraction is the reference it describes: the distinct masked values of the audible hashes
  from the start position on, in order of first occurrence and at most the target size of them; except that it
  raises as soon as one of them has its top bit set, because the result is an array of signed items.\<close>

theorem extract_query_reference:
  "extract_query hashes limit start =
     (let start_idx = nat (max 0 (min (clean_size hashes - limit) start));
          query = take (nat limit) (first_occurrences (query_candidates (drop start_idx hashes)))
      in if list_all fits_int query then Inr query else Inl OverflowError)"
proof -
  let ?start_idx = "nat (max 0 (min (clean_size hashes - limit) start))"
  have silent: "query_candidates (drop ?start_idx hashes) = []" if "clean_size hashes \<le> 0"
    using that by (auto simp: clean_size_def query_candidates_def filter_empty_conv dest: in_set_dropD)
  show ?thesis
    unfolding extract_query_def extract_query_loop_reference checked_def Let_def
    by (cases "clean_size hashes \<le> 0") (simp_all only: silent, simp_all)
qed

lemma extract_query_overflows: "extract_query [0x80000000] 120 80 = Inl OverflowError"
  by code_simp

subsection \<open>Reading what PostgreSQL prints\<close>

fun comma_separated :: "int list \<Rightarrow> string" where
  "comma_separated [] = []"
| "comma_separated [x] = int_str x"
| "comma_separated (x # y # xs) = int_str x @ CHR '','' # comma_separated (y # xs)"

definition print_postgres_array :: "int list \<Rightarrow> string" where
  "print_postgres_array xs = CHR ''{'' # comma_separated xs @ ''}''"

lemma int_str_last: "int_str x \<noteq> [] \<and> is_digit (last (int_str x)) \<and> CHR '','' \<notin> set (int_str x)"
proof -
  have "is_digit (last (nat_str n)) \<and> CHR '','' \<notin> set (nat_str n)" for n
    using nat_str_digits [of "last (nat_str n)" n] nat_str_digits [of "CHR '','' " n] by (auto simp: is_digit_def)
  then show ?thesis by (simp add: int_str_def is_digit_def)
qed

lemma pg_count_number:
  "CHR '','' \<notin> set s \<Longrightarrow> s \<noteq> [] \<Longrightarrow> pg_count prev n (s @ cs) = pg_count (last s) n cs"
proof (induction s arbitrary: prev)
  case (Cons c s)
  then show ?case by (cases s) auto
qed simp

lemma pg_count_printed:
  assumes "prev = CHR '','' \<or> prev = CHR ''{''"
  shows "pg_count prev n (comma_separated xs) = n + length xs"
  using assms
proof (induction xs arbitrary: prev n rule: comma_separated.induct)
  case (2 x)
  have "last (int_str x) \<noteq> CHR '','' \<and> last (int_str x) \<noteq> CHR ''{''" using int_str_last [of x] by (auto simp: is_digit_def)
  then show ?case using pg_count_number [of "int_str x" prev n "[]"] int_str_last [of x] by simp
next
  case (3 x y xs)
  have "last (int_str x) \<noteq> CHR '','' \<and> last (int_str x) \<noteq> CHR ''{''" using int_str_last [of x] by (auto simp: is_digit_def)
  then show ?case using 3 int_str_last [of x] by (simp add: pg_count_number)
qed auto

lemma pg_digits_parse:
  assumes "\<forall>c \<in> set s. is_digit c" "parse_digits a s = Some b" "rest = [] \<or> \<not> is_digit (hd rest)"
  shows "pg_digits (word_of_int a) (s @ rest) = (word_of_int b, rest)"
  using assms
proof (induction s arbitrary: a)
  case Nil
  then show ?case by (cases rest) auto
next
  case (Cons c s)
  then show ?case using Cons.IH [of "10 * a + digit_val c"] by (simp add: mult.commute)
qed

lemma pg_numbers_number:
  assumes "rest = [] \<or> \<not> is_digit (hd rest)"
  shows "pg_numbers (Suc m) neg (nat_str n @ rest) =
    (if neg then - word_of_int (int n) else word_of_int (int n)) # pg_numbers m False rest"
proof -
  obtain c s where c: "nat_str n = c # s" using nat_str_nonempty [of n] by (cases "nat_str n") auto
  then have d: "is_digit c" "\<forall>c \<in> set s. is_digit c" using nat_str_digits [of _ n] by auto
  then have "parse_digits (digit_val c) s = Some (int n)" using parse_nat_str [of n] c by simp
  then have "pg_digits (word_of_int (digit_val c)) (s @ rest) = (word_of_int (int n), rest)"
    using pg_digits_parse d(2) assms by blast
  moreover have "c \<noteq> CHR ''-''" using d(1) by (auto simp: is_digit_def)
  ultimately show ?thesis using c d(1) by simp
qed

lemma pg_numbers_int:
  assumes "rest = [] \<or> \<not> is_digit (hd rest)"
  shows "pg_numbers (Suc m) False (int_str x @ rest) = word_of_int x # pg_numbers m False rest"
  using pg_numbers_number [OF assms, of m True "nat (- x)"] pg_numbers_number [OF assms, of m False "nat x"]
  by (simp add: int_str_def)

lemma pg_numbers_printed: "pg_numbers (length xs) False (comma_separated xs) = map word_of_int xs"
proof (induction xs rule: comma_separated.induct)
  case (2 x)
  then show ?case using pg_numbers_int [of "[]" 0 x] by simp
next
  case (3 x y xs)
  have "pg_numbers (length (y # xs)) False (CHR '','' # comma_separated (y # xs)) = map word_of_int (y # xs)"
    using 3 by (simp add: is_digit_def)
  then show ?case using pg_numbers_int [of "CHR '','' # comma_separated (y # xs)" "length (y # xs)" x] by (simp add: is_digit_def)
qed simp

text \<open>Decoding the text PostgreSQL prints for an array of 32-bit integers gives exactly these integers, for
  every array, empty ones and negative numbers included; no slot of the result keeps uninitialised memory.\<close>

lemma postgres_array_roundtrip:
  assumes "\<And>n. length (junk n) = n" and "list_all fits_int xs"
  shows "\<exists>ws. decode_postgres_array junk (print_postgres_array xs) = Inr ws \<and> map sint ws = xs"
proof -
  have "pg_count (CHR ''{'') 0 (comma_separated xs) = length xs" by (simp add: pg_count_printed)
  then have "decode_postgres_array junk (print_postgres_array xs) = Inr (map word_of_int xs)"
    by (simp add: decode_postgres_array_def print_postgres_array_def Let_def pg_numbers_printed assms(1))
  moreover have "map sint (map word_of_int xs :: 32 word list) = xs"
    using assms(2) by (induction xs) (auto simp: fits_int_def signed_of_int signed_take_bit_int_eq_self)
  ultimately show ?thesis by blast
qed

text \<open>Text that is not an array of integers may count an element for which no number is stored.\<close>

lemma postgres_array_uninitialised: "decode_postgres_array (\<lambda>n. replicate n x) ''{NULL,1}'' = Inr [1, x]"
  by (simp add: decode_postgres_array_def Let_def is_digit_def digit_val_def)

end
