(* ===== verification/Feed.thy ===== *)
theory Feed
  imports Retention Fp_Codec Json
begin

text \<open>
  The feed that index nodes replicate from: \<^verbatim>\<open>future/fpindex/feed.py\<close> and its wire types in \<^verbatim>\<open>wire.py\<close>.
  Each database read of a handler is its own transaction, so a handler takes one database state per read.
  A message is modelled up to the value handed to the msgpack library.
\<close>

subsection \<open>Wire types\<close>

definition INDEX_NAME :: string where "INDEX_NAME = ''acoustid''"
definition GENERATION :: int where "GENERATION = 1"

datatype change = Insert_Change int "int list" | Delete_Change int

record entry =
  en_id :: int
  en_change :: change

record read_response =
  rr_entries :: "entry list"
  rr_retry_after_ms :: int

definition field_name_prefix :: "string \<Rightarrow> string" where
  "field_name_prefix name = take 1 name"

definition struct_wire :: "(string \<times> json) list \<Rightarrow> json" where
  "struct_wire members = JObj (map (\<lambda>(name, v). (field_name_prefix name, v)) members)"

fun change_wire :: "change \<Rightarrow> json" where
  "change_wire (Insert_Change i hashes) =
     JObj [(''i'', struct_wire [(''id'', JInt i), (''hashes'', JArr (map JInt hashes))])]"
| "change_wire (Delete_Change i) = JObj [(''d'', struct_wire [(''id'', JInt i)])]"

definition insert_change :: "int \<Rightarrow> int list \<Rightarrow> change" where
  "insert_change fingerprint_id hashes = Insert_Change fingerprint_id hashes"

definition delete_change :: "int \<Rightarrow> change" where
  "delete_change fingerprint_id = Delete_Change fingerprint_id"

definition entry_wire :: "entry \<Rightarrow> json" where
  "entry_wire e = struct_wire [(''id'', JInt (en_id e)), (''change'', change_wire (en_change e))]"

definition encode :: "read_response \<Rightarrow> json" where
  "encode response = struct_wire [(''entries'', JArr (map entry_wire (rr_entries response))),
     (''retry_after_ms'', JInt (rr_retry_after_ms response))]"

definition changelog_response :: "(int \<times> int \<times> int list) list \<Rightarrow> int \<Rightarrow> read_response" where
  "changelog_response batch retry_after_ms =
     \<lparr>rr_entries = map (\<lambda>(position, fingerprint_id, query). \<lparr>en_id = position, en_change = insert_change fingerprint_id query\<rparr>) batch,
      rr_retry_after_ms = retry_after_ms\<rparr>"

datatype meta_op_kind = Create_Index | Delete_Index

record meta_op =
  mo_pos :: int
  mo_kind :: meta_op_kind
  mo_index_name :: string

record meta_read_response =
  mr_ops :: "meta_op list"
  mr_retry_after_ms :: int

definition kind_value :: "meta_op_kind \<Rightarrow> int" where
  "kind_value k = (case k of Create_Index \<Rightarrow> 0 | Delete_Index \<Rightarrow> 1)"

definition THE_INDEX_WAS_CREATED_AT :: int where "THE_INDEX_WAS_CREATED_AT = GENERATION"

definition META_OPS :: "meta_op list" where
  "META_OPS = [\<lparr>mo_pos = THE_INDEX_WAS_CREATED_AT, mo_kind = Create_Index, mo_index_name = INDEX_NAME\<rparr>]"

definition meta_response :: "int \<Rightarrow> int \<Rightarrow> int \<Rightarrow> meta_read_response" where
  "meta_response after limit retry_after_ms =
     \<lparr>mr_ops = take (nat limit) (filter (\<lambda>op. after < mo_pos op) META_OPS), mr_retry_after_ms = retry_after_ms\<rparr>"

definition meta_op_wire :: "meta_op \<Rightarrow> json" where
  "meta_op_wire op = struct_wire [(''pos'', JInt (mo_pos op)), (''kind'', JInt (kind_value (mo_kind op))),
     (''index_name'', JStr (mo_index_name op))]"

definition encode_meta :: "meta_read_response \<Rightarrow> json" where
  "encode_meta response = struct_wire [(''ops'', JArr (map meta_op_wire (mr_ops response))),
     (''retry_after_ms'', JInt (mr_retry_after_ms response))]"

definition encode_bootstrap_header :: "int \<Rightarrow> json" where
  "encode_bootstrap_header position = struct_wire [(''position'', JInt position)]"

definition encode_bootstrap_chunk :: "change list \<Rightarrow> json" where
  "encode_bootstrap_chunk changes = JArr (map change_wire changes)"

subsection \<open>Requests\<close>

definition MAX_ENTRIES :: int where "MAX_ENTRIES = 100000"
definition IDLE_RETRY_MS :: int where "IDLE_RETRY_MS = 1000"
definition BUSY_RETRY_MS :: int where "BUSY_RETRY_MS = 0"
definition BOOTSTRAP_CHUNK :: int where "BOOTSTRAP_CHUNK = 10000"

definition int_param :: "string option \<Rightarrow> int \<Rightarrow> int \<Rightarrow> int" where
  "int_param raw default_value upper =
     (case raw of
        None \<Rightarrow> default_value
      | Some s \<Rightarrow> (case py_int s of None \<Rightarrow> default_value | Some v \<Rightarrow> max 0 (min v upper)))"

datatype feed_response =
    Status int
  | Json_Response int string
  | Msgpack json
  | Msgpack_Stream "json list"

definition read_batch :: "changelog \<Rightarrow> int \<Rightarrow> int \<Rightarrow> (int \<times> int \<times> int list) list" where
  "read_batch c after limit =
     map (\<lambda>r. (cl_id r, cl_fingerprint_id r, to_unsigned (cl_query r)))
       (take (nat limit) (filter (\<lambda>r. after < cl_id r) (sort_key cl_id (all_rows c))))"

definition last_deleted_id :: "changelog \<Rightarrow> int option" where
  "last_deleted_id c = map_option fm_last_deleted_id (ch_meta c)"

text \<open>The watermark is read in state \<open>c\<close>, the rows in a later one.\<close>

definition handle_read_changelog ::
    "string \<Rightarrow> int \<Rightarrow> string option \<Rightarrow> string option \<Rightarrow> changelog \<Rightarrow> changelog \<Rightarrow> feed_response" where
  "handle_read_changelog index_name generation after_raw max_raw c c' =
     (if index_name \<noteq> INDEX_NAME \<or> generation \<noteq> GENERATION then Status 404
      else let after = int_param after_raw 0 (2 ^ 63 - 1);
               limit = int_param max_raw MAX_ENTRIES MAX_ENTRIES
           in if (case last_deleted_id c of None \<Rightarrow> False | Some last_deleted \<Rightarrow> after < last_deleted) then Status 410
              else let rows = read_batch c' after limit;
                       retry_after_ms = (if rows \<noteq> [] \<and> int (length rows) = limit then BUSY_RETRY_MS else IDLE_RETRY_MS)
                   in Msgpack (encode (changelog_response rows retry_after_ms)))"

definition handle_read_meta :: "string option \<Rightarrow> string option \<Rightarrow> feed_response" where
  "handle_read_meta after_raw max_raw =
     Msgpack (encode_meta (meta_response (int_param after_raw 0 (2 ^ 63 - 1)) (int_param max_raw MAX_ENTRIES MAX_ENTRIES)
       IDLE_RETRY_MS))"

definition handle_health :: "bool \<Rightarrow> feed_response" where
  "handle_health database_answers =
     (if database_answers then Json_Response 200 ''{\"ready\":true}'' else Json_Response 503 ''{\"ready\":false}'')"

definition current_position :: "changelog \<Rightarrow> int" where
  "current_position c = (if all_rows c = [] then 0 else Max (set (map cl_id (all_rows c))))"

definition fingerprints_after ::
    "(int list \<Rightarrow> int list) \<Rightarrow> (int \<times> int list) list \<Rightarrow> int \<Rightarrow> int \<Rightarrow> (int \<times> int list) list" where
  "fingerprints_after xq fingerprint after_id limit =
     map (\<lambda>(i, fp). (i, to_unsigned (xq fp)))
       (take (nat limit) (filter (\<lambda>(i, fp). after_id < i) (sort_key fst fingerprint)))"

text \<open>
  The stream's loop: one state of the fingerprint table per turn; \<open>None\<close> when the states given do not
  suffice to reach the end of the table.
\<close>

fun bootstrap_stream ::
    "(int list \<Rightarrow> int list) \<Rightarrow> int \<Rightarrow> int \<Rightarrow> (int \<times> int list) list list \<Rightarrow> change list list option" where
  "bootstrap_stream xq chunk last_id [] = None"
| "bootstrap_stream xq chunk last_id (fingerprint # later) =
     (let fps = fingerprints_after xq fingerprint last_id chunk
      in if fps = [] then Some [[]]
         else let changes = map (\<lambda>(i, query). insert_change i query) (filter (\<lambda>(i, query). query \<noteq> []) fps)
              in case bootstrap_stream xq chunk (fst (last fps)) later of
                   None \<Rightarrow> None
                 | Some rest \<Rightarrow> Some (if changes \<noteq> [] then changes # rest else rest))"

definition bootstrap_chunk_size :: "string option \<Rightarrow> int" where
  "bootstrap_chunk_size chunk_raw = max 1 (int_param chunk_raw BOOTSTRAP_CHUNK MAX_ENTRIES)"

definition handle_bootstrap ::
    "(int list \<Rightarrow> int list) \<Rightarrow> string \<Rightarrow> int \<Rightarrow> string option \<Rightarrow> changelog \<Rightarrow> (int \<times> int list) list list \<Rightarrow> feed_response option" where
  "handle_bootstrap xq index_name generation chunk_raw c snapshots =
     (if index_name \<noteq> INDEX_NAME \<or> generation \<noteq> GENERATION then Some (Status 404)
      else (case bootstrap_stream xq (bootstrap_chunk_size chunk_raw) 0 snapshots of
          None \<Rightarrow> None
        | Some chunks \<Rightarrow>
            Some (Msgpack_Stream (encode_bootstrap_header (current_position c) # map encode_bootstrap_chunk chunks))))"

definition handle_refuse_write :: feed_response where
  "handle_refuse_write = Json_Response 403
     ''{\"error\":\"read-only feed: the changelog is written by the fingerprint trigger, not over HTTP\"}''"

subsection \<open>A batch is the next part of the history\<close>

lemma int_param_bounds: "0 \<le> default_value \<Longrightarrow> default_value \<le> upper \<Longrightarrow> 0 \<le> int_param raw default_value upper \<and> int_param raw default_value upper \<le> upper"
  by (auto simp: int_param_def split: option.splits)

lemma gone_iff_floor: "gone c r \<longleftrightarrow> (\<exists>m. last_deleted_id c = Some m \<and> cl_id r \<le> m)"
  by (auto simp: gone_def last_deleted_id_def split: option.splits)

lemma read_batch_history:
  assumes "world_ok xq date_of w" "\<forall>m. last_deleted_id (w_log w) = Some m \<longrightarrow> m \<le> after"
  shows "read_batch (w_log w) after limit =
    map (\<lambda>r. (cl_id r, cl_fingerprint_id r, to_unsigned (cl_query r))) (take (nat limit) (filter (\<lambda>r. after < cl_id r) (w_history w)))"
proof -
  have "cl_id r \<le> after" if "gone (w_log w) r" for r
    using that assms(2) by (force simp: gone_iff_floor)
  then show ?thesis using world.read_is_history [OF assms(1)] by (simp add: read_batch_def)
qed



subsection \<open>Two reads are not one\<close>

text \<open>
  The handler reads the watermark and the rows in separate transactions. If the retention job records and
  drops a partition in between, the consumer is told that there is nothing after its position, although there
  was; it never learns of the entry.
\<close>

lemma feed_race_skips_entries:
  "retention_steps (\<lambda>fp. fp) months_calendar (new_world 1 []) stored_world \<and>
   retention_steps (\<lambda>fp. fp) months_calendar stored_world aged_world \<and>
   first_entry \<in> set (w_history stored_world) \<and>
   handle_read_changelog INDEX_NAME GENERATION None None (w_log stored_world) (w_log aged_world) =
     Msgpack (encode (changelog_response [] IDLE_RETRY_MS))"
  using stored_reachable aged_reachable
  by (simp add: handle_read_changelog_def stored_world_def aged_world_def last_deleted_id_def read_batch_def
      all_rows_def int_param_def MAX_ENTRIES_def)

text \<open>Reading the rows first and the watermark afterwards would be safe.\<close>

lemma rows_then_watermark_is_safe:
  assumes "world_ok xq date_of w" "retention_steps xq date_of w w'"
    and "\<not> (\<exists>m. last_deleted_id (w_log w') = Some m \<and> after < m)"
  shows "read_batch (w_log w) after limit =
    map (\<lambda>r. (cl_id r, cl_fingerprint_id r, to_unsigned (cl_query r))) (take (nat limit) (filter (\<lambda>r. after < cl_id r) (w_history w)))"
proof (rule read_batch_history [OF assms(1)], intro allI impI)
  fix m assume m: "last_deleted_id (w_log w) = Some m"
  let ?r = "first_entry\<lparr>cl_id := m\<rparr>"
  have "gone (w_log w) ?r" using m by (simp add: gone_iff_floor)
  then have "gone (w_log w') ?r" using steps_extend [OF assms(2)] by (simp add: log_extends_def)
  then show "m \<le> after" using assms(3) by (force simp: gone_iff_floor)
qed

text \<open>
  A log whose partitions have all been dropped gives a bootstrapping node the position 0, from which the feed
  then refuses to serve it: it is sent to bootstrap again, until something new is stored.
\<close>

lemma bootstrap_position_refused:
  "retention_steps (\<lambda>fp. fp) months_calendar (new_world 1 []) aged_world \<and>
   current_position (w_log aged_world) = 0 \<and>
   handle_read_changelog INDEX_NAME GENERATION (Some ''0'') None (w_log aged_world) (w_log aged_world) = Status 410"
proof -
  have "int_param (Some ''0'') 0 (2 ^ 63 - 1) = 0" by code_simp
  then show ?thesis using rtranclp_trans [OF stored_reachable aged_reachable]
    by (simp add: current_position_def aged_world_def all_rows_def handle_read_changelog_def last_deleted_id_def)
qed

subsection \<open>The bootstrap stream\<close>

definition wanted :: "(int list \<Rightarrow> int list) \<Rightarrow> int \<times> int list \<Rightarrow> change" where
  "wanted xq f = Insert_Change (fst f) (to_unsigned (xq (snd f)))"

definition audible :: "(int list \<Rightarrow> int list) \<Rightarrow> int \<times> int list \<Rightarrow> bool" where
  "audible xq f \<longleftrightarrow> xq (snd f) \<noteq> []"

lemma take_sorted_covers:
  assumes "sorted (map fst xs)" "f \<in> set xs" "fst f < fst (last (take n xs))" "take n xs \<noteq> []"
  shows "f \<in> set (take n xs)"
proof (rule ccontr)
  assume "f \<notin> set (take n xs)"
  moreover have "f \<in> set (take n xs @ drop n xs)" using assms(2) by simp
  ultimately have f: "f \<in> set (drop n xs)" unfolding set_append by blast
  have "sorted (map fst (take n xs @ drop n xs))" using assms(1) by simp
  then have "fst (last (take n xs)) \<le> fst f"
    using f assms(4) by (simp only: map_append sorted_append) (auto dest: last_in_set)
  with assms(3) show False by simp
qed

definition next_fingerprints :: "int \<Rightarrow> int \<Rightarrow> (int \<times> int list) list \<Rightarrow> (int \<times> int list) list" where
  "next_fingerprints chunk last_id t = take (nat chunk) (filter (\<lambda>(i, fp). last_id < i) (sort_key fst t))"

text \<open>One read of the table: the fingerprints are its next ones by id, and none in between is left out.\<close>

lemma fingerprints_after_facts:
  fixes t :: "(int \<times> int list) list" and chunk last_id :: int
  assumes "1 \<le> chunk"
  defines "fs \<equiv> next_fingerprints chunk last_id t"
  shows "fingerprints_after xq t last_id chunk = map (\<lambda>f. (fst f, to_unsigned (xq (snd f)))) fs"
    and "fs = [] \<longleftrightarrow> (\<forall>f \<in> set t. fst f \<le> last_id)" and "\<forall>f \<in> set fs. f \<in> set t \<and> last_id < fst f"
    and "distinct (map fst t) \<Longrightarrow> f \<in> set t \<Longrightarrow> last_id < fst f \<Longrightarrow> fst f \<le> fst (last fs) \<Longrightarrow> fs \<noteq> [] \<Longrightarrow> f \<in> set fs"
proof -
  let ?xs = "filter (\<lambda>(i, fp). last_id < i) (sort_key fst t)"
  show "fingerprints_after xq t last_id chunk = map (\<lambda>f. (fst f, to_unsigned (xq (snd f)))) fs"
    by (simp add: fingerprints_after_def fs_def next_fingerprints_def case_prod_beta)
  have "fs = [] \<longleftrightarrow> ?xs = []" using assms(1) unfolding fs_def next_fingerprints_def take_eq_Nil by linarith
  then show "fs = [] \<longleftrightarrow> (\<forall>f \<in> set t. fst f \<le> last_id)"
    by (simp add: filter_empty_conv case_prod_beta not_less)
  show "\<forall>f \<in> set fs. f \<in> set t \<and> last_id < fst f"
  proof
    fix f assume "f \<in> set fs"
    then have "f \<in> set ?xs" unfolding fs_def next_fingerprints_def by (rule in_set_takeD)
    then show "f \<in> set t \<and> last_id < fst f" by auto
  qed
  show "f \<in> set fs" if d: "distinct (map fst t)" and f: "f \<in> set t" "last_id < fst f" "fst f \<le> fst (last fs)" and ne: "fs \<noteq> []"
  proof (cases "fst f = fst (last fs)")
    case True
    have l: "last fs \<in> set fs" using ne by simp
    then have "last fs \<in> set ?xs" unfolding fs_def next_fingerprints_def by (rule in_set_takeD)
    then have "last fs \<in> set t" by auto
    with d f(1) True have "f = last fs" by (simp add: distinct_map inj_on_def)
    with l show ?thesis by simp
  next
    case False
    have "sorted (map fst ?xs)" by (intro sorted_filter) simp
    moreover have "f \<in> set ?xs" using f(1,2) by (simp add: case_prod_beta)
    ultimately show ?thesis
      using take_sorted_covers [of ?xs f "nat chunk"] f(3) ne False unfolding fs_def next_fingerprints_def by simp
  qed
qed

lemma to_unsigned_empty [simp]: "to_unsigned hs = [] \<longleftrightarrow> hs = []"
  by (simp add: to_unsigned_def)

text \<open>One turn of the loop, over the rows it reads.\<close>

lemma bootstrap_stream_turn:
  fixes t :: "(int \<times> int list) list" and chunk last_id :: int
  assumes "1 \<le> chunk"
  defines "fs \<equiv> next_fingerprints chunk last_id t"
  shows "bootstrap_stream xq chunk last_id (t # ts) =
    (if fs = [] then Some [[]]
     else case bootstrap_stream xq chunk (fst (last fs)) ts of
            None \<Rightarrow> None
          | Some rest \<Rightarrow> Some (if filter (audible xq) fs \<noteq> [] then map (wanted xq) (filter (audible xq) fs) # rest else rest))"
proof -
  note f = fingerprints_after_facts(1) [OF assms(1), of xq t last_id, folded fs_def]
  have "map (\<lambda>(i, query). insert_change i query) (filter (\<lambda>(i, query). query \<noteq> []) (map (\<lambda>f. (fst f, to_unsigned (xq (snd f)))) fs)) =
    map (wanted xq) (filter (audible xq) fs)"
    by (simp add: filter_map comp_def wanted_def [abs_def] audible_def [abs_def] insert_change_def)
  moreover have "fs \<noteq> [] \<Longrightarrow> fst (last (map (\<lambda>f. (fst f, to_unsigned (xq (snd f)))) fs)) = fst (last fs)"
    by (simp add: last_map)
  ultimately show ?thesis by (auto simp: f Let_def simp del: filter_map map_eq_conv split: option.split)
qed

text \<open>What the stream contains, and that it ends with the only empty array.\<close>

lemma bootstrap_stream_sound:
  assumes "1 \<le> chunk"
  shows "bootstrap_stream xq chunk last_id ts = Some cs \<Longrightarrow>
    (\<exists>chunks. cs = chunks @ [[]] \<and> [] \<notin> set chunks) \<and>
    (\<forall>c \<in> set (concat cs). \<exists>t \<in> set ts. \<exists>f \<in> set t. c = wanted xq f) \<and> (\<forall>c \<in> set cs. int (length c) \<le> chunk)"
proof (induction ts arbitrary: last_id cs)
  case (Cons t ts)
  let ?fs = "next_fingerprints chunk last_id t"
  let ?cs = "map (wanted xq) (filter (audible xq) ?fs)"
  show ?case
  proof (cases "?fs = []")
    case True
    then show ?thesis using Cons.prems assms by (auto simp: bootstrap_stream_turn simp del: bootstrap_stream.simps)
  next
    case False
    then obtain rest where rest: "bootstrap_stream xq chunk (fst (last ?fs)) ts = Some rest"
      and cs: "cs = (if filter (audible xq) ?fs \<noteq> [] then ?cs # rest else rest)"
      using Cons.prems assms by (auto simp: bootstrap_stream_turn simp del: bootstrap_stream.simps split: option.splits)
    note IH = Cons.IH [OF rest]
    then obtain chunks where chunks: "rest = chunks @ [[]]" "[] \<notin> set chunks" by blast
    have "\<exists>chunks. cs = chunks @ [[]] \<and> [] \<notin> set chunks"
      using chunks by (cases "filter (audible xq) ?fs = []") (auto simp: cs intro: exI [of _ chunks] exI [of _ "?cs # chunks"])
    moreover have "\<forall>c \<in> set ?cs. \<exists>f \<in> set t. c = wanted xq f"
      using fingerprints_after_facts(3) [OF assms, of last_id t] by auto
    moreover have "int (length ?cs) \<le> chunk"
    proof -
      have "length ?fs \<le> nat chunk" by (simp add: next_fingerprints_def)
      then have "length (filter (audible xq) ?fs) \<le> nat chunk" using length_filter_le le_trans by blast
      then show ?thesis using assms by simp
    qed
    ultimately show ?thesis using IH by (simp add: cs)
  qed
qed simp

lemma bootstrap_stream_complete:
  assumes "1 \<le> chunk" "\<forall>t \<in> set ts. set t0 \<subseteq> set t \<and> distinct (map fst t)"
    and "f \<in> set t0" "last_id < fst f" "audible xq f" "bootstrap_stream xq chunk last_id ts = Some cs"
  shows "wanted xq f \<in> set (concat cs)"
  using assms(2,4,6)
proof (induction ts arbitrary: last_id cs)
  case (Cons t ts)
  let ?fs = "next_fingerprints chunk last_id t"
  have f: "f \<in> set t" using Cons.prems(1) assms(3) by auto
  then have ne: "?fs \<noteq> []" using fingerprints_after_facts(2) [OF assms(1), of last_id t] Cons.prems(2) by force
  obtain rest where rest: "bootstrap_stream xq chunk (fst (last ?fs)) ts = Some rest"
    and cs: "cs = (if filter (audible xq) ?fs \<noteq> [] then map (wanted xq) (filter (audible xq) ?fs) # rest else rest)"
    using Cons.prems(3) ne assms(1) by (auto simp: bootstrap_stream_turn simp del: bootstrap_stream.simps split: option.splits)
  show ?case
  proof (cases "fst f \<le> fst (last ?fs)")
    case True
    then have "f \<in> set ?fs"
      using fingerprints_after_facts(4) [OF assms(1) _ f Cons.prems(2)] Cons.prems(1) ne by simp
    then have "wanted xq f \<in> wanted xq ` set (filter (audible xq) ?fs)" "filter (audible xq) ?fs \<noteq> []"
      using assms(5) by (auto simp: filter_empty_conv)
    then show ?thesis by (simp add: cs)
  next
    case False
    then have "wanted xq f \<in> set (concat rest)" using Cons.IH [OF _ _ rest] Cons.prems(1) by simp
    then show ?thesis by (simp add: cs)
  qed
qed simp

lemma bootstrap_stream_ends:
  assumes "1 \<le> chunk" "\<forall>t \<in> set ts. \<forall>f \<in> set t. fst f \<le> N" "nat (N - last_id) < length ts"
  shows "bootstrap_stream xq chunk last_id ts \<noteq> None"
  using assms(2,3)
proof (induction ts arbitrary: last_id)
  case (Cons t ts)
  let ?fs = "next_fingerprints chunk last_id t"
  show ?case
  proof (cases "?fs = []")
    case True
    then show ?thesis using assms(1) by (simp add: bootstrap_stream_turn del: bootstrap_stream.simps)
  next
    case False
    then have "last ?fs \<in> set t" "last_id < fst (last ?fs)" "fst (last ?fs) \<le> N"
      using fingerprints_after_facts(3) [OF assms(1), of last_id t] Cons.prems(1) by auto
    then have "nat (N - fst (last ?fs)) < length ts" using Cons.prems(2) by simp
    then have "bootstrap_stream xq chunk (fst (last ?fs)) ts \<noteq> None" using Cons.IH Cons.prems(1) by simp
    then show ?thesis using assms(1) False by (auto simp: bootstrap_stream_turn simp del: bootstrap_stream.simps)
  qed
qed simp

lemma bootstrap_chunk_size_bounds: "1 \<le> bootstrap_chunk_size raw \<and> bootstrap_chunk_size raw \<le> MAX_ENTRIES"
  using int_param_bounds [of BOOTSTRAP_CHUNK MAX_ENTRIES raw]
  by (auto simp: bootstrap_chunk_size_def BOOTSTRAP_CHUNK_def MAX_ENTRIES_def)

text \<open>C20: The bootstrap stream ends, although fingerprints may be added while it runs: as long as no id exceeds
  \<open>N\<close>, at most \<open>N + 1\<close> reads of the table, each seeing whatever state the table then has, bring it to its
  terminator; and the empty array is its last element and nothing else.\<close>

theorem bootstrap_stream_terminates:
  assumes "\<forall>t \<in> set snapshots. \<forall>f \<in> set t. fst f \<le> N" "nat N < length snapshots"
  shows "\<exists>chunks. bootstrap_stream xq (bootstrap_chunk_size chunk_raw) 0 snapshots = Some (chunks @ [[]]) \<and> [] \<notin> set chunks"
proof -
  obtain cs where cs: "bootstrap_stream xq (bootstrap_chunk_size chunk_raw) 0 snapshots = Some cs"
    using bootstrap_stream_ends [of "bootstrap_chunk_size chunk_raw" snapshots N 0 xq] assms bootstrap_chunk_size_bounds by auto
  from bootstrap_stream_sound [OF _ cs] bootstrap_chunk_size_bounds obtain chunks where "cs = chunks @ [[]]" "[] \<notin> set chunks"
    by blast
  with cs show ?thesis by blast
qed

theorem bootstrap_stream_terminates_witness:
  "\<exists>chunks. bootstrap_stream (\<lambda>fp. fp) (bootstrap_chunk_size (Some ''1'')) 0 [[(2, [5])], [(2, [5]), (1, [6])], [(2, [5])]]
     = Some (chunks @ [[]]) \<and> [] \<notin> set chunks"
  by (rule bootstrap_stream_terminates [where N = 2]) simp_all

subsection \<open>Bootstrapping and then following\<close>

fun apply_change :: "change \<Rightarrow> (int \<rightharpoonup> int list) \<Rightarrow> (int \<rightharpoonup> int list)" where
  "apply_change (Insert_Change i hashes) docs = docs(i \<mapsto> hashes)"
| "apply_change (Delete_Change i) docs = docs(i := None)"

fun later_worlds :: "(int list \<Rightarrow> int list) \<Rightarrow> (int \<Rightarrow> py_date) \<Rightarrow> world \<Rightarrow> world list \<Rightarrow> world \<Rightarrow> bool" where
  "later_worlds xq date_of w [] end \<longleftrightarrow> retention_steps xq date_of w end"
| "later_worlds xq date_of w (v # vs) end \<longleftrightarrow> retention_steps xq date_of w v \<and> later_worlds xq date_of v vs end"

lemma later_worlds_steps:
  "later_worlds xq date_of w vs end' \<Longrightarrow> retention_steps xq date_of w end' \<and>
     (\<forall>v \<in> set vs. retention_steps xq date_of w v \<and> retention_steps xq date_of v end')"
  by (induction vs arbitrary: w) (auto intro: rtranclp_trans)

text \<open>Upserts that all agree with one assignment give exactly that assignment on the ids they mention.\<close>

lemma fold_upserts:
  assumes "\<forall>c \<in> set cs. \<exists>i. c = Insert_Change i (F i)"
  shows "fold apply_change cs docs i = (if \<exists>q. Insert_Change i q \<in> set cs then Some (F i) else docs i)"
  using assms
proof (induction cs arbitrary: docs)
  case (Cons c cs)
  then obtain j where c: "c = Insert_Change j (F j)" by auto
  with Cons show ?case by auto
qed simp

definition logged_changes :: "world \<Rightarrow> int \<Rightarrow> change list" where
  "logged_changes w position =
     map en_change (rr_entries (changelog_response
       (map (\<lambda>r. (cl_id r, cl_fingerprint_id r, to_unsigned (cl_query r))) (filter (\<lambda>r. position < cl_id r) (w_history w))) 0))"

lemma logged_changes_eq:
  "logged_changes w position = map (\<lambda>r. Insert_Change (cl_fingerprint_id r) (to_unsigned (cl_query r)))
     (filter (\<lambda>r. position < cl_id r) (w_history w))"
  by (simp add: logged_changes_def changelog_response_def insert_change_def comp_def)

lemma current_position_old:
  assumes "world_ok xq date_of w"
  shows "current_position (w_log w) < ch_next (w_log w)"
proof -
  have "cl_id r < ch_next (w_log w)" if "r \<in> set (all_rows (w_log w))" for r
    using assms that by (auto simp: world_ok_def log_ok_def history_ok_def)
  then show ?thesis using assms by (auto simp: current_position_def world_ok_def history_ok_def)
qed

lemma stream_snapshots:
  assumes "calendar date_of" "world_ok xq date_of w" "later_worlds xq date_of w vs end'" "t \<in> set (map w_fingerprints vs)"
  shows "set (w_fingerprints w) \<subseteq> set t \<and> distinct (map fst t) \<and> set t \<subseteq> set (w_fingerprints end')"
proof -
  obtain v where v: "v \<in> set vs" "t = w_fingerprints v" using assms(4) by auto
  then have "retention_steps xq date_of w v" "retention_steps xq date_of v end'" using later_worlds_steps [OF assms(3)] by auto
  with steps_extend steps_ok [OF _ assms(1,2)] v(2) show ?thesis by (auto simp: log_extends_def world_ok_def)
qed

text \<open>The terms of a fingerprint, by its id.\<close>

definition terms_of :: "(int list \<Rightarrow> int list) \<Rightarrow> world \<Rightarrow> int \<Rightarrow> int list" where
  "terms_of xq w i = to_unsigned (xq (THE fp. (i, fp) \<in> set (w_fingerprints w)))"

lemma terms_of_eq:
  assumes "world_ok xq date_of w" "(i, fp) \<in> set (w_fingerprints w)"
  shows "terms_of xq w i = to_unsigned (xq fp)"
proof -
  have "(THE fp. (i, fp) \<in> set (w_fingerprints w)) = fp"
    using assms by (intro the_equality) (auto simp: world_ok_def dest: eq_key_imp_eq_value)
  then show ?thesis by (simp add: terms_of_def)
qed

lemma followed_changes_sound:
  assumes cal: "calendar date_of" and ok: "world_ok xq date_of w" and vs: "later_worlds xq date_of w vs end'"
    and stream: "bootstrap_stream xq (bootstrap_chunk_size chunk_raw) 0 (map w_fingerprints vs) = Some chunks"
    and c: "c \<in> set (concat chunks) \<or> c \<in> set (logged_changes end' position)"
  shows "\<exists>i fp. (i, fp) \<in> set (w_fingerprints end') \<and> c = Insert_Change i (terms_of xq end' i)"
proof -
  have ok': "world_ok xq date_of end'" using steps_ok [OF _ cal ok] later_worlds_steps [OF vs] by blast
  have "\<exists>i fp. (i, fp) \<in> set (w_fingerprints end') \<and> c = Insert_Change i (to_unsigned (xq fp))"
    using c
  proof
    assume "c \<in> set (concat chunks)"
    then obtain t f where "t \<in> set (map w_fingerprints vs)" "f \<in> set t" "c = wanted xq f"
      using bootstrap_stream_sound [OF _ stream] bootstrap_chunk_size_bounds by blast
    then have "f \<in> set (w_fingerprints end')" "c = wanted xq f" using stream_snapshots [OF cal ok vs] by auto
    then show ?thesis by (intro exI [of _ "fst f"] exI [of _ "snd f"]) (simp add: wanted_def)
  next
    assume "c \<in> set (logged_changes end' position)"
    then obtain r where r: "r \<in> set (w_history end')" "c = Insert_Change (cl_fingerprint_id r) (to_unsigned (cl_query r))"
      by (auto simp: logged_changes_eq)
    then obtain fp where "(cl_fingerprint_id r, fp) \<in> set (w_fingerprints end')" "cl_query r = xq fp"
      using ok' unfolding world_ok_def history_ok_def by blast
    with r(2) show ?thesis by auto
  qed
  with terms_of_eq [OF ok'] show ?thesis by metis
qed

lemma followed_changes_complete:
  assumes cal: "calendar date_of" and ok: "world_ok xq date_of w" and vs: "later_worlds xq date_of w vs end'"
    and stream: "bootstrap_stream xq (bootstrap_chunk_size chunk_raw) 0 (map w_fingerprints vs) = Some chunks"
    and positive: "\<forall>f \<in> set (w_fingerprints w). 0 < fst f" and f: "(i, fp) \<in> set (w_fingerprints end')" "xq fp \<noteq> []"
  shows "\<exists>q. Insert_Change i q \<in> set (concat chunks @ logged_changes end' (current_position (w_log w)))"
proof (cases "(i, fp) \<in> set (w_fingerprints w)")
  case True
  have "\<forall>t \<in> set (map w_fingerprints vs). set (w_fingerprints w) \<subseteq> set t \<and> distinct (map fst t)"
    using stream_snapshots [OF cal ok vs] by blast
  then have "wanted xq (i, fp) \<in> set (concat chunks)"
    using positive f(2) True bootstrap_chunk_size_bounds
    by (intro bootstrap_stream_complete [OF _ _ True _ _ stream]) (auto simp: audible_def)
  then show ?thesis by (auto simp: wanted_def)
next
  case False
  have "new_logged xq w end'" using steps_extend later_worlds_steps [OF vs] by blast
  then obtain r where r: "r \<in> set (w_history end')" "ch_next (w_log w) \<le> cl_id r" "cl_fingerprint_id r = i"
    using f(1) False unfolding new_logged_def by blast
  then have "Insert_Change i (to_unsigned (cl_query r)) \<in> set (logged_changes end' (current_position (w_log w)))"
    using current_position_old [OF ok] by (force simp: logged_changes_eq)
  then show ?thesis by auto
qed



subsection \<open>Bounds\<close>

text \<open>Whatever a client asks for, and whatever state the database is in, a batch has at most \<open>MAX_ENTRIES\<close>
  entries and a bootstrap array at most \<open>MAX_ENTRIES\<close> changes, and every term in them fits the unsigned 32-bit
  integer that the index nodes decode it into.\<close>

lemma feed_bounds:
  "(\<exists>resp. handle_read_changelog INDEX_NAME GENERATION after_raw max_raw c c' \<in> {Status 410, Msgpack (encode resp)} \<and>
      length (rr_entries resp) \<le> 100000 \<and>
      (\<forall>e \<in> set (rr_entries resp). \<exists>i hs. en_change e = Insert_Change i hs \<and> list_all fits_uint hs)) \<and>
    (case bootstrap_stream xq (bootstrap_chunk_size chunk_raw) 0 snapshots of
       None \<Rightarrow> True
     | Some chunks \<Rightarrow> \<forall>chunk \<in> set chunks. length chunk \<le> 100000 \<and>
         (\<forall>c \<in> set chunk. \<exists>i hs. c = Insert_Change i hs \<and> list_all fits_uint hs))"
proof
  define limit where "limit = int_param max_raw MAX_ENTRIES MAX_ENTRIES"
  define after where "after = int_param after_raw 0 (2 ^ 63 - 1)"
  have limit: "nat limit \<le> 100000"
    using int_param_bounds [of MAX_ENTRIES MAX_ENTRIES max_raw] by (simp add: limit_def MAX_ENTRIES_def nat_le_iff)
  let ?rows = "read_batch c' after limit"
  let ?resp = "changelog_response ?rows (if ?rows \<noteq> [] \<and> int (length ?rows) = limit then BUSY_RETRY_MS else IDLE_RETRY_MS)"
  have "handle_read_changelog INDEX_NAME GENERATION after_raw max_raw c c' \<in> {Status 410, Msgpack (encode ?resp)}"
    by (simp add: handle_read_changelog_def Let_def after_def limit_def)
  moreover have "length (rr_entries ?resp) \<le> 100000"
    using limit by (simp add: changelog_response_def read_batch_def)
  moreover have "\<forall>e \<in> set (rr_entries ?resp). \<exists>i hs. en_change e = Insert_Change i hs \<and> list_all fits_uint hs"
    by (auto simp: changelog_response_def read_batch_def insert_change_def to_unsigned_fits)
  ultimately show "\<exists>resp. handle_read_changelog INDEX_NAME GENERATION after_raw max_raw c c' \<in> {Status 410, Msgpack (encode resp)} \<and>
      length (rr_entries resp) \<le> 100000 \<and>
      (\<forall>e \<in> set (rr_entries resp). \<exists>i hs. en_change e = Insert_Change i hs \<and> list_all fits_uint hs)" by blast
next
  note size = bootstrap_chunk_size_bounds [of chunk_raw]
  show "case bootstrap_stream xq (bootstrap_chunk_size chunk_raw) 0 snapshots of
       None \<Rightarrow> True
     | Some chunks \<Rightarrow> \<forall>chunk \<in> set chunks. length chunk \<le> 100000 \<and>
         (\<forall>c \<in> set chunk. \<exists>i hs. c = Insert_Change i hs \<and> list_all fits_uint hs)"
  proof (split option.split, intro conjI allI impI)
    fix chunks assume "bootstrap_stream xq (bootstrap_chunk_size chunk_raw) 0 snapshots = Some chunks"
    note sound = bootstrap_stream_sound [OF conjunct1 [OF size] this]
    show "\<forall>chunk \<in> set chunks. length chunk \<le> 100000 \<and> (\<forall>c \<in> set chunk. \<exists>i hs. c = Insert_Change i hs \<and> list_all fits_uint hs)"
      using sound size to_unsigned_fits by (fastforce simp: MAX_ENTRIES_def wanted_def)
  qed simp
qed

end
