(* ===== verification/Api_Params.thy ===== *)
theory Api_Params
  imports Accounts Py_Strings
begin

text \<open>
  What every handler of the web service starts from: the errors of \<^verbatim>\<open>api/errors.py\<close>, the request's values
  (werkzeug's \<open>CombinedMultiDict\<close>: the query string, then the form), the API keys with their caches, and
  \<open>APIHandlerParams\<close> of \<^verbatim>\<open>api/v2/__init__.py\<close>.
\<close>

subsection \<open>Errors\<close>

datatype web_error =
    UnknownFormatError string
  | MissingParameterError string
  | InvalidFingerprintError
  | InvalidAPIKeyError
  | InvalidUserAPIKeyError
  | InternalError
  | InvalidUUIDError string
  | InvalidForeignIDError string
  | InvalidDurationError string
  | InvalidBitrateError string
  | InvalidMaxDurationDiffError string
  | NotAllowedError
  | ServiceUnavailable
  | TooManyRequests rat
  | InvalidMusicBrainzAccessTokenError
  | InsecureRequestError
  | UnknownApplicationError
  | FingerprintNotFoundError
  | RequestTooLargeError

fun error_code :: "web_error \<Rightarrow> int" where
  "error_code (UnknownFormatError _) = 1"
| "error_code (MissingParameterError _) = 2"
| "error_code InvalidFingerprintError = 3"
| "error_code InvalidAPIKeyError = 4"
| "error_code InternalError = 5"
| "error_code InvalidUserAPIKeyError = 6"
| "error_code (InvalidUUIDError _) = 7"
| "error_code (InvalidDurationError _) = 8"
| "error_code (InvalidBitrateError _) = 9"
| "error_code (InvalidForeignIDError _) = 10"
| "error_code (InvalidMaxDurationDiffError _) = 11"
| "error_code NotAllowedError = 12"
| "error_code ServiceUnavailable = 13"
| "error_code (TooManyRequests _) = 14"
| "error_code InvalidMusicBrainzAccessTokenError = 15"
| "error_code InsecureRequestError = 16"
| "error_code UnknownApplicationError = 17"
| "error_code FingerprintNotFoundError = 18"
| "error_code RequestTooLargeError = 19"

fun error_status :: "web_error \<Rightarrow> int" where
  "error_status InternalError = 500"
| "error_status ServiceUnavailable = 503"
| "error_status (TooManyRequests _) = 429"
| "error_status FingerprintNotFoundError = 404"
| "error_status RequestTooLargeError = 413"
| "error_status _ = 400"

text \<open>\<open>error_name_by_code\<close>: the names of the constants, without their prefix and in lower case.\<close>

definition error_names :: "(int \<times> string) list" where
  "error_names = [(1, ''unknown_format''), (2, ''missing_parameter''), (3, ''invalid_fingerprint''), (4, ''invalid_apikey''),
     (5, ''internal''), (6, ''invalid_user_apikey''), (7, ''invalid_uuid''), (8, ''invalid_duration''), (9, ''invalid_bitrate''),
     (10, ''invalid_foreignid''), (11, ''invalid_max_duration_diff''), (12, ''not_allowed''), (13, ''service_unavailable''),
     (14, ''too_many_requests''), (15, ''invalid_musicbrainz_access_token''), (16, ''insecure_request''),
     (17, ''unknown_application''), (18, ''fingerprint_not_found''), (19, ''request_too_large'')]"

definition code_name :: "web_error \<Rightarrow> string" where
  "code_name e = (case map_of error_names (error_code e) of None \<Rightarrow> ''unknown'' | Some name \<Rightarrow> name)"

text \<open>\<open>"%f"\<close>: six decimals.\<close>

definition format_f :: "rat \<Rightarrow> string" where
  "format_f r = (let n = round (abs r * 1000000); frac = int_str (n mod 1000000)
     in (if r < 0 then ''-'' else []) @ int_str (n div 1000000) @ ''.'' @ replicate (6 - length frac) CHR ''0'' @ frac)"

definition parameter_error :: "string \<Rightarrow> string \<Rightarrow> string" where
  "parameter_error name what = ''parameter \"'' @ name @ ''\" '' @ what"

fun error_message :: "web_error \<Rightarrow> string" where
  "error_message (UnknownFormatError name) = ''unknown format \"'' @ name @ ''\"''"
| "error_message (MissingParameterError name) = ''missing required parameter \"'' @ name @ ''\"''"
| "error_message InvalidFingerprintError = ''invalid fingerprint''"
| "error_message InvalidAPIKeyError = ''invalid API key''"
| "error_message InvalidUserAPIKeyError = ''invalid user API key (\"User with the API key does not exist\")''"
| "error_message InternalError = ''internal error''"
| "error_message (InvalidUUIDError name) = parameter_error name ''is not a valid UUID''"
| "error_message (InvalidForeignIDError name) =
     parameter_error name ''is not a valid foreign ID, it must be in the format vendor:id''"
| "error_message (InvalidDurationError name) = parameter_error name ''must be a positive integer''"
| "error_message (InvalidBitrateError name) = parameter_error name ''must be a positive integer''"
| "error_message (InvalidMaxDurationDiffError name) =
     parameter_error name (''must be between 1 and '' @ int_str 30)"
| "error_message NotAllowedError = ''not allowed''"
| "error_message ServiceUnavailable = ''service currently unavailable, try again later''"
| "error_message (TooManyRequests rate) =
     ''rate limit ('' @ format_f rate @ '' requests per second) exceeded, try again later''"
| "error_message InvalidMusicBrainzAccessTokenError = ''invalid MusicBrainz access token''"
| "error_message InsecureRequestError = ''only requests over HTTPS are allowed here''"
| "error_message UnknownApplicationError = ''unknown application''"
| "error_message FingerprintNotFoundError = ''fingerprint not found''"
| "error_message RequestTooLargeError = ''request too large''"

text \<open>What a handler may raise: a web service error, another exception, or one of werkzeug's.\<close>

datatype api_exc =
    Web web_error
  | Crash py_exc
  | RequestEntityTooLarge
  | HttpException int

subsection \<open>Values\<close>

type_synonym request_values = "(string \<times> string) list list"

fun vget :: "request_values \<Rightarrow> string \<Rightarrow> string option" where
  "vget [] k = None"
| "vget (d # ds) k = (case map_of d k of Some v \<Rightarrow> Some v | None \<Rightarrow> vget ds k)"

text \<open>With \<open>type=int\<close>, a value that is not a number falls through to the next dictionary.\<close>

fun vget_int :: "request_values \<Rightarrow> string \<Rightarrow> int option" where
  "vget_int [] k = None"
| "vget_int (d # ds) k =
     (case map_of d k of
        None \<Rightarrow> vget_int ds k
      | Some v \<Rightarrow> (case py_int v of Some i \<Rightarrow> Some i | None \<Rightarrow> vget_int ds k))"

definition vget_bool :: "request_values \<Rightarrow> string \<Rightarrow> bool option" where
  "vget_bool values k = map_option (\<lambda>v. v \<noteq> []) (vget values k)"

definition vgetlist :: "request_values \<Rightarrow> string \<Rightarrow> string list" where
  "vgetlist values k = concat (map (\<lambda>d. map snd (filter (\<lambda>(k', v). k' = k) d)) values)"

definition vgetlist_int :: "request_values \<Rightarrow> string \<Rightarrow> int list" where
  "vgetlist_int values k = concat (map (\<lambda>v. case py_int v of None \<Rightarrow> [] | Some i \<Rightarrow> [i]) (vgetlist values k))"

definition value_names :: "request_values \<Rightarrow> string list" where
  "value_names values = concat (map (map fst) values)"

text \<open>\<open>name.split(".", 1)\<close> rebinds the loop's \<open>prefix\<close>, to the same text or a part of it before its first dot.\<close>

fun suffix_number :: "string \<Rightarrow> string list \<Rightarrow> py_exc + int list" where
  "suffix_number name [] = Inr []"
| "suffix_number name (prefix # prefixes) =
     (case suffix_number name prefixes of
        Inl e \<Rightarrow> Inl e
      | Inr rest \<Rightarrow>
          if name = prefix then Inr (-1 # rest)
          else if starts_with (prefix @ ''.'') name then
            (case snd (str_split1 CHR ''.'' name) of
               Some suffix \<Rightarrow>
                 if str_isdigit suffix then (case py_int suffix of None \<Rightarrow> Inl ValueError | Some i \<Rightarrow> Inr (i # rest))
                 else Inr rest
             | None \<Rightarrow> Inr rest)
          else Inr rest)"

fun collect_suffixes :: "string list \<Rightarrow> string list \<Rightarrow> py_exc + int list" where
  "collect_suffixes [] prefixes = Inr []"
| "collect_suffixes (name # names) prefixes =
     (case suffix_number name prefixes of
        Inl e \<Rightarrow> Inl e
      | Inr is \<Rightarrow> (case collect_suffixes names prefixes of Inl e \<Rightarrow> Inl e | Inr rest \<Rightarrow> Inr (is @ rest)))"

definition iter_args_suffixes :: "string list \<Rightarrow> string list \<Rightarrow> py_exc + string list" where
  "iter_args_suffixes args prefixes =
     (case collect_suffixes args prefixes of
        Inl e \<Rightarrow> Inl e
      | Inr results \<Rightarrow>
          Inr (map (\<lambda>i. if i \<noteq> -1 then ''.'' @ int_str i else []) (sorted_list_of_set (set results))))"

subsection \<open>Keys and formats\<close>

definition DEFAULT_FORMAT :: string where "DEFAULT_FORMAT = ''json''"
definition FORMATS :: "string list" where "FORMATS = [''xml'', ''json'', ''jsonp'']"
definition DEMO_APPLICATION_ID :: int where "DEMO_APPLICATION_ID = 2"

text \<open>
  A cache maps a key to the result computed for it, \<open>None\<close> results included; the environment removes
  entries as they expire or are evicted.
\<close>

record key_caches =
  kc_app :: "string \<rightharpoonup> int option"
  kc_user :: "string \<rightharpoonup> int option"

record api_env =
  ae_hmac :: "string \<Rightarrow> string \<Rightarrow> nat list"
  ae_today :: int
  ae_website_secret :: string
  ae_cluster_secret :: "string option"
  ae_cluster_role :: string
  ae_now :: rat

definition truthy_id :: "int option \<Rightarrow> int option" where
  "truthy_id i = (if i = Some 0 then None else i)"

definition check_app_api_key :: "api_env \<Rightarrow> app_db \<Rightarrow> string \<Rightarrow> key_caches \<Rightarrow> int option \<times> key_caches" where
  "check_app_api_key env db application_apikey kc =
     (case kc_app kc application_apikey of
        Some result \<Rightarrow> (result, kc)
      | None \<Rightarrow>
          let application_id = lookup_application_id_by_apikey db application_apikey True;
              application_id =
                (if truthy_id application_id = None
                    \<and> check_demo_client_api_key (ae_hmac env) (ae_today env) (ae_website_secret env) application_apikey 7
                 then Some DEMO_APPLICATION_ID else application_id)
          in (application_id, kc\<lparr>kc_app := (kc_app kc)(application_apikey \<mapsto> application_id)\<rparr>))"

definition check_user_api_key :: "app_db \<Rightarrow> string \<Rightarrow> key_caches \<Rightarrow> int option \<times> key_caches" where
  "check_user_api_key db user_apikey kc =
     (case kc_user kc user_apikey of
        Some result \<Rightarrow> (result, kc)
      | None \<Rightarrow>
          let account_id = lookup_account_id_by_apikey db user_apikey
          in (account_id, kc\<lparr>kc_user := (kc_user kc)(user_apikey \<mapsto> account_id)\<rparr>))"

subsection \<open>\<open>APIHandlerParams\<close>\<close>

record client_params =
  cp_application_id :: int
  cp_application_version :: "string option"

definition parse_client ::
    "api_env \<Rightarrow> app_db \<Rightarrow> request_values \<Rightarrow> key_caches \<Rightarrow> (api_exc + client_params) \<times> key_caches" where
  "parse_client env db values kc =
     (case vget values ''client'' of
        None \<Rightarrow> (Inl (Web (MissingParameterError ''client'')), kc)
      | Some [] \<Rightarrow> (Inl (Web (MissingParameterError ''client'')), kc)
      | Some application_apikey \<Rightarrow>
          let (application_id, kc) = check_app_api_key env db application_apikey kc
          in case truthy_id application_id of
               None \<Rightarrow> (Inl (Web InvalidAPIKeyError), kc)
             | Some i \<Rightarrow> (Inr \<lparr>cp_application_id = i, cp_application_version = vget values ''clientversion''\<rparr>, kc))"

text \<open>The pattern of a JSONP callback: dotted identifiers.\<close>

definition ident_start :: "char \<Rightarrow> bool" where
  "ident_start c \<longleftrightarrow> c = CHR ''$'' \<or> c = CHR ''_'' \<or> 65 \<le> code c \<and> code c \<le> 90 \<or> 97 \<le> code c \<and> code c \<le> 122"

definition ident_char :: "char \<Rightarrow> bool" where
  "ident_char c \<longleftrightarrow> is_alnum c \<or> c = CHR ''_''"

definition js_name :: "string \<Rightarrow> bool" where
  "js_name s \<longleftrightarrow> s \<noteq> [] \<and> ident_start (hd s) \<and> list_all ident_char (tl s)"

definition callback_body :: "string \<Rightarrow> bool" where
  "callback_body s \<longleftrightarrow> list_all js_name (str_split CHR ''.'' s)"

definition parse_format :: "request_values \<Rightarrow> string \<times> api_exc option" where
  "parse_format values =
     (let format = (case vget values ''format'' of None \<Rightarrow> DEFAULT_FORMAT | Some f \<Rightarrow> f)
      in if format \<notin> set FORMATS then (DEFAULT_FORMAT, Some (Web (UnknownFormatError DEFAULT_FORMAT)))
         else if format = ''jsonp'' then
           let callback = (case vget values ''jsoncallback'' of None \<Rightarrow> ''jsonAcoustidApi'' | Some cb \<Rightarrow> cb);
               callback = (if re_dollar callback_body callback then callback else ''jsonAcoustidApi'')
           in (format @ '':'' @ callback, None)
         else (format, None))"

subsection \<open>What a callback can contain\<close>

lemma str_split_chars: "c \<in> set s \<Longrightarrow> c = sep \<or> (\<exists>p \<in> set (str_split sep s). c \<in> set p)"
proof (induction s)
  case (Cons x xs)
  then show ?case by (auto split: list.splits)
qed simp

definition safe_char :: "char \<Rightarrow> bool" where
  "safe_char c \<longleftrightarrow> c = CHR ''.'' \<or> c = CHR ''$'' \<or> c = CHR ''_'' \<or> is_alnum c"

lemma js_name_safe: "js_name s \<Longrightarrow> list_all safe_char s"
proof -
  assume "js_name s"
  then obtain c cs where s: "s = c # cs" "ident_start c" "list_all ident_char cs"
    by (cases s) (simp_all add: js_name_def)
  have "safe_char c" using s(2) by (simp add: ident_start_def safe_char_def is_alnum_def disj_commute disj_left_commute)
  moreover have "list_all safe_char cs" using s(3) by (rule list.pred_mono_strong) (auto simp: ident_char_def safe_char_def)
  ultimately show ?thesis by (simp add: s(1))
qed

lemma callback_body_chars: "callback_body s \<Longrightarrow> list_all safe_char s"
  unfolding list_all_iff
proof
  fix c assume cb: "callback_body s" and "c \<in> set s"
  from str_split_chars [OF this(2), of "CHR ''.''"] show "safe_char c"
  proof
    assume "c = CHR ''.''"
    then show ?thesis by (simp add: safe_char_def)
  next
    assume "\<exists>p \<in> set (str_split CHR ''.'' s). c \<in> set p"
    then obtain p where p: "p \<in> set (str_split CHR ''.'' s)" "c \<in> set p" by blast
    then have "js_name p" using cb by (simp add: callback_body_def list_all_iff)
    with p(2) js_name_safe [of p] show ?thesis by (simp add: list_all_iff)
  qed
qed

lemma newline_not_safe: "\<not> safe_char newline"
  by (simp add: safe_char_def newline_def is_alnum_def is_digit_def)

definition safe_text :: "string \<Rightarrow> bool" where
  "safe_text s \<longleftrightarrow> list_all safe_char (if s \<noteq> [] \<and> last s = newline then butlast s else s)"

lemma callback_safe: "re_dollar callback_body s \<Longrightarrow> safe_text s"
proof -
  assume "re_dollar callback_body s"
  then consider "callback_body s" | "s \<noteq> []" "last s = newline" "callback_body (butlast s)" by (auto simp: re_dollar_def)
  then show ?thesis
  proof cases
    case 1
    then have all: "list_all safe_char s" by (rule callback_body_chars)
    then have "s \<noteq> [] \<Longrightarrow> last s \<noteq> newline" using newline_not_safe last_in_set unfolding list_all_iff by metis
    with all show ?thesis by (auto simp: safe_text_def)
  next
    case 2
    then show ?thesis by (simp add: safe_text_def callback_body_chars)
  qed
qed

text \<open>A client can only make the service answer in one of its formats, and the text it can choose for a JSONP
  response consists of letters, digits, \<open>$\<close>, \<open>_\<close> and dots, with at most one newline at its end: it can put no other
  script into the response. (The error for an unknown format names the default format instead of the client's.)\<close>

lemma parse_format_safe:
  "\<exists>callback. fst (parse_format values) \<in> {''json'', ''xml'', ''jsonp:'' @ callback} \<and>
     list_all (\<lambda>c. c = CHR ''.'' \<or> c = CHR ''$'' \<or> c = CHR ''_'' \<or> is_alnum c)
       (if callback \<noteq> [] \<and> last callback = newline then butlast callback else callback) \<and>
     snd (parse_format values) \<in> {None, Some (Web (UnknownFormatError ''json''))}"
proof -
  define f where "f = (case vget values ''format'' of None \<Rightarrow> DEFAULT_FORMAT | Some f \<Rightarrow> f)"
  define cb where "cb = (case vget values ''jsoncallback'' of None \<Rightarrow> ''jsonAcoustidApi'' | Some cb \<Rightarrow> cb)"
  define cb' where "cb' = (if re_dollar callback_body cb then cb else ''jsonAcoustidApi'')"
  have "safe_text ''jsonAcoustidApi''"
    by (simp add: safe_text_def safe_char_def is_alnum_def is_digit_def newline_def)
  then have "safe_text cb'" using callback_safe [of cb] by (simp add: cb'_def)
  moreover have "parse_format values =
    (if f \<notin> set FORMATS then (DEFAULT_FORMAT, Some (Web (UnknownFormatError DEFAULT_FORMAT)))
     else if f = ''jsonp'' then (f @ '':'' @ cb', None) else (f, None))"
    by (simp add: parse_format_def f_def cb'_def cb_def Let_def)
  then have "fst (parse_format values) \<in> {''json'', ''xml'', ''jsonp:'' @ cb'} \<and>
      snd (parse_format values) \<in> {None, Some (Web (UnknownFormatError ''json''))}"
    by (auto simp: FORMATS_def DEFAULT_FORMAT_def)
  ultimately show ?thesis unfolding safe_text_def safe_char_def [abs_def] by blast
qed

end
