(* ===== verification/Serialize.thy ===== *)
theory Serialize
  imports Json Py_Strings "HOL-Library.Char_ord" "HOL-Library.List_Lexorder"
begin

text \<open>
  Response bodies: the serialisers of \<^verbatim>\<open>api/__init__.py\<close>. XML is modelled up to the element tree; \<open>repr_float\<close>
  prints a float, and \<open>container_text\<close> is \<open>str\<close> of a list or dictionary.
\<close>

subsection \<open>JSON\<close>

definition hex4 :: "nat \<Rightarrow> string" where
  "hex4 n = [hex_char (n div 4096 mod 16), hex_char (n div 256 mod 16), hex_char (n div 16 mod 16), hex_char (n mod 16)]"

text \<open>\<open>json.dumps\<close> with \<open>ensure_ascii\<close>: everything outside printable ASCII is escaped.\<close>

definition dumps_char :: "char \<Rightarrow> string" where
  "dumps_char c =
     (if c = CHR 0x22 then [CHR 0x5C, CHR 0x22]
      else if c = CHR 0x5C then [CHR 0x5C, CHR 0x5C]
      else if code c = 10 then [CHR 0x5C, CHR ''n'']
      else if code c = 13 then [CHR 0x5C, CHR ''r'']
      else if code c = 9 then [CHR 0x5C, CHR ''t'']
      else if code c = 12 then [CHR 0x5C, CHR ''f'']
      else if code c = 8 then [CHR 0x5C, CHR ''b'']
      else if code c < 32 \<or> 126 < code c \<and> code c \<noteq> 127 then CHR 0x5C # CHR ''u'' # hex4 (code c)
      else [c])"

definition dumps_str :: "string \<Rightarrow> string" where
  "dumps_str s = CHR 0x22 # concat (map dumps_char s) @ [CHR 0x22]"

fun dumps :: "(rat \<Rightarrow> string) \<Rightarrow> json \<Rightarrow> string" where
  "dumps repr_float JNull = ''null''"
| "dumps repr_float (JBool b) = (if b then ''true'' else ''false'')"
| "dumps repr_float (JInt i) = int_str i"
| "dumps repr_float (JNum q) = repr_float q"
| "dumps repr_float (JStr s) = dumps_str s"
| "dumps repr_float (JArr xs) = ''['' @ str_join '', '' (map (dumps repr_float) xs) @ '']''"
| "dumps repr_float (JObj d) =
     ''{'' @ str_join '', '' (map (\<lambda>(k, text). dumps_str k @ '': '' @ text)
       (sort_key fst (map (\<lambda>(k, v). (k, dumps repr_float v)) d))) @ ''}''"

subsection \<open>XML\<close>

datatype xml = Element (x_tag: string) (x_attrib: "(string \<times> string) list") (x_text: "string option") (x_children: "xml list")

fun text_type :: "(rat \<Rightarrow> string) \<Rightarrow> (json \<Rightarrow> string) \<Rightarrow> json \<Rightarrow> string" where
  "text_type repr_float container_text JNull = ''None''"
| "text_type repr_float container_text (JBool b) = (if b then ''True'' else ''False'')"
| "text_type repr_float container_text (JInt i) = int_str i"
| "text_type repr_float container_text (JNum q) = repr_float q"
| "text_type repr_float container_text (JStr s) = s"
| "text_type repr_float container_text v = container_text v"

fun all_inr :: "('e + 'a) list \<Rightarrow> 'e + 'a list" where
  "all_inr [] = Inr []"
| "all_inr (x # xs) = (case x of Inl e \<Rightarrow> Inl e | Inr v \<Rightarrow> (case all_inr xs of Inl e \<Rightarrow> Inl e | Inr vs \<Rightarrow> Inr (v # vs)))"

definition is_attribute :: "string \<Rightarrow> bool" where
  "is_attribute name \<longleftrightarrow> starts_with ''@'' name"

text \<open>
  \<open>_serialize_xml_node\<close> fills an element of the given tag: a dictionary gives attributes and children in
  order of the names, a list gives children named by the singular of the tag, other values give the text.
\<close>

fun serialize_xml_node :: "(rat \<Rightarrow> string) \<Rightarrow> (json \<Rightarrow> string) \<Rightarrow> string \<Rightarrow> json \<Rightarrow> py_exc + xml" where
  "serialize_xml_node rf ct tag (JObj d) =
     (let nodes = sort_key fst (map (\<lambda>(name, v). (name, v, serialize_xml_node rf ct name v)) d)
      in case all_inr (map (\<lambda>(name, v, node). node) (filter (\<lambda>(name, v, node). \<not> is_attribute name) nodes)) of
           Inl e \<Rightarrow> Inl e
         | Inr children \<Rightarrow>
             Inr (Element tag (map (\<lambda>(name, v, node). (tl name, text_type rf ct v)) (filter (\<lambda>(name, v, node). is_attribute name) nodes))
                    None children))"
| "serialize_xml_node rf ct tag (JArr xs) =
     (case singular tag of
        Inl e \<Rightarrow> Inl e
      | Inr name \<Rightarrow>
          (case all_inr (map (serialize_xml_node rf ct name) xs) of
             Inl e \<Rightarrow> Inl e
           | Inr children \<Rightarrow> Inr (Element tag [] None children)))"
| "serialize_xml_node rf ct tag v = Inr (Element tag [] (Some (text_type rf ct v)) [])"

subsection \<open>Responses\<close>

datatype response_body = Json_Body string | Javascript_Body string | Xml_Body xml | Text_Body string

record api_response =
  ar_status :: int
  ar_body :: response_body

record printers =
  p_repr_float :: "rat \<Rightarrow> string"
  p_container_text :: "json \<Rightarrow> string"

definition serialize_xml :: "printers \<Rightarrow> json \<Rightarrow> int \<Rightarrow> py_exc + api_response" where
  "serialize_xml p data status =
     (case serialize_xml_node (p_repr_float p) (p_container_text p) ''response'' data of
        Inl e \<Rightarrow> Inl e | Inr doc \<Rightarrow> Inr \<lparr>ar_status = status, ar_body = Xml_Body doc\<rparr>)"

definition serialize_json :: "printers \<Rightarrow> json \<Rightarrow> string option \<Rightarrow> int \<Rightarrow> py_exc + api_response" where
  "serialize_json p data callback status =
     (let res = dumps (p_repr_float p) data
      in Inr \<lparr>ar_status = status,
              ar_body = (case callback of
                  None \<Rightarrow> Json_Body res
                | Some [] \<Rightarrow> Json_Body res
                | Some cb \<Rightarrow> Javascript_Body (cb @ ''('' @ res @ '')''))\<rparr>)"

definition serialize_response :: "printers \<Rightarrow> json \<Rightarrow> string \<Rightarrow> int \<Rightarrow> py_exc + api_response" where
  "serialize_response p data format status =
     (if format = ''json'' then serialize_json p data None status
      else if starts_with ''jsonp:'' format then serialize_json p data (snd (str_split1 CHR '':'' format)) status
      else serialize_xml p data status)"

text \<open>Health checks.\<close>

definition get_health_response :: "string \<Rightarrow> bool \<Rightarrow> bool \<Rightarrow> api_response" where
  "get_health_response cluster_role shutting_down require_master =
     (if require_master \<and> cluster_role \<noteq> ''master'' then \<lparr>ar_status = 503, ar_body = Text_Body ''not the master server''\<rparr>
      else if shutting_down then \<lparr>ar_status = 503, ar_body = Text_Body ''shutdown in process''\<rparr>
      else \<lparr>ar_status = 200, ar_body = Text_Body ''ok''\<rparr>)"

subsection \<open>When XML is possible\<close>

text \<open>A list can be serialised where its name has a singular: at names that end in \<open>s\<close>.\<close>

fun xml_ready :: "string \<Rightarrow> json \<Rightarrow> bool" where
  "xml_ready tag (JObj d) = list_all (\<lambda>(name, ok). is_attribute name \<or> ok) (map (\<lambda>(name, v). (name, xml_ready name v)) d)"
| "xml_ready tag (JArr xs) = (case singular tag of Inl e \<Rightarrow> False | Inr name \<Rightarrow> list_all id (map (xml_ready name) xs))"
| "xml_ready tag _ = True"

lemma all_inr_ok: "(\<And>x. x \<in> set xs \<Longrightarrow> \<exists>v. x = Inr v) \<Longrightarrow> \<exists>vs. all_inr xs = Inr vs"
proof (induction xs)
  case (Cons x xs)
  then obtain v vs where "x = Inr v" "all_inr xs = Inr vs" by (metis list.set_intros)
  then show ?case by simp
qed simp

lemma xml_ready_serializes: "xml_ready tag v \<Longrightarrow> \<exists>node. serialize_xml_node rf ct tag v = Inr node"
proof (induction rf ct tag v rule: serialize_xml_node.induct)
  case (1 rf ct tag d)
  let ?nodes = "sort_key fst (map (\<lambda>(name, v). (name, v, serialize_xml_node rf ct name v)) d)"
  have "\<exists>vs. all_inr (map (\<lambda>(name, v, node). node) (filter (\<lambda>(name, v, node). \<not> is_attribute name) ?nodes)) = Inr vs"
  proof (rule all_inr_ok)
    fix x assume "x \<in> set (map (\<lambda>(name, v, node). node) (filter (\<lambda>(name, v, node). \<not> is_attribute name) ?nodes))"
    then obtain name v where "(name, v) \<in> set d" "\<not> is_attribute name" "x = serialize_xml_node rf ct name v" by auto
    with 1 show "\<exists>v. x = Inr v" by (fastforce simp: list_all_iff)
  qed
  then show ?case by auto
next
  case (2 rf ct tag xs)
  then obtain name where name: "singular tag = Inr name" "list_all id (map (xml_ready name) xs)" by (auto split: sum.splits)
  have "\<exists>vs. all_inr (map (serialize_xml_node rf ct name) xs) = Inr vs"
    by (rule all_inr_ok) (use 2 name in \<open>auto simp: list_all_iff\<close>)
  with name show ?case by auto
qed auto

end
