(* ===== verification/Ratelimit.thy ===== *)
theory Ratelimit
  imports Py_Strings
begin

text \<open>
  \<^verbatim>\<open>ratelimiter.py\<close>: a sliding window of counters in Redis, one per key and time slot. Redis is the map it
  documents itself to be: a key holds a number and the time at which it disappears; \<open>INCR\<close> and \<open>DECR\<close>
  keep that time, and a key that is gone counts from zero. Times are rationals.
\<close>

subsection \<open>Redis counters\<close>

type_synonym redis = "string \<rightharpoonup> int \<times> rat option"

definition live :: "rat \<Rightarrow> redis \<Rightarrow> string \<Rightarrow> (int \<times> rat option) option" where
  "live now st k = (case st k of
     None \<Rightarrow> None
   | Some (v, None) \<Rightarrow> Some (v, None)
   | Some (v, Some e) \<Rightarrow> if now < e then Some (v, Some e) else None)"

definition redis_get :: "rat \<Rightarrow> redis \<Rightarrow> string \<Rightarrow> int option" where
  "redis_get now st k = map_option fst (live now st k)"

definition redis_add :: "int \<Rightarrow> rat \<Rightarrow> redis \<Rightarrow> string \<Rightarrow> int \<times> redis" where
  "redis_add d now st k = (case live now st k of
     None \<Rightarrow> (d, st(k \<mapsto> (d, None)))
   | Some (v, e) \<Rightarrow> (v + d, st(k \<mapsto> (v + d, e))))"

definition redis_expire :: "rat \<Rightarrow> int \<Rightarrow> redis \<Rightarrow> string \<Rightarrow> redis" where
  "redis_expire now seconds st k = (case live now st k of
     None \<Rightarrow> st
   | Some (v, e) \<Rightarrow> st(k \<mapsto> (v, Some (now + of_int seconds))))"

subsection \<open>The limiter\<close>

record rate_limiter =
  rl_prefix :: string
  rl_interval :: int
  rl_steps :: int

definition new_rate_limiter :: "string \<Rightarrow> rate_limiter" where
  "new_rate_limiter prefix = \<lparr>rl_prefix = prefix, rl_interval = 20, rl_steps = 4\<rparr>"

definition time_slot :: "rate_limiter \<Rightarrow> rat \<Rightarrow> int" where
  "time_slot rl now = \<lfloor>of_int (rl_steps rl) * now / of_int (rl_interval rl)\<rfloor>"

definition rate_key :: "rate_limiter \<Rightarrow> string \<Rightarrow> string \<Rightarrow> int \<Rightarrow> string" where
  "rate_key rl bucket key ts = rl_prefix rl @ '':'' @ bucket @ '':'' @ key @ '':'' @ int_str ts"

definition rate_limit_hit ::
    "rate_limiter \<Rightarrow> rat \<Rightarrow> string \<Rightarrow> string \<Rightarrow> rat \<Rightarrow> redis \<Rightarrow> bool \<times> redis" where
  "rate_limit_hit rl now bucket key rate st =
     (let ts = time_slot rl now;
          full_key = rate_key rl bucket key ts;
          (count, st) = redis_add 1 now st full_key;
          st = redis_expire now ((rl_steps rl + 1) * rl_interval rl div rl_steps rl) st full_key;
          count = count + (\<Sum>i \<leftarrow> [1..rl_steps rl - 1].
                    case redis_get now st (rate_key rl bucket key (ts - i)) of None \<Rightarrow> 0 | Some v \<Rightarrow> v)
      in if of_int count > rate * of_int (rl_interval rl)
         then (True, snd (redis_add (-1) now st full_key))
         else (False, st))"

subsection \<open>Keys\<close>

lemma takeWhile_before: "c \<notin> set p \<Longrightarrow> takeWhile (\<lambda>x. x \<noteq> c) (p @ c # q) = p"
  by (induction p) auto

lemma split_last_colon:
  assumes "a @ CHR '':'' # x = b @ CHR '':'' # y" "CHR '':'' \<notin> set x" "CHR '':'' \<notin> set y"
  shows "a = b \<and> x = y"
proof -
  have "rev (a @ CHR '':'' # x) = rev (b @ CHR '':'' # y)" using assms(1) by simp
  then have "rev x @ CHR '':'' # rev a = rev y @ CHR '':'' # rev b" by simp
  then have "takeWhile (\<lambda>c. c \<noteq> CHR '':'') (rev x @ CHR '':'' # rev a) = takeWhile (\<lambda>c. c \<noteq> CHR '':'') (rev y @ CHR '':'' # rev b)"
    by simp
  then have "x = y" using assms(2,3) by (simp add: takeWhile_before)
  with assms(1) show ?thesis by simp
qed

lemma split_first_colon:
  assumes "x @ CHR '':'' # a = y @ CHR '':'' # b" "CHR '':'' \<notin> set x" "CHR '':'' \<notin> set y"
  shows "x = y \<and> a = b"
proof -
  have "takeWhile (\<lambda>c. c \<noteq> CHR '':'') (x @ CHR '':'' # a) = takeWhile (\<lambda>c. c \<noteq> CHR '':'') (y @ CHR '':'' # b)"
    using assms(1) by simp
  then have "x = y" using assms(2,3) by (simp add: takeWhile_before)
  with assms(1) show ?thesis by simp
qed

lemma rate_key_inj:
  assumes "rate_key rl b k t = rate_key rl b' k' t'" "CHR '':'' \<notin> set b" "CHR '':'' \<notin> set b'"
  shows "b = b' \<and> k = k' \<and> t = t'"
proof -
  have "(b @ '':'' @ k) @ CHR '':'' # int_str t = (b' @ '':'' @ k') @ CHR '':'' # int_str t'"
    using assms(1) by (simp add: rate_key_def)
  from split_last_colon [OF this] have "b @ CHR '':'' # k = b' @ CHR '':'' # k'" "int_str t = int_str t'"
    using int_str_no_colon by simp_all
  then show ?thesis using split_first_colon [of b k b' k'] assms(2,3) int_str_inj by auto
qed

subsection \<open>What a counter shows\<close>

definition shown :: "rat \<Rightarrow> redis \<Rightarrow> string \<Rightarrow> int" where
  "shown now st k = (case redis_get now st k of None \<Rightarrow> 0 | Some v \<Rightarrow> v)"

lemma redis_add_shown: "fst (redis_add d now st k) = shown now st k + d"
  by (auto simp: redis_add_def shown_def redis_get_def split: option.split)

lemma redis_frame:
  "k' \<noteq> k \<Longrightarrow> snd (redis_add d now st k) k' = st k'" "k' \<noteq> k \<Longrightarrow> redis_expire now secs st k k' = st k'"
  by (auto simp: redis_add_def redis_expire_def split: option.split)

lemma add_expire:
  assumes "0 < secs"
  shows "redis_expire now secs (snd (redis_add d now st k)) k k = Some (shown now st k + d, Some (now + of_int secs))"
  using assms by (auto simp: redis_add_def redis_expire_def shown_def redis_get_def live_def split: option.splits)

lemma shown_cong: "st' k = st k \<Longrightarrow> shown now st' k = shown now st k"
  by (simp add: shown_def redis_get_def live_def)

lemma shown_at: "st k = Some (v, Some e) \<Longrightarrow> now < e \<Longrightarrow> shown now st k = v"
  by (simp add: shown_def redis_get_def live_def)

text \<open>One call, by what it reads and writes.\<close>

definition lifetime :: "rate_limiter \<Rightarrow> int" where
  "lifetime rl = (rl_steps rl + 1) * rl_interval rl div rl_steps rl"

lemma rate_limit_hit_eq:
  fixes rl :: rate_limiter and st :: redis and bucket key :: string and now rate :: rat
  assumes "0 < lifetime rl" "CHR '':'' \<notin> set bucket"
  defines "ts \<equiv> time_slot rl now"
  defines "count \<equiv> shown now st (rate_key rl bucket key ts) + 1 +
     (\<Sum>i \<leftarrow> [1..rl_steps rl - 1]. shown now st (rate_key rl bucket key (ts - i)))"
  shows "fst (rate_limit_hit rl now bucket key rate st) \<longleftrightarrow> of_int count > rate * of_int (rl_interval rl)"
    and "snd (rate_limit_hit rl now bucket key rate st) (rate_key rl bucket key ts) =
      Some (shown now st (rate_key rl bucket key ts) + (if of_int count > rate * of_int (rl_interval rl) then 0 else 1),
            Some (now + of_int (lifetime rl)))"
    and "k' \<noteq> rate_key rl bucket key ts \<Longrightarrow> snd (rate_limit_hit rl now bucket key rate st) k' = st k'"
proof -
  let ?k = "rate_key rl bucket key ts"
  let ?st = "redis_expire now (lifetime rl) (snd (redis_add 1 now st ?k)) ?k"
  have other: "k' \<noteq> ?k \<Longrightarrow> ?st k' = st k'" for k' by (simp add: redis_frame)
  have "rate_key rl bucket key (ts - i) \<noteq> ?k" if "i \<in> set [1..rl_steps rl - 1]" for i
    using rate_key_inj [of rl bucket key "ts - i" bucket key ts] assms(2) that by auto
  then have "shown now ?st (rate_key rl bucket key (ts - i)) = shown now st (rate_key rl bucket key (ts - i))"
    if "i \<in> set [1..rl_steps rl - 1]" for i
    using other shown_cong that by metis
  then have sum: "(\<Sum>i \<leftarrow> [1..rl_steps rl - 1]. shown now ?st (rate_key rl bucket key (ts - i))) =
      (\<Sum>i \<leftarrow> [1..rl_steps rl - 1]. shown now st (rate_key rl bucket key (ts - i)))"
    by (intro arg_cong [where f = sum_list] map_cong) auto
  have hit: "rate_limit_hit rl now bucket key rate st =
      (if of_int count > rate * of_int (rl_interval rl) then (True, snd (redis_add (-1) now ?st ?k)) else (False, ?st))"
  proof -
    have add: "redis_add 1 now st ?k = (shown now st ?k + 1, snd (redis_add 1 now st ?k))"
      using redis_add_shown [of 1 now st ?k] by (metis prod.collapse)
    have life: "(rl_steps rl + 1) * rl_interval rl div rl_steps rl = lifetime rl" by (simp add: lifetime_def)
    have count: "shown now st ?k + 1 + (\<Sum>i \<leftarrow> [1..rl_steps rl - 1]. shown now ?st (rate_key rl bucket key (ts - i))) = count"
      using sum by (simp add: count_def)
    show ?thesis
      unfolding rate_limit_hit_def Let_def ts_def [symmetric] shown_def [symmetric] life
      by (subst add) (simp only: prod.case count)
  qed
  have st: "?st ?k = Some (shown now st ?k + 1, Some (now + of_int (lifetime rl)))" using assms(1) by (rule add_expire)
  show "fst (rate_limit_hit rl now bucket key rate st) \<longleftrightarrow> of_int count > rate * of_int (rl_interval rl)" by (simp add: hit)
  show "snd (rate_limit_hit rl now bucket key rate st) ?k =
      Some (shown now st ?k + (if of_int count > rate * of_int (rl_interval rl) then 0 else 1), Some (now + of_int (lifetime rl)))"
    using st assms(1) by (simp add: hit redis_add_def live_def)
  show "k' \<noteq> ?k \<Longrightarrow> snd (rate_limit_hit rl now bucket key rate st) k' = st k'"
    using other by (simp add: hit redis_frame)
qed

subsection \<open>A client never gets more than its rate\<close>

record rate_request =
  rr_time :: rat
  rr_bucket :: string
  rr_key :: string
  rr_rate :: rat

text \<open>The slots of the requests of one client that were let through, in a run of requests of many.\<close>

fun accepted :: "rate_limiter \<Rightarrow> string \<Rightarrow> string \<Rightarrow> rate_request list \<Rightarrow> redis \<Rightarrow> int list" where
  "accepted rl bucket key [] st = []"
| "accepted rl bucket key (q # qs) st =
     (let (hit, st') = rate_limit_hit rl (rr_time q) (rr_bucket q) (rr_key q) (rr_rate q) st
      in (if \<not> hit \<and> rr_bucket q = bucket \<and> rr_key q = key then [time_slot rl (rr_time q)] else []) @ accepted rl bucket key qs st')"

definition in_window :: "rate_limiter \<Rightarrow> int \<Rightarrow> int list \<Rightarrow> int" where
  "in_window rl s slots = int (length (filter (\<lambda>t. s - rl_steps rl < t \<and> t \<le> s) slots))"

definition in_slot :: "int \<Rightarrow> int list \<Rightarrow> int" where
  "in_slot t slots = int (length (filter (\<lambda>x. x = t) slots))"

definition good_limiter :: "rate_limiter \<Rightarrow> bool" where
  "good_limiter rl \<longleftrightarrow> 0 < rl_steps rl \<and> 0 < rl_interval rl"

text \<open>The counters show the requests let through, for every slot that is still looked at.\<close>

definition counters_ok :: "rate_limiter \<Rightarrow> string \<Rightarrow> string \<Rightarrow> rat \<Rightarrow> int list \<Rightarrow> redis \<Rightarrow> bool" where
  "counters_ok rl bucket key now slots st \<longleftrightarrow> (\<forall>t \<in> set slots. t \<le> time_slot rl now) \<and>
     (\<forall>later t. now \<le> later \<longrightarrow> time_slot rl later < t + rl_steps rl \<longrightarrow>
        shown later st (rate_key rl bucket key t) = in_slot t slots)"

definition within_rate :: "rate_limiter \<Rightarrow> rat \<Rightarrow> int list \<Rightarrow> bool" where
  "within_rate rl rate slots \<longleftrightarrow> (\<forall>s. of_int (in_window rl s slots) \<le> rate * of_int (rl_interval rl))"

lemma time_slot_mono: "good_limiter rl \<Longrightarrow> s \<le> t \<Longrightarrow> time_slot rl s \<le> time_slot rl t"
  unfolding time_slot_def good_limiter_def
  by (intro floor_mono divide_right_mono mult_left_mono) simp_all

lemma lifetime_ge: "good_limiter rl \<Longrightarrow> rl_interval rl \<le> lifetime rl"
proof -
  assume g: "good_limiter rl"
  then have "rl_interval rl * rl_steps rl \<le> (rl_steps rl + 1) * rl_interval rl" by (simp add: good_limiter_def algebra_simps)
  then have "rl_interval rl * rl_steps rl div rl_steps rl \<le> (rl_steps rl + 1) * rl_interval rl div rl_steps rl"
    using g by (intro zdiv_mono1) (simp_all add: good_limiter_def)
  then show ?thesis using g by (simp add: lifetime_def good_limiter_def)
qed

text \<open>A counter outlives every window it belongs to.\<close>

lemma still_live:
  assumes "good_limiter rl" "time_slot rl later < time_slot rl now + rl_steps rl"
  shows "later < now + of_int (lifetime rl)"
proof -
  let ?n = "of_int (rl_steps rl) :: rat" and ?i = "of_int (rl_interval rl) :: rat"
  have pos: "0 < ?n" "0 < ?i" using assms(1) by (simp_all add: good_limiter_def)
  have "?n * later / ?i < of_int (time_slot rl later) + 1" using floor_correct [of "?n * later / ?i"] by (simp add: time_slot_def)
  also have "\<dots> \<le> of_int (time_slot rl now + rl_steps rl)" using assms(2) by (metis of_int_1 of_int_add of_int_le_iff zless_imp_add1_zle)
  also have "\<dots> \<le> ?n * now / ?i + ?n" by (simp add: time_slot_def)
  finally have "?n * later / ?i < ?n * (now + ?i) / ?i" using pos by (simp add: field_simps)
  then have "later < now + ?i" using pos by (simp add: divide_less_cancel)
  moreover have "?i \<le> of_int (lifetime rl)" using lifetime_ge [OF assms(1)] by simp
  ultimately show ?thesis by linarith
qed

lemma sum_list_upto: "(\<Sum>i \<leftarrow> [1..n]. f i) = (\<Sum>i \<in> {1..n}. f i)" for f :: "int \<Rightarrow> int"
  by (simp add: sum.distinct_set_conv_list [symmetric] flip: set_upto)

lemma window_slots:
  assumes "0 < rl_steps rl"
  shows "in_slot s slots + (\<Sum>i \<leftarrow> [1..rl_steps rl - 1]. in_slot (s - i) slots) = in_window rl s slots"
proof (induction slots)
  case (Cons a slots)
  have "(\<Sum>i \<in> {1..rl_steps rl - 1}. if a = s - i then 1 else 0 :: int) = (\<Sum>i \<in> {1..rl_steps rl - 1}. if i = s - a then 1 else 0)"
    by (intro sum.cong) auto
  also have "\<dots> = (if 1 \<le> s - a \<and> s - a \<le> rl_steps rl - 1 then 1 else 0)" by (simp add: sum.delta')
  finally have one: "(\<Sum>i \<in> {1..rl_steps rl - 1}. if a = s - i then 1 else 0 :: int) =
    (if 1 \<le> s - a \<and> s - a \<le> rl_steps rl - 1 then 1 else 0)" .
  have slot: "in_slot t (a # slots) = (if a = t then 1 else 0) + in_slot t slots" for t by (simp add: in_slot_def)
  have win: "in_window rl s (a # slots) = (if s - rl_steps rl < a \<and> a \<le> s then 1 else 0) + in_window rl s slots"
    by (simp add: in_window_def)
  show ?case using Cons one assms unfolding slot win sum_list_upto sum.distrib by auto
qed (simp add: in_slot_def in_window_def sum_list_upto)

lemma counters_keep:
  assumes "counters_ok rl bucket key now slots st" "good_limiter rl" "now \<le> now'"
    and "\<And>t. st' (rate_key rl bucket key t) = st (rate_key rl bucket key t)"
  shows "counters_ok rl bucket key now' slots st'"
proof -
  have "time_slot rl now \<le> time_slot rl now'" using assms(2,3) by (rule time_slot_mono)
  moreover have "shown later st' (rate_key rl bucket key t) = shown later st (rate_key rl bucket key t)" for later t
    using assms(4) by (rule shown_cong)
  ultimately show ?thesis using assms(1,3) by (force simp: counters_ok_def)
qed

lemma window_extended:
  assumes "within_rate rl rate slots" "\<forall>t \<in> set slots. t \<le> ts" "0 < rl_steps rl"
    and "of_int (in_window rl ts slots + 1) \<le> rate * of_int (rl_interval rl)"
  shows "within_rate rl rate (slots @ [ts])"
  unfolding within_rate_def
proof
  fix s
  show "of_int (in_window rl s (slots @ [ts])) \<le> rate * of_int (rl_interval rl)"
  proof (cases "s - rl_steps rl < ts \<and> ts \<le> s")
    case False
    then have "in_window rl s (slots @ [ts]) = in_window rl s slots" by (simp add: in_window_def)
    with assms(1) show ?thesis by (simp add: within_rate_def)
  next
    case True
    have "filter (\<lambda>t. s - rl_steps rl < t \<and> t \<le> s) slots = filter (\<lambda>t. s - rl_steps rl < t \<and> t \<le> s) (filter (\<lambda>t. ts - rl_steps rl < t \<and> t \<le> ts) slots)"
      using assms(2) True by (auto intro!: filter_cong)
    then have "length (filter (\<lambda>t. s - rl_steps rl < t \<and> t \<le> s) slots) \<le> length (filter (\<lambda>t. ts - rl_steps rl < t \<and> t \<le> ts) slots)"
      by (metis length_filter_le)
    then have "in_window rl s (slots @ [ts]) \<le> in_window rl ts slots + 1" using True by (simp add: in_window_def)
    then have "rat_of_int (in_window rl s (slots @ [ts])) \<le> rat_of_int (in_window rl ts slots + 1)" by (simp only: of_int_le_iff)
    then show ?thesis using assms(4) by (rule order_trans)
  qed
qed

text \<open>A request of the client itself.\<close>

lemma own_request:
  assumes ok: "counters_ok rl bucket key now slots st" and good: "good_limiter rl" and later: "now \<le> now'"
    and bucket: "CHR '':'' \<notin> set bucket" and within: "within_rate rl rate slots" and rate: "rate' \<le> rate"
  defines "hit \<equiv> fst (rate_limit_hit rl now' bucket key rate' st)" and "st' \<equiv> snd (rate_limit_hit rl now' bucket key rate' st)"
  shows "counters_ok rl bucket key now' (slots @ (if hit then [] else [time_slot rl now'])) st' \<and>
    within_rate rl rate (slots @ (if hit then [] else [time_slot rl now']))"
proof -
  define ts where "ts = time_slot rl now'"
  have steps: "0 < rl_steps rl" "0 < lifetime rl" using good lifetime_ge [OF good] by (auto simp: good_limiter_def)
  have upto: "\<forall>t \<in> set slots. t \<le> ts"
    using ok time_slot_mono [OF good later] by (force simp: counters_ok_def ts_def)
  have seen: "shown later st (rate_key rl bucket key t) = in_slot t slots" if "now' \<le> later" "time_slot rl later < t + rl_steps rl" for later t
    using ok that assms(3) by (simp add: counters_ok_def)
  have "(\<Sum>i \<leftarrow> [1..rl_steps rl - 1]. shown now' st (rate_key rl bucket key (ts - i))) = (\<Sum>i \<leftarrow> [1..rl_steps rl - 1]. in_slot (ts - i) slots)"
    by (intro arg_cong [where f = sum_list] map_cong refl seen) (auto simp: ts_def)
  then have count: "shown now' st (rate_key rl bucket key ts) + 1 + (\<Sum>i \<leftarrow> [1..rl_steps rl - 1]. shown now' st (rate_key rl bucket key (ts - i))) =
      in_window rl ts slots + 1"
    using window_slots [OF steps(1), of ts slots] seen [of now' ts] steps(1) by (simp add: ts_def)
  note eq = rate_limit_hit_eq [OF steps(2) bucket, where now = now' and st = st and key = key and rate = rate', folded ts_def, unfolded count]
  have hit: "hit \<longleftrightarrow> of_int (in_window rl ts slots + 1) > rate' * of_int (rl_interval rl)" using eq(1) by (simp add: hit_def)
  let ?slots = "slots @ (if hit then [] else [ts])"
  have "within_rate rl rate ?slots"
  proof (cases hit)
    case False
    have "rate' * of_int (rl_interval rl) \<le> rate * of_int (rl_interval rl)"
      using rate good by (simp add: good_limiter_def mult_right_mono)
    with False hit have "of_int (in_window rl ts slots + 1) \<le> rate * of_int (rl_interval rl)" by linarith
    with window_extended [OF within upto steps(1)] False show ?thesis by simp
  qed (use within in simp)
  moreover have "counters_ok rl bucket key now' ?slots st'"
    unfolding counters_ok_def
  proof (intro conjI allI impI)
    show "\<forall>t \<in> set ?slots. t \<le> time_slot rl now'" using upto by (simp add: ts_def)
    fix later t assume later: "now' \<le> later" "time_slot rl later < t + rl_steps rl"
    show "shown later st' (rate_key rl bucket key t) = in_slot t ?slots"
    proof (cases "t = ts")
      case True
      have "shown later st' (rate_key rl bucket key ts) = in_slot ts slots + (if hit then 0 else 1)"
        using eq(2) hit seen [of now' ts] steps(1) still_live [OF good, of later now'] later(2) True
        by (intro shown_at) (simp_all add: st'_def ts_def)
      then show ?thesis using True by (simp add: in_slot_def)
    next
      case False
      then have "rate_key rl bucket key t \<noteq> rate_key rl bucket key ts"
        using rate_key_inj [of rl bucket key t bucket key ts] bucket by blast
      then have "st' (rate_key rl bucket key t) = st (rate_key rl bucket key t)"
        unfolding st'_def by (rule eq(3))
      then have "shown later st' (rate_key rl bucket key t) = in_slot t slots"
        using shown_cong [of st' _ st later] seen [OF later] by presburger
      then show ?thesis using False by (simp add: in_slot_def)
    qed
  qed
  ultimately show ?thesis unfolding ts_def by blast
qed

lemma run_within_rate:
  assumes "good_limiter rl" "CHR '':'' \<notin> set bucket" "sorted (map rr_time qs)" "\<forall>q \<in> set qs. now \<le> rr_time q"
    and "\<forall>q \<in> set qs. CHR '':'' \<notin> set (rr_bucket q) \<and> (rr_bucket q = bucket \<and> rr_key q = key \<longrightarrow> rr_rate q \<le> rate)"
    and "counters_ok rl bucket key now slots st" "within_rate rl rate slots"
  shows "within_rate rl rate (slots @ accepted rl bucket key qs st)"
  using assms(3-)
proof (induction qs arbitrary: now slots st)
  case (Cons q qs)
  let ?r = "rate_limit_hit rl (rr_time q) (rr_bucket q) (rr_key q) (rr_rate q) st"
  have now: "now \<le> rr_time q" using Cons.prems(2) by simp
  show ?case
  proof (cases "rr_bucket q = bucket \<and> rr_key q = key")
    case True
    let ?slots = "slots @ (if fst ?r then [] else [time_slot rl (rr_time q)])"
    have "counters_ok rl bucket key (rr_time q) ?slots (snd ?r) \<and> within_rate rl rate ?slots"
      using own_request [OF Cons.prems(4) assms(1) now assms(2) Cons.prems(5), of "rr_rate q"] True Cons.prems(3) by simp
    then have "within_rate rl rate (?slots @ accepted rl bucket key qs (snd ?r))"
      using Cons.IH [of "rr_time q" ?slots "snd ?r"] Cons.prems(1,3) by simp
    then show ?thesis using True by (cases ?r) auto
  next
    case False
    have "snd ?r (rate_key rl bucket key t) = st (rate_key rl bucket key t)" for t
      using rate_limit_hit_eq(3) [where rl = rl and bucket = "rr_bucket q"] lifetime_ge [OF assms(1)] assms(1,2) Cons.prems(3) False
        rate_key_inj [of rl bucket key t "rr_bucket q" "rr_key q"]
      by (simp add: good_limiter_def) metis
    then have "counters_ok rl bucket key (rr_time q) slots (snd ?r)"
      using counters_keep [OF Cons.prems(4) assms(1) now] by blast
    then have "within_rate rl rate (slots @ accepted rl bucket key qs (snd ?r))"
      using Cons.IH [of "rr_time q" slots "snd ?r"] Cons.prems(1,3,5) by simp
    then show ?thesis using False by (cases ?r) auto
  qed
qed simp

text \<open>C21: Rate limiting holds: whatever other clients do, and however the requests of a client are spread in time,
  the number of its requests let through in any window of \<open>interval\<close> seconds made of whole slots never exceeds
  its rate times the interval.\<close>

theorem rate_limit_bound:
  assumes "good_limiter rl" "sorted (map rr_time qs)" "CHR '':'' \<notin> set bucket" "0 \<le> rate"
    and "\<forall>q \<in> set qs. CHR '':'' \<notin> set (rr_bucket q) \<and> (rr_bucket q = bucket \<and> rr_key q = key \<longrightarrow> rr_rate q \<le> rate)"
  shows "of_int (in_window rl s (accepted rl bucket key qs (\<lambda>_. None))) \<le> rate * of_int (rl_interval rl)"
proof -
  let ?start = "if qs = [] then 0 else rr_time (hd qs)"
  have "\<forall>q \<in> set qs. ?start \<le> rr_time q" using assms(2) by (cases qs) auto
  moreover have "counters_ok rl bucket key ?start [] (\<lambda>_. None)"
    by (simp add: counters_ok_def shown_def redis_get_def live_def in_slot_def)
  moreover have "within_rate rl rate []"
    using assms(1,4) by (simp add: within_rate_def in_window_def good_limiter_def)
  ultimately have "within_rate rl rate ([] @ accepted rl bucket key qs (\<lambda>_. None))"
    using assms(1,2,3,5) by (intro run_within_rate) simp_all
  then show ?thesis by (simp add: within_rate_def)
qed

theorem rate_limit_bound_witness:
  "of_int (in_window (new_rate_limiter ''rl'') 2
     (accepted (new_rate_limiter ''rl'') ''ip'' ''::1''
        [\<lparr>rr_time = 1, rr_bucket = ''ip'', rr_key = ''::1'', rr_rate = 4\<rparr>, \<lparr>rr_time = 2, rr_bucket = ''global'', rr_key = '''', rr_rate = 9\<rparr>,
         \<lparr>rr_time = 8, rr_bucket = ''ip'', rr_key = ''::1'', rr_rate = 4\<rparr>] (\<lambda>_. None))) \<le> (4 :: rat) * of_int (rl_interval (new_rate_limiter ''rl''))"
  by (rule rate_limit_bound) (simp_all add: good_limiter_def new_rate_limiter_def)

end
