(* ===== verification/Stats.thy ===== *)
theory Stats
  imports Accounts
begin

text \<open>
  \<^verbatim>\<open>data/stats.py\<close> and the scripts that use it, \<^verbatim>\<open>scripts/update_lookup_stats.py\<close>,
  \<^verbatim>\<open>scripts/update_user_agent_stats.py\<close> and \<^verbatim>\<open>scripts/update_stats.py\<close>: counters in Redis hashes, incremented
  by the web service, which the scripts move to the database one field at a time. \<open>pg_date\<close> is PostgreSQL's
  parser of dates, which are day numbers in the tables. The two scripts share their loop; the locale
  \<open>counter_flush\<close> is what the loop needs from the table it writes.
\<close>

subsection \<open>Keys\<close>

definition lookup_type :: "bool \<Rightarrow> string" where
  "lookup_type hit = (if hit then ''hit'' else ''miss'')"

text \<open>\<open>day\<close> and \<open>hour\<close> are the two halves of the current time as \<open>"%Y-%m-%d:%H"\<close>.\<close>

definition pack_lookup_stats_key :: "string \<Rightarrow> string \<Rightarrow> int \<Rightarrow> string \<Rightarrow> string" where
  "pack_lookup_stats_key day hour application_id type =
     str_join '':'' [day @ '':'' @ hour, int_str application_id, type]"

definition unpack_lookup_stats_key :: "string \<Rightarrow> py_exc + string \<times> string \<times> int \<times> string" where
  "unpack_lookup_stats_key key =
     (case str_split CHR '':'' key of
        date # hour # application_id # type # _ \<Rightarrow>
          (case py_int application_id of None \<Rightarrow> Inl ValueError | Some i \<Rightarrow> Inr (date, hour, i, type))
      | _ \<Rightarrow> Inl ValueError)"

text \<open>\<open>urllib.parse.quote\<close> and \<open>unquote\<close>; \<open>None\<close> is a text with code points above 255.\<close>

definition hex_upper :: "nat \<Rightarrow> char" where
  "hex_upper n = (if n < 10 then char_of (48 + n) else char_of (55 + n))"

definition quote_safe :: "char \<Rightarrow> bool" where
  "quote_safe c \<longleftrightarrow> is_alnum c \<or> c \<in> set ''_.-~/''"

definition quote_char :: "char \<Rightarrow> string" where
  "quote_char c =
     (if quote_safe c then [c]
      else concat (map (\<lambda>b. [CHR ''%'', hex_upper (unat b div 16), hex_upper (unat b mod 16)]) (utf8_char c)))"

definition quote :: "string \<Rightarrow> string" where
  "quote s = concat (map quote_char s)"

definition hex_value :: "char \<Rightarrow> nat option" where
  "hex_value c =
     (if is_digit c then Some (code c - 48)
      else if 65 \<le> code c \<and> code c \<le> 70 then Some (code c - 55)
      else if 97 \<le> code c \<and> code c \<le> 102 then Some (code c - 87)
      else None)"

fun unquote_bytes :: "string \<Rightarrow> nat list" where
  "unquote_bytes (c # h # l # s) =
     (case (hex_value h, hex_value l) of
        (Some a, Some b) \<Rightarrow> if c = CHR ''%'' then (16 * a + b) # unquote_bytes s
                            else map unat (utf8_char c) @ unquote_bytes (h # l # s)
      | _ \<Rightarrow> map unat (utf8_char c) @ unquote_bytes (h # l # s))"
| "unquote_bytes (c # s) = map unat (utf8_char c) @ unquote_bytes s"
| "unquote_bytes [] = []"

fun utf8_decode :: "nat list \<Rightarrow> string option" where
  "utf8_decode [] = Some []"
| "utf8_decode (b # bs) =
     (if b < 128 then map_option (\<lambda>s. char_of b # s) (utf8_decode bs)
      else case bs of
        c # cs \<Rightarrow> if (b = 194 \<or> b = 195) \<and> 128 \<le> c \<and> c < 192
                  then map_option (\<lambda>s. char_of (64 * (b - 192) + (c - 128)) # s) (utf8_decode cs) else None
      | [] \<Rightarrow> None)"

definition unquote :: "string \<Rightarrow> string option" where
  "unquote s = utf8_decode (unquote_bytes s)"

definition pack_user_agent_stats_key :: "string \<Rightarrow> int \<Rightarrow> string \<Rightarrow> string \<Rightarrow> string" where
  "pack_user_agent_stats_key day application_id user_agent ip =
     str_join '':'' [day, int_str application_id, quote user_agent, quote ip]"

definition unpack_user_agent_stats_key :: "string \<Rightarrow> py_exc + string \<times> int \<times> string option \<times> string option" where
  "unpack_user_agent_stats_key key =
     (case str_split CHR '':'' key of
        [date, application_id, user_agent, ip] \<Rightarrow>
          (case py_int application_id of None \<Rightarrow> Inl ValueError | Some i \<Rightarrow> Inr (date, i, unquote user_agent, unquote ip))
      | _ \<Rightarrow> Inl ValueError)"

subsection \<open>Counters\<close>

text \<open>A Redis hash: its fields with their numbers.\<close>

type_synonym counters = "(string, int) dict"

definition hincrby :: "string \<Rightarrow> int \<Rightarrow> counters \<Rightarrow> counters" where
  "hincrby key d c = dict_set c key ((case dict_get c key of None \<Rightarrow> 0 | Some v \<Rightarrow> v) + d)"

definition hdel :: "string \<Rightarrow> counters \<Rightarrow> counters" where
  "hdel key c = dict_del c key"

text \<open>The hashes by root key; \<open>hash_of\<close> is Python's \<open>hash\<close>, and \<open>available\<close> tells whether Redis answers.\<close>

definition NUM_PARTITIONS :: int where "NUM_PARTITIONS = 256"

definition partition_key :: "string \<Rightarrow> int \<Rightarrow> string" where
  "partition_key root_name part =
     (if part = -1 then root_name
      else root_name @ '':'' @ [hex_char (nat (part div 16)), hex_char (nat (part mod 16))])"

definition bump :: "(string \<Rightarrow> int) \<Rightarrow> bool \<Rightarrow> string \<Rightarrow> string \<Rightarrow> (string \<Rightarrow> counters) \<Rightarrow> (string \<Rightarrow> counters)" where
  "bump hash_of available root_name key st =
     (if available
      then (let root_key = partition_key root_name (hash_of key mod NUM_PARTITIONS)
            in st(root_key := hincrby key 1 (st root_key)))
      else st)"

definition update_lookup_counter ::
    "(string \<Rightarrow> int) \<Rightarrow> bool \<Rightarrow> string \<Rightarrow> string \<Rightarrow> int \<Rightarrow> bool \<Rightarrow> (string \<Rightarrow> counters) \<Rightarrow> (string \<Rightarrow> counters)" where
  "update_lookup_counter hash_of available day hour application_id hit =
     bump hash_of available ''lookups'' (pack_lookup_stats_key day hour application_id (lookup_type hit))"

definition update_user_agent_counter ::
    "(string \<Rightarrow> int) \<Rightarrow> bool \<Rightarrow> string \<Rightarrow> int \<Rightarrow> string \<Rightarrow> string \<Rightarrow> (string \<Rightarrow> counters) \<Rightarrow> (string \<Rightarrow> counters)" where
  "update_user_agent_counter hash_of available day application_id user_agent ip =
     bump hash_of available ''ua'' (pack_user_agent_stats_key day application_id user_agent ip)"

subsection \<open>Tables\<close>

record stats_row =
  sa_id :: int
  sa_name :: string
  sa_date :: int
  sa_value :: int

record stats_lookups_row =
  sl_id :: int
  sl_date :: int
  sl_hour :: int
  sl_application_id :: int
  sl_count_nohits :: int
  sl_count_hits :: int

record stats_user_agents_row =
  sg_id :: int
  sg_date :: int
  sg_application_id :: int
  sg_user_agent :: string
  sg_ip :: string
  sg_count :: int

text \<open>\<open>sd_unique\<close> tells whether the two tables of counts have unique indexes on their keys.\<close>

record stats_db =
  sd_today :: int
  sd_unique :: bool
  t_stats :: "stats_row table"
  t_stats_lookups :: "stats_lookups_row table"
  t_stats_user_agents :: "stats_user_agents_row table"

text \<open>The schema in \<^verbatim>\<open>tables.py\<close> declares an index on the date only.\<close>

definition empty_stats_db :: stats_db where
  "empty_stats_db = \<lparr>sd_today = 0, sd_unique = False, t_stats = empty_table, t_stats_lookups = empty_table, t_stats_user_agents = empty_table\<rparr>"

text \<open>The outcome of an upsert: an unknown application is a violated foreign key.\<close>

datatype 'd applied = Applied 'd | Unknown_Application | Refused py_exc

definition known_application :: "app_db \<Rightarrow> int \<Rightarrow> bool" where
  "known_application app i \<longleftrightarrow> list_ex (\<lambda>r. ap_id r = i) (rows (t_application app))"

text \<open>\<open>INSERT .. ON CONFLICT .. DO UPDATE\<close>, which PostgreSQL refuses where no unique index matches.\<close>

definition update_lookup_stats ::
    "(string \<Rightarrow> int option) \<Rightarrow> app_db \<Rightarrow> stats_db \<Rightarrow> int \<Rightarrow> string \<Rightarrow> string \<Rightarrow> string \<Rightarrow> int \<Rightarrow> stats_db applied" where
  "update_lookup_stats pg_date app db application_id date hour type n =
     (if \<not> sd_unique db then Refused ProgrammingError
      else case (pg_date date, py_int hour) of
        (Some d, Some h) \<Rightarrow>
          let hits = (if type = ''hit'' then n else 0); nohits = (if type = ''hit'' then 0 else n);
              same = (\<lambda>r. sl_application_id r = application_id \<and> sl_date r = d \<and> sl_hour r = h)
          in if list_ex same (rows (t_stats_lookups db))
             then Applied (db\<lparr>t_stats_lookups := upd same
                    (\<lambda>r. r\<lparr>sl_count_hits := sl_count_hits r + hits, sl_count_nohits := sl_count_nohits r + nohits\<rparr>) (t_stats_lookups db)\<rparr>)
             else if \<not> known_application app application_id then Unknown_Application
             else Applied (db\<lparr>t_stats_lookups := snd (ins (\<lambda>i. \<lparr>sl_id = i, sl_date = d, sl_hour = h,
                    sl_application_id = application_id, sl_count_nohits = nohits, sl_count_hits = hits\<rparr>) (t_stats_lookups db))\<rparr>)
      | _ \<Rightarrow> Refused DataError)"

definition update_user_agent_stats ::
    "(string \<Rightarrow> int option) \<Rightarrow> app_db \<Rightarrow> stats_db \<Rightarrow> int \<Rightarrow> string \<Rightarrow> string \<Rightarrow> string \<Rightarrow> int \<Rightarrow> stats_db applied" where
  "update_user_agent_stats pg_date app db application_id date user_agent ip n =
     (if list_ex (\<lambda>c. code c = 0) (user_agent @ ip) then Refused ValueError
      else if \<not> sd_unique db then Refused ProgrammingError
      else case pg_date date of
        None \<Rightarrow> Refused DataError
      | Some d \<Rightarrow>
          let same = (\<lambda>r. sg_application_id r = application_id \<and> sg_date r = d \<and> sg_user_agent r = user_agent \<and> sg_ip r = ip)
          in if list_ex same (rows (t_stats_user_agents db))
             then Applied (db\<lparr>t_stats_user_agents := upd same (\<lambda>r. r\<lparr>sg_count := sg_count r + n\<rparr>) (t_stats_user_agents db)\<rparr>)
             else if \<not> known_application app application_id then Unknown_Application
             else Applied (db\<lparr>t_stats_user_agents := snd (ins (\<lambda>i. \<lparr>sg_id = i, sg_date = d, sg_application_id = application_id,
                    sg_user_agent = user_agent, sg_ip = ip, sg_count = n\<rparr>) (t_stats_user_agents db))\<rparr>))"

subsection \<open>Moving the counters to the database\<close>

text \<open>
  The loop of the two scripts over the fields of a hash as \<open>HGETALL\<close> returned them. \<open>noise\<close> are the increments
  that other processes make before each field is handled, \<open>commits\<close> tells which of the commits at the end of an
  iteration succeed. The result is the exception that ended the loop, if any.
\<close>

fun apply_noise :: "(string \<times> int) list \<Rightarrow> counters \<Rightarrow> counters" where
  "apply_noise [] c = c"
| "apply_noise ((key, d) # incs) c = apply_noise incs (hincrby key d c)"

fun flush_each ::
    "(string \<Rightarrow> py_exc + 'k) \<Rightarrow> ('k \<Rightarrow> int \<Rightarrow> 'd \<Rightarrow> 'd applied) \<Rightarrow> (nat \<Rightarrow> (string \<times> int) list) \<Rightarrow> (nat \<Rightarrow> bool)
       \<Rightarrow> (string \<times> int) list \<Rightarrow> 'd \<times> counters \<Rightarrow> py_exc option \<times> 'd \<times> counters" where
  "flush_each unpack app noise commits [] st = (None, st)"
| "flush_each unpack app noise commits ((key, n) # items) (d, c) =
     (let c = apply_noise (noise (length items)) c
      in case unpack key of
           Inl e \<Rightarrow> (Some e, d, c)
         | Inr k \<Rightarrow>
             if n = 0 then
               (if commits (length items) then flush_each unpack app noise commits items (d, hdel key c)
                else (Some OperationalError, d, hdel key c))
             else
               case app k n d of
                 Refused e \<Rightarrow> (Some e, d, c)
               | Unknown_Application \<Rightarrow> flush_each unpack app noise commits items (d, hdel key c)
               | Applied d' \<Rightarrow>
                   (if commits (length items) then flush_each unpack app noise commits items (d', hincrby key (- n) c)
                    else (Some OperationalError, d, hincrby key (- n) c)))"

text \<open>The scripts on the master, where \<open>app\<close> is the database.\<close>

definition apply_lookup_stats ::
    "(string \<Rightarrow> int option) \<Rightarrow> app_db \<Rightarrow> string \<times> string \<times> int \<times> string \<Rightarrow> int \<Rightarrow> stats_db \<Rightarrow> stats_db applied" where
  "apply_lookup_stats pg_date app k n db =
     (case k of (date, hour, application_id, type) \<Rightarrow> update_lookup_stats pg_date app db application_id date hour type n)"

definition run_update_lookup_stats ::
    "(string \<Rightarrow> int option) \<Rightarrow> app_db \<Rightarrow> (nat \<Rightarrow> (string \<times> int) list) \<Rightarrow> (nat \<Rightarrow> bool) \<Rightarrow> int
       \<Rightarrow> stats_db \<times> (string \<Rightarrow> counters) \<Rightarrow> py_exc option \<times> stats_db \<times> (string \<Rightarrow> counters)" where
  "run_update_lookup_stats pg_date app noise commits part st =
     (let root_key = partition_key ''lookups'' part;
          (r, db, c) = flush_each unpack_lookup_stats_key (apply_lookup_stats pg_date app) noise commits (snd st root_key)
             (fst st, snd st root_key)
      in (r, db, (snd st)(root_key := c)))"

definition user_agent_key :: "string \<Rightarrow> py_exc + string \<times> int \<times> string \<times> string" where
  "user_agent_key key =
     (case unpack_user_agent_stats_key key of
        Inr (date, i, Some user_agent, Some ip) \<Rightarrow> Inr (date, i, user_agent, ip)
      | Inr _ \<Rightarrow> Inl ValueError
      | Inl e \<Rightarrow> Inl e)"

definition apply_user_agent_stats ::
    "(string \<Rightarrow> int option) \<Rightarrow> app_db \<Rightarrow> string \<times> int \<times> string \<times> string \<Rightarrow> int \<Rightarrow> stats_db \<Rightarrow> stats_db applied" where
  "apply_user_agent_stats pg_date app k n db =
     (case k of (date, application_id, user_agent, ip) \<Rightarrow> update_user_agent_stats pg_date app db application_id date user_agent ip n)"

definition run_update_user_agent_stats ::
    "(string \<Rightarrow> int option) \<Rightarrow> app_db \<Rightarrow> (nat \<Rightarrow> (string \<times> int) list) \<Rightarrow> (nat \<Rightarrow> bool) \<Rightarrow> int
       \<Rightarrow> stats_db \<times> (string \<Rightarrow> counters) \<Rightarrow> py_exc option \<times> stats_db \<times> (string \<Rightarrow> counters)" where
  "run_update_user_agent_stats pg_date app noise commits part st =
     (let root_key = partition_key ''ua'' part;
          (r, db, c) = flush_each user_agent_key (apply_user_agent_stats pg_date app) noise commits (snd st root_key)
             (fst st, snd st root_key)
      in (r, db, (snd st)(root_key := c)))"

subsection \<open>The contract of the loop\<close>

lemma dict_get_Cons: "dict_get ((k, v) # d) k' = (if k' = k then Some v else dict_get d k')"
  by (simp add: dict_get_def)

text \<open>What is still in the counters under a key of the table; \<open>canon\<close> maps the parts of a field's name to that key.\<close>

definition pending :: "(string \<Rightarrow> 'q option) \<Rightarrow> counters \<Rightarrow> 'q \<Rightarrow> int" where
  "pending field c q = sum_list (map snd (filter (\<lambda>(key, n). field key = Some q) c))"

definition field_of :: "(string \<Rightarrow> py_exc + 'k) \<Rightarrow> ('k \<Rightarrow> 'q option) \<Rightarrow> string \<Rightarrow> 'q option" where
  "field_of unpack canon key = (case unpack key of Inl e \<Rightarrow> None | Inr k \<Rightarrow> canon k)"

locale counter_flush =
  fixes unpack :: "string \<Rightarrow> py_exc + 'k"
    and app :: "'k \<Rightarrow> int \<Rightarrow> 'd \<Rightarrow> 'd applied"
    and good :: "'d \<Rightarrow> bool"
    and canon :: "'k \<Rightarrow> 'q option"
    and total :: "'d \<Rightarrow> 'q \<Rightarrow> int"
    and known :: "'k \<Rightarrow> bool"
  assumes applied_good: "good d \<Longrightarrow> app k n d = Applied d' \<Longrightarrow> good d'"
    and applied_total: "good d \<Longrightarrow> app k n d = Applied d' \<Longrightarrow> total d' q = total d q + (if canon k = Some q then n else 0)"
    and known_never_discarded: "known k \<Longrightarrow> app k n d \<noteq> Unknown_Application"
begin

lemma pending_hincrby:
  assumes "distinct (dict_keys c)"
  shows "pending field (hincrby key d c) k = pending field c k + (if field key = Some k then d else 0)"
proof -
  have "pending field (dict_set c key v) k = pending field c k + (if field key = Some k then v - (case dict_get c key of None \<Rightarrow> 0 | Some w \<Rightarrow> w) else 0)" for v
    using assms
  proof (induction c)
    case (Cons kv c)
    obtain k' v' where kv: "kv = (k', v')" by fastforce
    show ?case
    proof (cases "key = k'")
      case True
      then show ?thesis by (simp add: kv pending_def dict_get_def)
    next
      case False
      with Cons show ?thesis by (simp add: kv pending_def dict_get_def)
    qed
  qed (simp add: pending_def)
  from this [of "(case dict_get c key of None \<Rightarrow> 0 | Some v \<Rightarrow> v) + d"] show ?thesis by (simp add: hincrby_def)
qed

lemma pending_hdel:
  assumes "distinct (dict_keys c)" and "dict_get c key \<in> {None, Some 0}"
  shows "pending field (hdel key c) q = pending field c q"
  using assms
proof (induction c)
  case (Cons kv c)
  obtain key' v where kv: "kv = (key', v)" by fastforce
  have no: "key \<notin> set (dict_keys c) \<Longrightarrow> dict_del c key = c"
    by (induction c) (auto simp: dict_del_def dict_keys_def)
  show ?case
  proof (cases "key = key'")
    case True
    with Cons.prems kv no have "dict_del (kv # c) key = c" "v = 0" by (simp_all add: dict_del_def dict_get_Cons)
    then show ?thesis by (simp add: hdel_def pending_def kv)
  next
    case False
    then have "hdel key (kv # c) = kv # hdel key c" by (simp add: hdel_def dict_del_def kv)
    with Cons False kv show ?thesis by (simp add: pending_def dict_get_Cons)
  qed
qed (simp add: pending_def hdel_def dict_del_def)

lemma distinct_hincrby: "distinct (dict_keys c) \<Longrightarrow> distinct (dict_keys (hincrby key d c))"
  by (simp add: hincrby_def dict_distinct_set)

lemma distinct_hdel: "distinct (dict_keys c) \<Longrightarrow> distinct (dict_keys (hdel key c))"
  by (simp add: hdel_def dict_del_def dict_keys_def distinct_map_filter)

lemma distinct_noise: "distinct (dict_keys c) \<Longrightarrow> distinct (dict_keys (apply_noise incs c))"
  by (induction incs c rule: apply_noise.induct) (simp_all add: distinct_hincrby)

lemma pending_noise:
  "distinct (dict_keys c) \<Longrightarrow> pending field (apply_noise incs c) k = pending field c k + pending field incs k"
  by (induction incs c rule: apply_noise.induct) (simp_all add: distinct_hincrby pending_hincrby, simp_all add: pending_def)

lemma get_noise_other: "key \<notin> fst ` set incs \<Longrightarrow> dict_get (apply_noise incs c) key = dict_get c key"
  by (induction incs c rule: apply_noise.induct) (auto simp: hincrby_def)

text \<open>Nothing is lost or counted twice, provided that no counter that was zero is incremented before it is deleted.\<close>

lemma flush_conserves:
  assumes "flush_each unpack app noise commits items (d, c) = (r, d', c')"
    and "good d" and "distinct (dict_keys c)" and "distinct (map fst items)"
    and "\<And>key. (key, 0) \<in> set items \<Longrightarrow> dict_get c key \<in> {None, Some 0}"
    and "\<And>m key. key \<in> fst ` set (noise m) \<Longrightarrow> (key, 0) \<notin> set items"
    and "\<And>key k n. (key, n) \<in> set items \<Longrightarrow> unpack key = Inr k \<Longrightarrow> known k"
    and "\<And>m. commits m"
  shows "good d' \<and> (\<exists>j \<le> length items. (r = None \<longrightarrow> j = 0) \<and>
           (\<forall>k. total d' k + pending (field_of unpack canon) c' k
                = total d k + pending (field_of unpack canon) c k + (\<Sum>m \<leftarrow> [j..<length items]. pending (field_of unpack canon) (noise m) k)))"
  using assms(1-7)
proof (induction items arbitrary: d c)
  case Nil
  then show ?case by simp
next
  case (Cons item items)
  obtain key n where item: "item = (key, n)" by fastforce
  define c1 where "c1 = apply_noise (noise (length items)) c"
  have d1: "distinct (dict_keys c1)" unfolding c1_def by (rule distinct_noise) (rule Cons.prems(3))
  have p1: "pending (field_of unpack canon) c1 k = pending (field_of unpack canon) c k + pending (field_of unpack canon) (noise (length items)) k" for k
    unfolding c1_def by (rule pending_noise) (rule Cons.prems(3))
  have z1: "dict_get c1 key' \<in> {None, Some 0}" if "(key', 0) \<in> set (item # items)" for key'
    using get_noise_other [of key' "noise (length items)" c] Cons.prems(5,6) that unfolding c1_def by metis
  have last: "(\<Sum>m \<leftarrow> [j..<length (item # items)]. pending (field_of unpack canon) (noise m) k)
      = (\<Sum>m \<leftarrow> [j..<length items]. pending (field_of unpack canon) (noise m) k) + pending (field_of unpack canon) (noise (length items)) k" if "j \<le> length items" for j k
    using that by simp
  note run = Cons.prems(1) [unfolded item flush_each.simps, folded c1_def, unfolded Let_def]
  show ?case
  proof (cases "unpack key")
    case (Inl e)
    with run have "d' = d" "c' = c1" "r = Some e" by simp_all
    then show ?thesis using Cons.prems(2) p1 last [of "length items"] by (intro conjI exI [of _ "length items"]) auto
  next
    case (Inr k0)
    have step: ?thesis
      if rest: "flush_each unpack app noise commits items (d2, c2) = (r, d', c')" and g: "good d2"
        and c2: "distinct (dict_keys c2)" "\<And>key'. key' \<noteq> key \<Longrightarrow> dict_get c2 key' = dict_get c1 key'"
        and bal: "\<And>k. total d2 k + pending (field_of unpack canon) c2 k = total d k + pending (field_of unpack canon) c1 k" for d2 c2
    proof -
      have "good d' \<and> (\<exists>j \<le> length items. (r = None \<longrightarrow> j = 0) \<and> (\<forall>k. total d' k + pending (field_of unpack canon) c' k
                = total d2 k + pending (field_of unpack canon) c2 k + (\<Sum>m \<leftarrow> [j..<length items]. pending (field_of unpack canon) (noise m) k)))"
      proof (rule Cons.IH [OF rest g c2(1)])
        show "distinct (map fst items)" using Cons.prems(4) by simp
        show "dict_get c2 key' \<in> {None, Some 0}" if "(key', 0) \<in> set items" for key'
        proof -
          have "key' \<noteq> key" using Cons.prems(4) that item by force
          with c2(2) z1 that show ?thesis by simp
        qed
        show "(key', 0) \<notin> set items" if "key' \<in> fst ` set (noise m)" for m key' using Cons.prems(6) [OF that] by simp
        show "known k" if "(key', n') \<in> set items" "unpack key' = Inr k" for key' k n' using Cons.prems(7) [of key' n' k] that by simp
      qed
      then obtain j where j: "good d'" "j \<le> length items" "r = None \<longrightarrow> j = 0"
        "\<And>k. total d' k + pending (field_of unpack canon) c' k = total d2 k + pending (field_of unpack canon) c2 k + (\<Sum>m \<leftarrow> [j..<length items]. pending (field_of unpack canon) (noise m) k)"
        by blast
      with last [OF j(2)] bal p1 show ?thesis by (intro conjI exI [of _ j]) (auto simp: algebra_simps)
    qed
    show ?thesis
    proof (cases "n = 0")
      case True
      then have zero: "dict_get c1 key \<in> {None, Some 0}" using z1 item by simp
      show ?thesis
      proof (rule step)
        show "flush_each unpack app noise commits items (d, hdel key c1) = (r, d', c')" using run Inr True assms(8) by simp
        show "distinct (dict_keys (hdel key c1))" by (rule distinct_hdel) (rule d1)
        show "dict_get (hdel key c1) key' = dict_get c1 key'" if "key' \<noteq> key" for key' using that by (simp add: hdel_def)
        show "total d k + pending (field_of unpack canon) (hdel key c1) k = total d k + pending (field_of unpack canon) c1 k" for k
          using pending_hdel [OF d1 zero] by simp
      qed (rule Cons.prems(2))
    next
      case False
      have kn: "known k0" using Cons.prems(7) [of key n k0] item Inr by simp
      show ?thesis
      proof (cases "app k0 n d")
        case (Applied d2)
        show ?thesis
        proof (rule step)
          show "flush_each unpack app noise commits items (d2, hincrby key (- n) c1) = (r, d', c')" using run Inr False Applied assms(8) by simp
          show "good d2" using applied_good Cons.prems(2) Applied by blast
          show "distinct (dict_keys (hincrby key (- n) c1))" by (rule distinct_hincrby) (rule d1)
          show "dict_get (hincrby key (- n) c1) key' = dict_get c1 key'" if "key' \<noteq> key" for key' using that by (simp add: hincrby_def)
          show "total d2 k + pending (field_of unpack canon) (hincrby key (- n) c1) k = total d k + pending (field_of unpack canon) c1 k" for k
            using applied_total [OF Cons.prems(2) Applied, of k] pending_hincrby [OF d1, of "field_of unpack canon" key "- n" k] Inr
            by (auto simp: field_of_def)
        qed
      next
        case Unknown_Application
        with known_never_discarded [OF kn] show ?thesis by blast
      next
        case (Refused e)
        with run Inr False have "d' = d" "c' = c1" "r = Some e" by simp_all
        then show ?thesis using Cons.prems(2) p1 last [of "length items"] by (intro conjI exI [of _ "length items"]) auto
      qed
    qed
  qed
qed

end

subsection \<open>Both tables keep it\<close>

lemma sum_upsert_existing:
  assumes "distinct (map key rs)" and "\<exists>r \<in> set rs. key r = k0"
    and "\<And>r. key (g r) = key r" and "\<And>r. key r = k0 \<Longrightarrow> f (g r) = f r + (n :: int)"
  shows "sum_list (map f (filter (\<lambda>r. key r = q) (map (\<lambda>r. if key r = k0 then g r else r) rs)))
    = sum_list (map f (filter (\<lambda>r. key r = q) rs)) + (if q = k0 then n else 0)"
  using assms(1,2)
proof (induction rs)
  case (Cons r rs)
  show ?case
  proof (cases "key r = k0")
    case True
    with Cons.prems(1) have "k0 \<notin> key ` set rs" by simp
    then have "\<forall>x \<in> set rs. key x \<noteq> k0" by blast
    then have "map (\<lambda>r. if key r = k0 then g r else r) rs = rs" by (intro map_idI) simp
    with True assms(3,4) show ?thesis by simp
  next
    case False
    with Cons show ?thesis by auto
  qed
qed simp

lemma map_key_upd: "(\<And>r. key (g r) = key r) \<Longrightarrow> map key (map (\<lambda>r. if P r then g r else r) rs) = map key rs"
  by simp

definition lookup_row_key :: "stats_lookups_row \<Rightarrow> int \<times> int \<times> int" where
  "lookup_row_key r = (sl_date r, sl_hour r, sl_application_id r)"

definition lookup_total :: "stats_db \<Rightarrow> (int \<times> int \<times> int) \<times> bool \<Rightarrow> int" where
  "lookup_total db q =
     sum_list (map (\<lambda>r. if snd q then sl_count_hits r else sl_count_nohits r)
       (filter (\<lambda>r. lookup_row_key r = fst q) (rows (t_stats_lookups db))))"

definition lookup_canon :: "(string \<Rightarrow> int option) \<Rightarrow> string \<times> string \<times> int \<times> string \<Rightarrow> ((int \<times> int \<times> int) \<times> bool) option" where
  "lookup_canon pg_date k =
     (case k of (date, hour, i, type) \<Rightarrow>
        (case (pg_date date, py_int hour) of (Some d, Some h) \<Rightarrow> Some ((d, h, i), type = ''hit'') | _ \<Rightarrow> None))"

definition lookup_keys_unique :: "stats_db \<Rightarrow> bool" where
  "lookup_keys_unique db \<longleftrightarrow> distinct (map lookup_row_key (rows (t_stats_lookups db)))"

lemma apply_lookup_stats_cases:
  assumes "apply_lookup_stats pg_date app (date, hour, i, type) n db = Applied db'"
  obtains d h where "pg_date date = Some d" "py_int hour = Some h"
    "rows (t_stats_lookups db') =
       (if \<exists>r \<in> set (rows (t_stats_lookups db)). lookup_row_key r = (d, h, i)
        then map (\<lambda>r. if lookup_row_key r = (d, h, i)
               then r\<lparr>sl_count_hits := sl_count_hits r + (if type = ''hit'' then n else 0),
                      sl_count_nohits := sl_count_nohits r + (if type = ''hit'' then 0 else n)\<rparr> else r) (rows (t_stats_lookups db))
        else rows (t_stats_lookups db) @ [\<lparr>sl_id = serial (t_stats_lookups db), sl_date = d, sl_hour = h, sl_application_id = i,
               sl_count_nohits = (if type = ''hit'' then 0 else n), sl_count_hits = (if type = ''hit'' then n else 0)\<rparr>])"
proof -
  have same: "(\<lambda>r. sl_application_id r = i \<and> sl_date r = d \<and> sl_hour r = h) = (\<lambda>r. lookup_row_key r = (d, h, i))" for d h
    by (auto simp: lookup_row_key_def fun_eq_iff)
  from assms obtain d h where dh: "pg_date date = Some d" "py_int hour = Some h"
    by (auto simp: apply_lookup_stats_def update_lookup_stats_def split: if_splits option.splits)
  show ?thesis
  proof (rule that [OF dh])
    show "rows (t_stats_lookups db') = (if \<exists>r \<in> set (rows (t_stats_lookups db)). lookup_row_key r = (d, h, i)
        then map (\<lambda>r. if lookup_row_key r = (d, h, i)
               then r\<lparr>sl_count_hits := sl_count_hits r + (if type = ''hit'' then n else 0),
                      sl_count_nohits := sl_count_nohits r + (if type = ''hit'' then 0 else n)\<rparr> else r) (rows (t_stats_lookups db))
        else rows (t_stats_lookups db) @ [\<lparr>sl_id = serial (t_stats_lookups db), sl_date = d, sl_hour = h, sl_application_id = i,
               sl_count_nohits = (if type = ''hit'' then 0 else n), sl_count_hits = (if type = ''hit'' then n else 0)\<rparr>])"
      using assms dh
      by (auto simp: apply_lookup_stats_def update_lookup_stats_def same list_ex_iff upd_def ins_def Let_def split: if_splits)
  qed
qed

interpretation lookups: counter_flush unpack_lookup_stats_key "apply_lookup_stats pg_date app" lookup_keys_unique
    "lookup_canon pg_date" lookup_total "\<lambda>(date, hour, i, type). known_application app i" for pg_date app
proof
  fix d d' k n
  assume good: "lookup_keys_unique d" and ap: "apply_lookup_stats pg_date app k n d = Applied d'"
  obtain date hour i type where k: "k = (date, hour, i, type)" by (metis prod_cases4)
  from ap [unfolded k] obtain dd h where dh: "pg_date date = Some dd" "py_int hour = Some h"
    and r: "rows (t_stats_lookups d') =
       (if \<exists>r \<in> set (rows (t_stats_lookups d)). lookup_row_key r = (dd, h, i)
        then map (\<lambda>r. if lookup_row_key r = (dd, h, i)
               then r\<lparr>sl_count_hits := sl_count_hits r + (if type = ''hit'' then n else 0),
                      sl_count_nohits := sl_count_nohits r + (if type = ''hit'' then 0 else n)\<rparr> else r) (rows (t_stats_lookups d))
        else rows (t_stats_lookups d) @ [\<lparr>sl_id = serial (t_stats_lookups d), sl_date = dd, sl_hour = h, sl_application_id = i,
               sl_count_nohits = (if type = ''hit'' then 0 else n), sl_count_hits = (if type = ''hit'' then n else 0)\<rparr>])"
    by (rule apply_lookup_stats_cases)
  show "lookup_keys_unique d'"
  proof (cases "\<exists>r \<in> set (rows (t_stats_lookups d)). lookup_row_key r = (dd, h, i)")
    case True
    then have "map lookup_row_key (rows (t_stats_lookups d')) = map lookup_row_key (rows (t_stats_lookups d))"
      unfolding r if_P [OF True] by (intro map_key_upd) (simp add: lookup_row_key_def)
    with good show ?thesis by (simp add: lookup_keys_unique_def)
  next
    case False
    with good show ?thesis unfolding lookup_keys_unique_def r if_not_P [OF False] by (auto simp: lookup_row_key_def)
  qed
  show "lookup_total d' q = lookup_total d q + (if lookup_canon pg_date k = Some q then n else 0)" for q
  proof -
    obtain q0 hit where q: "q = (q0, hit)" by fastforce
    have canon: "lookup_canon pg_date k = Some q \<longleftrightarrow> q0 = (dd, h, i) \<and> hit = (type = ''hit'')"
      by (auto simp: k lookup_canon_def dh q)
    show ?thesis
    proof (cases "\<exists>r \<in> set (rows (t_stats_lookups d)). lookup_row_key r = (dd, h, i)")
      case True
      have "lookup_total d' q = lookup_total d q + (if q0 = (dd, h, i) then (if hit = (type = ''hit'') then n else 0) else 0)"
        unfolding lookup_total_def r q fst_conv snd_conv if_P [OF True]
      proof (rule sum_upsert_existing [OF _ True])
        show "distinct (map lookup_row_key (rows (t_stats_lookups d)))" using good by (simp add: lookup_keys_unique_def)
      qed (simp_all add: lookup_row_key_def)
      with canon show ?thesis by simp
    next
      case False
      then show ?thesis unfolding lookup_total_def r if_not_P [OF False] canon by (auto simp: q lookup_row_key_def)
    qed
  qed
next
  fix k :: "string \<times> string \<times> int \<times> string" and n d
  assume "case k of (date, hour, i, type) \<Rightarrow> known_application app i"
  then show "apply_lookup_stats pg_date app k n d \<noteq> Unknown_Application"
    by (auto simp: apply_lookup_stats_def update_lookup_stats_def Let_def split: prod.splits if_splits option.splits)
qed

definition user_agent_row_key :: "stats_user_agents_row \<Rightarrow> int \<times> int \<times> string \<times> string" where
  "user_agent_row_key r = (sg_date r, sg_application_id r, sg_user_agent r, sg_ip r)"

definition user_agent_total :: "stats_db \<Rightarrow> int \<times> int \<times> string \<times> string \<Rightarrow> int" where
  "user_agent_total db q = sum_list (map sg_count (filter (\<lambda>r. user_agent_row_key r = q) (rows (t_stats_user_agents db))))"

definition user_agent_canon :: "(string \<Rightarrow> int option) \<Rightarrow> string \<times> int \<times> string \<times> string \<Rightarrow> (int \<times> int \<times> string \<times> string) option" where
  "user_agent_canon pg_date k =
     (case k of (date, i, user_agent, ip) \<Rightarrow> map_option (\<lambda>d. (d, i, user_agent, ip)) (pg_date date))"

definition user_agent_keys_unique :: "stats_db \<Rightarrow> bool" where
  "user_agent_keys_unique db \<longleftrightarrow> distinct (map user_agent_row_key (rows (t_stats_user_agents db)))"

lemma apply_user_agent_stats_cases:
  assumes "apply_user_agent_stats pg_date app (date, i, ua, ip) n db = Applied db'"
  obtains d where "pg_date date = Some d"
    "rows (t_stats_user_agents db') =
       (if \<exists>r \<in> set (rows (t_stats_user_agents db)). user_agent_row_key r = (d, i, ua, ip)
        then map (\<lambda>r. if user_agent_row_key r = (d, i, ua, ip) then r\<lparr>sg_count := sg_count r + n\<rparr> else r) (rows (t_stats_user_agents db))
        else rows (t_stats_user_agents db) @ [\<lparr>sg_id = serial (t_stats_user_agents db), sg_date = d, sg_application_id = i,
               sg_user_agent = ua, sg_ip = ip, sg_count = n\<rparr>])"
proof -
  have same: "(\<lambda>r. sg_application_id r = i \<and> sg_date r = d \<and> sg_user_agent r = ua \<and> sg_ip r = ip) = (\<lambda>r. user_agent_row_key r = (d, i, ua, ip))" for d
    by (auto simp: user_agent_row_key_def fun_eq_iff)
  from assms obtain d where d: "pg_date date = Some d"
    by (auto simp: apply_user_agent_stats_def update_user_agent_stats_def split: if_splits option.splits)
  show ?thesis
  proof (rule that [OF d])
    show "rows (t_stats_user_agents db') = (if \<exists>r \<in> set (rows (t_stats_user_agents db)). user_agent_row_key r = (d, i, ua, ip)
        then map (\<lambda>r. if user_agent_row_key r = (d, i, ua, ip) then r\<lparr>sg_count := sg_count r + n\<rparr> else r) (rows (t_stats_user_agents db))
        else rows (t_stats_user_agents db) @ [\<lparr>sg_id = serial (t_stats_user_agents db), sg_date = d, sg_application_id = i,
               sg_user_agent = ua, sg_ip = ip, sg_count = n\<rparr>])"
      using assms d
      by (auto simp: apply_user_agent_stats_def update_user_agent_stats_def same list_ex_iff upd_def ins_def Let_def split: if_splits)
  qed
qed

interpretation user_agents: counter_flush user_agent_key "apply_user_agent_stats pg_date app" user_agent_keys_unique
    "user_agent_canon pg_date" user_agent_total "\<lambda>(date, i, ua, ip). known_application app i" for pg_date app
proof
  fix d d' k n
  assume good: "user_agent_keys_unique d" and ap: "apply_user_agent_stats pg_date app k n d = Applied d'"
  obtain date i ua ip where k: "k = (date, i, ua, ip)" by (metis prod_cases4)
  from ap [unfolded k] obtain dd where dd: "pg_date date = Some dd"
    and r: "rows (t_stats_user_agents d') =
       (if \<exists>r \<in> set (rows (t_stats_user_agents d)). user_agent_row_key r = (dd, i, ua, ip)
        then map (\<lambda>r. if user_agent_row_key r = (dd, i, ua, ip) then r\<lparr>sg_count := sg_count r + n\<rparr> else r) (rows (t_stats_user_agents d))
        else rows (t_stats_user_agents d) @ [\<lparr>sg_id = serial (t_stats_user_agents d), sg_date = dd, sg_application_id = i,
               sg_user_agent = ua, sg_ip = ip, sg_count = n\<rparr>])"
    by (rule apply_user_agent_stats_cases)
  have canon: "user_agent_canon pg_date k = Some q \<longleftrightarrow> q = (dd, i, ua, ip)" for q
    by (auto simp: k user_agent_canon_def dd)
  show "user_agent_keys_unique d'"
  proof (cases "\<exists>r \<in> set (rows (t_stats_user_agents d)). user_agent_row_key r = (dd, i, ua, ip)")
    case True
    then have "map user_agent_row_key (rows (t_stats_user_agents d')) = map user_agent_row_key (rows (t_stats_user_agents d))"
      unfolding r if_P [OF True] by (intro map_key_upd) (simp add: user_agent_row_key_def)
    with good show ?thesis by (simp add: user_agent_keys_unique_def)
  next
    case False
    with good show ?thesis unfolding user_agent_keys_unique_def r if_not_P [OF False] by (auto simp: user_agent_row_key_def)
  qed
  show "user_agent_total d' q = user_agent_total d q + (if user_agent_canon pg_date k = Some q then n else 0)" for q
  proof (cases "\<exists>r \<in> set (rows (t_stats_user_agents d)). user_agent_row_key r = (dd, i, ua, ip)")
    case True
    show ?thesis
      unfolding user_agent_total_def r canon if_P [OF True]
    proof (rule sum_upsert_existing [OF _ True])
      show "distinct (map user_agent_row_key (rows (t_stats_user_agents d)))" using good by (simp add: user_agent_keys_unique_def)
    qed (simp_all add: user_agent_row_key_def)
  next
    case False
    then show ?thesis unfolding user_agent_total_def r if_not_P [OF False] canon by (auto simp: user_agent_row_key_def)
  qed
next
  fix k :: "string \<times> int \<times> string \<times> string" and n d
  assume "case k of (date, i, ua, ip) \<Rightarrow> known_application app i"
  then show "apply_user_agent_stats pg_date app k n d \<noteq> Unknown_Application"
    by (auto simp: apply_user_agent_stats_def update_user_agent_stats_def Let_def split: prod.splits if_splits option.splits)
qed

subsection \<open>Names of fields\<close>

lemma colons: "CHR '':'' \<notin> set day \<Longrightarrow> CHR '':'' \<notin> set hour \<Longrightarrow> CHR '':'' \<notin> set type \<Longrightarrow>
    str_split CHR '':'' (str_join '':'' [day @ '':'' @ hour, int_str i, type]) = [day, hour, int_str i, type]"
  using int_str_no_colon [of i] by (simp add: str_split_append str_split_no_sep)

lemma lookup_key_roundtrip:
  "CHR '':'' \<notin> set day \<Longrightarrow> CHR '':'' \<notin> set hour \<Longrightarrow>
     unpack_lookup_stats_key (pack_lookup_stats_key day hour i (lookup_type hit)) = Inr (day, hour, i, lookup_type hit)"
  using colons [of day hour "lookup_type hit" i]
  by (simp add: unpack_lookup_stats_key_def pack_lookup_stats_key_def lookup_type_def split: if_splits)

lemma code_less: "code c < 256"
  by simp

lemma byte_of_nat: "n < 256 \<Longrightarrow> unat (of_nat n :: 8 word) = n"
  by (simp add: unsigned_of_nat take_bit_nat_def)

lemma byte_bound: "unat (b :: 8 word) < 256"
proof -
  have "unat b < 2 ^ LENGTH(8)" by (rule unsigned_less)
  then show ?thesis by simp
qed

lemma utf8_bytes: "map unat (utf8_char c) = (if code c < 128 then [code c] else [192 + code c div 64, 128 + code c mod 64])"
proof -
  have w: "192 + of_nat n = (of_nat (192 + n) :: 8 word)" "128 + of_nat n = (of_nat (128 + n) :: 8 word)" for n by simp_all
  have "code c div 64 < 4" using code_less [of c] by (simp add: less_mult_imp_div_less)
  then have "192 + code c div 64 < 256" by simp
  moreover have "128 + code c mod 64 < 256" using mod_less_divisor [of 64 "code c"] by simp
  moreover have "code c < 256" by (rule code_less)
  ultimately show ?thesis unfolding utf8_char_def Let_def w by (simp add: byte_of_nat del: of_nat_add of_nat_numeral)
qed

lemma utf8_decode_char: "utf8_decode (map unat (utf8_char c) @ bs) = map_option (\<lambda>s. c # s) (utf8_decode bs)"
proof (cases "code c < 128")
  case False
  define q m where "q = code c div 64" and "m = code c mod 64"
  have qm: "64 * q + m = code c" "m < 64" by (simp_all add: q_def m_def)
  have "64 * q + m < 256" "128 \<le> 64 * q + m" using code_less [of c] False unfolding qm(1) by simp_all
  with qm(2) have "q < 4" "1 < q" by linarith+
  then have d: "q = 2 \<or> q = 3" by linarith
  have "char_of (64 * q + m) = c" by (simp add: qm(1))
  moreover have "map unat (utf8_char c) = [192 + q, 128 + m]" using False by (simp add: utf8_bytes q_def m_def)
  moreover have "utf8_decode ((192 + q) # (128 + m) # bs) = map_option (\<lambda>s. char_of (64 * q + m) # s) (utf8_decode bs)"
    using d qm(2) by (elim disjE) simp_all
  ultimately show ?thesis by simp
qed (simp add: utf8_bytes)

lemma utf8_decode_all: "utf8_decode (concat (map (\<lambda>c. map unat (utf8_char c)) s)) = Some s"
  by (induction s) (simp_all add: utf8_decode_char)

lemma hex_value_upper: "n < 16 \<Longrightarrow> hex_value (hex_upper n) = Some n"
  by (auto simp: hex_value_def hex_upper_def is_digit_def)

lemma unquote_literal: "c \<noteq> CHR ''%'' \<Longrightarrow> unquote_bytes (c # s) = map unat (utf8_char c) @ unquote_bytes s"
  by (induction "c # s" rule: unquote_bytes.induct) (auto split: option.splits)

lemma unquote_bytes_hex:
  "b < 256 \<Longrightarrow> unquote_bytes (CHR ''%'' # hex_upper (b div 16) # hex_upper (b mod 16) # s) = b # unquote_bytes s"
  by (simp add: hex_value_upper less_mult_imp_div_less)

lemma unquote_bytes_quoted:
  "unquote_bytes (concat (map (\<lambda>b. [CHR ''%'', hex_upper (unat b div 16), hex_upper (unat b mod 16)]) bs) @ s)
     = map unat (bs :: 8 word list) @ unquote_bytes s"
proof (induction bs)
  case (Cons b bs)
  have "unat b < 256" by (rule byte_bound)
  with Cons show ?case by (simp add: unquote_bytes_hex del: unquote_bytes.simps)
qed simp

lemma unquote_bytes_quote: "unquote_bytes (quote s) = concat (map (\<lambda>c. map unat (utf8_char c)) s)"
proof -
  have pct: "\<not> quote_safe CHR ''%''" by (simp add: quote_safe_def is_alnum_def is_digit_def)
  have "unquote_bytes (concat (map quote_char s) @ t) = concat (map (\<lambda>c. map unat (utf8_char c)) s) @ unquote_bytes t" for t
  proof (induction s)
    case (Cons c s)
    show ?case
    proof (cases "quote_safe c")
      case True
      with pct have "c \<noteq> CHR ''%''" by metis
      with Cons True show ?thesis by (simp add: quote_char_def unquote_literal del: unquote_bytes.simps)
    next
      case False
      with Cons show ?thesis by (simp add: quote_char_def unquote_bytes_quoted del: unquote_bytes.simps)
    qed
  qed simp
  from this [of "[]"] show ?thesis by (simp add: quote_def)
qed

lemma unquote_quote: "unquote (quote s) = Some s"
  by (simp add: unquote_def unquote_bytes_quote utf8_decode_all)

lemma quote_no_colon: "CHR '':'' \<notin> set (quote s)"
proof -
  have "hex_value CHR '':'' = None" by (simp add: hex_value_def is_digit_def)
  then have hex: "hex_upper n \<noteq> CHR '':''" if "n < 16" for n using hex_value_upper [OF that] by (metis option.distinct(1))
  have "CHR '':'' \<notin> set (quote_char c)" for c
  proof (cases "quote_safe c")
    case True
    have "\<not> quote_safe CHR '':''" by (simp add: quote_safe_def is_alnum_def is_digit_def)
    with True show ?thesis by (auto simp: quote_char_def)
  next
    case False
    have "unat (b :: 8 word) div 16 < 16" for b using byte_bound [of b] by (simp add: less_mult_imp_div_less)
    with False hex show ?thesis by (auto simp: quote_char_def) (metis mod_less_divisor zero_less_numeral)+
  qed
  then show ?thesis by (auto simp: quote_def)
qed

lemma user_agent_key_roundtrip:
  "CHR '':'' \<notin> set day \<Longrightarrow> user_agent_key (pack_user_agent_stats_key day i ua ip) = Inr (day, i, ua, ip)"
  using int_str_no_colon [of i] quote_no_colon [of ua] quote_no_colon [of ip]
  by (simp add: user_agent_key_def unpack_user_agent_stats_key_def pack_user_agent_stats_key_def str_split_append str_split_no_sep unquote_quote)

subsection \<open>What the flush guarantees\<close>

definition lookup_field :: "(string \<Rightarrow> int option) \<Rightarrow> string \<Rightarrow> ((int \<times> int \<times> int) \<times> bool) option" where
  "lookup_field pg_date = field_of unpack_lookup_stats_key (lookup_canon pg_date)"


definition sample_app_db :: app_db where
  "sample_app_db = empty_app_db\<lparr>t_application := \<lparr>rows = [\<lparr>ap_id = 1, ap_name = ''a'', ap_version = ''1'', ap_apikey = ''k'',
     ap_created = 0, ap_active = Some True, ap_account_id = 1, ap_email = None, ap_website = None\<rparr>], serial = 2\<rparr>\<rparr>"

definition sample_stats_db :: stats_db where
  "sample_stats_db = empty_stats_db\<lparr>sd_unique := True\<rparr>"

definition sample_lookup_key :: string where
  "sample_lookup_key = pack_lookup_stats_key ''2024-01-01'' ''05'' 1 (lookup_type True)"


text \<open>
  An increment between \<open>HGETALL\<close> and \<open>HDEL\<close> of a field that was zero is lost; a failing commit after the
  counter was decremented loses the count; and without a unique index the upsert always fails.
\<close>

lemma lookup_counter_race:
  assumes "unpack_lookup_stats_key key = Inr (d, h, i, t)"
  shows "run_update_lookup_stats pg_date app (\<lambda>_. [(key, n)]) (\<lambda>_. True) part (db, \<lambda>_. [(key, 0)])
     = (None, db, (\<lambda>_. [(key, 0)])(partition_key ''lookups'' part := []))"
  using assms by (simp add: run_update_lookup_stats_def hincrby_def hdel_def dict_del_def Let_def dict_get_def)

lemma lookup_commit_failure_loses:
  assumes "unpack_lookup_stats_key key = Inr (d, h, i, t)" and "n \<noteq> 0" and "update_lookup_stats pg_date app db i d h t n = Applied db1"
  shows "run_update_lookup_stats pg_date app (\<lambda>_. []) (\<lambda>_. False) part (db, \<lambda>_. [(key, n)])
     = (Some OperationalError, db, (\<lambda>_. [(key, n)])(partition_key ''lookups'' part := [(key, 0)]))"
  using assms by (simp add: run_update_lookup_stats_def apply_lookup_stats_def hincrby_def Let_def dict_get_def)

lemma lookup_upsert_needs_unique_index:
  "\<not> sd_unique db \<Longrightarrow> update_lookup_stats pg_date app db i d h t n = Refused ProgrammingError"
  by (simp add: update_lookup_stats_def)

subsection \<open>Queries\<close>

definition find_current_stats :: "stats_db \<Rightarrow> (string, int) dict" where
  "find_current_stats db =
     (let newest = (\<lambda>r. \<forall>x \<in> set (rows (t_stats db)). sa_date x \<le> sa_date r)
      in fold (\<lambda>r d. dict_set d (sa_name r) (sa_value r)) (sel newest (t_stats db)) [])"

text \<open>\<open>value - lag(value, 1, 0) OVER (PARTITION BY name ORDER BY date)\<close> on rows in order of the date.\<close>

fun lag_values :: "(string \<rightharpoonup> int) \<Rightarrow> stats_row list \<Rightarrow> (int \<times> string \<times> int) list" where
  "lag_values previous [] = []"
| "lag_values previous (r # rs) =
     (sa_date r, sa_name r, sa_value r - (case previous (sa_name r) of None \<Rightarrow> 0 | Some v \<Rightarrow> v))
       # lag_values (previous(sa_name r \<mapsto> sa_value r)) rs"

fun daily_entries :: "(int \<times> string \<times> int) list \<Rightarrow> (int \<times> (string, int) dict) list \<Rightarrow> (int \<times> (string, int) dict) list" where
  "daily_entries [] stats = stats"
| "daily_entries ((date, name, v) # rs) stats =
     (let stats = (if stats = [] \<or> fst (last stats) \<noteq> date then stats @ [(date, [])] else stats)
      in daily_entries rs (butlast stats @ [(fst (last stats), dict_set (snd (last stats)) name v)]))"

definition find_daily_stats :: "(string \<Rightarrow> 'o::linorder) \<Rightarrow> stats_db \<Rightarrow> string list \<Rightarrow> (int \<times> (string, int) dict) list" where
  "find_daily_stats collate db names =
     (let rs = sort_key sa_date (sort_key (\<lambda>r. collate (sa_name r))
                 (sel (\<lambda>r. sa_date r > sd_today db - 31 \<and> sa_name r \<in> set names) (t_stats db)))
      in tl (daily_entries (lag_values Map.empty rs) []))"

record lookup_stats_entry =
  le_date :: int
  le_count_hits :: int
  le_count_nohits :: int
  le_count :: int

definition lookup_entry :: "stats_lookups_row list \<Rightarrow> int \<Rightarrow> lookup_stats_entry" where
  "lookup_entry rs d =
     (let same = filter (\<lambda>r. sl_date r = d) rs;
          hits = sum_list (map sl_count_hits same); nohits = sum_list (map sl_count_nohits same)
      in \<lparr>le_date = d, le_count_hits = hits, le_count_nohits = nohits, le_count = hits + nohits\<rparr>)"

definition lookup_entries :: "stats_lookups_row list \<Rightarrow> lookup_stats_entry list" where
  "lookup_entries rs = map (lookup_entry rs) (sorted_list_of_set (set (map sl_date rs)))"

definition find_lookup_stats :: "stats_db \<Rightarrow> lookup_stats_entry list" where
  "find_lookup_stats db =
     lookup_entries (sel (\<lambda>r. sl_date r > sd_today db - 30 \<and> sl_date r < sd_today db) (t_stats_lookups db))"

definition find_application_lookup_stats_multi ::
    "stats_db \<Rightarrow> int list \<Rightarrow> int option \<Rightarrow> int option \<Rightarrow> int \<Rightarrow> lookup_stats_entry list" where
  "find_application_lookup_stats_multi db application_ids from_date to_date days =
     lookup_entries (sel (\<lambda>r.
       (case to_date of Some d \<Rightarrow> sl_date r \<le> d | None \<Rightarrow> sl_date r < sd_today db) \<and>
       (case from_date of Some d \<Rightarrow> sl_date r \<ge> d | None \<Rightarrow> sl_date r > sd_today db - days) \<and>
       (application_ids \<noteq> [] \<longrightarrow> sl_application_id r \<in> set application_ids)) (t_stats_lookups db))"

definition find_application_lookup_stats :: "stats_db \<Rightarrow> int \<Rightarrow> lookup_stats_entry list" where
  "find_application_lookup_stats db application_id = find_application_lookup_stats_multi db [application_id] None None 30"

text \<open>No lookup is dropped or counted twice by the grouping.\<close>

lemma sum_by_date: "sum_list (map (\<lambda>d. sum_list (map f (filter (\<lambda>r. g r = d) rs))) (sorted_list_of_set (set (map g rs))))
    = (sum_list (map f rs) :: int)"
proof -
  have fin: "finite D \<Longrightarrow> set (map g rs) \<subseteq> D \<Longrightarrow> (\<Sum>d \<in> D. sum_list (map f (filter (\<lambda>r. g r = d) rs))) = sum_list (map f rs)" for D
  proof (induction rs)
    case (Cons r rs)
    have "(\<Sum>d \<in> D. sum_list (map f (filter (\<lambda>r. g r = d) (r # rs))))
        = (\<Sum>d \<in> D. (if d = g r then f r else 0) + sum_list (map f (filter (\<lambda>r. g r = d) rs)))"
      by (rule sum.cong) auto
    also have "\<dots> = f r + (\<Sum>d \<in> D. sum_list (map f (filter (\<lambda>r. g r = d) rs)))"
      using Cons.prems by (simp add: sum.distrib)
    finally show ?case using Cons by simp
  qed simp
  show ?thesis
    using fin [of "set (map g rs)"] by (simp add: sum_list_distinct_conv_sum_set)
qed

lemma lookup_entries_total: "sum_list (map le_count (lookup_entries rs)) = sum_list (map (\<lambda>r. sl_count_hits r + sl_count_nohits r) rs)"
proof -
  have "le_count (lookup_entry rs d) = sum_list (map (\<lambda>r. sl_count_hits r + sl_count_nohits r) (filter (\<lambda>r. sl_date r = d) rs))" for d
    by (simp add: lookup_entry_def Let_def sum_list_addf)
  then show ?thesis unfolding lookup_entries_def map_map o_def
    using sum_by_date [of "\<lambda>r. sl_count_hits r + sl_count_nohits r" sl_date rs] by simp
qed

end
