(* ===== verification/Tasks.thy ===== *)
theory Tasks
  imports Json
begin

text \<open>
  \<^verbatim>\<open>tasks.py\<close> and the dispatcher of \<^verbatim>\<open>worker.py\<close>: background tasks in 256 Redis lists. A list holds the tasks as
  their JSON values (\<open>json.loads\<close> after \<open>json.dumps\<close> gives the value back). \<open>hash_of\<close> is Python's \<open>hash\<close> of the encoded task, which
  differs between processes, and a worker looks at the lists in a random order, \<open>picks\<close>. The locale \<open>fifo_lists\<close> is what the two
  operations promise together: every task is handed out once, in the order of its list.
\<close>

subsection \<open>The queues\<close>

definition NUM_QUEUES :: int where "NUM_QUEUES = 256"

type_synonym queues = "nat \<Rightarrow> json list"

definition task_json :: "string \<Rightarrow> (string \<times> json) list \<Rightarrow> json" where
  "task_json name kwargs = JObj [(''name'', JStr name), (''kwargs'', JObj kwargs)]"

definition task_queue :: "(json \<Rightarrow> int) \<Rightarrow> json \<Rightarrow> nat" where
  "task_queue hash_of data = nat (hash_of data mod NUM_QUEUES)"

definition enqueue_task :: "(json \<Rightarrow> int) \<Rightarrow> string \<Rightarrow> (string \<times> json) list \<Rightarrow> queues \<Rightarrow> queues" where
  "enqueue_task hash_of name kwargs st =
     (let data = task_json name kwargs; queue = task_queue hash_of data
      in st(queue := st queue @ [data]))"

text \<open>\<open>data.get("name")\<close> and \<open>data.get("kwargs")\<close>: a task without a name is skipped.\<close>

definition task_parts :: "json \<Rightarrow> py_exc + (json \<times> json) option" where
  "task_parts data =
     (case data of
        JObj d \<Rightarrow>
          Inr (case dict_get d ''name'' of
                 None \<Rightarrow> None
               | Some JNull \<Rightarrow> None
               | Some name \<Rightarrow> Some (name, case dict_get d ''kwargs'' of None \<Rightarrow> JObj [] | Some JNull \<Rightarrow> JObj [] | Some kwargs \<Rightarrow> kwargs))
      | _ \<Rightarrow> Inl AttributeError)"

text \<open>\<open>picks\<close> are the queues the loop looks at before the deadline; what it pops is recorded too.\<close>

fun dequeue_task :: "nat list \<Rightarrow> queues \<Rightarrow> (nat \<times> json) list \<Rightarrow> (py_exc + json \<times> json) \<times> (nat \<times> json) list \<times> queues" where
  "dequeue_task [] st popped = (Inl TimeoutError, popped, st)"
| "dequeue_task (queue # picks) st popped =
     (case st queue of
        [] \<Rightarrow> dequeue_task picks st popped
      | data # rest \<Rightarrow>
          (case task_parts data of
             Inl e \<Rightarrow> (Inl e, popped @ [(queue, data)], st(queue := rest))
           | Inr None \<Rightarrow> dequeue_task picks (st(queue := rest)) (popped @ [(queue, data)])
           | Inr (Some task) \<Rightarrow> (Inr task, popped @ [(queue, data)], st(queue := rest))))"

subsection \<open>The dispatcher\<close>

text \<open>A task function, called with its keyword arguments: the exception it raises, if any, and the world it leaves.\<close>

type_synonym 'w task_func = "(string \<times> json) list \<Rightarrow> 'w \<Rightarrow> py_exc option \<times> 'w"

text \<open>An unknown name is logged, as is whatever a task raises; a name that cannot be a key of a dictionary raises.\<close>

definition handle_task :: "(string \<rightharpoonup> 'w task_func) \<Rightarrow> json \<Rightarrow> json \<Rightarrow> 'w \<Rightarrow> py_exc option \<times> 'w" where
  "handle_task tasks name kwargs w =
     (case name of
        JStr n \<Rightarrow>
          (case tasks n of
             None \<Rightarrow> (None, w)
           | Some func \<Rightarrow> (case kwargs of JObj args \<Rightarrow> (None, snd (func args w)) | _ \<Rightarrow> (None, w)))
      | JArr _ \<Rightarrow> (Some TypeError, w)
      | JObj _ \<Rightarrow> (Some TypeError, w)
      | _ \<Rightarrow> (None, w))"

text \<open>One turn of \<open>run_worker\<close>: wait for a task, run it. \<open>queues\<close> and \<open>set_queues\<close> are the queues in the worker's world.\<close>

definition worker_turn ::
    "('w \<Rightarrow> queues) \<Rightarrow> (queues \<Rightarrow> 'w \<Rightarrow> 'w) \<Rightarrow> (string \<rightharpoonup> 'w task_func) \<Rightarrow> nat list \<Rightarrow> 'w \<Rightarrow> py_exc option \<times> 'w" where
  "worker_turn queues set_queues tasks picks w =
     (case dequeue_task picks (queues w) [] of
        (Inl e, popped, st) \<Rightarrow> (if e = TimeoutError then None else Some e, set_queues st w)
      | (Inr (name, kwargs), popped, st) \<Rightarrow> handle_task tasks name kwargs (set_queues st w))"

subsection \<open>First in, first out\<close>

text \<open>What happens to the queues, in order: some process adds a task, some worker takes tasks off.\<close>

datatype ('a, 'c) queue_event = Put nat 'a | Take 'c

locale fifo_lists =
  fixes put :: "nat \<Rightarrow> 'a \<Rightarrow> 's \<Rightarrow> 's"
    and take_off :: "'c \<Rightarrow> 's \<Rightarrow> (nat \<times> 'a) list \<times> 's"
    and items :: "'s \<Rightarrow> nat \<Rightarrow> 'a list"
  assumes put_last: "items (put q' t s) q = (if q = q' then items s q @ [t] else items s q)"
    and take_first: "take_off c s = (ts, s') \<Longrightarrow> items s q = map snd (filter (\<lambda>(q', t). q' = q) ts) @ items s' q"
begin

fun history :: "('a, 'c) queue_event list \<Rightarrow> 's \<Rightarrow> (nat \<times> 'a) list \<times> 's" where
  "history [] s = ([], s)"
| "history (Put q t # es) s = history es (put q t s)"
| "history (Take c # es) s = (let (ts, s) = take_off c s; (taken, s) = history es s in (ts @ taken, s))"

fun added :: "('a, 'c) queue_event list \<Rightarrow> (nat \<times> 'a) list" where
  "added [] = []"
| "added (Put q t # es) = (q, t) # added es"
| "added (Take c # es) = added es"

lemma in_order:
  "history es s = (taken, s') \<Longrightarrow>
     items s q @ map snd (filter (\<lambda>(q', t). q' = q) (added es)) = map snd (filter (\<lambda>(q', t). q' = q) taken) @ items s' q"
proof (induction es arbitrary: s taken)
  case (Cons e es)
  show ?case
  proof (cases e)
    case (Put q' t)
    with Cons.prems have "history es (put q' t s) = (taken, s')" by simp
    from Cons.IH [OF this] Put show ?thesis by (auto simp: put_last split: if_splits)
  next
    case (Take c)
    obtain ts s1 where t: "take_off c s = (ts, s1)" by fastforce
    with Cons.prems Take obtain taken' where h: "history es s1 = (taken', s')" and taken: "taken = ts @ taken'"
      by (auto simp: Let_def split: prod.splits)
    from Cons.IH [OF h] take_first [OF t, of q] Take taken show ?thesis by simp
  qed
qed simp

end

text \<open>The operations of \<open>tasks.py\<close> keep the contract.\<close>

definition push_task :: "nat \<Rightarrow> json \<Rightarrow> queues \<Rightarrow> queues" where
  "push_task queue data st = st(queue := st queue @ [data])"

definition pop_tasks :: "nat list \<Rightarrow> queues \<Rightarrow> (nat \<times> json) list \<times> queues" where
  "pop_tasks picks st = snd (dequeue_task picks st [])"

lemma enqueue_is_push: "enqueue_task hash_of name kwargs st = push_task (task_queue hash_of (task_json name kwargs)) (task_json name kwargs) st"
  by (simp add: enqueue_task_def push_task_def Let_def)

lemma dequeue_pops_first:
  "dequeue_task picks st popped = (r, popped', st') \<Longrightarrow>
     map snd (filter (\<lambda>(q', t). q' = q) popped) @ st q = map snd (filter (\<lambda>(q', t). q' = q) popped') @ st' q"
proof (induction picks st popped rule: dequeue_task.induct)
  case (2 queue picks st popped)
  show ?case
  proof (cases "st queue")
    case Nil
    with 2 show ?thesis by simp
  next
    case (Cons data rest)
    show ?thesis
    proof (cases "task_parts data")
      case (Inl e)
      with 2 Cons show ?thesis by auto
    next
      case (Inr task)
      show ?thesis
      proof (cases task)
        case None
        with Inr Cons 2(3) have "dequeue_task picks (st(queue := rest)) (popped @ [(queue, data)]) = (r, popped', st')" by simp
        from 2(2) [OF Cons Inr None this] Cons show ?thesis by (auto split: if_splits)
      next
        case (Some a)
        with 2(3) Inr Cons show ?thesis by auto
      qed
    qed
  qed
qed auto

interpretation task_lists: fifo_lists push_task pop_tasks "\<lambda>st. st"
proof
  fix queue data and st :: queues and q
  show "push_task queue data st q = (if q = queue then st q @ [data] else st q)" by (simp add: push_task_def)
next
  fix picks st ts st' q
  assume "pop_tasks picks st = (ts, st')"
  then obtain r where "dequeue_task picks st [] = (r, ts, st')" unfolding pop_tasks_def by (metis prod.collapse)
  from dequeue_pops_first [OF this, of q] show "st q = map snd (filter (\<lambda>(q', t). q' = q) ts) @ st' q" by simp
qed

text \<open>Web processes and workers at the queues: what was enqueued, what was taken off, what the workers were given.\<close>

datatype task_event = Enqueue "json \<Rightarrow> int" string "(string \<times> json) list" | Dequeue "nat list"

fun run_tasks :: "task_event list \<Rightarrow> queues \<Rightarrow> (nat \<times> json) list \<times> (nat \<times> json) list \<times> (py_exc + json \<times> json) list \<times> queues" where
  "run_tasks [] st = ([], [], [], st)"
| "run_tasks (Enqueue hash_of name kwargs # es) st =
     (let (enqueued, taken, given, st') = run_tasks es (enqueue_task hash_of name kwargs st)
      in ((task_queue hash_of (task_json name kwargs), task_json name kwargs) # enqueued, taken, given, st'))"
| "run_tasks (Dequeue picks # es) st =
     (let (result, popped, st) = dequeue_task picks st [];
          (enqueued, taken, given, st') = run_tasks es st
      in (enqueued, popped @ taken, (if result = Inl TimeoutError then given else result # given), st'))"

fun list_event :: "task_event \<Rightarrow> (json, nat list) queue_event" where
  "list_event (Enqueue hash_of name kwargs) = Put (task_queue hash_of (task_json name kwargs)) (task_json name kwargs)"
| "list_event (Dequeue picks) = Take picks"

lemma run_tasks_history:
  "run_tasks es st = (enqueued, taken, given, st') \<Longrightarrow>
     task_lists.history (map list_event es) st = (taken, st') \<and> task_lists.added (map list_event es) = enqueued"
proof (induction es arbitrary: st enqueued taken given)
  case (Cons e es)
  show ?case
  proof (cases e)
    case (Enqueue hash_of name kwargs)
    obtain enq tak giv st1 where r: "run_tasks es (enqueue_task hash_of name kwargs st) = (enq, tak, giv, st1)" by (metis prod_cases4)
    with Cons.prems Enqueue have "st1 = st'" by simp
    with Cons.IH [OF r [unfolded this]] r Cons.prems Enqueue show ?thesis by (simp add: enqueue_is_push)
  next
    case (Dequeue picks)
    obtain r popped st1 where d: "dequeue_task picks st [] = (r, popped, st1)" by (metis prod_cases3)
    obtain enq tak giv st2 where rest: "run_tasks es st1 = (enq, tak, giv, st2)" by (metis prod_cases4)
    have pop: "pop_tasks picks st = (popped, st1)" by (simp add: pop_tasks_def d)
    from Cons.prems Dequeue d rest have "st2 = st'" by simp
    with Cons.IH [OF rest [unfolded this]] Cons.prems Dequeue d rest pop show ?thesis by simp
  qed
qed simp

text \<open>Only \<open>enqueue_task\<close> fills the queues, so every task has its name and arguments.\<close>

definition named_task :: "json \<Rightarrow> bool" where
  "named_task data \<longleftrightarrow> (\<exists>name kwargs. data = task_json name kwargs)"

definition named_queues :: "queues \<Rightarrow> bool" where
  "named_queues st \<longleftrightarrow> (\<forall>q. list_all named_task (st q))"

definition task_of :: "json \<Rightarrow> json \<times> json" where
  "task_of data = (the (jget data ''name''), the (jget data ''kwargs''))"

lemma task_parts_named: "named_task data \<Longrightarrow> task_parts data = Inr (Some (task_of data))"
  by (auto simp: named_task_def task_json_def task_parts_def task_of_def dict_get_def)

lemma named_enqueue: "named_queues st \<Longrightarrow> named_queues (enqueue_task hash_of name kwargs st)"
  by (auto simp: named_queues_def enqueue_task_def Let_def named_task_def)

lemma dequeue_named:
  assumes "named_queues st"
  shows "dequeue_task picks st popped =
     (case filter (\<lambda>q. st q \<noteq> []) picks of
        [] \<Rightarrow> (Inl TimeoutError, popped, st)
      | q # _ \<Rightarrow> (Inr (task_of (hd (st q))), popped @ [(q, hd (st q))], st(q := tl (st q))))"
  using assms
proof (induction picks)
  case (Cons q picks)
  show ?case
  proof (cases "st q")
    case (Cons data rest)
    with assms have "named_task data" by (metis list.pred_inject(2) named_queues_def)
    with Cons show ?thesis by (simp add: task_parts_named)
  qed (use Cons in simp)
qed simp

lemma list_all_tl: "list_all P xs \<Longrightarrow> list_all P (tl xs)"
  by (cases xs) simp_all

lemma named_dequeue: "named_queues st \<Longrightarrow> dequeue_task picks st popped = (r, popped', st') \<Longrightarrow> named_queues st'"
  by (auto simp: dequeue_named named_queues_def list_all_tl split: list.splits)

lemma named_run: "named_queues st \<Longrightarrow> run_tasks es st = (enqueued, taken, given, st') \<Longrightarrow> named_queues st'"
proof (induction es arbitrary: st enqueued taken given)
  case (Cons e es)
  show ?case
  proof (cases e)
    case (Enqueue hash_of name kwargs)
    with Cons.prems Cons.IH [OF named_enqueue [OF Cons.prems(1)]] show ?thesis by (auto split: prod.splits)
  next
    case (Dequeue picks)
    with Cons.prems Cons.IH [OF named_dequeue [OF Cons.prems(1)]] show ?thesis by (auto split: prod.splits)
  qed
qed simp

lemma given_are_taken:
  "named_queues st \<Longrightarrow> run_tasks es st = (enqueued, taken, given, st') \<Longrightarrow> given = map (\<lambda>(q, data). Inr (task_of data)) taken"
proof (induction es arbitrary: st enqueued taken given)
  case (Cons e es)
  show ?case
  proof (cases e)
    case (Enqueue hash_of name kwargs)
    obtain enq tak giv st1 where "run_tasks es (enqueue_task hash_of name kwargs st) = (enq, tak, giv, st1)" by (metis prod_cases4)
    with Cons.prems(2) Enqueue have r: "run_tasks es (enqueue_task hash_of name kwargs st) = (enq, tak, giv, st')" by simp
    from Cons.IH [OF named_enqueue [OF Cons.prems(1)] r] r Cons.prems(2) Enqueue show ?thesis by auto
  next
    case (Dequeue picks)
    obtain r popped st1 where d: "dequeue_task picks st [] = (r, popped, st1)" by (metis prod_cases3)
    obtain enq tak giv st2 where rest: "run_tasks es st1 = (enq, tak, giv, st2)" by (metis prod_cases4)
    from Cons.prems(2) Dequeue d rest have "st2 = st'" by (simp split: if_splits)
    have "giv = map (\<lambda>(q, data). Inr (task_of data)) tak"
      by (rule Cons.IH [OF named_dequeue [OF Cons.prems(1) d] rest [unfolded \<open>st2 = st'\<close>]])
    moreover have "r = Inl TimeoutError \<and> popped = [] \<or> (\<exists>q data. r = Inr (task_of data) \<and> popped = [(q, data)])"
      using d by (auto simp: dequeue_named [OF Cons.prems(1)] split: list.splits)
    ultimately show ?thesis using Cons.prems(2) Dequeue d rest by auto
  qed
qed simp

text \<open>C25: Background tasks are delivered exactly once and in order. However web processes and workers interleave, in each
  queue the tasks that were enqueued are those that workers took off, in the same order, followed by the ones still waiting; a
  worker is given the name and the arguments of exactly the tasks that were taken off, and a worker that looks at a queue which
  is not empty always gets one.\<close>

theorem tasks_delivered_in_order:
  "(case run_tasks es (\<lambda>_. []) of (enqueued, taken, given, st) \<Rightarrow>
     map snd (filter (\<lambda>(q', data). q' = q) enqueued) = map snd (filter (\<lambda>(q', data). q' = q) taken) @ st q \<and>
     given = map (\<lambda>(q, data). Inr (task_of data)) taken \<and>
     (st q = [] \<or> (\<exists>task. fst (dequeue_task (before @ q # after) st []) = Inr task)))"
proof -
  obtain enqueued taken given st where r: "run_tasks es (\<lambda>_. []) = (enqueued, taken, given, st)" by (metis prod_cases4)
  have named: "named_queues (\<lambda>_. [])" by (simp add: named_queues_def)
  from named_run [OF named r] have st: "named_queues st" .
  have "st q = [] \<or> (\<exists>task. fst (dequeue_task (before @ q # after) st []) = Inr task)"
    by (auto simp: dequeue_named [OF st] split: list.split dest: arg_cong [where f = set])
  with run_tasks_history [OF r] task_lists.in_order [of "map list_event es" "\<lambda>_. []" taken st q] given_are_taken [OF named r]
  show ?thesis by (simp add: r)
qed

end
