(* ===== verification/Api_Handler.thy ===== *)
theory Api_Handler
  imports Api_Params Serialize Ratelimit Track Stats Tasks
begin

text \<open>
  \<open>APIHandler\<close> of \<^verbatim>\<open>api/v2/__init__.py\<close>: the life of a request. A handler is given by how it parses its
  parameters and what it does with them; the state is what a request can change: the databases (the tables of
  statistics are a part of the app database), the key caches, and in Redis the rate limiter's counters, the usage counters and
  the task queues. A handler commits at its end; when it raises, what it did to the databases is rolled back, what it did to Redis
  stays. Metrics and logging are not modelled.
\<close>

subsection \<open>State and configuration\<close>

record api_state =
  as_app :: app_db
  as_stats :: stats_db
  as_fp :: fingerprint_db
  as_ingest :: ingest_db
  as_caches :: key_caches
  as_redis :: redis
  as_counters :: "string \<Rightarrow> counters"
  as_tasks :: queues

record rate_config =
  rc_applications :: "int \<rightharpoonup> rat"
  rc_global :: "rat option"
  rc_ips :: "string \<rightharpoonup> rat"

text \<open>What a request brings: its values (or the exception that reading them raises), address and headers.\<close>

record api_request =
  rq_values :: "api_exc + request_values"
  rq_access_route :: "string list"
  rq_remote_addr :: "string option"
  rq_is_secure :: bool
  rq_user_agent :: string

record 'p api_handler =
  h_parse :: "api_env \<Rightarrow> request_values \<Rightarrow> api_state \<Rightarrow> string \<times> (api_exc + 'p) \<times> api_state"
  h_application_id :: "'p \<Rightarrow> int option"
  h_internal :: "api_env \<Rightarrow> api_request \<Rightarrow> string \<Rightarrow> 'p \<Rightarrow> api_state \<Rightarrow> (api_exc + (string \<times> json) list) \<times> api_state"

datatype outcome = Answer api_response | Raised api_exc

definition DEFAULT_APPLICATION_RATE_LIMIT :: rat where "DEFAULT_APPLICATION_RATE_LIMIT = 10"

subsection \<open>Answers\<close>

definition error_data :: "int \<Rightarrow> string \<Rightarrow> json" where
  "error_data err_code message = JObj [(''status'', JStr ''error''), (''error'', JObj [(''code'', JInt err_code), (''message'', JStr message)])]"

definition error_response :: "printers \<Rightarrow> int \<Rightarrow> string \<Rightarrow> string \<Rightarrow> int \<Rightarrow> py_exc + api_response" where
  "error_response p err_code message format status = serialize_response p (error_data err_code message) format status"

definition ok_data :: "(string \<times> json) list \<Rightarrow> json" where
  "ok_data data = JObj (fold (\<lambda>(k, v) d. dict_set d k v) data [(''status'', JStr ''ok'')])"

definition ok_response :: "printers \<Rightarrow> (string \<times> json) list \<Rightarrow> string \<Rightarrow> py_exc + api_response" where
  "ok_response p data format = serialize_response p (ok_data data) format 200"

subsection \<open>Admission\<close>

definition is_cluster_request :: "api_env \<Rightarrow> request_values \<Rightarrow> bool" where
  "is_cluster_request env values =
     (case (ae_cluster_secret env, vget values ''secret'') of
        (Some secret, Some given) \<Rightarrow> secret \<noteq> [] \<and> given \<noteq> [] \<and> given = secret
      | _ \<Rightarrow> False)"

definition rate_limit :: "rate_config \<Rightarrow> rat \<Rightarrow> string \<Rightarrow> int option \<Rightarrow> redis \<Rightarrow> web_error option \<times> redis" where
  "rate_limit cfg now user_ip application_id st =
     (let rl = new_rate_limiter ''rl'';
          own_limit = Option.bind application_id (rc_applications cfg);
          (refused, st) =
            (case application_id of
               None \<Rightarrow> (None, st)
             | Some i \<Rightarrow>
                 let limit = (case own_limit of Some r \<Rightarrow> r | None \<Rightarrow> DEFAULT_APPLICATION_RATE_LIMIT);
                     (hit, st) = rate_limit_hit rl now ''app'' (int_str i) limit st
                 in (if hit then Some (TooManyRequests limit) else None, st))
      in if refused \<noteq> None then (refused, st)
         else
           let (refused, st) =
             (case rc_global cfg of
                None \<Rightarrow> (None, st)
              | Some limit \<Rightarrow>
                  let (hit, st) = rate_limit_hit rl now ''global'' [] limit st
                  in (if hit then Some (TooManyRequests limit) else None, st))
           in if refused \<noteq> None then (refused, st)
              else if own_limit = None then
                let limit = (case rc_ips cfg user_ip of Some r \<Rightarrow> r | None \<Rightarrow> MAX_REQUESTS_PER_SECOND);
                    (hit, st) = rate_limit_hit rl now ''ip'' user_ip limit st
                in (if hit then Some (TooManyRequests limit) else None, st)
              else (None, st))"

subsection \<open>A request\<close>

definition request_ip :: "api_request \<Rightarrow> string" where
  "request_ip req =
     (case rq_access_route req of
        ip # _ \<Rightarrow> ip
      | [] \<Rightarrow> (case rq_remote_addr req of None \<Rightarrow> ''0.0.0.0'' | Some [] \<Rightarrow> ''0.0.0.0'' | Some ip \<Rightarrow> ip))"

definition keep_databases :: "api_state \<Rightarrow> api_state \<Rightarrow> api_state" where
  "keep_databases s s' = s'\<lparr>as_app := as_app s, as_stats := as_stats s, as_fp := as_fp s, as_ingest := as_ingest s\<rparr>"

text \<open>The inner \<open>try\<close>: an exception that is no web service error becomes one.\<close>

fun handled :: "api_exc \<Rightarrow> api_exc" where
  "handled (Web e) = Web e"
| "handled RequestEntityTooLarge = Web RequestTooLargeError"
| "handled (HttpException n) = HttpException n"
| "handled (Crash e) = Web InternalError"

definition attempt ::
    "printers \<Rightarrow> rate_config \<Rightarrow> 'p api_handler \<Rightarrow> api_env \<Rightarrow> api_request \<Rightarrow> api_state \<Rightarrow> string \<times> (api_exc + api_response) \<times> api_state" where
  "attempt p cfg h env req s =
     (case rq_values req of
        Inl e \<Rightarrow> (DEFAULT_FORMAT, Inl e, s)
      | Inr values \<Rightarrow>
          (case h_parse h env values s of
             (format, Inl e, s) \<Rightarrow> (format, Inl e, s)
           | (format, Inr params, s) \<Rightarrow>
               let (refused, redis) =
                     (if is_cluster_request env values then (None, as_redis s)
                      else rate_limit cfg (ae_now env) (request_ip req) (h_application_id h params) (as_redis s));
                   s = s\<lparr>as_redis := redis\<rparr>
               in case refused of
                    Some e \<Rightarrow> (format, Inl (Web e), s)
                  | None \<Rightarrow>
                      (case h_internal h env req (request_ip req) params s of
                         (Inl e, s') \<Rightarrow> (format, Inl e, keep_databases s s')
                       | (Inr data, s') \<Rightarrow>
                           (case ok_response p data format of
                              Inl e \<Rightarrow> (format, Inl (Crash e), s')
                            | Inr response \<Rightarrow> (format, Inr response, s')))))"

definition handle_request ::
    "printers \<Rightarrow> rate_config \<Rightarrow> 'p api_handler \<Rightarrow> api_env \<Rightarrow> api_request \<Rightarrow> api_state \<Rightarrow> outcome \<times> api_state" where
  "handle_request p cfg h env req s =
     (case attempt p cfg h env req s of
        (format, Inr response, s) \<Rightarrow> (Answer response, s)
      | (format, Inl e, s) \<Rightarrow>
          (case handled e of
             Web err \<Rightarrow>
               (case error_response p (error_code err) (error_message err) format (error_status err) of
                  Inl x \<Rightarrow> (Raised (Crash x), s)
                | Inr response \<Rightarrow> (Answer response, s))
           | other \<Rightarrow> (Raised other, s)))"

end
