(* ===== verification/Api_Contract.thy ===== *)
theory Api_Contract
  imports Api_Handler
begin

text \<open>
  The contract \<open>api_operation\<close> that a handler of the service keeps, and what follows from it for every request:
  a request that is refused has changed no database, and every request is answered. \<open>read_only_operation\<close>
  extends it for the handlers that never write.
\<close>

subsection \<open>The contract of a handler\<close>

definition with_caches :: "key_caches \<Rightarrow> api_state \<Rightarrow> api_state" where
  "with_caches kc s = s\<lparr>as_caches := kc\<rparr>"

definition same_databases :: "api_state \<Rightarrow> api_state \<Rightarrow> bool" where
  "same_databases s s' \<longleftrightarrow> as_app s' = as_app s \<and> as_stats s' = as_stats s \<and> as_fp s' = as_fp s \<and> as_ingest s' = as_ingest s"

lemma same_databases_refl [simp]: "same_databases s s"
  by (simp add: same_databases_def)

lemma same_databases_with_caches [simp]: "same_databases s (with_caches kc s)"
  by (simp add: same_databases_def with_caches_def)

lemma same_databases_redis [simp]: "same_databases s (s'\<lparr>as_redis := r\<rparr>) \<longleftrightarrow> same_databases s s'"
  by (simp add: same_databases_def)

lemma same_databases_counters [simp]: "same_databases s (s'\<lparr>as_counters := c\<rparr>) \<longleftrightarrow> same_databases s s'"
  by (simp add: same_databases_def)

lemma same_databases_tasks [simp]: "same_databases s (s'\<lparr>as_tasks := q\<rparr>) \<longleftrightarrow> same_databases s s'"
  by (simp add: same_databases_def)

lemma same_databases_keep [simp]: "same_databases s (keep_databases s s')"
  by (simp add: same_databases_def keep_databases_def)

lemma same_databases_trans: "same_databases a b \<Longrightarrow> same_databases b c \<Longrightarrow> same_databases a c"
  by (simp add: same_databases_def)

fun no_http :: "(api_exc + 'a) \<Rightarrow> bool" where
  "no_http (Inl (HttpException n)) = False"
| "no_http _ = True"

definition answer_ready :: "(string \<times> json) list \<Rightarrow> bool" where
  "answer_ready data \<longleftrightarrow> list_all (\<lambda>(name, v). is_attribute name \<or> xml_ready name v) data"

lemma answer_ready_set: "answer_ready d \<Longrightarrow> is_attribute k \<or> xml_ready k v \<Longrightarrow> answer_ready (dict_set d k v)"
  by (induction d k v rule: dict_set.induct) (auto simp: answer_ready_def)

lemma answer_ready_fold: "answer_ready d \<Longrightarrow> answer_ready data \<Longrightarrow> answer_ready (fold (\<lambda>(k, v) d. dict_set d k v) data d)"
proof (induction data arbitrary: d)
  case (Cons kv data)
  obtain k v where kv: "kv = (k, v)" by fastforce
  with Cons.prems(2) have "is_attribute k \<or> xml_ready k v" "answer_ready data" by (simp_all add: answer_ready_def)
  with Cons kv show ?case by (simp add: answer_ready_set)
qed simp

lemma xml_ready_obj: "xml_ready tag (JObj d) \<longleftrightarrow> answer_ready d"
  by (auto simp: answer_ready_def list_all_iff)

lemma serialize_response_ready:
  "xml_ready ''response'' v \<Longrightarrow> \<exists>response. serialize_response p v format status = Inr response \<and> ar_status response = status"
  using xml_ready_serializes [of "''response''" v "p_repr_float p" "p_container_text p"]
  by (auto simp: serialize_response_def serialize_json_def serialize_xml_def Let_def)

lemma ok_response_ready: "answer_ready data \<Longrightarrow> \<exists>response. ok_response p data format = Inr response \<and> ar_status response = 200"
  unfolding ok_response_def ok_data_def
proof (rule serialize_response_ready)
  assume "answer_ready data"
  moreover have "answer_ready [(''status'', JStr ''ok'')]" by (simp add: answer_ready_def)
  ultimately show "xml_ready ''response'' (JObj (fold (\<lambda>(k, v) d. dict_set d k v) data [(''status'', JStr ''ok'')]))"
    unfolding xml_ready_obj by (rule answer_ready_fold [rotated])
qed

lemma error_response_ready: "\<exists>response. error_response p c m format status = Inr response \<and> ar_status response = status"
  unfolding error_response_def error_data_def by (rule serialize_response_ready) simp

lemma error_status_not_ok: "error_status e \<noteq> 200"
  by (cases e) simp_all

text \<open>How an attempt can end.\<close>

lemma attempt_cases [consumes 1, case_names values_raise refused_params rate_limited internal_raises internal_returns]:
  assumes "attempt p cfg h env req s = (format, result, s')"
  obtains e where "rq_values req = Inl e" "result = Inl e" "s' = s"
  | vs e where "rq_values req = Inr vs" "h_parse h env vs s = (format, Inl e, s')" "result = Inl e"
  | vs params s0 r err where "rq_values req = Inr vs" "h_parse h env vs s = (format, Inr params, s0)"
      "result = Inl (Web err)" "s' = s0\<lparr>as_redis := r\<rparr>"
  | e vs params s0 r s1 where "rq_values req = Inr vs" "h_parse h env vs s = (format, Inr params, s0)" "result = Inl e"
      "h_internal h env req (request_ip req) params (s0\<lparr>as_redis := r\<rparr>) = (Inl e, s1)" "s' = keep_databases (s0\<lparr>as_redis := r\<rparr>) s1"
  | vs params s0 r data where "rq_values req = Inr vs" "h_parse h env vs s = (format, Inr params, s0)"
      "h_internal h env req (request_ip req) params (s0\<lparr>as_redis := r\<rparr>) = (Inr data, s')"
      "result = (case ok_response p data format of Inl x \<Rightarrow> Inl (Crash x) | Inr response \<Rightarrow> Inr response)"
proof (cases "rq_values req")
  case (Inl x)
  with assms that(1) show ?thesis by (simp add: attempt_def)
next
  case vals: (Inr vs)
  obtain format0 parsed s0 where parse: "h_parse h env vs s = (format0, parsed, s0)" by (metis prod_cases3)
  show ?thesis
  proof (cases parsed)
    case (Inl x)
    with assms vals parse that(2) show ?thesis by (simp add: attempt_def)
  next
    case params: (Inr params)
    define adm where "adm = (if is_cluster_request env vs then (None, as_redis s0)
        else rate_limit cfg (ae_now env) (request_ip req) (h_application_id h params) (as_redis s0))"
    obtain refused r where r: "adm = (refused, r)" by fastforce
    obtain internal s1 where int: "h_internal h env req (request_ip req) params (s0\<lparr>as_redis := r\<rparr>) = (internal, s1)" by fastforce
    have att: "attempt p cfg h env req s =
      (case refused of Some e \<Rightarrow> (format0, Inl (Web e), s0\<lparr>as_redis := r\<rparr>)
       | None \<Rightarrow> (case internal of Inl e \<Rightarrow> (format0, Inl e, keep_databases (s0\<lparr>as_redis := r\<rparr>) s1)
          | Inr data \<Rightarrow> (format0, case ok_response p data format0 of Inl x \<Rightarrow> Inl (Crash x) | Inr response \<Rightarrow> Inr response, s1)))"
      unfolding attempt_def vals parse params sum.case prod.case Let_def adm_def [symmetric] r int
      by (simp split: option.split sum.split)
    show ?thesis
    proof (cases refused)
      case (Some err)
      with att assms parse params vals that(3) show ?thesis by simp
    next
      case None
      with att assms parse params vals int that(4,5) show ?thesis by (cases internal) auto
    qed
  qed
qed

locale api_operation =
  fixes h :: "'p api_handler"
  assumes parse_keeps: "h_parse h env values s = (format, parsed, s') \<Longrightarrow> same_databases s s'"
    and parse_no_http: "h_parse h env values s = (format, parsed, s') \<Longrightarrow> no_http parsed"
    and internal_no_http: "h_internal h env req user_ip params s = (result, s') \<Longrightarrow> no_http result"
    and internal_ready: "h_internal h env req user_ip params s = (Inr data, s') \<Longrightarrow> answer_ready data"
begin

lemma attempt_refused:
  assumes "attempt p cfg h env req s = (format, Inl e, s')"
  shows "same_databases s s'"
  using assms
proof (cases rule: attempt_cases)
  case values_raise
  then show ?thesis by simp
next
  case (refused_params vs)
  then show ?thesis using parse_keeps by blast
next
  case (rate_limited vs params s0 r err)
  then show ?thesis using parse_keeps by fastforce
next
  case (internal_raises vs params s0 r s1)
  then show ?thesis using parse_keeps same_databases_keep same_databases_redis same_databases_trans by metis
next
  case (internal_returns vs params s0 r data)
  with internal_ready have "answer_ready data" by blast
  from ok_response_ready [OF this, of p format] internal_returns show ?thesis by auto
qed

lemma attempt_no_http:
  assumes "attempt p cfg h env req s = (format, result, s')" and no: "no_http (rq_values req)"
  shows "no_http result"
  using assms(1)
proof (cases rule: attempt_cases)
  case (values_raise e)
  with no show ?thesis by (cases e) auto
next
  case (refused_params vs e)
  then show ?thesis using parse_no_http [OF refused_params(2)] by (cases e) auto
next
  case (internal_raises e vs params s0 r s1)
  then show ?thesis using internal_no_http [OF internal_raises(4)] by (cases e) auto
qed (auto split: sum.splits)

text \<open>A request that is not answered with 200 has changed no database.\<close>

lemma refused_changes_nothing:
  "case handle_request p cfg h env req s of (out, s') \<Rightarrow>
     (\<exists>body. out = Answer \<lparr>ar_status = 200, ar_body = body\<rparr>) \<or> same_databases s s'"
proof -
  obtain format result s' where att: "attempt p cfg h env req s = (format, result, s')" by (metis prod_cases3)
  show ?thesis
  proof (cases result)
    case (Inl e)
    with attempt_refused att have "same_databases s s'" by blast
    with att Inl show ?thesis by (auto simp: handle_request_def split: api_exc.splits sum.splits)
  next
    case (Inr response)
    from att [unfolded Inr] obtain data where data: "ok_response p data format = Inr response" "answer_ready data"
      by (cases rule: attempt_cases) (auto split: sum.splits dest: internal_ready)
    from ok_response_ready [OF data(2), of p format] data(1) have "ar_status response = 200" by simp
    then have "\<exists>body. response = \<lparr>ar_status = 200, ar_body = body\<rparr>" by (metis api_response.surjective old.unit.exhaust)
    with att Inr show ?thesis by (auto simp: handle_request_def)
  qed
qed

text \<open>Every request gets an answer, unless reading its values raised one of werkzeug's exceptions.\<close>

lemma always_answered:
  assumes "no_http (rq_values req)"
  shows "\<exists>response. fst (handle_request p cfg h env req s) = Answer response"
proof -
  obtain format result s' where att: "attempt p cfg h env req s = (format, result, s')" by (metis prod_cases3)
  from attempt_no_http [OF att assms] have no: "no_http result" .
  show ?thesis
  proof (cases result)
    case (Inl e)
    with no obtain err where "handled e = Web err" by (cases e) auto
    with error_response_ready [of p "error_code err" "error_message err" format "error_status err"] att Inl
    show ?thesis by (auto simp: handle_request_def)
  next
    case (Inr response)
    with att show ?thesis by (simp add: handle_request_def)
  qed
qed

end

text \<open>Handlers that only read.\<close>

locale read_only_operation = api_operation h for h :: "'p api_handler" +
  assumes internal_keeps: "h_internal h env req user_ip params s = (result, s') \<Longrightarrow> same_databases s s'"
begin

lemma changes_nothing: "same_databases s (snd (handle_request p cfg h env req s))"
proof -
  obtain format result s' where att: "attempt p cfg h env req s = (format, result, s')" by (metis prod_cases3)
  have "same_databases s s'"
  proof (cases result)
    case (Inl e)
    with attempt_refused att show ?thesis by blast
  next
    case (Inr response)
    from att [unfolded Inr] show ?thesis
    proof (cases rule: attempt_cases)
      case (internal_returns vs params s0 r data)
      from parse_keeps [OF internal_returns(2)] internal_keeps [OF internal_returns(3)] show ?thesis by (simp add: same_databases_def)
    qed simp_all
  qed
  with att show ?thesis by (auto simp: handle_request_def split: sum.splits api_exc.splits)
qed

end

end
