(* ===== verification/Api_Submit.thy ===== *)
theory Api_Submit
  imports Api_Contract Submission
begin

text \<open>
  The two ends of a submission in \<^verbatim>\<open>api/v2/__init__.py\<close>, \<open>SubmitHandler\<close> and \<open>SubmissionStatusHandler\<close>, and the
  variants of \<^verbatim>\<open>api/v1.py\<close>. \<open>decode_legacy\<close> is Chromaprint's decoder.
\<close>

datatype api_version = V1 | V2

subsection \<open>Parameters\<close>

text \<open>v1 answers in XML only.\<close>

definition parse_format_of :: "api_version \<Rightarrow> request_values \<Rightarrow> string \<times> api_exc option" where
  "parse_format_of v values = (case v of V1 \<Rightarrow> (''xml'', None) | V2 \<Rightarrow> parse_format values)"

definition missing :: "string \<Rightarrow> api_exc" where
  "missing name = Web (MissingParameterError name)"

text \<open>
  The loop over the suffixes of a request: a web service error drops the item, unless it is the last one and
  there is none so far; other exceptions end the loop.
\<close>

fun parse_each :: "(string \<Rightarrow> api_exc + 'a) \<Rightarrow> string list \<Rightarrow> 'a list \<Rightarrow> api_exc + 'a list" where
  "parse_each f [] acc = Inr acc"
| "parse_each f (suffix # suffixes) acc =
     (case f suffix of
        Inr p \<Rightarrow> parse_each f suffixes (acc @ [p])
      | Inl (Web e) \<Rightarrow> if acc = [] \<and> suffixes = [] then Inl (Web e) else parse_each f suffixes acc
      | Inl e \<Rightarrow> Inl e)"

record submission_params =
  sp_index :: string
  sp_puid :: "string option"
  sp_foreignid :: "string option"
  sp_mbids :: "string list"
  sp_duration :: int
  sp_format :: "string option"
  sp_fingerprint :: "int list"
  sp_bitrate :: "int option"
  sp_track :: "string option"
  sp_artist :: "string option"
  sp_album :: "string option"
  sp_album_artist :: "string option"
  sp_track_no :: "int option"
  sp_disc_no :: "int option"
  sp_year :: "int option"

definition parse_duration_and_format ::
    "api_version \<Rightarrow> request_values \<Rightarrow> string \<Rightarrow> api_exc + int \<times> string option" where
  "parse_duration_and_format v values suffix =
     (case v of
        V2 \<Rightarrow>
          (case vget_int values (''duration'' @ suffix) of
             None \<Rightarrow> Inl (missing (''duration'' @ suffix))
           | Some duration \<Rightarrow>
               if duration \<le> 0 \<or> duration > 0x7FFF then Inl (Web (InvalidDurationError (''duration'' @ suffix)))
               else Inr (duration, vget values (''fileformat'' @ suffix)))
      | V1 \<Rightarrow>
          (case vget_int values (''length'' @ suffix) of
             None \<Rightarrow> Inl (missing (''length'' @ suffix))
           | Some duration \<Rightarrow>
               if duration = 0 \<or> duration > 0x7FFF then Inl (missing (''length'' @ suffix))
               else Inr (duration, vget values (''format'' @ suffix))))"

definition is_set :: "string option \<Rightarrow> bool" where
  "is_set x \<longleftrightarrow> (case x of None \<Rightarrow> False | Some s \<Rightarrow> s \<noteq> [])"

definition parse_submission ::
    "(string \<Rightarrow> (int list \<times> int) option) \<Rightarrow> api_version \<Rightarrow> request_values \<Rightarrow> string \<Rightarrow> api_exc + submission_params" where
  "parse_submission decode_legacy v values suffix =
     (let puid = vget values (''puid'' @ suffix);
          foreignid = vget values (''foreignid'' @ suffix);
          mbids = vgetlist values (''mbid'' @ suffix)
      in if is_set puid \<and> \<not> is_uuid (the puid) then Inl (Web (InvalidUUIDError (''puid'' @ suffix)))
         else if is_set foreignid \<and> \<not> is_foreignid (the foreignid) then Inl (Web (InvalidForeignIDError (''foreignid'' @ suffix)))
         else if mbids \<noteq> [] \<and> \<not> list_all is_uuid mbids then Inl (Web (InvalidUUIDError (''mbid'' @ suffix)))
         else
           case parse_duration_and_format v values suffix of
             Inl e \<Rightarrow> Inl e
           | Inr (duration, format) \<Rightarrow>
               (case vget values (''fingerprint'' @ suffix) of
                  None \<Rightarrow> Inl (missing (''fingerprint'' @ suffix))
                | Some [] \<Rightarrow> Inl (missing (''fingerprint'' @ suffix))
                | Some fingerprint_string \<Rightarrow>
                    (case decode_fingerprint decode_legacy fingerprint_string of
                       None \<Rightarrow> Inl (Web InvalidFingerprintError)
                     | Some [] \<Rightarrow> Inl (Web InvalidFingerprintError)
                     | Some fingerprint \<Rightarrow>
                         let bitrate = truthy_id (vget_int values (''bitrate'' @ suffix))
                         in if bitrate \<noteq> None \<and> the bitrate \<le> 0 then Inl (Web (InvalidBitrateError (''bitrate'' @ suffix)))
                            else Inr \<lparr>sp_index = tl suffix, sp_puid = puid, sp_foreignid = foreignid, sp_mbids = mbids,
                                   sp_duration = duration, sp_format = format, sp_fingerprint = fingerprint,
                                   sp_bitrate = bitrate, sp_track = vget values (''track'' @ suffix),
                                   sp_artist = vget values (''artist'' @ suffix), sp_album = vget values (''album'' @ suffix),
                                   sp_album_artist = vget values (''albumartist'' @ suffix),
                                   sp_track_no = vget_int values (''trackno'' @ suffix),
                                   sp_disc_no = vget_int values (''discno'' @ suffix),
                                   sp_year = vget_int values (''year'' @ suffix)\<rparr>)))"

record submit_params =
  sm_application_id :: int
  sm_application_version :: "string option"
  sm_account_id :: int
  sm_wait :: int
  sm_submissions :: "submission_params list"

definition parse_user :: "app_db \<Rightarrow> request_values \<Rightarrow> key_caches \<Rightarrow> (api_exc + int) \<times> key_caches" where
  "parse_user db values kc =
     (case vget values ''user'' of
        None \<Rightarrow> (Inl (missing ''user''), kc)
      | Some [] \<Rightarrow> (Inl (missing ''user''), kc)
      | Some account_apikey \<Rightarrow>
          let (account_id, kc) = check_user_api_key db account_apikey kc
          in case truthy_id account_id of
               None \<Rightarrow> (Inl (Web InvalidUserAPIKeyError), kc)
             | Some i \<Rightarrow> (Inr i, kc))"

definition parse_suffixes :: "request_values \<Rightarrow> string list \<Rightarrow> (string \<Rightarrow> api_exc + 'a) \<Rightarrow> api_exc + 'a list" where
  "parse_suffixes values prefixes f =
     (case iter_args_suffixes (value_names values) prefixes of
        Inl e \<Rightarrow> Inl (Crash e)
      | Inr [] \<Rightarrow> Inl (missing ''fingerprint'')
      | Inr suffixes \<Rightarrow> parse_each f suffixes [])"

definition submit_parse ::
    "(string \<Rightarrow> (int list \<times> int) option) \<Rightarrow> api_version \<Rightarrow> api_env \<Rightarrow> request_values \<Rightarrow> api_state
       \<Rightarrow> string \<times> (api_exc + submit_params) \<times> api_state" where
  "submit_parse decode_legacy v env values s =
     (case parse_format_of v values of
        (format, Some e) \<Rightarrow> (format, Inl e, s)
      | (format, None) \<Rightarrow>
          (case parse_client env (as_app s) values (as_caches s) of
             (Inl e, kc) \<Rightarrow> (format, Inl e, with_caches kc s)
           | (Inr client, kc) \<Rightarrow>
               (case parse_user (as_app s) values kc of
                  (Inl e, kc) \<Rightarrow> (format, Inl e, with_caches kc s)
                | (Inr account_id, kc) \<Rightarrow>
                    (format,
                     (case parse_suffixes values [''fingerprint''] (parse_submission decode_legacy v values) of
                        Inl e \<Rightarrow> Inl e
                      | Inr submissions \<Rightarrow>
                          Inr \<lparr>sm_application_id = cp_application_id client,
                               sm_application_version = cp_application_version client, sm_account_id = account_id,
                               sm_wait = (case vget_int values ''wait'' of None \<Rightarrow> 0 | Some w \<Rightarrow> w),
                               sm_submissions = submissions\<rparr>),
                     with_caches kc s))))"

subsection \<open>Storing submissions\<close>

record new_submission =
  ns_mbid :: "string option"
  ns_puid :: "string option"
  ns_bitrate :: "int option"
  ns_fingerprint :: "int list"
  ns_length :: int
  ns_format :: "string option"
  ns_account_id :: int
  ns_application_id :: int
  ns_application_version :: "string option"
  ns_meta :: "meta_dict option"
  ns_foreignid :: "string option"

text \<open>What the columns of the table take: the driver refuses texts with a NUL, PostgreSQL numbers outside the
  column's type and texts that are no UUID, and the table's checks numbers that are not positive.\<close>

definition opt_all :: "('a \<Rightarrow> bool) \<Rightarrow> 'a option \<Rightarrow> bool" where
  "opt_all P x \<longleftrightarrow> (case x of None \<Rightarrow> True | Some v \<Rightarrow> P v)"

definition pg_text :: "string \<Rightarrow> bool" where
  "pg_text s \<longleftrightarrow> list_all (\<lambda>c. code c \<noteq> 0) s"

definition pg_smallint :: "int \<Rightarrow> bool" where
  "pg_smallint i \<longleftrightarrow> - 32768 \<le> i \<and> i \<le> 32767"

definition insert_error :: "new_submission \<Rightarrow> py_exc option" where
  "insert_error ns =
     (if \<not> (opt_all pg_text (ns_format ns) \<and> opt_all pg_text (ns_application_version ns) \<and> opt_all pg_text (ns_foreignid ns))
      then Some ValueError
      else if \<not> (opt_all uuid_body (ns_mbid ns) \<and> opt_all uuid_body (ns_puid ns)
                  \<and> opt_all pg_smallint (ns_bitrate ns) \<and> pg_smallint (ns_length ns)) then Some DataError
      else if \<not> (ns_length ns > 0 \<and> opt_all (\<lambda>b. b > 0) (ns_bitrate ns)) then Some IntegrityError
      else None)"

definition submission_row_of :: "int \<Rightarrow> new_submission \<Rightarrow> int \<Rightarrow> submission_row" where
  "submission_row_of created ns i =
     \<lparr>su_id = i, su_created = created, su_handled_at = None, su_handled = False, su_account_id = Some (ns_account_id ns),
      su_application_id = Some (ns_application_id ns), su_application_version = ns_application_version ns,
      su_source_id = None, su_fingerprint = ns_fingerprint ns, su_length = ns_length ns, su_bitrate = ns_bitrate ns,
      su_format = ns_format ns, su_format_id = None, su_meta = ns_meta ns, su_meta_gid = None, su_meta_id = None,
      su_mbid = ns_mbid ns, su_puid = ns_puid ns, su_foreignid = ns_foreignid ns, su_foreignid_id = None\<rparr>"

subsection \<open>\<open>SubmitHandler\<close>\<close>

definition none_if_falsy :: "string option \<Rightarrow> string option" where
  "none_if_falsy x = (if is_set x then x else None)"

text \<open>\<open>dict((n, p[n]) for n in self.meta_fields if p[n])\<close>\<close>

definition meta_values :: "submission_params \<Rightarrow> meta_dict" where
  "meta_values p =
     (let text = (\<lambda>name x. case none_if_falsy x of None \<Rightarrow> [] | Some t \<Rightarrow> [(name, MStr t)]);
          number = (\<lambda>name x. case truthy_id x of None \<Rightarrow> [] | Some n \<Rightarrow> [(name, MInt n)])
      in text ''track'' (sp_track p) @ text ''artist'' (sp_artist p) @ text ''album'' (sp_album p)
         @ text ''album_artist'' (sp_album_artist p) @ number ''track_no'' (sp_track_no p)
         @ number ''disc_no'' (sp_disc_no p) @ number ''year'' (sp_year p))"

definition submission_values ::
    "submit_params \<Rightarrow> submission_params \<Rightarrow> string option \<Rightarrow> py_exc + new_submission" where
  "submission_values params p mbid =
     (case (if meta_values p = [] then Inr None
            else case fix_meta (meta_values p) of Inl e \<Rightarrow> Inl e | Inr meta \<Rightarrow> Inr (Some meta)) of
        Inl e \<Rightarrow> Inl e
      | Inr meta \<Rightarrow>
          Inr \<lparr>ns_mbid = none_if_falsy mbid, ns_puid = none_if_falsy (sp_puid p), ns_bitrate = truthy_id (sp_bitrate p),
               ns_fingerprint = sp_fingerprint p, ns_length = sp_duration p, ns_format = none_if_falsy (sp_format p),
               ns_account_id = sm_account_id params, ns_application_id = sm_application_id params,
               ns_application_version = sm_application_version params, ns_meta = meta,
               ns_foreignid = none_if_falsy (sp_foreignid p)\<rparr>)"

definition worth_storing :: "new_submission \<Rightarrow> bool" where
  "worth_storing ns \<longleftrightarrow> \<not> (ns_mbid ns = None \<and> ns_puid ns = None \<and> ns_meta ns = None)"

definition submission_answer :: "int \<Rightarrow> string \<Rightarrow> json" where
  "submission_answer i index =
     JObj ([(''id'', JInt i), (''status'', JStr ''pending'')] @ (if index = [] then [] else [(''index'', JStr index)]))"

definition submit_items :: "submit_params \<Rightarrow> (submission_params \<times> string option) list" where
  "submit_items params =
     concat (map (\<lambda>p. map (Pair p) (if sp_mbids p = [] then [None] else map Some (sp_mbids p))) (sm_submissions params))"

fun submit_each ::
    "submit_params \<Rightarrow> (submission_params \<times> string option) list \<Rightarrow> ingest_db \<Rightarrow> json list \<Rightarrow> (py_exc + json list) \<times> ingest_db" where
  "submit_each params [] db answers = (Inr answers, db)"
| "submit_each params ((p, mbid) # items) db answers =
     (case submission_values params p mbid of
        Inl e \<Rightarrow> (Inl e, db)
      | Inr ns \<Rightarrow>
          if \<not> worth_storing ns then submit_each params items db answers
          else
            case insert_error ns of
              Some e \<Rightarrow> (Inl e, db)
            | None \<Rightarrow>
                let (i, db) = insert_submission db (submission_row_of (i_now db) ns)
                in submit_each params items db (answers @ [submission_answer i (sp_index p)]))"

definition submit_internal ::
    "api_env \<Rightarrow> api_request \<Rightarrow> string \<Rightarrow> submit_params \<Rightarrow> api_state \<Rightarrow> (api_exc + (string \<times> json) list) \<times> api_state" where
  "submit_internal env req user_ip params s =
     (case submit_each params (submit_items params) (as_ingest s) [] of
        (Inl e, db) \<Rightarrow> (Inl (Crash e), s\<lparr>as_ingest := db\<rparr>)
      | (Inr answers, db) \<Rightarrow> (Inr [(''submissions'', JArr answers)], s\<lparr>as_ingest := db\<rparr>))"

definition submit_handler :: "(string \<Rightarrow> (int list \<times> int) option) \<Rightarrow> api_version \<Rightarrow> submit_params api_handler" where
  "submit_handler decode_legacy v =
     \<lparr>h_parse = submit_parse decode_legacy v, h_application_id = (\<lambda>p. Some (sm_application_id p)), h_internal = submit_internal\<rparr>"

subsection \<open>\<open>SubmissionStatusHandler\<close>\<close>

record status_params =
  st_application_id :: int
  st_ids :: "int list"

definition status_parse ::
    "api_env \<Rightarrow> request_values \<Rightarrow> api_state \<Rightarrow> string \<times> (api_exc + status_params) \<times> api_state" where
  "status_parse env values s =
     (case parse_format values of
        (format, Some e) \<Rightarrow> (format, Inl e, s)
      | (format, None) \<Rightarrow>
          (case parse_client env (as_app s) values (as_caches s) of
             (Inl e, kc) \<Rightarrow> (format, Inl e, with_caches kc s)
           | (Inr client, kc) \<Rightarrow>
               (format, Inr \<lparr>st_application_id = cp_application_id client, st_ids = vgetlist_int values ''id''\<rparr>, with_caches kc s)))"

definition status_answer :: "(int, string) dict \<Rightarrow> int \<Rightarrow> json" where
  "status_answer tracks i =
     (case dict_get tracks i of
        None \<Rightarrow> JObj [(''id'', JInt i), (''status'', JStr ''pending'')]
      | Some gid \<Rightarrow> JObj [(''id'', JInt i), (''status'', JStr ''imported''), (''result'', JObj [(''id'', JStr gid)])])"

definition status_internal ::
    "api_env \<Rightarrow> api_request \<Rightarrow> string \<Rightarrow> status_params \<Rightarrow> api_state \<Rightarrow> (api_exc + (string \<times> json) list) \<times> api_state" where
  "status_internal env req user_ip params s =
     (let tracks = lookup_submission_status (as_ingest s) (as_fp s) (st_ids params)
      in (Inr [(''submissions'', JArr (map (status_answer tracks) (st_ids params)))], s))"

definition status_handler :: "status_params api_handler" where
  "status_handler = \<lparr>h_parse = status_parse, h_application_id = (\<lambda>p. Some (st_application_id p)), h_internal = status_internal\<rparr>"

subsection \<open>The handlers keep the contract\<close>

lemma parse_format_of_web: "parse_format_of v values = (format, Some e) \<Longrightarrow> \<exists>err. e = Web err"
  by (auto simp: parse_format_of_def parse_format_def Let_def split: api_version.splits if_splits)

lemma parse_client_no_http: "parse_client env db values kc = (r, kc') \<Longrightarrow> no_http r"
  by (auto simp: parse_client_def split: option.splits list.splits prod.splits)

lemma parse_user_no_http: "parse_user db values kc = (r, kc') \<Longrightarrow> no_http r"
  by (auto simp: parse_user_def missing_def split: option.splits list.splits prod.splits)

lemma parse_each_no_http: "(\<And>suffix. no_http (f suffix)) \<Longrightarrow> no_http (parse_each f suffixes acc)"
proof (induction f suffixes acc rule: parse_each.induct)
  case (2 f suffix suffixes acc)
  have no: "no_http (f suffix)" by (rule 2(3))
  show ?case
  proof (cases "f suffix" rule: no_http.cases)
    case (1 n)
    with no show ?thesis by simp
  qed (use 2 in simp_all)
qed simp

lemma parse_suffixes_no_http: "(\<And>suffix. no_http (f suffix)) \<Longrightarrow> no_http (parse_suffixes values prefixes f)"
  by (simp add: parse_suffixes_def missing_def parse_each_no_http split: sum.split list.split del: parse_each.simps)

lemma no_http_map [simp]: "no_http (case x of Inl e \<Rightarrow> Inl e | Inr a \<Rightarrow> Inr (g a)) \<longleftrightarrow> no_http x"
  by (cases x rule: no_http.cases) simp_all

lemma parse_duration_no_http: "parse_duration_and_format v values suffix = Inl e \<Longrightarrow> \<exists>err. e = Web err"
  by (auto simp: parse_duration_and_format_def missing_def split: api_version.splits option.splits if_splits)

lemma parse_submission_no_http: "no_http (parse_submission decode_legacy v values suffix)"
  using parse_duration_no_http [of v "values" suffix]
  by (auto simp: parse_submission_def missing_def Let_def split: sum.splits option.splits list.splits)

lemmas parse_no_http_lemmas = parse_client_no_http parse_user_no_http parse_suffixes_no_http parse_submission_no_http

lemma submit_parse_keeps:
  assumes "submit_parse decode_legacy v env values s = (format, parsed, s')"
  shows "same_databases s s'" and "no_http parsed"
proof -
  have no: "no_http (parse_suffixes values [''fingerprint''] (parse_submission decode_legacy v values))"
    by (rule parse_suffixes_no_http) (rule parse_submission_no_http)
  obtain fmt fe where f: "parse_format_of v values = (fmt, fe)" by fastforce
  obtain c kc where c: "parse_client env (as_app s) values (as_caches s) = (c, kc)" by fastforce
  obtain u kc2 where u: "parse_user (as_app s) values kc = (u, kc2)" by fastforce
  note n = parse_format_of_web [of v "values"] parse_client_no_http [OF c] parse_user_no_http [OF u] no
  have "same_databases s s' \<and> no_http parsed"
  proof (cases fe)
    case (Some e)
    with assms f n show ?thesis by (auto simp: submit_parse_def)
  next
    case None
    show ?thesis
    proof (cases c)
      case (Inl e)
      with assms f n c None show ?thesis by (cases e) (auto simp: submit_parse_def)
    next
      case (Inr client)
      with assms f n c u None show ?thesis by (cases u rule: no_http.cases) (auto simp: submit_parse_def)
    qed
  qed
  then show "same_databases s s'" "no_http parsed" by simp_all
qed

lemma singular_submissions [simp]: "singular ''submissions'' = Inr ''submission''"
  by code_simp

lemma submission_answer_ready [simp]: "xml_ready ''submission'' (submission_answer i index)"
  by (simp add: submission_answer_def)

lemma status_answer_ready [simp]: "xml_ready ''submission'' (status_answer tracks i)"
  by (simp add: status_answer_def split: option.split)

lemma answer_ready_submissions: "list_all (xml_ready ''submission'') answers \<Longrightarrow> answer_ready [(''submissions'', JArr answers)]"
  by (simp add: answer_ready_def list_all_iff)

lemma submit_each_ready:
  "submit_each params items db answers = (Inr answers', db') \<Longrightarrow> list_all (xml_ready ''submission'') answers
     \<Longrightarrow> list_all (xml_ready ''submission'') answers'"
proof (induction params items db answers rule: submit_each.induct)
  case (2 params p mbid items db answers)
  obtain ns where ns: "submission_values params p mbid = Inr ns" using 2(3) by (auto split: sum.splits)
  show ?case
  proof (cases "worth_storing ns")
    case False
    with 2 ns show ?thesis by simp
  next
    case True
    obtain i db1 where i: "insert_submission db (submission_row_of (i_now db) ns) = (i, db1)" by fastforce
    have none: "insert_error ns = None" using 2(3) ns True by (simp split: option.splits)
    with 2(3) ns True i have rest: "submit_each params items db1 (answers @ [submission_answer i (sp_index p)]) = (Inr answers', db')" by simp
    have "\<not> \<not> worth_storing ns" using True by simp
    from 2(2) [OF ns this none i [symmetric] refl rest] 2(4) show ?thesis by simp
  qed
qed simp

interpretation submit: api_operation "submit_handler decode_legacy v" for decode_legacy v
proof
  fix env "values" s format parsed s'
  assume "h_parse (submit_handler decode_legacy v) env values s = (format, parsed, s')"
  then have p: "submit_parse decode_legacy v env values s = (format, parsed, s')" by (simp add: submit_handler_def)
  show "same_databases s s'" "no_http parsed" using submit_parse_keeps [OF p] by simp_all
next
  fix env req user_ip params s result s'
  assume "h_internal (submit_handler decode_legacy v) env req user_ip params s = (result, s')"
  then show "no_http result" by (auto simp: submit_handler_def submit_internal_def split: sum.splits prod.splits)
next
  fix env req user_ip params s data s'
  assume "h_internal (submit_handler decode_legacy v) env req user_ip params s = (Inr data, s')"
  then obtain answers db where each: "submit_each params (submit_items params) (as_ingest s) [] = (Inr answers, db)"
    and data: "data = [(''submissions'', JArr answers)]"
    by (auto simp: submit_handler_def submit_internal_def split: sum.splits prod.splits)
  from submit_each_ready [OF each] show "answer_ready data" unfolding data by (intro answer_ready_submissions) simp
qed

lemma status_parse_keeps:
  assumes "status_parse env values s = (format, parsed, s')"
  shows "same_databases s s'" and "no_http parsed"
proof -
  obtain fmt fe where f: "parse_format_of V2 values = (fmt, fe)" by fastforce
  obtain c kc where c: "parse_client env (as_app s) values (as_caches s) = (c, kc)" by fastforce
  have "same_databases s s' \<and> no_http parsed"
    using assms f parse_format_of_web [of V2 "values"] parse_client_no_http [OF c] c
    by (cases fe; cases c rule: no_http.cases) (auto simp: status_parse_def parse_format_of_def)
  then show "same_databases s s'" "no_http parsed" by simp_all
qed

interpretation status: read_only_operation status_handler
proof
  fix env "values" s format parsed s'
  assume "h_parse status_handler env values s = (format, parsed, s')"
  then have p: "status_parse env values s = (format, parsed, s')" by (simp add: status_handler_def)
  show "same_databases s s'" "no_http parsed" using status_parse_keeps [OF p] by simp_all
next
  fix env req user_ip params s result s'
  assume r: "h_internal status_handler env req user_ip params s = (result, s')"
  then show "no_http result" by (auto simp: status_handler_def status_internal_def Let_def)
  from r show "same_databases s s'" by (simp add: status_handler_def status_internal_def Let_def)
next
  fix env req user_ip params s data s'
  assume "h_internal status_handler env req user_ip params s = (Inr data, s')"
  then show "answer_ready data"
    by (auto simp: status_handler_def status_internal_def Let_def list_all_iff intro!: answer_ready_submissions)
qed

subsection \<open>What a request stores\<close>

text \<open>The items of a request that are worth storing, numbered by the serial column.\<close>

definition accepted :: "submit_params \<Rightarrow> (submission_params \<times> string option) list \<Rightarrow> (submission_params \<times> new_submission) list" where
  "accepted params items =
     concat (map (\<lambda>(p, mbid). case submission_values params p mbid of
                     Inl e \<Rightarrow> [] | Inr ns \<Rightarrow> if worth_storing ns then [(p, ns)] else []) items)"

fun numbered :: "int \<Rightarrow> 'a list \<Rightarrow> (int \<times> 'a) list" where
  "numbered i [] = []"
| "numbered i (x # xs) = (i, x) # numbered (i + 1) xs"

definition store_accepted :: "(submission_params \<times> new_submission) list \<Rightarrow> ingest_db \<Rightarrow> ingest_db" where
  "store_accepted acc db =
     (let ns = numbered (serial (t_submission db)) acc
      in db\<lparr>t_submission := (t_submission db)\<lparr>rows := rows (t_submission db)
                 @ map (\<lambda>(i, p, ns). submission_row_of (i_now db) ns i) ns, serial := serial (t_submission db) + int (length acc)\<rparr>,
            t_pending_submission := (t_pending_submission db)\<lparr>rows := rows (t_pending_submission db) @ map (\<lambda>(i, p, ns). \<lparr>ps_id = i\<rparr>) ns\<rparr>\<rparr>)"

lemma store_accepted_Nil [simp]: "store_accepted [] db = db"
  by (simp add: store_accepted_def)

lemma store_accepted_Cons:
  "insert_submission db (submission_row_of (i_now db) ns) = (i, db1) \<Longrightarrow> store_accepted ((p, ns) # acc) db = store_accepted acc db1"
  by (auto simp: store_accepted_def insert_submission_def ins_def Let_def)

lemma insert_submission_id: "insert_submission db mk = (i, db1) \<Longrightarrow> i = serial (t_submission db) \<and> serial (t_submission db1) = i + 1"
  by (auto simp: insert_submission_def ins_def Let_def)

lemma submit_each_stores:
  "submit_each params items db answers = (Inr answers', db') \<Longrightarrow>
     db' = store_accepted (accepted params items) db \<and>
     answers' = answers @ map (\<lambda>(i, p, ns). submission_answer i (sp_index p)) (numbered (serial (t_submission db)) (accepted params items)) \<and>
     list_all (\<lambda>(p, ns). insert_error ns = None) (accepted params items)"
proof (induction params items db answers rule: submit_each.induct)
  case (1 params db answers)
  then show ?case by (simp add: accepted_def)
next
  case (2 params p mbid items db answers)
  obtain ns where ns: "submission_values params p mbid = Inr ns" using 2(3) by (auto split: sum.splits)
  have acc: "accepted params ((p, mbid) # items) = (if worth_storing ns then [(p, ns)] else []) @ accepted params items"
    by (simp add: accepted_def ns)
  show ?case
  proof (cases "worth_storing ns")
    case False
    with 2 ns acc show ?thesis by simp
  next
    case True
    obtain i db1 where i: "insert_submission db (submission_row_of (i_now db) ns) = (i, db1)" by fastforce
    have none: "insert_error ns = None" using 2(3) ns True by (simp split: option.splits)
    with 2(3) ns True i have rest: "submit_each params items db1 (answers @ [submission_answer i (sp_index p)]) = (Inr answers', db')" by simp
    have "\<not> \<not> worth_storing ns" using True by simp
    from 2(2) [OF ns this none i [symmetric] refl rest] insert_submission_id [OF i] True acc none
    show ?thesis by (simp add: store_accepted_Cons [OF i])
  qed
qed

lemma submit_fails_on_refused_value:
  assumes "(p, ns) \<in> set (accepted params (submit_items params))" and "insert_error ns \<noteq> None"
  shows "\<exists>e s'. submit_internal env req ip params s = (Inl (Crash e), s')"
proof -
  obtain r db where each: "submit_each params (submit_items params) (as_ingest s) [] = (r, db)" by fastforce
  show ?thesis
  proof (cases r)
    case (Inr answers)
    with submit_each_stores [of params "submit_items params" "as_ingest s" "[]" answers db] each assms show ?thesis
      by (auto simp: list_all_iff)
  qed (simp add: submit_internal_def each)
qed

text \<open>A bitrate given in bits per second is a valid parameter, but it does not fit its column.\<close>

lemma large_bitrate_refused: "ns_bitrate ns = Some b \<Longrightarrow> b > 32767 \<Longrightarrow> insert_error ns \<noteq> None"
  by (simp add: insert_error_def opt_all_def pg_smallint_def)

text \<open>A submit request is all or nothing: unless it is answered with status 200, no database has changed,
  whatever made it fail (its parameters, the rate limits, an exception on any of its items).\<close>

lemma submit_all_or_nothing:
  "case handle_request p cfg (submit_handler decode_legacy v) env req s of (out, s') \<Rightarrow>
     (\<exists>body. out = Answer \<lparr>ar_status = 200, ar_body = body\<rparr>) \<or>
     as_app s' = as_app s \<and> as_stats s' = as_stats s \<and> as_fp s' = as_fp s \<and> as_ingest s' = as_ingest s"
  using submit.refused_changes_nothing unfolding same_databases_def .

text \<open>C22: What a successful submit request stores: one unhandled, queued row for each item and MBID that carries
  an MBID, a PUID or metadata, in the order of the request and with consecutive ids, and nothing else; the answer
  names these ids in the same order. Every stored row has a positive length that fits its column.\<close>

theorem submit_stores_accepted:
  assumes "submit_internal env req user_ip params s = (Inr data, s')"
  shows "s' = s\<lparr>as_ingest := store_accepted (accepted params (submit_items params)) (as_ingest s)\<rparr>
    \<and> data = [(''submissions'', JArr (map (\<lambda>(i, p, ns). submission_answer i (sp_index p))
         (numbered (serial (t_submission (as_ingest s))) (accepted params (submit_items params)))))]
    \<and> list_all (\<lambda>(p, ns). 0 < ns_length ns \<and> ns_length ns \<le> 32767 \<and> worth_storing ns) (accepted params (submit_items params))"
proof -
  obtain answers db where each: "submit_each params (submit_items params) (as_ingest s) [] = (Inr answers, db)"
    and s': "s' = s\<lparr>as_ingest := db\<rparr>" and data: "data = [(''submissions'', JArr answers)]"
    using assms by (auto simp: submit_internal_def split: sum.splits prod.splits)
  note stores = submit_each_stores [OF each]
  have "list_all (\<lambda>(p, ns). worth_storing ns) (accepted params (submit_items params))"
    by (auto simp: accepted_def list_all_iff split: sum.splits if_splits)
  moreover have "insert_error ns = None \<Longrightarrow> 0 < ns_length ns \<and> ns_length ns \<le> 32767" for ns
    by (auto simp: insert_error_def pg_smallint_def split: if_splits)
  ultimately have "list_all (\<lambda>(p, ns). 0 < ns_length ns \<and> ns_length ns \<le> 32767 \<and> worth_storing ns) (accepted params (submit_items params))"
    using stores by (fastforce simp: list_all_iff)
  with stores s' data show ?thesis by simp
qed

definition sample_submit :: submit_params where
  "sample_submit = \<lparr>sm_application_id = 1, sm_application_version = None, sm_account_id = 2, sm_wait = 0,
     sm_submissions = [\<lparr>sp_index = ''0'', sp_puid = None, sp_foreignid = None, sp_mbids = [], sp_duration = 100, sp_format = None,
       sp_fingerprint = [1, 2], sp_bitrate = None, sp_track = Some ''t'', sp_artist = None, sp_album = None, sp_album_artist = None,
       sp_track_no = None, sp_disc_no = None, sp_year = None\<rparr>]\<rparr>"

definition sample_api_state :: api_state where
  "sample_api_state = \<lparr>as_app = empty_app_db, as_stats = empty_stats_db, as_fp = empty_fingerprint_db, as_ingest = empty_ingest_db,
     as_caches = \<lparr>kc_app = Map.empty, kc_user = Map.empty\<rparr>, as_redis = Map.empty, as_counters = (\<lambda>_. []), as_tasks = (\<lambda>_. [])\<rparr>"

theorem submit_stores_accepted_witness:
  "\<forall>env req user_ip. \<exists>s'. submit_internal env req user_ip sample_submit sample_api_state
       = (Inr [(''submissions'', JArr [JObj [(''id'', JInt 1), (''status'', JStr ''pending''), (''index'', JStr ''0'')]])], s')
     \<and> length (rows (t_submission (as_ingest s'))) = 1"
proof (intro allI)
  fix env req user_ip
  let ?ns = "\<lparr>ns_mbid = None, ns_puid = None, ns_bitrate = None, ns_fingerprint = [1, 2], ns_length = 100, ns_format = None,
       ns_account_id = 2, ns_application_id = 1, ns_application_version = None, ns_meta = Some [(''track'', MStr ''t'')], ns_foreignid = None\<rparr>"
  let ?p = "hd (sm_submissions sample_submit)"
  have v: "submission_values sample_submit ?p None = Inr ?ns"
    by code_simp
  have i: "submit_items sample_submit = [(?p, None)]" by (simp add: submit_items_def sample_submit_def)
  have w: "worth_storing ?ns" by (simp add: worth_storing_def)
  have e: "insert_error ?ns = None" by code_simp
  have x: "sp_index ?p = ''0''" by (simp add: sample_submit_def)
  obtain i db where "insert_submission (as_ingest sample_api_state) (submission_row_of (i_now (as_ingest sample_api_state)) ?ns) = (i, db)"
    by fastforce
  then obtain data s' where r: "submit_internal env req user_ip sample_submit sample_api_state = (Inr data, s')"
    by (simp add: submit_internal_def i v w e)
  have a: "accepted sample_submit (submit_items sample_submit) = [(?p, ?ns)]" by (simp add: accepted_def i v w)
  have t: "serial (t_submission (as_ingest sample_api_state)) = 1" "rows (t_submission (as_ingest sample_api_state)) = []"
    by (simp_all add: sample_api_state_def empty_ingest_db_def empty_table_def)
  from submit_stores_accepted [OF r] r
  show "\<exists>s'. submit_internal env req user_ip sample_submit sample_api_state
       = (Inr [(''submissions'', JArr [JObj [(''id'', JInt 1), (''status'', JStr ''pending''), (''index'', JStr ''0'')]])], s')
     \<and> length (rows (t_submission (as_ingest s'))) = 1"
    by (simp add: a t x submission_answer_def store_accepted_def)
qed

end
