(* ===== verification/Journey.thy ===== *)
theory Journey
  imports Api_Submit
begin

text \<open>
  A submission across the components: stored by the submit handler, imported by the importer, reported by
  the status handler.
\<close>

subsection \<open>The source row of an import\<close>

definition positive_sources :: "app_db \<Rightarrow> bool" where
  "positive_sources db \<longleftrightarrow> serial (t_source db) > 0 \<and> (\<forall>r \<in> set (rows (t_source db)). so_id r > 0)"

definition others_keep_positive :: "(nat \<Rightarrow> app_db \<Rightarrow> app_db) \<Rightarrow> bool" where
  "others_keep_positive other \<longleftrightarrow> (\<forall>n db. positive_sources db \<longrightarrow> positive_sources (other n db))"

lemma found_source_positive: "positive_sources db \<Longrightarrow> find_source_id db ap ac ver = Some i \<Longrightarrow> i > 0"
  using find_source_row [of db ap ac ver i] by (auto simp: positive_sources_def)

lemma find_or_insert_source_positive:
  "others_keep_positive other \<Longrightarrow> positive_sources db \<Longrightarrow> find_or_insert_source_loop other n ap ac ver db = Inr (i, db') \<Longrightarrow> i > 0"
proof (induction other n ap ac ver db rule: find_or_insert_source_loop.induct)
  case (2 other retries ap ac ver db)
  show ?case
  proof (cases "find_source_id db ap ac ver")
    case None
    obtain r db1 where ins: "insert_source_on_conflict_do_nothing (other retries db) ap ac ver = (r, db1)" by fastforce
    have pos: "positive_sources (other retries db)" using 2 by (simp add: others_keep_positive_def)
    show ?thesis
    proof (cases r)
      case r: None
      then have "db1 = other retries db"
        using ins by (auto simp: insert_source_on_conflict_do_nothing_def Let_def split: if_splits prod.splits)
      with 2(1) [OF None ins [symmetric] r] 2(2,4) None ins r pos show ?thesis by simp
    next
      case (Some j)
      then have "j = serial (t_source (other retries db))"
        using ins by (auto simp: insert_source_on_conflict_do_nothing_def ins_def Let_def split: if_splits)
      with 2(4) None ins Some pos show ?thesis by (simp add: positive_sources_def)
    qed
  next
    case (Some j)
    with 2 found_source_positive show ?thesis by simp
  qed
qed simp

text \<open>Only the first step of an import writes the table of fingerprint sources.\<close>

lemma link_sources:
  "t_fingerprint_source (snd (snd (link_mbid sub t so st))) = t_fingerprint_source (snd st)"
  "t_fingerprint_source (snd (snd (link_puid sub t so st))) = t_fingerprint_source (snd st)"
  "link_meta env sub t so st = Inr (a, st') \<Longrightarrow> t_fingerprint_source (snd st') = t_fingerprint_source (snd st)"
  "link_foreignid sub t so st = Inr (b, st'') \<Longrightarrow> t_fingerprint_source (snd st'') = t_fingerprint_source (snd st)"
  "insert_submission_result idb r = Inr (i, idb') \<Longrightarrow> t_fingerprint_source idb' = t_fingerprint_source idb"
  by (auto simp: link_mbid_def link_puid_def link_meta_def link_foreignid_def insert_mbid_def insert_puid_def
      insert_track_meta_def insert_track_foreignid_def insert_submission_result_def case_prod_beta Let_def
      split: if_splits sum.splits option.splits)

lemma store_fingerprint_source:
  assumes "store_fingerprint env sub f so found (fdb, idb) = ((t, i), fdb', idb')" and "su_id sub \<noteq> 0" and "so \<noteq> 0"
  shows "\<exists>r. rows (t_fingerprint_source idb') = rows (t_fingerprint_source idb) @ [r] \<and> fs_submission_id r = su_id sub \<and> fs_fingerprint_id r = i"
  using assms
  by (auto simp: store_fingerprint_def insert_fingerprint_def inc_fingerprint_submission_count_def add_fingerprint_source_def
      ins_def case_prod_beta Let_def split: if_splits)

lemma store_fingerprint_keys:
  assumes "store_fingerprint env sub f so found (fdb, idb) = (ti, fdb', idb')"
    and "wf_table fp_id (t_fingerprint fdb)" and "wf_table tr_id (t_track fdb)"
  shows "wf_table fp_id (t_fingerprint fdb') \<and> wf_table tr_id (t_track fdb')"
  using assms
  by (auto simp: store_fingerprint_def insert_fingerprint_def inc_fingerprint_submission_count_def insert_track_def
      fpindex_changelog_insert_def case_prod_beta Let_def intro!: inv_intros split: if_splits)

subsection \<open>The status of one submission\<close>

lemma dict_get_single: "dict_get [(k, v)] k' = (if k' = k then Some v else None)"
  by (simp add: dict_get_def)

lemma dict_get_fold_same:
  "(\<And>g'. (k, g') \<in> set xs \<Longrightarrow> g' = g) \<Longrightarrow>
     dict_get (fold (\<lambda>(i, g) d. dict_set d i g) xs d) k = (if k \<in> fst ` set xs then Some g else dict_get d k)"
proof (induction xs arbitrary: d)
  case (Cons x xs)
  obtain i g' where x: "x = (i, g')" by fastforce
  have "dict_get (fold (\<lambda>(i, g) d. dict_set d i g) xs (dict_set d i g')) k
      = (if k \<in> fst ` set xs then Some g else dict_get (dict_set d i g') k)"
    using Cons by auto
  with Cons.prems x show ?case by (auto simp: rev_image_eqI)
qed simp

lemma status_of_recorded:
  assumes src: "filter (\<lambda>r. fs_submission_id r = i) (rows (t_fingerprint_source idb)) = [r]"
    and f: "f \<in> set (rows (t_fingerprint fdb))" "fp_id f = fs_fingerprint_id r"
    and t: "t \<in> set (rows (t_track fdb))" "tr_id t = fp_track_id f"
    and wf: "wf_table fp_id (t_fingerprint fdb)" "wf_table tr_id (t_track fdb)"
  shows "dict_get (lookup_submission_status idb fdb [i]) i = Some (tr_gid t)"
proof -
  have "r \<in> set (filter (\<lambda>r. fs_submission_id r = i) (rows (t_fingerprint_source idb)))" by (simp add: src)
  then have r: "fs_submission_id r = i" by simp
  have fid: "(fold (\<lambda>r d. dict_set d (fs_submission_id r) (fs_fingerprint_id r))
      (sel (\<lambda>r. fs_submission_id r \<in> set [i]) (t_fingerprint_source idb)) []) = [(i, fp_id f)]"
    using src f(2) r by (simp add: sel_def)
  let ?ps = "[(fp_id f', tr_gid t'). f' \<leftarrow> rows (t_fingerprint fdb), t' \<leftarrow> rows (t_track fdb), fp_track_id f' = tr_id t' \<and> fp_id f' \<in> {fp_id f}]"
  have ps: "set ?ps = {(fp_id f', tr_gid t') | f' t'. f' \<in> set (rows (t_fingerprint fdb)) \<and> t' \<in> set (rows (t_track fdb)) \<and>
      fp_track_id f' = tr_id t' \<and> fp_id f' = fp_id f}" by (auto, metis)
  have "g' = tr_gid t" if "(fp_id f, g') \<in> set ?ps" for g'
  proof -
    from that obtain f' t' where ft: "f' \<in> set (rows (t_fingerprint fdb))" "t' \<in> set (rows (t_track fdb))"
      "fp_track_id f' = tr_id t'" "fp_id f' = fp_id f" "g' = tr_gid t'" unfolding ps by auto
    have "f' = f" using wf(1) ft(1,4) f(1) by (auto simp: wf_table_def dest: distinct_map_unique)
    then have "t' = t" using wf(2) ft(2,3) t by (auto simp: wf_table_def dest: distinct_map_unique)
    with ft show ?thesis by simp
  qed
  moreover have "fp_id f \<in> fst ` set ?ps"
    unfolding ps using f(1) t by force
  ultimately have "dict_get (fold (\<lambda>(i, g) d. dict_set d i g) ?ps []) (fp_id f) = Some (tr_gid t)"
    using dict_get_fold_same [of "fp_id f" ?ps "tr_gid t" "[]"] by simp
  then show ?thesis
    unfolding lookup_submission_status_def Let_def fid by (simp add: dict_get_single)
qed

subsection \<open>From the request to its result\<close>

definition status_report :: "int \<Rightarrow> string \<Rightarrow> (string \<times> json) list" where
  "status_report i gid =
     [(''submissions'', JArr [JObj [(''id'', JInt i), (''status'', JStr ''imported''), (''result'', JObj [(''id'', JStr gid)])]])]"

lemma imported_is_reported:
  assumes res: "import_submission env sub s = Inr ((True, Some (track_id, fid)), s')"
    and wf: "wf_table fp_id (t_fingerprint (d_fp s))" "wf_table tr_id (t_track (d_fp s))" and other: "only_meta (m_other_fp env)"
    and sub: "su_source_id sub = None" "su_id sub \<noteq> 0" "\<forall>r \<in> set (rows (t_fingerprint_source (d_ingest s))). fs_submission_id r \<noteq> su_id sub"
    and pos: "positive_sources (d_app s)" "others_keep_positive (m_other_app env)"
  shows "\<exists>t \<in> set (rows (t_track (d_fp s'))). tr_id t = track_id \<and>
     dict_get (lookup_submission_status (d_ingest s') (d_fp s') [su_id sub]) (su_id sub) = Some (tr_gid t)"
proof -
  obtain src app where worth: "worth_importing env sub" and rs: "resolve_source env sub (d_app s) = Inr (Some src, app)"
    and iws: "import_with_source env sub src (s\<lparr>d_ingest := mark_handled (su_id sub) (m_now env) (d_ingest s), d_app := app\<rparr>)
      = Inr ((track_id, fid), s')"
    using res by (auto simp: import_submission_def Let_def split: if_splits sum.splits option.splits)
  have so: "si_id src \<noteq> 0"
    using rs sub(1) pos find_or_insert_source_positive
    by (auto simp: resolve_source_def find_or_insert_source_def split: option.splits sum.splits) (metis less_irrefl)
  from iws show ?thesis
  proof (cases rule: import_with_source_steps)
    case (steps format_id app2 found st mbid st1 puid st2 meta_id meta_gid st3 foreignid fdb4 idb4 r x idb5)
    obtain fdb idb where st: "st = (fdb, idb)" by fastforce
    let ?idb0 = "mark_handled (su_id sub) (m_now env) (d_ingest s)"
    have sf: "store_fingerprint env sub format_id (si_id src) found (d_fp s, ?idb0) = ((track_id, fid), fdb, idb)"
      using steps(3) by (simp add: st)
    have fnd: "find_track env sub (d_fp s) = Inr found" using steps(2) by simp
    have core: "same_core fdb fdb4"
      using link_core(1) [of st sub track_id "si_id src"] link_core(2) [of st1 sub track_id "si_id src"]
        link_meta_core [OF other steps(6)] link_foreignid_core [OF steps(7)] steps(4,5) st
      by (simp add: same_core_def)
    have tfs: "t_fingerprint_source idb5 = t_fingerprint_source idb"
      using link_sources(1) [of sub track_id "si_id src" st] link_sources(2) [of sub track_id "si_id src" st1]
        link_sources(3) [OF steps(6)] link_sources(4) [OF steps(7)] link_sources(5) [OF steps(9)] steps(4,5) st by simp
    obtain row where row: "rows (t_fingerprint_source idb) = rows (t_fingerprint_source ?idb0) @ [row]"
      "fs_submission_id row = su_id sub" "fs_fingerprint_id row = fid"
      using store_fingerprint_source [OF sf sub(2) so] by blast
    have one: "filter (\<lambda>r. fs_submission_id r = su_id sub) (rows (t_fingerprint_source idb5)) = [row]"
      using row sub(3) by (simp add: tfs mark_handled_def)
    note stored = store_fingerprint_sound [OF sf fnd worth_importing_nonempty [OF worth] wf]
    obtain t where t: "t \<in> set (rows (t_track fdb4))" "tr_id t = track_id" using stored core by (auto simp: same_core_def)
    obtain f where f: "f \<in> set (rows (t_fingerprint fdb4))" "fp_id f = fid" "fp_track_id f = track_id"
      using stored core by (auto simp: same_core_def)
    have wf': "wf_table fp_id (t_fingerprint fdb4)" "wf_table tr_id (t_track fdb4)"
      using store_fingerprint_keys [OF sf wf] core by (simp_all add: same_core_def)
    have "dict_get (lookup_submission_status idb5 fdb4 [su_id sub]) (su_id sub) = Some (tr_gid t)"
      by (rule status_of_recorded [OF one f(1) _ t(1) _ wf']) (simp_all add: row f t)
    with t steps(10,11) show ?thesis by auto
  qed
qed

lemma numbered_ids: "x \<in> set (numbered i xs) \<Longrightarrow> fst x \<ge> i"
  by (induction i xs rule: numbered.induct) force+

text \<open>C23: The journey of a submission: a row stored by a submit request and then imported (with a result) is
  reported by the status handler as imported, with the identifier of the very track the importer chose. The
  assumptions are the key constraints of the tables and that the sources and metadata that other sessions commit
  meanwhile keep them.\<close>

theorem submission_journey:
  assumes submit: "submit_internal aenv req user_ip params s = (Inr data, s1)"
    and sub: "sub \<in> set (rows (t_submission (as_ingest s1))) - set (rows (t_submission (as_ingest s)))"
    and fresh: "serial (t_submission (as_ingest s)) > 0"
      "\<forall>r \<in> set (rows (t_fingerprint_source (as_ingest s))). fs_submission_id r < serial (t_submission (as_ingest s))"
    and import: "import_submission env sub \<lparr>d_ingest = as_ingest s1, d_app = as_app s1, d_fp = as_fp s1\<rparr> = Inr ((True, Some (track_id, fid)), d)"
    and wf: "wf_table fp_id (t_fingerprint (as_fp s))" "wf_table tr_id (t_track (as_fp s))"
    and others: "only_meta (m_other_fp env)" "positive_sources (as_app s)" "others_keep_positive (m_other_app env)"
  shows "\<exists>t \<in> set (rows (t_track (d_fp d))). tr_id t = track_id \<and>
     fst (status_internal aenv req user_ip \<lparr>st_application_id = app_id, st_ids = [su_id sub]\<rparr>
            (s1\<lparr>as_ingest := d_ingest d, as_app := d_app d, as_fp := d_fp d\<rparr>)) = Inr (status_report (su_id sub) (tr_gid t))"
proof -
  let ?acc = "accepted params (submit_items params)"
  obtain answers db where each: "submit_each params (submit_items params) (as_ingest s) [] = (Inr answers, db)"
    and s1: "s1 = s\<lparr>as_ingest := db\<rparr>"
    using submit by (auto simp: submit_internal_def split: sum.splits prod.splits)
  from submit_each_stores [OF each] have db: "db = store_accepted ?acc (as_ingest s)" by blast
  from sub obtain i p ns where i: "(i, p, ns) \<in> set (numbered (serial (t_submission (as_ingest s))) ?acc)"
    and row: "sub = submission_row_of (i_now (as_ingest s)) ns i"
    by (auto simp: s1 db store_accepted_def Let_def)
  have ids: "su_source_id sub = None" "su_id sub = i" by (simp_all add: row submission_row_of_def)
  have ge: "i \<ge> serial (t_submission (as_ingest s))" using numbered_ids [OF i] by simp
  have "\<exists>t \<in> set (rows (t_track (d_fp d))). tr_id t = track_id \<and>
     dict_get (lookup_submission_status (d_ingest d) (d_fp d) [su_id sub]) (su_id sub) = Some (tr_gid t)"
    by (rule imported_is_reported [OF import]) (use wf others ids ge fresh in \<open>auto simp: s1 db store_accepted_def Let_def\<close>)
  then show ?thesis
    by (auto simp: status_internal_def status_answer_def status_report_def Let_def)
qed

definition journey_params :: submit_params where
  "journey_params = \<lparr>sm_application_id = 1, sm_application_version = None, sm_account_id = 1, sm_wait = 0,
     sm_submissions = [\<lparr>sp_index = [], sp_puid = None, sp_foreignid = None, sp_mbids = [sample_mbid], sp_duration = 100,
       sp_format = None, sp_fingerprint = map int [0..<80], sp_bitrate = None, sp_track = None, sp_artist = None, sp_album = None,
       sp_album_artist = None, sp_track_no = None, sp_disc_no = None, sp_year = None\<rparr>]\<rparr>"

theorem submission_journey_witness:
  "\<forall>aenv req user_ip. \<exists>(d :: dbs) gid. fst (submit_internal aenv req user_ip journey_params sample_api_state) = Inr [(''submissions'', JArr [submission_answer 1 []])] \<and>
     fst (status_internal aenv req user_ip \<lparr>st_application_id = 1, st_ids = [1]\<rparr>
            (sample_api_state\<lparr>as_ingest := d_ingest d, as_app := d_app d, as_fp := d_fp d\<rparr>)) = Inr (status_report 1 gid)"
proof (intro allI)
  fix aenv req user_ip
  let ?s = "sample_api_state"
  let ?p = "hd (sm_submissions journey_params)"
  let ?ns = "\<lparr>ns_mbid = Some sample_mbid, ns_puid = None, ns_bitrate = None, ns_fingerprint = map int [0..<80], ns_length = 100, ns_format = None,
       ns_account_id = 1, ns_application_id = 1, ns_application_version = None, ns_meta = None, ns_foreignid = None\<rparr>"
  have ne: "is_set (Some sample_mbid)" "uuid_body sample_mbid" by (code_simp, code_simp)
  have i: "submit_items journey_params = [(?p, Some sample_mbid)]" by (simp add: submit_items_def journey_params_def)
  have v: "submission_values journey_params ?p (Some sample_mbid) = Inr ?ns"
    using ne(1) by (simp add: submission_values_def meta_values_def journey_params_def none_if_falsy_def truthy_id_def is_set_def)
  have w: "worth_storing ?ns" "insert_error ?ns = None"
    using ne(2) by (simp_all add: worth_storing_def insert_error_def opt_all_def pg_smallint_def)
  have x: "sp_index ?p = []" by (simp add: journey_params_def)
  let ?idb = "d_ingest sample_dbs"
  have row: "submission_row_of 0 ?ns 1 = sample_submission" by (simp add: submission_row_of_def sample_submission_def)
  have ins: "insert_submission (as_ingest ?s) (submission_row_of (i_now (as_ingest ?s)) ?ns) = (1, ?idb)"
    using row by (simp add: insert_submission_def sample_api_state_def sample_dbs_def empty_ingest_db_def empty_table_def ins_def Let_def)
  have submit: "submit_internal aenv req user_ip journey_params ?s
      = (Inr [(''submissions'', JArr [submission_answer 1 []])], ?s\<lparr>as_ingest := ?idb\<rparr>)"
    by (simp add: submit_internal_def i v w ins x)
  have sub: "sample_submission \<in> set (rows (t_submission (as_ingest (?s\<lparr>as_ingest := ?idb\<rparr>)))) - set (rows (t_submission (as_ingest ?s)))"
    by (simp add: sample_dbs_def sample_api_state_def empty_ingest_db_def empty_table_def)
  have "\<lparr>d_ingest = as_ingest (?s\<lparr>as_ingest := ?idb\<rparr>), d_app = as_app (?s\<lparr>as_ingest := ?idb\<rparr>), d_fp = as_fp (?s\<lparr>as_ingest := ?idb\<rparr>)\<rparr> = sample_dbs"
    by (simp add: sample_dbs_def sample_api_state_def)
  then obtain track_id fid d where import: "import_submission (sample_import_env True) sample_submission
      \<lparr>d_ingest = as_ingest (?s\<lparr>as_ingest := ?idb\<rparr>), d_app = as_app (?s\<lparr>as_ingest := ?idb\<rparr>), d_fp = as_fp (?s\<lparr>as_ingest := ?idb\<rparr>)\<rparr>
      = Inr ((True, Some (track_id, fid)), d)" using sample_import_succeeds by metis
  have others: "only_meta (m_other_fp (sample_import_env True))" "positive_sources (as_app ?s)"
      "others_keep_positive (m_other_app (sample_import_env True))"
    by (simp_all add: only_meta_def same_core_def sample_import_env_def others_keep_positive_def positive_sources_def
        sample_api_state_def empty_app_db_def empty_table_def)
  have wf: "wf_table fp_id (t_fingerprint (as_fp ?s))" "wf_table tr_id (t_track (as_fp ?s))"
    "serial (t_submission (as_ingest ?s)) > 0"
    "\<forall>r \<in> set (rows (t_fingerprint_source (as_ingest ?s))). fs_submission_id r < serial (t_submission (as_ingest ?s))"
    by (simp_all add: sample_api_state_def empty_fingerprint_db_def empty_ingest_db_def empty_table_def wf_table_def)
  have id1: "su_id sample_submission = 1" by (simp add: sample_submission_def)
  have "\<exists>gid. fst (status_internal aenv req user_ip \<lparr>st_application_id = 1, st_ids = [1]\<rparr>
      (?s\<lparr>as_ingest := d_ingest d, as_app := d_app d, as_fp := d_fp d\<rparr>)) = Inr (status_report 1 gid)"
    using submission_journey [OF submit sub wf(3,4) import wf(1,2) others, where app_id = 1]
    by (elim bexE conjE, intro exI) (simp add: id1)
  with submit show "\<exists>(d :: dbs) gid. fst (submit_internal aenv req user_ip journey_params sample_api_state) = Inr [(''submissions'', JArr [submission_answer 1 []])] \<and>
     fst (status_internal aenv req user_ip \<lparr>st_application_id = 1, st_ids = [1]\<rparr>
            (sample_api_state\<lparr>as_ingest := d_ingest d, as_app := d_app d, as_fp := d_fp d\<rparr>)) = Inr (status_report 1 gid)" by fastforce
qed

end
