(* ===== verification/Musicbrainz.thy ===== *)
theory Musicbrainz
  imports Json "HOL-Library.Char_ord" "HOL-Library.List_Lexorder"
begin

text \<open>
  \<^verbatim>\<open>data/musicbrainz.py\<close>: what the service reads from the MusicBrainz database. The records are the columns of its tables that
  the queries name; the tables are a parameter of everything here. A query without an order returns its rows in the order of
  the nested joins. Lengths are milliseconds in the tables and exact seconds in the results.
\<close>

subsection \<open>Tables\<close>

record mb_artist_credit_name =
  acn_artist_credit :: int
  acn_position :: int
  acn_artist :: int
  acn_name :: string
  acn_join_phrase :: string

record mb_artist =
  art_id :: int
  art_gid :: string

record mb_artist_credit =
  acr_id :: int
  acr_name :: string

record mb_recording =
  rec_id :: int
  rec_gid :: string
  rec_name :: string
  rec_artist_credit :: int
  rec_length :: "int option"
  rec_comment :: string

record mb_recording_gid_redirect =
  red_gid :: string
  red_new_id :: int

record mb_track =
  trk_gid :: string
  trk_recording :: int
  trk_medium :: int
  trk_position :: int
  trk_name :: string
  trk_artist_credit :: int
  trk_length :: "int option"

record mb_medium =
  med_id :: int
  med_release :: int
  med_position :: int
  med_format :: "int option"
  med_name :: string
  med_track_count :: int

record mb_medium_format =
  mfm_id :: int
  mfm_name :: string

record mb_release =
  rel_id :: int
  rel_gid :: string
  rel_name :: string
  rel_artist_credit :: int
  rel_release_group :: int

record mb_release_country =
  rco_release :: int
  rco_country :: "int option"
  rco_date_year :: "int option"
  rco_date_month :: "int option"
  rco_date_day :: "int option"

record mb_iso_3166_1 =
  iso_area :: int
  iso_code :: string

record mb_isrc =
  isrc_recording :: int
  isrc_isrc :: string

record mb_release_group =
  rgr_id :: int
  rgr_gid :: string
  rgr_name :: string
  rgr_artist_credit :: int
  rgr_type :: "int option"

record mb_release_group_type =
  rgt_id :: int
  rgt_name :: string

record mb_secondary_type_join =
  rgs_release_group :: int
  rgs_secondary_type :: int

record mb_db =
  mb_replication_dates :: "int option list"
  mb_artist_credit_names :: "mb_artist_credit_name list"
  mb_artists :: "mb_artist list"
  mb_artist_credits :: "mb_artist_credit list"
  mb_recordings :: "mb_recording list"
  mb_redirects :: "mb_recording_gid_redirect list"
  mb_tracks :: "mb_track list"
  mb_mediums :: "mb_medium list"
  mb_medium_formats :: "mb_medium_format list"
  mb_releases :: "mb_release list"
  mb_release_countries :: "mb_release_country list"
  mb_iso_3166_1s :: "mb_iso_3166_1 list"
  mb_isrcs :: "mb_isrc list"
  mb_release_groups :: "mb_release_group list"
  mb_primary_types :: "mb_release_group_type list"
  mb_secondary_type_joins :: "mb_secondary_type_join list"
  mb_secondary_types :: "mb_release_group_type list"

definition get_last_replication_date :: "mb_db \<Rightarrow> py_exc + int" where
  "get_last_replication_date mb =
     (case first_of (mb_replication_dates mb) of
        Some (Some d) \<Rightarrow> Inr d
      | _ \<Rightarrow> Inl PlainException)"

text \<open>The rows of an outer join that match one row of its left side.\<close>

definition outer :: "('a \<Rightarrow> bool) \<Rightarrow> 'a list \<Rightarrow> 'a option list" where
  "outer P xs = (case filter P xs of [] \<Rightarrow> [None] | ys \<Rightarrow> map Some ys)"

subsection \<open>What is loaded for the rows of a result\<close>

definition load_artists :: "mb_db \<Rightarrow> int list \<Rightarrow> (int, json list) dict" where
  "load_artists mb artist_credit_ids =
     (if artist_credit_ids = [] then []
      else dict_group (map (\<lambda>(n, a). (acn_artist_credit n,
               JObj ([(''id'', JStr (art_gid a)), (''name'', JStr (acn_name n))]
                 @ (if acn_join_phrase n = [] then [] else [(''joinphrase'', JStr (acn_join_phrase n))]))))
             (sort_key (\<lambda>(n, a). acn_artist_credit n) (sort_key (\<lambda>(n, a). acn_position n)
               [(n, a). n \<leftarrow> mb_artist_credit_names mb, a \<leftarrow> mb_artists mb,
                        acn_artist n = art_id a \<and> acn_artist_credit n \<in> set artist_credit_ids]))))"

definition load_release_meta :: "mb_db \<Rightarrow> int list \<Rightarrow> (int, (string \<times> json) list) dict" where
  "load_release_meta mb release_ids =
     (if release_ids = [] then []
      else map (\<lambda>(release, mediums). (release,
               [(''release_medium_count'', JInt (int (length mediums))),
                (''release_track_count'', JInt (sum_list (map med_track_count mediums)))]))
             (dict_group (map (\<lambda>m. (med_release m, m)) (filter (\<lambda>m. med_release m \<in> set release_ids) (mb_mediums mb)))))"

definition load_release_events :: "mb_db \<Rightarrow> int list \<Rightarrow> (int, json list) dict" where
  "load_release_events mb release_ids =
     (if release_ids = [] then []
      else dict_group
        [(rco_release c, JObj [(''release_country'', jstr (map_option iso_code i)), (''release_date_year'', jint (rco_date_year c)),
             (''release_date_month'', jint (rco_date_month c)), (''release_date_day'', jint (rco_date_day c))]).
           c \<leftarrow> mb_release_countries mb, i \<leftarrow> outer (\<lambda>i. rco_country c = Some (iso_area i)) (mb_iso_3166_1s mb),
           rco_release c \<in> set release_ids])"

definition load_isrcs :: "mb_db \<Rightarrow> string list \<Rightarrow> (string, string list) dict" where
  "load_isrcs mb recording_ids =
     (if recording_ids = [] then []
      else map (\<lambda>(i, isrcs). (i, sort isrcs))
        (dict_group [(rec_gid r, isrc_isrc i). i \<leftarrow> mb_isrcs mb, r \<leftarrow> mb_recordings mb,
                       isrc_recording i = rec_id r \<and> rec_gid r \<in> set recording_ids]))"

definition load_release_group_secondary_types :: "mb_db \<Rightarrow> int list \<Rightarrow> (int, json list) dict" where
  "load_release_group_secondary_types mb release_group_ids =
     (if release_group_ids = [] then []
      else dict_group [(rgs_release_group j, JStr (rgt_name t)). j \<leftarrow> mb_secondary_type_joins mb, t \<leftarrow> mb_secondary_types mb,
                         rgs_secondary_type j = rgt_id t \<and> rgs_release_group j \<in> set release_group_ids])"

definition load_release_groups :: "mb_db \<Rightarrow> int list \<Rightarrow> (int, (string \<times> json) list) dict" where
  "load_release_groups mb release_group_ids =
     (if release_group_ids = [] then []
      else
        let secondary_types = load_release_group_secondary_types mb release_group_ids
        in fold (\<lambda>(g, t) d. dict_set d (rgr_id g)
                   [(''release_group_id'', JStr (rgr_gid g)), (''release_group_title'', JStr (rgr_name g)),
                    (''release_group_artist_credit'', JInt (rgr_artist_credit g)),
                    (''release_group_primary_type'', jstr (map_option rgt_name t)),
                    (''release_group_secondary_types'',
                       case dict_get secondary_types (rgr_id g) of None \<Rightarrow> JNull | Some ts \<Rightarrow> JArr ts)])
             [(g, t). g \<leftarrow> mb_release_groups mb, t \<leftarrow> outer (\<lambda>t. rgr_type g = Some (rgt_id t)) (mb_primary_types mb),
                      rgr_id g \<in> set release_group_ids] [])"

subsection \<open>\<open>lookup_metadata\<close>\<close>

type_synonym row_dict = "(string, json) dict"

definition duration_of :: "int option \<Rightarrow> json" where
  "duration_of len = (case len of None \<Rightarrow> JNull | Some ms \<Rightarrow> JNum (of_int ms / 1000))"

definition recording_columns :: "mb_recording \<Rightarrow> row_dict" where
  "recording_columns r =
     [(''recording_id'', JStr (rec_gid r)), (''recording_artist_credit'', JInt (rec_artist_credit r)),
      (''recording_title'', JStr (rec_name r)), (''recording_duration'', duration_of (rec_length r))]"

definition release_columns :: "mb_track \<Rightarrow> mb_medium \<Rightarrow> mb_release \<Rightarrow> mb_medium_format option \<Rightarrow> row_dict" where
  "release_columns t m l f =
     [(''track_id'', JStr (trk_gid t)), (''track_position'', JInt (trk_position t)), (''track_title'', JStr (trk_name t)),
      (''track_artist_credit'', JInt (trk_artist_credit t)), (''track_duration'', duration_of (trk_length t)),
      (''medium_position'', JInt (med_position m)), (''medium_track_count'', JInt (med_track_count m)),
      (''medium_title'', JStr (med_name m)), (''medium_format'', jstr (map_option mfm_name f)),
      (''release_rid'', JInt (rel_id l)), (''release_id'', JStr (rel_gid l)), (''release_title'', JStr (rel_name l)),
      (''release_artist_credit'', JInt (rel_artist_credit l)), (''release_group_rid'', JInt (rel_release_group l))]"

definition metadata_rows :: "mb_db \<Rightarrow> string list \<Rightarrow> bool \<Rightarrow> row_dict list" where
  "metadata_rows mb recording_ids want_releases =
     (if want_releases
      then [recording_columns r @ release_columns t m l f.
              r \<leftarrow> mb_recordings mb, t \<leftarrow> mb_tracks mb, m \<leftarrow> mb_mediums mb, l \<leftarrow> mb_releases mb,
              f \<leftarrow> outer (\<lambda>f. med_format m = Some (mfm_id f)) (mb_medium_formats mb),
              rec_gid r \<in> set recording_ids \<and> rec_id r = trk_recording t \<and> trk_medium t = med_id m \<and> med_release m = rel_id l]
      else [recording_columns r. r \<leftarrow> mb_recordings mb, rec_gid r \<in> set recording_ids])"

text \<open>\<open>d.update(other)\<close>, and \<open>d.pop(key)\<close> of a column of numbers.\<close>

definition dict_update :: "row_dict \<Rightarrow> row_dict \<Rightarrow> row_dict" where
  "dict_update d other = fold (\<lambda>(k, v) d. dict_set d k v) other d"

definition pop_int :: "row_dict \<Rightarrow> string \<Rightarrow> py_exc + int \<times> row_dict" where
  "pop_int d key = (case dict_get d key of Some (JInt i) \<Rightarrow> Inr (i, dict_del d key) | _ \<Rightarrow> Inl KeyError)"

definition int_column_of :: "string \<Rightarrow> row_dict \<Rightarrow> int list" where
  "int_column_of key d = (case dict_get d key of Some (JInt i) \<Rightarrow> [i] | _ \<Rightarrow> [])"

definition str_column_of :: "string \<Rightarrow> row_dict \<Rightarrow> string list" where
  "str_column_of key d = (case dict_get d key of Some (JStr i) \<Rightarrow> [i] | _ \<Rightarrow> [])"

definition with_release :: "(int, row_dict) dict \<Rightarrow> (int, json list) dict \<Rightarrow> row_dict \<Rightarrow> py_exc + row_dict" where
  "with_release releases release_events row =
     and_then (pop_int row ''release_rid'') (\<lambda>(r_id, row).
     and_then (item_of releases r_id) (\<lambda>release.
       Inr (dict_set (dict_update row release) ''release_events''
              (case dict_get release_events r_id of None \<Rightarrow> JObj [] | Some events \<Rightarrow> JArr events))))"

definition with_release_group :: "(int, row_dict) dict \<Rightarrow> row_dict \<Rightarrow> py_exc + row_dict" where
  "with_release_group release_groups row =
     and_then (pop_int row ''release_group_rid'') (\<lambda>(rg_id, row).
     and_then (item_of release_groups rg_id) (\<lambda>group. Inr (dict_update row group)))"

definition with_isrcs :: "(string, string list) dict \<Rightarrow> row_dict \<Rightarrow> row_dict" where
  "with_isrcs isrcs row =
     dict_set row ''recording_isrcs''
       (JArr (concat (map (\<lambda>i. case dict_get isrcs i of None \<Rightarrow> [] | Some xs \<Rightarrow> map JStr xs) (str_column_of ''recording_id'' row))))"

definition with_artists :: "(int, json list) dict \<Rightarrow> string \<times> string \<Rightarrow> row_dict \<Rightarrow> py_exc + row_dict" where
  "with_artists artists columns row =
     and_then (pop_int row (fst columns)) (\<lambda>(credit, row).
     and_then (item_of artists credit) (\<lambda>names. Inr (dict_set row (snd columns) (JArr names))))"

definition credit_columns :: "bool \<Rightarrow> bool \<Rightarrow> (string \<times> string) list" where
  "credit_columns want_releases want_groups =
     (''recording_artist_credit'', ''recording_artists'') #
     (if want_releases
      then [(''release_artist_credit'', ''release_artists''), (''track_artist_credit'', ''track_artists'')]
           @ (if want_groups then [(''release_group_artist_credit'', ''release_group_artists'')] else [])
      else [])"

fun with_all_artists :: "(int, json list) dict \<Rightarrow> (string \<times> string) list \<Rightarrow> row_dict \<Rightarrow> py_exc + row_dict" where
  "with_all_artists artists [] row = Inr row"
| "with_all_artists artists (c # cs) row = and_then (with_artists artists c row) (with_all_artists artists cs)"

definition lookup_metadata :: "mb_db \<Rightarrow> string list \<Rightarrow> bool \<Rightarrow> bool \<Rightarrow> bool \<Rightarrow> py_exc + row_dict list" where
  "lookup_metadata mb recording_ids want_releases want_groups want_isrcs =
     (if recording_ids = [] then Inr []
      else
        let results = metadata_rows mb recording_ids want_releases;
            release_ids = concat (map (int_column_of ''release_rid'') results);
            release_group_ids = concat (map (int_column_of ''release_group_rid'') results);
            releases = load_release_meta mb release_ids;
            release_events = load_release_events mb release_ids
        in and_then (if want_releases then each (with_release releases release_events) results else Inr results) (\<lambda>results.
           and_then (if want_releases \<and> want_groups
                     then each (with_release_group (load_release_groups mb release_group_ids)) results else Inr results) (\<lambda>results.
             let results =
                   (if want_isrcs
                    then map (with_isrcs (load_isrcs mb (concat (map (str_column_of ''recording_id'') results)))) results else results);
                 columns = credit_columns want_releases want_groups;
                 artist_credit_ids = concat (map (\<lambda>row. concat (map (\<lambda>c. int_column_of (fst c) row) columns)) results);
                 artists = load_artists mb artist_credit_ids
             in each (with_all_artists artists columns) results)))"

subsection \<open>Other lookups\<close>

record recording_metadata =
  rm_gid :: string
  rm_name :: string
  rm_length :: rat
  rm_comment :: string
  rm_artist_name :: string

definition lookup_recording_metadata :: "mb_db \<Rightarrow> string list \<Rightarrow> (string, recording_metadata) dict" where
  "lookup_recording_metadata mb mbids =
     (if mbids = [] then []
      else fold (\<lambda>(r, c) d. dict_set d (rec_gid r)
               \<lparr>rm_gid = rec_gid r, rm_name = rec_name r,
                rm_length = of_int (case rec_length r of None \<Rightarrow> 0 | Some ms \<Rightarrow> ms) / 1000,
                rm_comment = rec_comment r, rm_artist_name = acr_name c\<rparr>)
             [(r, c). r \<leftarrow> mb_recordings mb, c \<leftarrow> mb_artist_credits mb, rec_gid r \<in> set mbids \<and> rec_artist_credit r = acr_id c] [])"

definition resolve_mbid_redirect :: "mb_db \<Rightarrow> string \<Rightarrow> string" where
  "resolve_mbid_redirect mb mbid =
     (case first_of [rec_gid r. r \<leftarrow> mb_recordings mb, d \<leftarrow> mb_redirects mb, red_new_id d = rec_id r \<and> red_gid d = mbid] of
        None \<Rightarrow> mbid
      | Some new_mbid \<Rightarrow> new_mbid)"

end
