(* ===== verification/Api_Results.thy ===== *)
theory Api_Results
  imports Musicbrainz Py_Strings
begin

text \<open>
  How \<open>LookupHandler\<close> of \<^verbatim>\<open>api/v2/__init__.py\<close> shapes metadata rows into the dictionaries of an answer: extracting recordings,
  releases and release groups, grouping rows under them, compressing and cleaning. A row is a dictionary of columns (from
  \<open>lookup_metadata\<close> or \<open>lookup_meta\<close>); reading a column that was not loaded raises \<open>KeyError\<close>.
\<close>

subsection \<open>Values\<close>

definition get_or_null :: "row_dict \<Rightarrow> string \<Rightarrow> json" where
  "get_or_null d key = (case dict_get d key of None \<Rightarrow> JNull | Some v \<Rightarrow> v)"

definition or_empty :: "json \<Rightarrow> json" where
  "or_empty v = (if jtruthy v then v else JStr [])"

text \<open>\<open>str(id)\<close>, of a text or a number.\<close>

definition id_text :: "json \<Rightarrow> json" where
  "id_text v = (case v of JInt i \<Rightarrow> JStr (int_str i) | _ \<Rightarrow> v)"

text \<open>\<open>float(x)\<close> of a number of seconds or \<open>None\<close>.\<close>

definition to_float :: "json \<Rightarrow> py_exc + json" where
  "to_float v = (case v of JNum q \<Rightarrow> Inr (JNum q) | JInt i \<Rightarrow> Inr (JNum (of_int i)) | _ \<Rightarrow> Inl TypeError)"

text \<open>\<open>if m[column]: d[name] = m[column]\<close>\<close>

definition set_if :: "row_dict \<Rightarrow> string \<Rightarrow> string \<Rightarrow> row_dict \<Rightarrow> py_exc + row_dict" where
  "set_if m column name d = and_then (item_of m column) (\<lambda>v. Inr (if jtruthy v then dict_set d name v else d))"

subsection \<open>Extraction\<close>

definition extract_recording :: "row_dict \<Rightarrow> bool \<Rightarrow> py_exc + row_dict" where
  "extract_recording m only_id =
     and_then (item_of m ''recording_id'') (\<lambda>recording_id.
       let recording = [(''id'', recording_id)]
       in if only_id then Inr recording
          else
            and_then (item_of m ''recording_title'') (\<lambda>title.
            let recording = dict_set recording ''title'' (or_empty title)
            in and_then (item_of m ''recording_duration'') (\<lambda>duration.
               and_then (if jtruthy duration then and_then (to_float duration) (\<lambda>d. Inr (dict_set recording ''duration'' d)) else Inr recording) (\<lambda>recording.
               and_then (set_if m ''recording_artists'' ''artists'' recording) (\<lambda>recording.
                 Inr (if jtruthy (get_or_null m ''recording_isrcs'')
                      then dict_set recording ''isrcs'' (get_or_null m ''recording_isrcs'') else recording))))))"

definition release_event :: "row_dict \<Rightarrow> py_exc + row_dict" where
  "release_event rem =
     and_then (set_if rem ''release_country'' ''country'' []) (\<lambda>event.
     and_then (set_if rem ''release_date_year'' ''year'' []) (\<lambda>date.
     and_then (set_if rem ''release_date_month'' ''month'' date) (\<lambda>date.
     and_then (set_if rem ''release_date_day'' ''day'' date) (\<lambda>date.
       Inr (if date = [] then event else dict_set event ''date'' (JObj date))))))"

definition as_dict :: "json \<Rightarrow> row_dict" where
  "as_dict v = (case v of JObj d \<Rightarrow> d | _ \<Rightarrow> [])"

definition extract_release :: "row_dict \<Rightarrow> bool \<Rightarrow> py_exc + row_dict" where
  "extract_release m only_id =
     and_then (item_of m ''release_id'') (\<lambda>release_id.
       let release = [(''id'', id_text release_id)]
       in if only_id then Inr release
          else
            and_then (item_of m ''release_title'') (\<lambda>title.
            and_then (set_if m ''release_medium_count'' ''medium_count'' (dict_set release ''title'' (or_empty title))) (\<lambda>release.
            and_then (set_if m ''release_track_count'' ''track_count'' release) (\<lambda>release.
            and_then (set_if m ''release_artists'' ''artists'' release) (\<lambda>release.
            and_then (item_of m ''release_events'') (\<lambda>events.
              case events of
                JArr (rem # rems) \<Rightarrow>
                  and_then (each (\<lambda>e. release_event (as_dict e)) (rem # rems)) (\<lambda>es.
                    Inr (dict_update (dict_set release ''releaseevents'' (JArr (map JObj es))) (hd es)))
              | _ \<Rightarrow> Inr release))))))"

definition extract_release_group :: "row_dict \<Rightarrow> bool \<Rightarrow> py_exc + row_dict" where
  "extract_release_group m only_id =
     and_then (item_of m ''release_group_id'') (\<lambda>release_group_id.
       let release_group = [(''id'', id_text release_group_id)]
       in if only_id then Inr release_group
          else
            and_then (item_of m ''release_group_title'') (\<lambda>title.
            and_then (set_if m ''release_group_primary_type'' ''type'' (dict_set release_group ''title'' (or_empty title))) (\<lambda>release_group.
            and_then (set_if m ''release_group_secondary_types'' ''secondarytypes'' release_group) (\<lambda>release_group.
              set_if m ''release_group_artists'' ''artists'' release_group))))"

subsection \<open>Grouping\<close>

text \<open>The three \<open>_group_*\<close> functions: rows under the value of a column, each group with what its first row gives.\<close>

fun group_rows ::
    "string \<Rightarrow> (row_dict \<Rightarrow> py_exc + row_dict) \<Rightarrow> row_dict list \<Rightarrow> (json, row_dict \<times> row_dict list) dict
       \<Rightarrow> py_exc + (row_dict \<times> row_dict list) list" where
  "group_rows column extract [] results = Inr (map snd results)"
| "group_rows column extract (item # metadata) results =
     and_then (item_of item column) (\<lambda>i.
       case dict_get results i of
         None \<Rightarrow> and_then (extract item) (\<lambda>head. group_rows column extract metadata (results @ [(i, head, [item])]))
       | Some (head, items) \<Rightarrow> group_rows column extract metadata (dict_set results i (head, items @ [item])))"

definition group_recordings :: "row_dict list \<Rightarrow> bool \<Rightarrow> py_exc + (row_dict \<times> row_dict list) list" where
  "group_recordings metadata only_ids = group_rows ''recording_id'' (\<lambda>m. extract_recording m only_ids) metadata []"

definition group_releases :: "row_dict list \<Rightarrow> bool \<Rightarrow> py_exc + (row_dict \<times> row_dict list) list" where
  "group_releases metadata only_ids = group_rows ''release_id'' (\<lambda>m. extract_release m only_ids) metadata []"

definition group_release_groups :: "row_dict list \<Rightarrow> bool \<Rightarrow> py_exc + (row_dict \<times> row_dict list) list" where
  "group_release_groups metadata only_ids = group_rows ''release_group_id'' (\<lambda>m. extract_release_group m only_ids) metadata []"

text \<open>\<open>_group_tracks\<close>: a medium and its tracks, in the order of the rows.\<close>

definition medium_head :: "row_dict \<Rightarrow> json \<Rightarrow> py_exc + row_dict" where
  "medium_head item medium_pos =
     and_then (item_of item ''medium_track_count'') (\<lambda>track_count.
     and_then (set_if item ''medium_format'' ''format'' [(''position'', medium_pos), (''track_count'', track_count)]) (\<lambda>medium.
       set_if item ''medium_title'' ''title'' medium))"

definition track_entry :: "row_dict \<Rightarrow> py_exc + row_dict" where
  "track_entry item =
     and_then (item_of item ''track_id'') (\<lambda>i.
     and_then (item_of item ''track_position'') (\<lambda>position.
     and_then (item_of item ''track_title'') (\<lambda>title.
     and_then (item_of item ''track_artists'') (\<lambda>artists.
       Inr [(''id'', i), (''position'', position), (''title'', title), (''artists'', artists)]))))"

fun group_tracks :: "row_dict list \<Rightarrow> (json, row_dict \<times> row_dict list) dict \<Rightarrow> py_exc + row_dict list" where
  "group_tracks [] results = Inr (map (\<lambda>(pos, medium, tracks). dict_set medium ''tracks'' (JArr (map JObj tracks))) results)"
| "group_tracks (item # metadata) results =
     and_then (item_of item ''medium_position'') (\<lambda>medium_pos.
     and_then (case dict_get results medium_pos of None \<Rightarrow> and_then (medium_head item medium_pos) (\<lambda>medium. Inr (medium, [])) | Some m \<Rightarrow> Inr m) (\<lambda>(medium, tracks).
     and_then (track_entry item) (\<lambda>track.
       group_tracks metadata (dict_set results medium_pos (medium, tracks @ [track])))))"

subsection \<open>Compression\<close>

text \<open>Changing the dictionaries of a list in a dictionary, in place.\<close>

definition map_obj :: "(row_dict \<Rightarrow> row_dict) \<Rightarrow> json \<Rightarrow> json" where
  "map_obj f v = (case v of JObj d \<Rightarrow> JObj (f d) | _ \<Rightarrow> v)"

definition map_list :: "string \<Rightarrow> (row_dict \<Rightarrow> row_dict) \<Rightarrow> row_dict \<Rightarrow> row_dict" where
  "map_list key f d = (case dict_get d key of Some (JArr xs) \<Rightarrow> dict_set d key (JArr (map (map_obj f) xs)) | _ \<Rightarrow> d)"

definition map_last :: "string \<Rightarrow> (row_dict \<Rightarrow> row_dict) \<Rightarrow> row_dict \<Rightarrow> row_dict" where
  "map_last key f d =
     (case dict_get d key of
        Some (JArr (x # xs)) \<Rightarrow> dict_set d key (JArr (butlast (x # xs) @ [map_obj f (last (x # xs))]))
      | _ \<Rightarrow> d)"

text \<open>\<open>if key in d and d[key] == parent.get(key): del d[key]\<close>\<close>

definition del_if_equal :: "string \<Rightarrow> row_dict \<Rightarrow> row_dict \<Rightarrow> row_dict" where
  "del_if_equal key parent d = (if dict_get d key = Some (get_or_null parent key) then dict_del d key else d)"

definition compress_release :: "row_dict \<Rightarrow> row_dict" where
  "compress_release release = map_list ''mediums'' (map_list ''tracks'' (del_if_equal ''artists'' release)) release"

definition inject_releases_internal :: "string list \<Rightarrow> row_dict \<Rightarrow> row_dict list \<Rightarrow> py_exc + row_dict" where
  "inject_releases_internal meta parent metadata =
     and_then (group_releases metadata (''releaseids'' \<in> set meta)) (\<lambda>groups.
     and_then (each (\<lambda>(release, release_metadata).
         if ''tracks'' \<in> set meta
         then and_then (group_tracks release_metadata []) (\<lambda>mediums.
                let release = dict_set release ''mediums'' (JArr (map JObj mediums))
                in Inr (if ''compress'' \<in> set meta then compress_release release else release))
         else Inr release) groups) (\<lambda>releases.
       Inr (dict_set parent ''releases'' (JArr (map JObj releases)))))"

definition compress_release_group :: "row_dict \<Rightarrow> row_dict" where
  "compress_release_group release_group =
     map_list ''releases'' (\<lambda>release. del_if_equal ''title'' release_group (del_if_equal ''artists'' release_group release)) release_group"

definition inject_release_groups_internal :: "string list \<Rightarrow> row_dict \<Rightarrow> row_dict list \<Rightarrow> py_exc + row_dict" where
  "inject_release_groups_internal meta parent metadata =
     and_then (group_release_groups metadata (''releasegroupids'' \<in> set meta)) (\<lambda>groups.
     and_then (each (\<lambda>(release_group, release_group_metadata).
         if ''releases'' \<in> set meta \<or> ''releaseids'' \<in> set meta
         then and_then (inject_releases_internal meta release_group release_group_metadata) (\<lambda>release_group.
                Inr (if ''compress'' \<in> set meta then compress_release_group release_group else release_group))
         else Inr release_group) groups) (\<lambda>release_groups.
       Inr (dict_set parent ''releasegroups'' (JArr (map JObj release_groups)))))"

text \<open>
  The compression in \<open>inject_recordings\<close>. The last statement of the branch for release groups stands outside the loop over
  them, so it reaches the last one only.
\<close>

definition compress_recording_groups :: "row_dict \<Rightarrow> row_dict" where
  "compress_recording_groups recording =
     map_last ''releasegroups'' (del_if_equal ''artists'' recording)
       (map_list ''releasegroups'' (map_list ''releases'' (map_list ''mediums'' (map_list ''tracks'' (del_if_equal ''title'' recording)))) recording)"

definition compress_recording_releases :: "row_dict \<Rightarrow> row_dict" where
  "compress_recording_releases recording =
     map_list ''releases'' (\<lambda>release. del_if_equal ''artists'' recording
        (map_list ''mediums'' (map_list ''tracks'' (del_if_equal ''title'' recording)) release)) recording"

definition fill_recording :: "string list \<Rightarrow> row_dict \<Rightarrow> row_dict list \<Rightarrow> py_exc + row_dict" where
  "fill_recording meta recording metadata =
     (if ''releasegroups'' \<in> set meta \<or> ''releasegroupids'' \<in> set meta
      then and_then (inject_release_groups_internal meta recording metadata) (\<lambda>recording.
             Inr (if ''compress'' \<in> set meta then compress_recording_groups recording else recording))
      else if ''releases'' \<in> set meta \<or> ''releaseids'' \<in> set meta
      then and_then (inject_releases_internal meta recording metadata) (\<lambda>recording.
             Inr (if ''compress'' \<in> set meta then compress_recording_releases recording else recording))
      else Inr recording)"

subsection \<open>Cleaning metadata of users\<close>

text \<open>A record of user metadata has no identifiers of its own: they are removed again, with what is left empty.\<close>

definition drop_empty_title :: "row_dict \<Rightarrow> row_dict" where
  "drop_empty_title d =
     (case dict_get d ''title'' of Some v \<Rightarrow> if jtruthy v then d else dict_del d ''title'' | None \<Rightarrow> d)"

definition keep_nonempty :: "string \<Rightarrow> (row_dict \<Rightarrow> row_dict) \<Rightarrow> row_dict \<Rightarrow> row_dict" where
  "keep_nonempty key f d =
     (case dict_get d key of
        Some (JArr xs) \<Rightarrow>
          (let ys = filter jtruthy (map (map_obj f) xs) in if ys = [] then dict_del d key else dict_set d key (JArr ys))
      | _ \<Rightarrow> d)"

definition clean_release :: "row_dict \<Rightarrow> row_dict" where
  "clean_release release = drop_empty_title (dict_del release ''id'')"

definition clean_release_group :: "row_dict \<Rightarrow> row_dict" where
  "clean_release_group releasegroup = keep_nonempty ''releases'' clean_release (drop_empty_title (dict_del releasegroup ''id''))"

definition clean_recording :: "row_dict \<Rightarrow> row_dict" where
  "clean_recording recording =
     keep_nonempty ''releases'' clean_release
       (keep_nonempty ''releasegroups'' clean_release_group (drop_empty_title (dict_del recording ''id'')))"

definition has_int_id :: "row_dict \<Rightarrow> bool" where
  "has_int_id recording = (case dict_get recording ''id'' of Some (JInt _) \<Rightarrow> True | _ \<Rightarrow> False)"

end
