(* ===== verification/Api_Lookup.thy ===== *)
theory Api_Lookup
  imports Api_Submit Api_Results
begin

text \<open>
  \<open>LookupHandler\<close> of \<^verbatim>\<open>api/v2/__init__.py\<close> and its variant in \<^verbatim>\<open>api/v1.py\<close>: fingerprints and track identifiers in, tracks with
  metadata out. The dictionaries of the answer are shared and changed in place, so they live in a store: results and
  recordings are numbered, and a result refers to its recordings. \<open>lookup_env\<close> is what lies outside: the configuration, the
  MusicBrainz database, Redis and Python's hash, and for each query of a request the world its search sees.
\<close>

subsection \<open>Parameters\<close>

datatype lookup_query =
    TrackLookupQuery "int option" string
  | FingerprintLookupQuery "int option" int "int list"

fun query_index :: "lookup_query \<Rightarrow> int option" where
  "query_index (TrackLookupQuery i _) = i"
| "query_index (FingerprintLookupQuery i _ _) = i"

record lookup_params =
  lp_application_id :: int
  lp_meta :: "string list"
  lp_max_duration_diff :: int
  lp_batch :: "int option"
  lp_fingerprints :: "lookup_query list"

text \<open>\<open>str.split()\<close>: the words between white space.\<close>

fun py_words :: "string \<Rightarrow> string \<Rightarrow> string list" where
  "py_words word [] = (if word = [] then [] else [word])"
| "py_words word (c # s) =
     (if is_space c then (if word = [] then py_words [] s else word # py_words [] s)
      else py_words (word @ [c]) s)"

definition parse_meta :: "api_version \<Rightarrow> string option \<Rightarrow> string list" where
  "parse_meta v meta =
     (let words = (case meta of
            None \<Rightarrow> []
          | Some m \<Rightarrow> if m = ''0'' \<or> m = [] then [] else if m = ''1'' then [''recordingids''] else if m = ''2'' then [''m2'']
                     else py_words [] m)
      in case v of V1 \<Rightarrow> if words = [] then [] else [''recordingids''] | V2 \<Rightarrow> words)"

definition duration_name :: "api_version \<Rightarrow> string" where
  "duration_name v = (case v of V1 \<Rightarrow> ''length'' | V2 \<Rightarrow> ''duration'')"

definition parse_query ::
    "(string \<Rightarrow> (int list \<times> int) option) \<Rightarrow> api_version \<Rightarrow> request_values \<Rightarrow> string \<Rightarrow> api_exc + lookup_query" where
  "parse_query decode_legacy v values suffix =
     (let index = (if suffix = [] then None else py_int (tl suffix));
          track_gid = vget values (''trackid'' @ suffix)
      in if suffix \<noteq> [] \<and> index = None then Inl (Crash ValueError)
         else if is_set track_gid then
           (if is_uuid (the track_gid) then Inr (TrackLookupQuery index (the track_gid)) else Inl (Web (InvalidUUIDError (''trackid'' @ suffix))))
         else
           let duration = (case vget_int values (duration_name v @ suffix) of None \<Rightarrow> 0 | Some d \<Rightarrow> d)
           in if duration = 0 then Inl (missing (duration_name v @ suffix))
              else
                case vget values (''fingerprint'' @ suffix) of
                  None \<Rightarrow> Inl (missing (''fingerprint'' @ suffix))
                | Some [] \<Rightarrow> Inl (missing (''fingerprint'' @ suffix))
                | Some fingerprint_string \<Rightarrow>
                    (case decode_fingerprint decode_legacy fingerprint_string of
                       None \<Rightarrow> Inl (Web InvalidFingerprintError)
                     | Some [] \<Rightarrow> Inl (Web InvalidFingerprintError)
                     | Some fingerprint \<Rightarrow> Inr (FingerprintLookupQuery index duration fingerprint)))"

definition lookup_parse ::
    "(string \<Rightarrow> (int list \<times> int) option) \<Rightarrow> api_version \<Rightarrow> api_env \<Rightarrow> request_values \<Rightarrow> api_state
       \<Rightarrow> string \<times> (api_exc + lookup_params) \<times> api_state" where
  "lookup_parse decode_legacy v env values s =
     (case parse_format_of v values of
        (format, Some e) \<Rightarrow> (format, Inl e, s)
      | (format, None) \<Rightarrow>
          (case parse_client env (as_app s) values (as_caches s) of
             (Inl e, kc) \<Rightarrow> (format, Inl e, with_caches kc s)
           | (Inr client, kc) \<Rightarrow>
               let max_duration_diff = vget_int values ''maxdurationdiff'';
                   bad = (case max_duration_diff of None \<Rightarrow> False
                          | Some d \<Rightarrow> d > FINGERPRINT_MAX_ALLOWED_LENGTH_DIFF \<or> d < 1)
               in if bad then (format, Inl (Web (InvalidMaxDurationDiffError ''maxdurationdiff'')), with_caches kc s)
                  else
                    (format,
                     (case parse_suffixes values [''fingerprint'', ''trackid''] (parse_query decode_legacy v values) of
                        Inl e \<Rightarrow> Inl e
                      | Inr queries \<Rightarrow>
                          Inr \<lparr>lp_application_id = cp_application_id client, lp_meta = parse_meta v (vget values ''meta''),
                               lp_max_duration_diff = (case max_duration_diff of None \<Rightarrow> FINGERPRINT_MAX_LENGTH_DIFF | Some d \<Rightarrow> d),
                               lp_batch = vget_int values ''batch'', lp_fingerprints = queries\<rparr>),
                     with_caches kc s)))"

subsection \<open>The store\<close>

record lookup_env =
  le_search :: "nat \<Rightarrow> search_env"
  le_timeout :: "rat option"
  le_metadata :: bool
  le_mb :: mb_db
  le_redis_up :: bool
  le_hash :: "string \<Rightarrow> int"
  le_task_hash :: "json \<Rightarrow> int"
  le_day :: string
  le_hour :: string

text \<open>The result dictionaries, each with the numbers of its recordings, and the recording dictionaries.\<close>

record lookup_store =
  lr_results :: "(row_dict \<times> nat list) list"
  lr_recordings :: "row_dict list"

definition update_nth :: "nat \<Rightarrow> ('a \<Rightarrow> 'a) \<Rightarrow> 'a list \<Rightarrow> 'a list" where
  "update_nth i f xs = (if i < length xs then xs[i := f (xs ! i)] else xs)"

definition update_recording :: "nat \<Rightarrow> row_dict \<Rightarrow> lookup_store \<Rightarrow> lookup_store" where
  "update_recording r d st = st\<lparr>lr_recordings := update_nth r (\<lambda>el. dict_update el d) (lr_recordings st)\<rparr>"

definition update_result :: "row_dict \<Rightarrow> nat \<Rightarrow> lookup_store \<Rightarrow> lookup_store" where
  "update_result d r st = st\<lparr>lr_results := update_nth r (\<lambda>(el, recs). (dict_update el d, recs)) (lr_results st)\<rparr>"

text \<open>\<open>result_el.setdefault(recordings_name, []).append(recording)\<close> with a new \<open>recording\<close>.\<close>

definition add_recording :: "'k \<Rightarrow> row_dict \<Rightarrow> nat \<Rightarrow> ('k, nat list) dict \<times> lookup_store \<Rightarrow> ('k, nat list) dict \<times> lookup_store" where
  "add_recording key recording result_el acc =
     (let (el_recording, st) = acc; ref = length (lr_recordings st)
      in (dict_append el_recording key ref,
          st\<lparr>lr_recordings := lr_recordings st @ [recording],
             lr_results := update_nth result_el (\<lambda>(el, recs). (el, recs @ [ref])) (lr_results st)\<rparr>))"

subsection \<open>Recordings of the results\<close>

type_synonym refs = "(json, nat list) dict"

text \<open>One recording per link and result, \<open>_inject_recording_ids_internal(True, add_sources)\<close>.\<close>

definition link_stub :: "bool \<Rightarrow> string \<times> int \<Rightarrow> row_dict" where
  "link_stub add_sources link =
     (case link of (mbid, sources) \<Rightarrow>
        [(''id'', JStr mbid)] @ (if add_sources then [(''sources'', JInt sources)] else []))"

definition inject_link :: "(int, nat list) dict \<Rightarrow> bool \<Rightarrow> int \<times> string \<times> int \<Rightarrow> refs \<times> lookup_store \<Rightarrow> py_exc + refs \<times> lookup_store" where
  "inject_link el_result add_sources link acc =
     (case link of (track_id, mbid, sources) \<Rightarrow>
        and_then (item_of el_result track_id) (\<lambda>result_els.
          Inr (fold (add_recording (JStr mbid) (link_stub add_sources (mbid, sources))) result_els acc)))"

fun inject_all :: "('x \<Rightarrow> 'a \<Rightarrow> py_exc + 'a) \<Rightarrow> 'x list \<Rightarrow> 'a \<Rightarrow> py_exc + 'a" where
  "inject_all f [] acc = Inr acc"
| "inject_all f (x # xs) acc = and_then (f x acc) (inject_all f xs)"

definition track_links :: "fingerprint_db \<Rightarrow> (int, nat list) dict \<Rightarrow> (int \<times> string \<times> int) list" where
  "track_links fdb el_result =
     concat (map (\<lambda>(track_id, mbids). map (\<lambda>(mbid, sources). (track_id, mbid, sources)) mbids) (lookup_mbids fdb (dict_keys el_result)))"

definition inject_recording_ids_internal ::
    "fingerprint_db \<Rightarrow> (int, nat list) dict \<Rightarrow> bool \<Rightarrow> lookup_store \<Rightarrow> py_exc + refs \<times> lookup_store" where
  "inject_recording_ids_internal fdb el_result add_sources st =
     inject_all (inject_link el_result add_sources) (track_links fdb el_result) ([], st)"

text \<open>The keys and the \<open>res_map\<close> of \<open>_inject_recording_ids_internal(False)\<close>.\<close>

definition recording_keys :: "(int \<times> string \<times> int) list \<Rightarrow> string list" where
  "recording_keys links = remdups (map (\<lambda>(track_id, mbid, sources). mbid) links)"

definition track_mbid_map :: "fingerprint_db \<Rightarrow> (int, nat list) dict \<Rightarrow> (int, string list) dict" where
  "track_mbid_map fdb el_result = map (\<lambda>(track_id, mbids). (track_id, map fst mbids)) (lookup_mbids fdb (dict_keys el_result))"

definition MAX_META_IDS_PER_TRACK :: int where "MAX_META_IDS_PER_TRACK = 10"

definition inject_user_meta_ids_internal ::
    "fingerprint_db \<Rightarrow> (int, nat list) dict \<Rightarrow> lookup_store \<Rightarrow> py_exc + refs \<times> lookup_store" where
  "inject_user_meta_ids_internal fdb el_result st =
     inject_all (\<lambda>(track_id, meta_id) acc.
         and_then (item_of el_result track_id) (\<lambda>result_els. Inr (fold (add_recording (JInt meta_id) []) result_els acc)))
       (concat (map (\<lambda>(track_id, meta_ids). map (Pair track_id) meta_ids)
          (lookup_meta_ids fdb (dict_keys el_result) (Some MAX_META_IDS_PER_TRACK)))) ([], st)"

text \<open>
  A task for every MBID without metadata; the code goes through a set, in an order that is not fixed. Redis may not answer.
\<close>

definition check_for_missing_recordings :: "lookup_env \<Rightarrow> string list \<Rightarrow> row_dict list \<Rightarrow> queues \<Rightarrow> py_exc option \<times> queues" where
  "check_for_missing_recordings le expected_mbids metadata q =
     (let found = concat (map (str_column_of ''recording_id'') metadata);
          missing_mbids = filter (\<lambda>mbid. mbid \<notin> set found) (remdups expected_mbids)
      in if missing_mbids \<noteq> [] \<and> \<not> le_redis_up le then (Some RedisError, q)
         else (None, fold (\<lambda>mbid. enqueue_task (le_task_hash le) ''merge_missing_mbid'' [(''mbid'', JStr mbid)]) missing_mbids q))"

subsection \<open>Injecting metadata\<close>

text \<open>
  The dictionaries a recording is copied to: the first copy of a record of user metadata cleans the recording, and the ones
  after it copy the cleaned recording.
\<close>

fun update_els :: "bool \<Rightarrow> nat list \<Rightarrow> row_dict \<Rightarrow> lookup_store \<Rightarrow> lookup_store" where
  "update_els usermeta [] recording st = st"
| "update_els usermeta (r # rs) recording st =
     (let recording = (if usermeta \<and> has_int_id recording then clean_recording recording else recording)
      in update_els usermeta rs recording (update_recording r recording st))"

definition inject_group ::
    "string list \<Rightarrow> refs \<Rightarrow> row_dict \<times> row_dict list \<Rightarrow> lookup_store \<Rightarrow> py_exc + lookup_store" where
  "inject_group meta recording_els grp st =
     and_then (fill_recording meta (fst grp) (snd grp)) (\<lambda>recording.
     and_then (item_of recording_els (get_or_null recording ''id'')) (\<lambda>els.
       Inr (update_els (''usermeta'' \<in> set meta) els recording st)))"

definition with_user_meta ::
    "fingerprint_db \<Rightarrow> string list \<Rightarrow> (int, nat list) dict \<Rightarrow> refs \<times> lookup_store \<Rightarrow> row_dict list
       \<Rightarrow> py_exc + refs \<times> lookup_store \<times> row_dict list" where
  "with_user_meta fdb meta el_result acc metadata =
     (if ''usermeta'' \<in> set meta \<and> metadata = [] then
        and_then (inject_user_meta_ids_internal fdb el_result (snd acc)) (\<lambda>(user_meta_els, st).
          let meta_ids = concat (map (\<lambda>(k, refs). case k of JInt i \<Rightarrow> [i] | _ \<Rightarrow> []) user_meta_els)
          in Inr (fold (\<lambda>(k, refs) d. dict_set d k refs) user_meta_els (fst acc), st, lookup_meta fdb meta_ids))
      else Inr (fst acc, snd acc, metadata))"

definition inject_recordings ::
    "lookup_env \<Rightarrow> fingerprint_db \<Rightarrow> string list \<Rightarrow> (int, nat list) dict \<Rightarrow> lookup_store \<Rightarrow> queues
       \<Rightarrow> (py_exc + lookup_store) \<times> queues" where
  "inject_recordings le fdb meta el_result st q =
     (case inject_recording_ids_internal fdb el_result (''sources'' \<in> set meta) st of
        Inl e \<Rightarrow> (Inl e, q)
      | Inr (recording_els, st) \<Rightarrow>
          let mbids = concat (map (\<lambda>(k, refs). case k of JStr i \<Rightarrow> [i] | _ \<Rightarrow> []) recording_els);
              load_groups = (''releasegroupids'' \<in> set meta \<or> ''releasegroups'' \<in> set meta);
              load_rels = (''releaseids'' \<in> set meta \<or> ''releases'' \<in> set meta \<or> load_groups)
          in case lookup_metadata (le_mb le) mbids load_rels load_groups (''isrcs'' \<in> set meta) of
               Inl e \<Rightarrow> (Inl e, q)
             | Inr metadata \<Rightarrow>
                 (case check_for_missing_recordings le mbids metadata q of
                    (Some e, q) \<Rightarrow> (Inl e, q)
                  | (None, q) \<Rightarrow>
                      (and_then (with_user_meta fdb meta el_result (recording_els, st) metadata) (\<lambda>(recording_els, st, metadata).
                       and_then (group_recordings metadata (''recordingids'' \<in> set meta)) (\<lambda>groups.
                         inject_all (inject_group meta recording_els) groups st)), q)))"

text \<open>\<open>inject_releases\<close> and \<open>inject_release_groups\<close> differ in what they put into the result.\<close>

definition group_metadata :: "row_dict list \<Rightarrow> (int, string list) dict \<Rightarrow> (int \<times> row_dict list) list" where
  "group_metadata metadata tracks =
     map (\<lambda>(track_id, mbids). (track_id, filter (\<lambda>item. get_or_null item ''recording_id'' \<in> JStr ` set mbids) metadata)) tracks"

definition inject_track_metadata ::
    "(row_dict \<Rightarrow> row_dict list \<Rightarrow> py_exc + row_dict) \<Rightarrow> (int, nat list) dict \<Rightarrow> int \<times> row_dict list \<Rightarrow> lookup_store \<Rightarrow> py_exc + lookup_store" where
  "inject_track_metadata internal el_result grp st =
     and_then (internal [] (snd grp)) (\<lambda>result.
     and_then (item_of el_result (fst grp)) (\<lambda>result_els. Inr (fold (update_result result) result_els st)))"

definition inject_by_track ::
    "(row_dict \<Rightarrow> row_dict list \<Rightarrow> py_exc + row_dict) \<Rightarrow> lookup_env \<Rightarrow> fingerprint_db \<Rightarrow> (int, nat list) dict \<Rightarrow> lookup_store \<Rightarrow> queues
       \<Rightarrow> (py_exc + lookup_store) \<times> queues" where
  "inject_by_track internal le fdb el_result st q =
     (let mbids = recording_keys (track_links fdb el_result)
      in case lookup_metadata (le_mb le) mbids True True False of
           Inl e \<Rightarrow> (Inl e, q)
         | Inr metadata \<Rightarrow>
             (case check_for_missing_recordings le mbids metadata q of
                (Some e, q) \<Rightarrow> (Inl e, q)
              | (None, q) \<Rightarrow>
                  (inject_all (inject_track_metadata internal el_result) (group_metadata metadata (track_mbid_map fdb el_result)) st, q)))"

definition inject_releases where
  "inject_releases le fdb meta = inject_by_track (inject_releases_internal meta) le fdb"

definition inject_release_groups where
  "inject_release_groups le fdb meta = inject_by_track (inject_release_groups_internal meta) le fdb"

text \<open>\<open>inject_m2\<close>: recordings with a flat list of their tracks.\<close>

definition m2_head :: "row_dict \<Rightarrow> py_exc + row_dict" where
  "m2_head item =
     and_then (extract_recording item True) (\<lambda>recording.
     and_then (item_of item ''recording_duration'') (\<lambda>duration.
     and_then (if jtruthy duration then and_then (to_float duration) (\<lambda>d. Inr (dict_set recording ''duration'' d)) else Inr recording) (\<lambda>recording.
       Inr (dict_set recording ''tracks'' (JArr [])))))"

fun m2_heads :: "refs \<Rightarrow> json option \<Rightarrow> row_dict list \<Rightarrow> lookup_store \<Rightarrow> py_exc + lookup_store" where
  "m2_heads el_recording last_recording_id [] st = Inr st"
| "m2_heads el_recording last_recording_id (item # metadata) st =
     and_then (item_of item ''recording_id'') (\<lambda>recording_id.
       if last_recording_id = Some recording_id then m2_heads el_recording last_recording_id metadata st
       else and_then (item_of el_recording recording_id) (\<lambda>els.
            and_then (if els = [] then Inr [] else m2_head item) (\<lambda>recording.
              m2_heads el_recording (Some recording_id) metadata (fold (\<lambda>r. update_recording r recording) els st))))"

definition m2_track :: "row_dict \<Rightarrow> py_exc + row_dict" where
  "m2_track item =
     and_then (item_of item ''medium_track_count'') (\<lambda>track_count.
     and_then (item_of item ''medium_position'') (\<lambda>medium_position.
     and_then (item_of item ''release_id'') (\<lambda>release_id.
     and_then (item_of item ''release_title'') (\<lambda>release_title.
     and_then (set_if item ''medium_format'' ''format'' [(''track_count'', track_count), (''position'', medium_position),
          (''release'', JObj [(''id'', release_id), (''title'', release_title)])]) (\<lambda>medium.
     and_then (item_of item ''track_title'') (\<lambda>title.
     and_then (item_of item ''track_duration'') (\<lambda>duration.
     and_then (to_float duration) (\<lambda>duration.
     and_then (item_of item ''track_artists'') (\<lambda>artists.
     and_then (item_of item ''track_position'') (\<lambda>position.
       Inr [(''title'', title), (''duration'', duration), (''artists'', artists), (''position'', position),
            (''medium'', JObj medium)]))))))))))"

definition append_track :: "row_dict \<Rightarrow> row_dict \<Rightarrow> row_dict" where
  "append_track track el =
     (case dict_get el ''tracks'' of Some (JArr ts) \<Rightarrow> dict_set el ''tracks'' (JArr (ts @ [JObj track])) | _ \<Rightarrow> el)"

definition m2_append :: "refs \<Rightarrow> row_dict \<Rightarrow> lookup_store \<Rightarrow> py_exc + lookup_store" where
  "m2_append el_recording item st =
     and_then (item_of item ''recording_id'') (\<lambda>recording_id.
     and_then (item_of el_recording recording_id) (\<lambda>els.
     and_then (if els = [] then Inr [] else m2_track item) (\<lambda>track.
       Inr (fold (\<lambda>r st. st\<lparr>lr_recordings := update_nth r (append_track track) (lr_recordings st)\<rparr>) els st))))"

definition text_key :: "string \<Rightarrow> row_dict \<Rightarrow> string" where
  "text_key column item = (case dict_get item column of Some (JStr s) \<Rightarrow> s | _ \<Rightarrow> [])"

definition int_key :: "string \<Rightarrow> row_dict \<Rightarrow> int" where
  "int_key column item = (case dict_get item column of Some (JInt i) \<Rightarrow> i | _ \<Rightarrow> 0)"

definition m2_sorted :: "row_dict list \<Rightarrow> row_dict list" where
  "m2_sorted metadata =
     sort_key (text_key ''recording_id'') (sort_key (text_key ''release_id'')
       (sort_key (int_key ''medium_position'') (sort_key (int_key ''track_position'') metadata)))"

definition inject_m2 ::
    "lookup_env \<Rightarrow> fingerprint_db \<Rightarrow> (int, nat list) dict \<Rightarrow> lookup_store \<Rightarrow> queues \<Rightarrow> (py_exc + lookup_store) \<times> queues" where
  "inject_m2 le fdb el_result st q =
     (case inject_recording_ids_internal fdb el_result False st of
        Inl e \<Rightarrow> (Inl e, q)
      | Inr (el_recording, st) \<Rightarrow>
          let mbids = recording_keys (track_links fdb el_result)
          in case lookup_metadata (le_mb le) mbids True False False of
               Inl e \<Rightarrow> (Inl e, q)
             | Inr metadata \<Rightarrow>
                 (case check_for_missing_recordings le mbids metadata q of
                    (Some e, q) \<Rightarrow> (Inl e, q)
                  | (None, q) \<Rightarrow>
                      (and_then (m2_heads el_recording None metadata st) (inject_all (m2_append el_recording) (m2_sorted metadata)), q)))"

definition inject_metadata ::
    "lookup_env \<Rightarrow> fingerprint_db \<Rightarrow> string list \<Rightarrow> (int, nat list) dict \<Rightarrow> lookup_store \<Rightarrow> queues
       \<Rightarrow> (py_exc + lookup_store) \<times> queues" where
  "inject_metadata le fdb meta result_map st q =
     (if ''m2'' \<in> set meta then inject_m2 le fdb result_map st q
      else if ''recordings'' \<in> set meta \<or> ''recordingids'' \<in> set meta \<or> ''isrcs'' \<in> set meta
      then inject_recordings le fdb meta result_map st q
      else if ''releasegroups'' \<in> set meta \<or> ''releasegroupids'' \<in> set meta then inject_release_groups le fdb meta result_map st q
      else if ''releases'' \<in> set meta \<or> ''releaseids'' \<in> set meta then inject_releases le fdb meta result_map st q
      else (Inr st, q))"

subsection \<open>\<open>LookupHandler\<close>\<close>

definition MAX_FINGERPRINT_QUERIES_PER_REQUEST :: nat where "MAX_FINGERPRINT_QUERIES_PER_REQUEST = 20"
definition MAX_TRACK_QUERIES_PER_REQUEST :: nat where "MAX_TRACK_QUERIES_PER_REQUEST = 100"
definition MAX_RESULTS_PER_FINGERPRINT_QUERY :: int where "MAX_RESULTS_PER_FINGERPRINT_QUERY = 10"

fun is_fingerprint_query :: "lookup_query \<Rightarrow> bool" where
  "is_fingerprint_query (FingerprintLookupQuery _ _ _) = True"
| "is_fingerprint_query (TrackLookupQuery _ _) = False"

text \<open>The value a text has in a UUID column, if PostgreSQL takes it as one.\<close>

definition pg_uuid :: "string \<Rightarrow> py_exc + string" where
  "pg_uuid s = (if uuid_body s then Inr (map lower_char s) else Inl DataError)"

definition run_query :: "lookup_env \<Rightarrow> int \<Rightarrow> fingerprint_db \<Rightarrow> nat \<Rightarrow> lookup_query \<Rightarrow> py_exc + fp_match list" where
  "run_query le max_duration_diff fdb n p =
     (case p of
        TrackLookupQuery index track_gid \<Rightarrow>
          and_then (pg_uuid track_gid) (\<lambda>gid.
            Inr (case truthy_id (resolve_track_gid fdb gid) of
                   None \<Rightarrow> []
                 | Some track_id \<Rightarrow> [\<lparr>fm_fingerprint_id = 0, fm_track_id = track_id, fm_track_gid = track_gid, fm_score = 1\<rparr>]))
      | FingerprintLookupQuery index duration fingerprint \<Rightarrow>
          search (le_search le n) ((new_searcher True (le_timeout le))\<lparr>s_max_length_diff := max_duration_diff\<rparr>)
            fingerprint duration (Some MAX_RESULTS_PER_FINGERPRINT_QUERY) fdb)"

fun run_queries :: "lookup_env \<Rightarrow> int \<Rightarrow> fingerprint_db \<Rightarrow> nat \<Rightarrow> lookup_query list \<Rightarrow> py_exc + fp_match list list" where
  "run_queries le diff fdb n [] = Inr []"
| "run_queries le diff fdb n (p # ps) =
     and_then (run_query le diff fdb n p) (\<lambda>matches.
     and_then (run_queries le diff fdb (Suc n) ps) (\<lambda>all_matches. Inr (matches # all_matches)))"

text \<open>\<open>_inject_results\<close>: the first match of every track becomes a result.\<close>

fun inject_results ::
    "fp_match list \<Rightarrow> int list \<Rightarrow> nat list \<times> (int, nat list) dict \<times> lookup_store
       \<Rightarrow> int list \<times> nat list \<times> (int, nat list) dict \<times> lookup_store" where
  "inject_results [] seen acc = (seen, acc)"
| "inject_results (m # matches) seen (results, result_map, st) =
     (if fm_track_id m \<in> set seen then inject_results matches seen (results, result_map, st)
      else
        let result = [(''id'', JStr (fm_track_gid m)), (''score'', JNum (fm_score m))]; ref = length (lr_results st)
        in inject_results matches (seen @ [fm_track_id m])
             (results @ [ref], dict_append result_map (fm_track_id m) ref, st\<lparr>lr_results := lr_results st @ [(result, [])]\<rparr>))"

definition count_lookup :: "lookup_env \<Rightarrow> int \<Rightarrow> bool \<Rightarrow> (string \<Rightarrow> counters) \<Rightarrow> (string \<Rightarrow> counters)" where
  "count_lookup le application_id hit c =
     update_lookup_counter (le_hash le) (le_redis_up le) (le_day le) (le_hour le) application_id hit c"

fun batch_results ::
    "lookup_env \<Rightarrow> int \<Rightarrow> (lookup_query \<times> fp_match list) list \<Rightarrow> (int, nat list) dict \<times> lookup_store \<Rightarrow> (string \<Rightarrow> counters)
       \<Rightarrow> (int option \<times> nat list) list \<times> ((int, nat list) dict \<times> lookup_store) \<times> (string \<Rightarrow> counters)" where
  "batch_results le application_id [] acc c = ([], acc, c)"
| "batch_results le application_id ((p, matches) # rest) (result_map, st) c =
     (let (track_ids, results, result_map, st) = inject_results matches [] ([], result_map, st);
          c = count_lookup le application_id (track_ids \<noteq> []) c;
          (fps, acc, c) = batch_results le application_id rest (result_map, st) c
      in ((query_index p, results) # fps, acc, c))"

definition recordings_name :: "api_version \<Rightarrow> string" where
  "recordings_name v = (case v of V1 \<Rightarrow> ''tracks'' | V2 \<Rightarrow> ''recordings'')"

definition result_json :: "api_version \<Rightarrow> lookup_store \<Rightarrow> nat \<Rightarrow> json" where
  "result_json v st r =
     (let (el, recs) = lr_results st ! r
      in JObj (el @ (if recs = [] then [] else [(recordings_name v, JArr (map (\<lambda>i. JObj (lr_recordings st ! i)) recs))])))"

text \<open>\<open>fps\<close> are the answers of the single queries; without \<open>batch\<close> there is one, and only its results are answered.\<close>

definition lookup_answer :: "api_version \<Rightarrow> bool \<Rightarrow> lookup_store \<Rightarrow> (int option \<times> nat list) list \<Rightarrow> (string \<times> json) list" where
  "lookup_answer v batch st fps =
     (if batch
      then [(''fingerprints'', JArr (map (\<lambda>(index, results).
               JObj [(''index'', jint index), (''results'', JArr (map (result_json v st) results))]) fps))]
      else [(''results'', JArr (map (result_json v st) (snd (hd fps))))])"

definition empty_store :: lookup_store where
  "empty_store = \<lparr>lr_results = [], lr_recordings = []\<rparr>"

definition lookup_queries :: "lookup_params \<Rightarrow> lookup_query list" where
  "lookup_queries params = (if truthy_int (lp_batch params) then lp_fingerprints params else take 1 (lp_fingerprints params))"

definition too_many_queries :: "lookup_query list \<Rightarrow> bool" where
  "too_many_queries fingerprints \<longleftrightarrow>
     length (filter is_fingerprint_query fingerprints) > MAX_FINGERPRINT_QUERIES_PER_REQUEST
     \<or> length (filter (\<lambda>p. \<not> is_fingerprint_query p) fingerprints) > MAX_TRACK_QUERIES_PER_REQUEST"

definition lookup_internal ::
    "lookup_env \<Rightarrow> api_version \<Rightarrow> api_env \<Rightarrow> api_request \<Rightarrow> string \<Rightarrow> lookup_params \<Rightarrow> api_state
       \<Rightarrow> (api_exc + (string \<times> json) list) \<times> api_state" where
  "lookup_internal le v env req user_ip params s =
     (let s = s\<lparr>as_counters := update_user_agent_counter (le_hash le) (le_redis_up le) (le_day le) (lp_application_id params)
                  (rq_user_agent req) user_ip (as_counters s)\<rparr>;
          batch = truthy_int (lp_batch params);
          fingerprints = lookup_queries params
      in if too_many_queries fingerprints then (Inl (Web RequestTooLargeError), s)
         else
           case run_queries le (lp_max_duration_diff params) (as_fp s) 0 fingerprints of
             Inl e \<Rightarrow> (Inl (Crash e), s)
           | Inr all_matches \<Rightarrow>
               if \<not> batch \<and> all_matches = [] then (Inl (Crash IndexError), s)
               else
                 let (fps, (result_map, st), c) =
                       batch_results le (lp_application_id params) (zip fingerprints all_matches) ([], empty_store) (as_counters s);
                     s = s\<lparr>as_counters := c\<rparr>
                 in if le_metadata le \<and> lp_meta params \<noteq> [] \<and> result_map \<noteq> [] then
                      (case inject_metadata le (as_fp s) (lp_meta params) result_map st (as_tasks s) of
                         (Inl e, q) \<Rightarrow> (Inl (Crash e), s\<lparr>as_tasks := q\<rparr>)
                       | (Inr st, q) \<Rightarrow> (Inr (lookup_answer v batch st fps), s\<lparr>as_tasks := q\<rparr>))
                    else (Inr (lookup_answer v batch st fps), s))"

definition lookup_handler :: "(string \<Rightarrow> (int list \<times> int) option) \<Rightarrow> lookup_env \<Rightarrow> api_version \<Rightarrow> lookup_params api_handler" where
  "lookup_handler decode_legacy le v =
     \<lparr>h_parse = lookup_parse decode_legacy v, h_application_id = (\<lambda>p. Some (lp_application_id p)), h_internal = lookup_internal le v\<rparr>"

end
