(* ===== verification/Lookup_Types.thy ===== *)
theory Lookup_Types
  imports Api_Lookup
begin

text \<open>
  The type of a lookup's answer: a schema driven by the names of the fields, kept by every function that builds or changes a part
  of an answer, whatever the databases hold and whatever metadata is asked for. It implies that the answer can be serialised as XML.
\<close>

named_theorems typed_intros \<open>functions that keep the schema\<close>

subsection \<open>The schema\<close>

definition text_names :: "string list" where
  "text_names = [''id'', ''title'', ''name'', ''joinphrase'', ''country'', ''type'', ''format'', ''artist'', ''isrc'', ''secondarytype'']"

definition number_names :: "string list" where
  "number_names = [''id'', ''index'', ''sources'', ''year'', ''month'', ''day'', ''medium_count'', ''track_count'', ''position'']"

definition list_names :: "string list" where
  "list_names = [''fingerprints'', ''results'', ''recordings'', ''tracks'', ''artists'', ''isrcs'', ''releasegroups'', ''releases'', ''mediums'',
     ''releaseevents'', ''secondarytypes'']"

definition object_names :: "string list" where
  "object_names = [''fingerprint'', ''result'', ''recording'', ''track'', ''artist'', ''releasegroup'', ''release'', ''medium'',
     ''releaseevent'', ''date'']"

fun typed :: "string \<Rightarrow> json \<Rightarrow> bool" where
  "typed name JNull \<longleftrightarrow> name \<in> {''index'', ''title'', ''position'', ''track_count''}"
| "typed name (JBool b) \<longleftrightarrow> False"
| "typed name (JInt i) \<longleftrightarrow> name \<in> set number_names"
| "typed name (JNum q) \<longleftrightarrow> name \<in> {''score'', ''duration''}"
| "typed name (JStr s) \<longleftrightarrow> name \<in> set text_names"
| "typed name (JArr xs) \<longleftrightarrow> name \<in> set list_names \<and> list_all id (map (typed (butlast name)) xs)"
| "typed name (JObj d) \<longleftrightarrow> name \<in> set object_names \<and> list_all (\<lambda>(k, ok). ok) (map (\<lambda>(k, v). (k, typed k v)) d)"

definition fields_typed :: "row_dict \<Rightarrow> bool" where
  "fields_typed d \<longleftrightarrow> list_all (\<lambda>(k, v). typed k v) d"

lemma typed_obj: "typed name (JObj d) \<longleftrightarrow> name \<in> set object_names \<and> fields_typed d"
  by (simp add: fields_typed_def list.pred_map o_def case_prod_unfold)

lemma typed_arr: "typed name (JArr xs) \<longleftrightarrow> name \<in> set list_names \<and> list_all (typed (butlast name)) xs"
  by (simp add: list.pred_map)

lemma fields_typed_simps [simp]: "fields_typed []" "fields_typed ((k, v) # d) \<longleftrightarrow> typed k v \<and> fields_typed d"
  "fields_typed (d @ d') \<longleftrightarrow> fields_typed d \<and> fields_typed d'"
  by (simp_all add: fields_typed_def)

declare typed.simps(6,7) [simp del]

lemma fields_typed_set [typed_intros]: "fields_typed d \<Longrightarrow> typed k v \<Longrightarrow> fields_typed (dict_set d k v)"
  by (induction d k v rule: dict_set.induct) auto

lemma fields_typed_del [typed_intros]: "fields_typed d \<Longrightarrow> fields_typed (dict_del d k)"
  by (auto simp: fields_typed_def dict_del_def list_all_iff)

lemma fields_typed_get: "fields_typed d \<Longrightarrow> dict_get d k = Some v \<Longrightarrow> typed k v"
  by (auto simp: fields_typed_def dict_get_def list_all_iff dest: map_of_SomeD)

lemma fields_typed_update [typed_intros]: "fields_typed d \<Longrightarrow> fields_typed other \<Longrightarrow> fields_typed (dict_update d other)"
  unfolding dict_update_def
proof (induction other arbitrary: d)
  case (Cons kv other)
  then show ?case by (cases kv) (simp add: fields_typed_set)
qed simp

lemma typed_map_obj: "typed name v \<Longrightarrow> (\<And>e. fields_typed e \<Longrightarrow> fields_typed (f e)) \<Longrightarrow> typed name (map_obj f v)"
  by (cases v) (simp_all add: map_obj_def typed_obj)

lemma typed_map_objs:
  "typed key (JArr xs) \<Longrightarrow> (\<And>e. fields_typed e \<Longrightarrow> fields_typed (f e)) \<Longrightarrow> typed key (JArr (map (map_obj f) xs))"
  by (simp add: typed_arr list_all_iff typed_map_obj)

lemma fields_typed_change:
  assumes "fields_typed d" and "\<And>xs. typed key (JArr xs) \<Longrightarrow> typed key (JArr (g xs))"
  shows "fields_typed (case dict_get d key of Some (JArr xs) \<Rightarrow> dict_set d key (JArr (g xs)) | _ \<Rightarrow> d)"
proof (cases "dict_get d key")
  case (Some v)
  from fields_typed_get [OF assms(1) Some] have "typed key v" .
  with Some assms show ?thesis by (cases v) (simp_all add: fields_typed_set)
qed (use assms(1) in simp)

lemma fields_typed_map_list [typed_intros]:
  assumes "fields_typed d" and "\<And>e. fields_typed e \<Longrightarrow> fields_typed (f e)"
  shows "fields_typed (map_list key f d)"
  unfolding map_list_def by (rule fields_typed_change) (use assms typed_map_objs in blast)+

lemma typed_map_last:
  assumes t: "typed key (JArr (x # xs))" and "\<And>e. fields_typed e \<Longrightarrow> fields_typed (f e)"
  shows "typed key (JArr (butlast (x # xs) @ [map_obj f (last (x # xs))]))"
proof -
  have all: "v \<in> set (x # xs) \<Longrightarrow> typed (butlast key) v" for v
    using t unfolding typed_arr list_all_iff by blast
  have "v \<in> set (butlast (x # xs)) \<Longrightarrow> typed (butlast key) v" for v
    using all in_set_butlastD [of v "x # xs"] by blast
  moreover have "typed (butlast key) (map_obj f (last (x # xs)))"
    using all [OF last_in_set] assms(2) by (simp add: typed_map_obj)
  ultimately show ?thesis using t unfolding typed_arr list_all_iff by simp
qed

lemma fields_typed_map_last [typed_intros]:
  assumes d: "fields_typed d" and f: "\<And>e. fields_typed e \<Longrightarrow> fields_typed (f e)"
  shows "fields_typed (map_last key f d)"
proof (cases "\<exists>x xs. dict_get d key = Some (JArr (x # xs))")
  case True
  then obtain x xs where get: "dict_get d key = Some (JArr (x # xs))" by blast
  have "typed key (JArr (butlast (x # xs) @ [map_obj f (last (x # xs))]))"
    by (rule typed_map_last [OF fields_typed_get [OF d get] f])
  with get d show ?thesis unfolding map_last_def by (simp only: option.case json.case list.case fields_typed_set)
next
  case False
  then have "map_last key f d = d" unfolding map_last_def by (simp split: option.split json.split list.split)
  with d show ?thesis by simp
qed

lemma fields_typed_keep [typed_intros]:
  assumes d: "fields_typed d" and f: "\<And>e. fields_typed e \<Longrightarrow> fields_typed (f e)"
  shows "fields_typed (keep_nonempty key f d)"
proof (cases "\<exists>xs. dict_get d key = Some (JArr xs)")
  case True
  then obtain xs where get: "dict_get d key = Some (JArr xs)" by blast
  have "typed key (JArr (map (map_obj f) xs))" by (rule typed_map_objs [OF fields_typed_get [OF d get] f])
  then have "typed key (JArr (filter jtruthy (map (map_obj f) xs)))" unfolding typed_arr list_all_iff by auto
  with get d show ?thesis unfolding keep_nonempty_def Let_def by (simp add: fields_typed_set fields_typed_del del: filter_map)
next
  case False
  then have "keep_nonempty key f d = d" unfolding keep_nonempty_def by (simp split: option.split json.split)
  with d show ?thesis by simp
qed

lemma fields_typed_del_if [typed_intros]: "fields_typed d \<Longrightarrow> fields_typed (del_if_equal key parent d)"
  by (simp add: del_if_equal_def fields_typed_del)

lemma fields_typed_drop_title [typed_intros]: "fields_typed d \<Longrightarrow> fields_typed (drop_empty_title d)"
  by (simp add: drop_empty_title_def fields_typed_del split: option.split)

lemma fields_typed_clean [typed_intros]: "fields_typed d \<Longrightarrow> fields_typed (clean_recording d)"
  unfolding clean_recording_def clean_release_group_def clean_release_def by (intro typed_intros)

lemma fields_typed_compress [typed_intros]:
  "fields_typed d \<Longrightarrow> fields_typed (compress_release d)"
  "fields_typed d \<Longrightarrow> fields_typed (compress_release_group d)"
  "fields_typed d \<Longrightarrow> fields_typed (compress_recording_groups d)"
  "fields_typed d \<Longrightarrow> fields_typed (compress_recording_releases d)"
  unfolding compress_release_def compress_release_group_def compress_recording_groups_def compress_recording_releases_def
  by (intro typed_intros; assumption)+

text \<open>Typed answers can be serialised.\<close>

lemma list_names_singular: "name \<in> set list_names \<Longrightarrow> singular name = Inr (butlast name)"
proof -
  have "list_all (\<lambda>name. singular name = Inr (butlast name)) list_names" by code_simp
  then show "name \<in> set list_names \<Longrightarrow> singular name = Inr (butlast name)" by (simp add: list_all_iff)
qed

lemma typed_xml_ready: "typed name v \<Longrightarrow> xml_ready name v"
proof (induction name v rule: typed.induct)
  case (6 name xs)
  then show ?case by (auto simp: typed_arr list_names_singular list_all_iff)
next
  case (7 name d)
  then show ?case by (auto simp: typed_obj fields_typed_def list_all_iff)
qed simp_all

lemma fields_typed_ready: "fields_typed d \<Longrightarrow> answer_ready d"
  by (auto simp: fields_typed_def answer_ready_def list_all_iff typed_xml_ready)

subsection \<open>Results of functions that may raise\<close>

definition ret :: "('a \<Rightarrow> bool) \<Rightarrow> py_exc + 'a \<Rightarrow> bool" where
  "ret P x \<longleftrightarrow> (case x of Inl e \<Rightarrow> True | Inr v \<Rightarrow> P v)"

lemma ret_simps [simp]: "ret P (Inl e)" "ret P (Inr v) \<longleftrightarrow> P v"
  by (simp_all add: ret_def)

lemma retD: "ret P x \<Longrightarrow> x = Inr v \<Longrightarrow> P v"
  by simp

lemma ret_and_then: "ret Q x \<Longrightarrow> (\<And>v. Q v \<Longrightarrow> ret P (f v)) \<Longrightarrow> ret P (and_then x f)"
  by (cases x) (simp_all add: and_then_def)

lemma ret_item: "(\<And>v. dict_get d k = Some v \<Longrightarrow> P v) \<Longrightarrow> ret P (item_of d k)"
  by (simp add: item_of_def ret_def split: option.split)

lemma ret_each: "(\<And>x. x \<in> set xs \<Longrightarrow> ret P (f x)) \<Longrightarrow> ret (list_all P) (each f xs)"
proof (induction xs)
  case (Cons x xs)
  have "ret P (f x)" "ret (list_all P) (each f xs)" using Cons by simp_all
  then show ?case
    unfolding each.simps by (auto intro!: ret_and_then)
qed simp

lemma ret_inject_all: "P acc \<Longrightarrow> (\<And>x acc. x \<in> set xs \<Longrightarrow> P acc \<Longrightarrow> ret P (f x acc)) \<Longrightarrow> ret P (inject_all f xs acc)"
proof (induction xs arbitrary: acc)
  case (Cons x xs)
  have "ret P (f x acc)" using Cons.prems by simp
  moreover have "ret P (inject_all f xs acc')" if "P acc'" for acc' using Cons.IH [OF that] Cons.prems(2) by simp
  ultimately show ?case unfolding inject_all.simps by (rule ret_and_then)
qed simp

subsection \<open>Rows\<close>

text \<open>The field of the answer that shows a column; a column may also be \<open>None\<close>, except identifiers and artists.\<close>

definition column_fields :: "(string \<times> string) list" where
  "column_fields = [(''recording_id'', ''id''), (''recording_title'', ''title''), (''recording_duration'', ''duration''),
     (''recording_artists'', ''artists''), (''recording_isrcs'', ''isrcs''), (''track_id'', ''id''), (''track_position'', ''position''),
     (''track_title'', ''title''), (''track_artists'', ''artists''), (''track_duration'', ''duration''),
     (''medium_position'', ''position''), (''medium_track_count'', ''track_count''), (''medium_title'', ''title''),
     (''medium_format'', ''format''), (''release_id'', ''id''), (''release_title'', ''title''), (''release_artists'', ''artists''),
     (''release_medium_count'', ''medium_count''), (''release_track_count'', ''track_count''), (''release_group_id'', ''id''),
     (''release_group_title'', ''title''), (''release_group_primary_type'', ''type''),
     (''release_group_secondary_types'', ''secondarytypes''), (''release_group_artists'', ''artists''),
     (''release_country'', ''country''), (''release_date_year'', ''year''), (''release_date_month'', ''month''),
     (''release_date_day'', ''day'')]"

definition column_typed :: "string \<Rightarrow> json \<Rightarrow> bool" where
  "column_typed k v \<longleftrightarrow> (case map_of column_fields k of
     None \<Rightarrow> True | Some name \<Rightarrow> typed name v \<or> v = JNull \<and> name \<noteq> ''id'' \<and> name \<noteq> ''artists'')"

definition columns_typed :: "row_dict \<Rightarrow> bool" where
  "columns_typed row \<longleftrightarrow> list_all (\<lambda>(k, v). column_typed k v) row"

definition events_typed :: "json \<Rightarrow> bool" where
  "events_typed v \<longleftrightarrow> (case v of JArr es \<Rightarrow> list_all (\<lambda>e. columns_typed (as_dict e)) es | _ \<Rightarrow> \<not> jtruthy v)"

definition row_typed :: "row_dict \<Rightarrow> bool" where
  "row_typed row \<longleftrightarrow> columns_typed row \<and> list_all (\<lambda>(k, v). k = ''release_events'' \<longrightarrow> events_typed v) row"

lemma columns_typed_get: "columns_typed row \<Longrightarrow> dict_get row k = Some v \<Longrightarrow> column_typed k v"
  by (auto simp: columns_typed_def list_all_iff dict_get_def dest: map_of_SomeD)

lemma row_typed_get: "row_typed row \<Longrightarrow> dict_get row k = Some v \<Longrightarrow> column_typed k v"
  by (auto simp: row_typed_def intro: columns_typed_get)

lemma row_typed_events: "row_typed row \<Longrightarrow> dict_get row ''release_events'' = Some v \<Longrightarrow> events_typed v"
  by (auto simp: row_typed_def list_all_iff dict_get_def dest: map_of_SomeD)

lemma list_all_dict_set: "list_all P d \<Longrightarrow> P (k, v) \<Longrightarrow> list_all P (dict_set d k v)"
  by (induction d k v rule: dict_set.induct) auto

lemma row_typed_set: "row_typed row \<Longrightarrow> column_typed k v \<Longrightarrow> (k = ''release_events'' \<Longrightarrow> events_typed v) \<Longrightarrow> row_typed (dict_set row k v)"
  unfolding row_typed_def columns_typed_def by (auto intro!: list_all_dict_set)

lemma row_typed_del: "row_typed row \<Longrightarrow> row_typed (dict_del row k)"
  by (auto simp: row_typed_def columns_typed_def list_all_iff dict_del_def)

lemma row_typed_update: "row_typed row \<Longrightarrow> row_typed other \<Longrightarrow> row_typed (dict_update row other)"
  unfolding dict_update_def
proof (induction other arbitrary: row)
  case (Cons kv other)
  obtain k v where "kv = (k, v)" by fastforce
  with Cons show ?case by (auto simp: row_typed_def columns_typed_def intro!: Cons.IH list_all_dict_set)
qed simp

text \<open>What a column gives to the answer.\<close>

lemma column_typed_field: "column_typed k v \<Longrightarrow> map_of column_fields k = Some name \<Longrightarrow> jtruthy v \<Longrightarrow> typed name v"
  by (auto simp: column_typed_def)

lemma set_if_typed:
  assumes "columns_typed m" and "map_of column_fields column = Some name" and "fields_typed d"
  shows "ret fields_typed (set_if m column name d)"
  unfolding set_if_def
  by (rule ret_and_then [OF ret_item [of m column "column_typed column"]])
    (auto intro: columns_typed_get assms fields_typed_set column_typed_field)

text \<open>The rules for the chains of accesses in the extraction functions.\<close>

lemma ret_column:
  "columns_typed m \<Longrightarrow> (\<And>v. dict_get m col = Some v \<Longrightarrow> column_typed col v \<Longrightarrow> ret P (f v)) \<Longrightarrow> ret P (and_then (item_of m col) f)"
  by (rule ret_and_then [OF ret_item [of m col "\<lambda>v. dict_get m col = Some v"]]) (auto intro: columns_typed_get)

lemma ret_set_if:
  "columns_typed m \<Longrightarrow> map_of column_fields col = Some name \<Longrightarrow> fields_typed d \<Longrightarrow> (\<And>d'. fields_typed d' \<Longrightarrow> ret P (f d'))
     \<Longrightarrow> ret P (and_then (set_if m col name d) f)"
  by (rule ret_and_then [OF set_if_typed])

lemma typed_or_empty: "column_typed col v \<Longrightarrow> map_of column_fields col = Some ''title'' \<Longrightarrow> typed ''title'' (or_empty v)"
  by (cases "jtruthy v") (auto simp: or_empty_def text_names_def dest: column_typed_field)

lemma typed_column_id: "column_typed col v \<Longrightarrow> map_of column_fields col = Some ''id'' \<Longrightarrow> typed ''id'' v"
  by (auto simp: column_typed_def)

lemma typed_id_text: "typed ''id'' v \<Longrightarrow> typed ''id'' (id_text v)"
  by (cases v) (simp_all add: id_text_def text_names_def)

lemma ret_to_float: "ret (typed ''duration'') (to_float v)"
  by (cases v) (simp_all add: to_float_def)

lemma ret_duration:
  "fields_typed d \<Longrightarrow> ret fields_typed (if jtruthy v then and_then (to_float v) (\<lambda>x. Inr (dict_set d ''duration'' x)) else Inr d)"
  by (auto intro!: ret_and_then [OF ret_to_float] fields_typed_set)

lemma isrcs_typed:
  "columns_typed m \<Longrightarrow> jtruthy (get_or_null m ''recording_isrcs'') \<Longrightarrow> typed ''isrcs'' (get_or_null m ''recording_isrcs'')"
proof -
  assume m: "columns_typed m" and t: "jtruthy (get_or_null m ''recording_isrcs'')"
  then obtain v where v: "dict_get m ''recording_isrcs'' = Some v" by (auto simp: get_or_null_def split: option.splits)
  from columns_typed_get [OF m v] t v show ?thesis
    by (auto simp: get_or_null_def column_fields_def dest!: column_typed_field)
qed

lemma id_columns:
  "column_typed ''recording_id'' v \<Longrightarrow> typed ''id'' v" "column_typed ''track_id'' v \<Longrightarrow> typed ''id'' v"
  "column_typed ''release_id'' v \<Longrightarrow> typed ''id'' v" "column_typed ''release_group_id'' v \<Longrightarrow> typed ''id'' v"
  by (erule typed_column_id, simp add: column_fields_def)+

lemma title_columns:
  "column_typed ''recording_title'' v \<Longrightarrow> typed ''title'' (or_empty v)"
  "column_typed ''release_title'' v \<Longrightarrow> typed ''title'' (or_empty v)"
  "column_typed ''release_group_title'' v \<Longrightarrow> typed ''title'' (or_empty v)"
  by (erule typed_or_empty, simp add: column_fields_def)+

lemma extract_recording_typed: "columns_typed m \<Longrightarrow> ret fields_typed (extract_recording m only_id)"
  unfolding extract_recording_def Let_def
  by (auto simp: column_fields_def isrcs_typed id_columns title_columns
      intro!: ret_column ret_set_if ret_and_then [OF ret_duration] fields_typed_set)

lemma release_event_typed: "columns_typed m \<Longrightarrow> ret fields_typed (release_event m)"
  unfolding release_event_def
  by (auto simp: column_fields_def typed_obj object_names_def intro!: ret_set_if fields_typed_set)

lemma extract_release_typed: "row_typed m \<Longrightarrow> ret fields_typed (extract_release m only_id)"
proof -
  assume row: "row_typed m"
  then have m: "columns_typed m" by (simp add: row_typed_def)
  have events: "ret fields_typed (case events of
        JArr (rem # rems) \<Rightarrow>
          and_then (each (\<lambda>e. release_event (as_dict e)) (rem # rems)) (\<lambda>es.
            Inr (dict_update (dict_set d ''releaseevents'' (JArr (map JObj es))) (hd es)))
      | _ \<Rightarrow> Inr d)" if "dict_get m ''release_events'' = Some events" and d: "fields_typed d" for events d
  proof (cases "\<exists>rem rems. events = JArr (rem # rems)")
    case True
    then obtain rem rems where e: "events = JArr (rem # rems)" by blast
    with row_typed_events [OF row that(1)] have "list_all (\<lambda>e. columns_typed (as_dict e)) (rem # rems)" by (simp add: events_typed_def)
    then have all: "ret (list_all fields_typed) (each (\<lambda>e. release_event (as_dict e)) (rem # rems))"
      by (intro ret_each release_event_typed) (auto simp: list_all_iff)
    have "ret (\<lambda>es. list_all fields_typed es \<and> es \<noteq> []) (each (\<lambda>e. release_event (as_dict e)) (rem # rems))"
      using all by (auto simp: ret_def and_then_def split: sum.splits)
    then show ?thesis unfolding e json.case list.case
    proof (rule ret_and_then)
      fix es assume es: "list_all fields_typed es \<and> es \<noteq> []"
      then have "typed ''releaseevents'' (JArr (map JObj es))"
        by (simp add: typed_arr list_all_iff typed_obj list_names_def object_names_def)
      with es d show "ret fields_typed (Inr (dict_update (dict_set d ''releaseevents'' (JArr (map JObj es))) (hd es)))"
        by (cases es) (auto intro!: fields_typed_update fields_typed_set)
    qed
  next
    case False
    with d show ?thesis by (simp split: json.split list.split)
  qed
  show ?thesis
    unfolding extract_release_def Let_def
    by (auto simp: column_fields_def id_columns title_columns typed_id_text m simp del: each.simps
        intro!: ret_column [OF m] ret_set_if [OF m] fields_typed_set events)
qed

lemma extract_release_group_typed: "columns_typed m \<Longrightarrow> ret fields_typed (extract_release_group m only_id)"
  unfolding extract_release_group_def Let_def
  by (auto simp: column_fields_def id_columns title_columns typed_id_text
      intro!: ret_column ret_set_if set_if_typed fields_typed_set)

subsection \<open>Groups\<close>

definition group_typed :: "row_dict \<times> row_dict list \<Rightarrow> bool" where
  "group_typed grp \<longleftrightarrow> fields_typed (fst grp) \<and> list_all row_typed (snd grp)"

lemma list_all_snd_set: "list_all (\<lambda>(k, v). P v) d \<Longrightarrow> P v \<Longrightarrow> list_all (\<lambda>(k, v). P v) (dict_set d k v)"
  by (induction d k v rule: dict_set.induct) auto

lemma list_all_snd_get: "list_all (\<lambda>(k, v). P v) d \<Longrightarrow> dict_get d k = Some v \<Longrightarrow> P v"
  by (auto simp: dict_get_def list_all_iff dest: map_of_SomeD)

lemma group_rows_typed:
  assumes "list_all row_typed metadata" and "list_all (\<lambda>(k, g). group_typed g) results"
    and "\<And>m. row_typed m \<Longrightarrow> ret fields_typed (extract m)"
  shows "ret (list_all group_typed) (group_rows column extract metadata results)"
  using assms(1,2)
proof (induction metadata arbitrary: results)
  case Nil
  then show ?case by (auto simp: list_all_iff)
next
  case (Cons item metadata)
  then have item: "row_typed item" and rest: "list_all row_typed metadata" by simp_all
  show ?case
    unfolding group_rows.simps
  proof (rule ret_and_then [OF ret_item [where P = "\<lambda>_. True"]])
    fix i
    show "ret (list_all group_typed) (case dict_get results i of
         None \<Rightarrow> and_then (extract item) (\<lambda>head. group_rows column extract metadata (results @ [(i, head, [item])]))
       | Some (head, items) \<Rightarrow> group_rows column extract metadata (dict_set results i (head, items @ [item])))"
    proof (cases "dict_get results i")
      case None
      have "ret (list_all group_typed) (and_then (extract item) (\<lambda>head. group_rows column extract metadata (results @ [(i, head, [item])])))"
        by (rule ret_and_then [OF assms(3) [OF item]], rule Cons.IH [OF rest]) (use Cons.prems item in \<open>simp add: group_typed_def\<close>)
      with None show ?thesis by simp
    next
      case (Some g)
      obtain head items where g: "g = (head, items)" by fastforce
      have "group_typed g" by (rule list_all_snd_get [OF Cons.prems(2) Some])
      with item g have "group_typed (head, items @ [item])" by (simp add: group_typed_def)
      with Some g Cons.IH [OF rest list_all_snd_set [OF Cons.prems(2)]] show ?thesis by simp
    qed
  qed simp
qed

lemma columns_of_row: "row_typed m \<Longrightarrow> columns_typed m"
  by (simp add: row_typed_def)

lemma groups_typed:
  assumes "list_all row_typed metadata"
  shows "ret (list_all group_typed) (group_recordings metadata only_ids)"
    and "ret (list_all group_typed) (group_releases metadata only_ids)"
    and "ret (list_all group_typed) (group_release_groups metadata only_ids)"
  unfolding group_recordings_def group_releases_def group_release_groups_def
  by (rule group_rows_typed [OF assms],
      simp_all add: extract_recording_typed extract_release_typed extract_release_group_typed columns_of_row)+

lemma position_column: "column_typed ''medium_position'' v \<Longrightarrow> typed ''position'' v"
  "column_typed ''track_position'' v \<Longrightarrow> typed ''position'' v" "column_typed ''medium_track_count'' v \<Longrightarrow> typed ''track_count'' v"
  "column_typed ''track_title'' v \<Longrightarrow> typed ''title'' v" "column_typed ''track_artists'' v \<Longrightarrow> typed ''artists'' v"
  by (auto simp: column_typed_def column_fields_def)

lemma medium_head_typed: "columns_typed item \<Longrightarrow> typed ''position'' pos \<Longrightarrow> ret fields_typed (medium_head item pos)"
  unfolding medium_head_def
  by (auto simp: column_fields_def position_column intro!: ret_column ret_set_if set_if_typed)

lemma track_entry_typed: "columns_typed item \<Longrightarrow> ret fields_typed (track_entry item)"
  unfolding track_entry_def
  by (auto simp: position_column id_columns intro!: ret_column)

definition medium_typed :: "row_dict \<times> row_dict list \<Rightarrow> bool" where
  "medium_typed m \<longleftrightarrow> fields_typed (fst m) \<and> list_all fields_typed (snd m)"

lemma typed_objs: "name \<in> set list_names \<Longrightarrow> butlast name \<in> set object_names \<Longrightarrow> list_all fields_typed ds \<Longrightarrow> typed name (JArr (map JObj ds))"
  by (simp add: typed_arr list_all_iff typed_obj)

lemma group_tracks_typed:
  "list_all row_typed metadata \<Longrightarrow> list_all (\<lambda>(k, m). medium_typed m) results \<Longrightarrow> ret (list_all fields_typed) (group_tracks metadata results)"
proof (induction metadata arbitrary: results)
  case Nil
  have "fields_typed (dict_set medium ''tracks'' (JArr (map JObj tracks)))" if "medium_typed (medium, tracks)" for medium tracks
    using that by (auto simp: medium_typed_def list_names_def object_names_def intro!: fields_typed_set typed_objs)
  with Nil show ?case by (auto simp: list_all_iff)
next
  case (Cons item metadata)
  then have item: "columns_typed item" and rest: "list_all row_typed metadata" by (simp_all add: columns_of_row)
  show ?case
    unfolding group_tracks.simps
  proof (rule ret_column [OF item])
    fix pos assume "column_typed ''medium_position'' pos"
    then have pos: "typed ''position'' pos" by (rule position_column)
    let ?m = "case dict_get results pos of None \<Rightarrow> and_then (medium_head item pos) (\<lambda>medium. Inr (medium, [])) | Some m \<Rightarrow> Inr m"
    have "ret medium_typed ?m"
    proof (cases "dict_get results pos")
      case None
      then show ?thesis by (auto simp: medium_typed_def intro!: ret_and_then [OF medium_head_typed [OF item pos]])
    next
      case (Some m)
      with list_all_snd_get [OF Cons.prems(2) Some] show ?thesis by simp
    qed
    then show "ret (list_all fields_typed) (and_then ?m (\<lambda>(medium, tracks).
       and_then (track_entry item) (\<lambda>track. group_tracks metadata (dict_set results pos (medium, tracks @ [track])))))"
    proof (rule ret_and_then)
      fix m assume m: "medium_typed m"
      obtain medium tracks where mt: "m = (medium, tracks)" by fastforce
      have "ret (list_all fields_typed) (and_then (track_entry item) (\<lambda>track. group_tracks metadata (dict_set results pos (medium, tracks @ [track]))))"
      proof (rule ret_and_then [OF track_entry_typed [OF item]])
        fix track assume "fields_typed track"
        with m mt have "medium_typed (medium, tracks @ [track])" by (simp add: medium_typed_def)
        from Cons.IH [OF rest list_all_snd_set [OF Cons.prems(2) this]]
        show "ret (list_all fields_typed) (group_tracks metadata (dict_set results pos (medium, tracks @ [track])))" .
      qed
      with mt show "ret (list_all fields_typed) (case m of (medium, tracks) \<Rightarrow>
         and_then (track_entry item) (\<lambda>track. group_tracks metadata (dict_set results pos (medium, tracks @ [track]))))" by simp
    qed
  qed
qed

lemma inject_releases_internal_typed:
  assumes "fields_typed parent" and "list_all row_typed metadata"
  shows "ret fields_typed (inject_releases_internal meta parent metadata)"
  unfolding inject_releases_internal_def
proof (rule ret_and_then [OF groups_typed(2) [OF assms(2)]])
  fix groups assume groups: "list_all group_typed groups"
  let ?f = "\<lambda>(release, release_metadata).
     if ''tracks'' \<in> set meta
     then and_then (group_tracks release_metadata []) (\<lambda>mediums.
            let release = dict_set release ''mediums'' (JArr (map JObj mediums))
            in Inr (if ''compress'' \<in> set meta then compress_release release else release))
     else Inr release"
  have one: "ret fields_typed (?f g)" if "group_typed g" for g
  proof -
    obtain release rs where g: "g = (release, rs)" by fastforce
    with that have r: "fields_typed release" "list_all row_typed rs" by (simp_all add: group_typed_def)
    have "fields_typed (dict_set release ''mediums'' (JArr (map JObj mediums)))" if "list_all fields_typed mediums" for mediums
      using r(1) that by (auto simp: list_names_def object_names_def intro!: fields_typed_set typed_objs)
    then show ?thesis
      unfolding g case_prod_conv Let_def
      by (auto simp: r fields_typed_compress intro!: ret_and_then [OF group_tracks_typed [OF r(2)]])
  qed
  show "ret fields_typed (and_then (each ?f groups) (\<lambda>releases. Inr (dict_set parent ''releases'' (JArr (map JObj releases)))))"
  proof (rule ret_and_then [OF ret_each [of groups fields_typed ?f]])
    fix releases assume "list_all fields_typed releases"
    with assms(1) show "ret fields_typed (Inr (dict_set parent ''releases'' (JArr (map JObj releases))))"
      by (auto simp: list_names_def object_names_def intro!: fields_typed_set typed_objs)
  qed (use groups one in \<open>auto simp: list_all_iff\<close>)
qed

lemma inject_release_groups_internal_typed:
  assumes "fields_typed parent" and "list_all row_typed metadata"
  shows "ret fields_typed (inject_release_groups_internal meta parent metadata)"
  unfolding inject_release_groups_internal_def
proof (rule ret_and_then [OF groups_typed(3) [OF assms(2)]])
  fix groups assume groups: "list_all group_typed groups"
  let ?f = "\<lambda>(release_group, release_group_metadata).
     if ''releases'' \<in> set meta \<or> ''releaseids'' \<in> set meta
     then and_then (inject_releases_internal meta release_group release_group_metadata) (\<lambda>release_group.
            Inr (if ''compress'' \<in> set meta then compress_release_group release_group else release_group))
     else Inr release_group"
  have one: "ret fields_typed (?f g)" if "group_typed g" for g
  proof -
    obtain release_group rs where g: "g = (release_group, rs)" by fastforce
    with that have r: "fields_typed release_group" "list_all row_typed rs" by (simp_all add: group_typed_def)
    then show ?thesis
      unfolding g case_prod_conv
      by (auto simp: fields_typed_compress intro!: ret_and_then [OF inject_releases_internal_typed [OF r]])
  qed
  show "ret fields_typed (and_then (each ?f groups) (\<lambda>release_groups. Inr (dict_set parent ''releasegroups'' (JArr (map JObj release_groups)))))"
  proof (rule ret_and_then [OF ret_each [of groups fields_typed ?f]])
    fix release_groups assume "list_all fields_typed release_groups"
    with assms(1) show "ret fields_typed (Inr (dict_set parent ''releasegroups'' (JArr (map JObj release_groups))))"
      by (auto simp: list_names_def object_names_def intro!: fields_typed_set typed_objs)
  qed (use groups one in \<open>auto simp: list_all_iff\<close>)
qed

lemma fill_recording_typed: "group_typed grp \<Longrightarrow> ret fields_typed (fill_recording meta (fst grp) (snd grp))"
  unfolding fill_recording_def group_typed_def
  by (auto simp: fields_typed_compress intro!: ret_and_then [OF inject_release_groups_internal_typed] ret_and_then [OF inject_releases_internal_typed])

subsection \<open>Rows of the databases\<close>

definition dict_all :: "('v \<Rightarrow> bool) \<Rightarrow> ('k, 'v) dict \<Rightarrow> bool" where
  "dict_all P d \<longleftrightarrow> (\<forall>k v. dict_get d k = Some v \<longrightarrow> P v)"

lemma dict_all_Nil [simp]: "dict_all P []"
  by (simp add: dict_all_def)

lemma dict_all_group: "(\<And>k v. (k, v) \<in> set kvs \<Longrightarrow> P v) \<Longrightarrow> dict_all (list_all P) (dict_group kvs)"
  by (auto simp: dict_all_def dict_get_group Let_def list_all_iff split: if_splits)

lemma dict_get_map: "dict_get (map (\<lambda>(k, v). (k, f k v)) d) k = map_option (f k) (dict_get d k)"
  by (induction d) (auto simp: dict_get_def)

lemma dict_all_fold_set:
  "dict_all P d \<Longrightarrow> (\<And>x. x \<in> set xs \<Longrightarrow> P (g x)) \<Longrightarrow> dict_all P (fold (\<lambda>x d. dict_set d (f x) (g x)) xs d)"
proof (induction xs arbitrary: d)
  case (Cons x xs)
  have "dict_all P (dict_set d (f x) (g x))" using Cons.prems by (auto simp: dict_all_def)
  with Cons show ?case by simp
qed simp

lemma ret_item_all: "dict_all P d \<Longrightarrow> ret P (item_of d k)"
  by (rule ret_item) (simp add: dict_all_def)

lemma row_typed_simps [simp]: "row_typed []"
  "row_typed ((k, v) # d) \<longleftrightarrow> column_typed k v \<and> (k = ''release_events'' \<longrightarrow> events_typed v) \<and> row_typed d"
  "row_typed (d @ d') \<longleftrightarrow> row_typed d \<and> row_typed d'"
  by (auto simp: row_typed_def columns_typed_def)

lemma column_typed_duration: "column_typed ''recording_duration'' (duration_of l)" "column_typed ''track_duration'' (duration_of l)"
  by (simp_all add: column_typed_def column_fields_def duration_of_def split: option.split)

lemma column_typed_jstr: "column_typed ''medium_format'' (jstr x)" "column_typed ''release_group_primary_type'' (jstr x)"
  "column_typed ''release_country'' (jstr x)"
  by (simp_all add: column_typed_def column_fields_def jstr_def text_names_def split: option.split)

lemma column_typed_jint: "column_typed ''release_date_year'' (jint i)" "column_typed ''release_date_month'' (jint i)"
  "column_typed ''release_date_day'' (jint i)" "column_typed ''track_position'' (jint i)" "column_typed ''medium_position'' (jint i)"
  by (simp_all add: column_typed_def column_fields_def jint_def number_names_def split: option.split)

lemmas column_simps = column_typed_duration column_typed_jstr column_typed_jint column_typed_def column_fields_def text_names_def number_names_def

lemma metadata_rows_typed: "list_all row_typed (metadata_rows mb ids b)"
  by (auto simp: metadata_rows_def recording_columns_def release_columns_def list_all_iff column_typed_duration column_typed_jstr)
    (auto simp: column_simps)

lemma artists_typed: "dict_all (list_all (typed ''artist'')) (load_artists mb ids)"
  unfolding load_artists_def
  by (auto simp: typed_obj object_names_def text_names_def intro!: dict_all_group)

lemma releases_typed: "dict_all row_typed (load_release_meta mb ids)"
  unfolding load_release_meta_def by (auto simp: dict_all_def dict_get_map column_simps)

lemma events_typed_all: "dict_all (list_all (\<lambda>e. columns_typed (as_dict e))) (load_release_events mb ids)"
  unfolding load_release_events_def
  by (auto simp: columns_typed_def as_dict_def column_typed_jstr column_typed_jint intro!: dict_all_group)

lemma secondary_types_typed: "dict_all (list_all (typed ''secondarytype'')) (load_release_group_secondary_types mb ids)"
  unfolding load_release_group_secondary_types_def by (auto simp: text_names_def intro!: dict_all_group)

lemma release_groups_typed: "dict_all row_typed (load_release_groups mb ids)"
proof -
  let ?st = "load_release_group_secondary_types mb ids"
  have st: "column_typed ''release_group_secondary_types'' (case dict_get ?st i of None \<Rightarrow> JNull | Some ts \<Rightarrow> JArr ts)" for i
    using secondary_types_typed [of mb ids]
    by (auto simp: dict_all_def column_typed_def column_fields_def typed_arr list_names_def split: option.split)
  have row: "row_typed [(''release_group_id'', JStr (rgr_gid g)), (''release_group_title'', JStr (rgr_name g)),
      (''release_group_artist_credit'', JInt (rgr_artist_credit g)), (''release_group_primary_type'', jstr (map_option rgt_name t)),
      (''release_group_secondary_types'', case dict_get ?st (rgr_id g) of None \<Rightarrow> JNull | Some ts \<Rightarrow> JArr ts)]" for g t
    using st by (simp add: column_typed_jstr) (simp add: column_simps)
  show ?thesis
    unfolding load_release_groups_def Let_def
    by (auto simp: case_prod_unfold intro!: dict_all_fold_set row simp del: row_typed_simps)
qed

lemma pop_int_typed: "row_typed row \<Longrightarrow> ret (\<lambda>(i, row). row_typed row) (pop_int row k)"
  by (auto simp: pop_int_def ret_def row_typed_del split: option.splits json.splits)

lemma with_release_typed:
  assumes "row_typed row" "dict_all row_typed releases" "dict_all (list_all (\<lambda>e. columns_typed (as_dict e))) events"
  shows "ret row_typed (with_release releases events row)"
  unfolding with_release_def
proof (rule ret_and_then [OF pop_int_typed [OF assms(1)]])
  fix x :: "int \<times> row_dict" assume x: "case x of (i, row) \<Rightarrow> row_typed row"
  obtain r_id row' where e: "x = (r_id, row')" by fastforce
  have ev: "events_typed (case dict_get events r_id of None \<Rightarrow> JObj [] | Some es \<Rightarrow> JArr es)"
    using assms(3) by (auto simp: events_typed_def dict_all_def split: option.split)
  have any: "column_typed ''release_events'' v" for v by (simp add: column_typed_def column_fields_def)
  show "ret row_typed (case x of (r_id, row) \<Rightarrow> and_then (item_of releases r_id) (\<lambda>release.
       Inr (dict_set (dict_update row release) ''release_events''
              (case dict_get events r_id of None \<Rightarrow> JObj [] | Some events \<Rightarrow> JArr events))))"
    using x unfolding e by (auto intro!: ret_and_then [OF ret_item_all [OF assms(2)]] row_typed_set row_typed_update any ev)
qed

lemma with_release_group_typed:
  assumes "row_typed row" "dict_all row_typed release_groups"
  shows "ret row_typed (with_release_group release_groups row)"
  unfolding with_release_group_def
  by (rule ret_and_then [OF pop_int_typed [OF assms(1)]])
    (auto intro!: ret_and_then [OF ret_item_all [OF assms(2)]] row_typed_update)

lemma with_isrcs_typed: "row_typed row \<Longrightarrow> row_typed (with_isrcs isrcs row)"
  unfolding with_isrcs_def
  by (rule row_typed_set) (auto simp: column_typed_def column_fields_def typed_arr list_names_def text_names_def list_all_iff split: option.splits)

lemma with_all_artists_typed:
  assumes "dict_all (list_all (typed ''artist'')) artists"
  shows "row_typed row \<Longrightarrow> \<forall>c \<in> set columns. map_of column_fields (snd c) = Some ''artists'' \<Longrightarrow> ret row_typed (with_all_artists artists columns row)"
proof (induction columns arbitrary: row)
  case (Cons c columns)
  have "ret row_typed (with_artists artists c row)"
    unfolding with_artists_def
  proof (rule ret_and_then [OF pop_int_typed [OF Cons.prems(1)]], clarify)
    fix credit row' assume row': "row_typed row'"
    show "ret row_typed (and_then (item_of artists credit) (\<lambda>names. Inr (dict_set row' (snd c) (JArr names))))"
    proof (rule ret_and_then [OF ret_item_all [OF assms]])
      fix names assume "list_all (typed ''artist'') names"
      moreover have "map_of column_fields (snd c) = Some ''artists''" using Cons.prems(2) by simp
      ultimately have "column_typed (snd c) (JArr names)" by (simp add: column_typed_def typed_arr list_names_def)
      moreover have "snd c \<noteq> ''release_events''" using Cons.prems(2) by (auto simp: column_fields_def)
      ultimately show "ret row_typed (Inr (dict_set row' (snd c) (JArr names)))" using row' by (simp add: row_typed_set)
    qed
  qed
  then show ?case unfolding with_all_artists.simps by (rule ret_and_then) (use Cons in simp)
qed simp

lemma each_typed: "list_all row_typed xs \<Longrightarrow> (\<And>row. row_typed row \<Longrightarrow> ret row_typed (f row)) \<Longrightarrow> ret (list_all row_typed) (each f xs)"
  by (rule ret_each) (simp add: list_all_iff)

lemma credit_columns_artists: "\<forall>c \<in> set (credit_columns a b). map_of column_fields (snd c) = Some ''artists''"
  by (simp add: credit_columns_def column_fields_def)

lemma lookup_metadata_typed: "ret (list_all row_typed) (lookup_metadata mb ids a b c)"
proof (cases "ids = []")
  case False
  let ?P = "list_all row_typed"
  let ?base = "metadata_rows mb ids a"
  have r1: "ret ?P (if a then each (with_release (load_release_meta mb x) (load_release_events mb y)) ?base else Inr ?base)" for x y
    using each_typed [OF metadata_rows_typed with_release_typed [OF _ releases_typed events_typed_all]] metadata_rows_typed by simp
  have r2: "ret ?P (if a \<and> b then each (with_release_group (load_release_groups mb x)) results else Inr results)" if "?P results" for results x
    using each_typed [OF that with_release_group_typed [OF _ release_groups_typed]] that by simp
  have r3: "?P (if c then map (with_isrcs isrcs) results else results)" if "?P results" for results isrcs
    using that by (simp add: list_all_iff with_isrcs_typed)
  have r4: "ret ?P (each (with_all_artists (load_artists mb x) (credit_columns a b)) results)" if "?P results" for results x
    by (rule each_typed [OF that with_all_artists_typed [OF artists_typed _ credit_columns_artists]])
  show ?thesis
    unfolding lookup_metadata_def Let_def using False
    by (simp only: if_False, intro ret_and_then [OF r1] ret_and_then [OF r2] r4 r3)
qed (simp add: lookup_metadata_def)

lemma meta_result_typed: "row_typed (meta_result row)"
proof -
  have a: "typed ''artists'' (JArr (if truthy_str x then [jstr x] else []))" for x
    by (cases x) (simp_all add: typed_arr list_names_def text_names_def jstr_def)
  have t: "column_typed ''recording_title'' (jstr x)" "column_typed ''track_title'' (jstr x)" "column_typed ''release_title'' (jstr x)"
    "column_typed ''release_group_title'' (jstr x)" for x
    by (simp_all add: column_typed_def column_fields_def jstr_def text_names_def split: option.split)
  have ar: "column_typed ''recording_artists'' v \<longleftrightarrow> typed ''artists'' v" "column_typed ''track_artists'' v \<longleftrightarrow> typed ''artists'' v"
    "column_typed ''release_artists'' v \<longleftrightarrow> typed ''artists'' v" "column_typed ''release_group_artists'' v \<longleftrightarrow> typed ''artists'' v" for v
    by (auto simp: column_typed_def column_fields_def)
  show ?thesis
    unfolding meta_result_def Let_def
    by (simp add: ar a t column_typed_jint events_typed_def columns_typed_def as_dict_def)
      (simp add: column_simps typed_arr list_names_def)
qed

lemma lookup_meta_typed: "list_all row_typed (lookup_meta fdb ids)"
  by (simp add: lookup_meta_def list_all_iff meta_result_typed del: row_typed_simps)

subsection \<open>The store\<close>

definition store_typed :: "lookup_store \<Rightarrow> bool" where
  "store_typed st \<longleftrightarrow> list_all fields_typed (lr_recordings st) \<and>
     list_all (\<lambda>(d, recs). fields_typed d \<and> list_all (\<lambda>r. r < length (lr_recordings st)) recs) (lr_results st)"

text \<open>What metadata leaves as it is: which results there are, their identifiers and their scores.\<close>

definition id_and_score :: "row_dict \<Rightarrow> json option \<times> json option" where
  "id_and_score d = (dict_get d ''id'', dict_get d ''score'')"

definition answers :: "lookup_store \<Rightarrow> (json option \<times> json option) list" where
  "answers st = map (\<lambda>(d, recs). id_and_score d) (lr_results st)"

definition keeps :: "lookup_store \<Rightarrow> lookup_store \<Rightarrow> bool" where
  "keeps st st' \<longleftrightarrow> store_typed st' \<and> answers st' = answers st"

lemma keeps_refl: "store_typed st \<Longrightarrow> keeps st st"
  by (simp add: keeps_def)

lemma list_all_update_nth: "list_all P xs \<Longrightarrow> (\<And>x. P x \<Longrightarrow> P (f x)) \<Longrightarrow> list_all P (update_nth i f xs)"
  by (auto simp: update_nth_def list_all_iff dest!: set_update_subset_insert [THEN subsetD])

lemma map_update_nth: "(\<And>x. g (f x) = g x) \<Longrightarrow> map g (update_nth i f xs) = map g xs"
  by (auto simp: update_nth_def map_update) (metis list_update_id map_update nth_map)

lemma length_update_nth [simp]: "length (update_nth i f xs) = length xs"
  by (simp add: update_nth_def)

lemma keeps_add_recording:
  assumes "keeps st0 (snd acc)" and "fields_typed recording"
  shows "keeps st0 (snd (add_recording key recording r acc))"
proof -
  obtain els st where acc: "acc = (els, st)" by fastforce
  have "list_all (\<lambda>(d, recs). fields_typed d \<and> list_all (\<lambda>r. r < Suc (length (lr_recordings st))) recs) (lr_results st)"
    using assms(1) acc unfolding keeps_def store_typed_def by (auto simp: list_all_iff less_Suc_eq)
  then have "list_all (\<lambda>(d, recs). fields_typed d \<and> list_all (\<lambda>r. r < Suc (length (lr_recordings st))) recs)
     (update_nth r (\<lambda>(el, recs). (el, recs @ [length (lr_recordings st)])) (lr_results st))"
    by (rule list_all_update_nth) auto
  then show ?thesis using assms unfolding acc keeps_def
    by (auto simp: add_recording_def store_typed_def answers_def Let_def case_prod_unfold map_update_nth)
qed

lemma keeps_fold_add:
  "keeps st0 (snd acc) \<Longrightarrow> fields_typed recording \<Longrightarrow> keeps st0 (snd (fold (add_recording key recording) rs acc))"
  by (induction rs arbitrary: acc) (simp_all add: keeps_add_recording)

lemma keeps_update_recording: "keeps st0 st \<Longrightarrow> fields_typed d \<Longrightarrow> keeps st0 (update_recording r d st)"
  unfolding keeps_def update_recording_def store_typed_def
  by (auto simp: answers_def intro!: list_all_update_nth fields_typed_update)

lemma keeps_update_els: "keeps st0 st \<Longrightarrow> fields_typed recording \<Longrightarrow> keeps st0 (update_els usermeta rs recording st)"
  by (induction usermeta rs recording st rule: update_els.induct)
    (simp_all add: Let_def keeps_update_recording fields_typed_clean)

lemma dict_get_update_absent: "k \<notin> fst ` set d' \<Longrightarrow> dict_get (dict_update d d') k = dict_get d k"
  unfolding dict_update_def
proof (induction d' arbitrary: d)
  case (Cons kv d')
  then show ?case by (cases kv) auto
qed simp

lemma keeps_update_result:
  assumes st: "keeps st0 st" and d: "fields_typed d" and no: "''id'' \<notin> fst ` set d" "''score'' \<notin> fst ` set d"
  shows "keeps st0 (update_result d r st)"
proof -
  have "(case (case x of (el, recs) \<Rightarrow> (dict_update el d, recs)) of (d, recs) \<Rightarrow> id_and_score d) = (case x of (d, recs) \<Rightarrow> id_and_score d)" for x
    using no by (cases x) (simp add: id_and_score_def dict_get_update_absent)
  from map_update_nth [of "\<lambda>(d, recs). id_and_score d", OF this]
  have "answers (update_result d r st) = answers st" by (simp add: answers_def update_result_def)
  moreover have "store_typed (update_result d r st)"
    using st d unfolding keeps_def store_typed_def update_result_def
    by (auto intro!: list_all_update_nth fields_typed_update)
  ultimately show ?thesis using st by (simp add: keeps_def)
qed

lemma keeps_fold_result:
  "keeps st0 st \<Longrightarrow> fields_typed d \<Longrightarrow> ''id'' \<notin> fst ` set d \<Longrightarrow> ''score'' \<notin> fst ` set d \<Longrightarrow> keeps st0 (fold (update_result d) rs st)"
  by (induction rs arbitrary: st) (simp_all add: keeps_update_result)

subsection \<open>Injecting metadata\<close>

lemma link_stub_typed: "fields_typed (link_stub b l)"
  by (cases l) (simp add: link_stub_def text_names_def number_names_def)

lemma inject_recording_ids_keeps: "store_typed st \<Longrightarrow> ret (\<lambda>acc. keeps st (snd acc)) (inject_recording_ids_internal fdb el_result b st)"
  unfolding inject_recording_ids_internal_def
proof (rule ret_inject_all)
  fix x :: "int \<times> string \<times> int" and acc :: "refs \<times> lookup_store"
  assume "keeps st (snd acc)"
  then show "ret (\<lambda>acc. keeps st (snd acc)) (inject_link el_result b x acc)"
    by (cases x) (auto simp: inject_link_def intro!: ret_and_then [OF ret_item [where P = "\<lambda>_. True"]] keeps_fold_add link_stub_typed)
qed (simp add: keeps_refl)

lemma inject_user_meta_keeps:
  assumes "keeps st0 st"
  shows "ret (\<lambda>acc. keeps st0 (snd acc)) (inject_user_meta_ids_internal fdb el_result st)"
  unfolding inject_user_meta_ids_internal_def
proof (rule ret_inject_all)
  fix x :: "int \<times> int" and acc :: "refs \<times> lookup_store"
  assume "keeps st0 (snd acc)"
  then show "ret (\<lambda>acc. keeps st0 (snd acc)) ((\<lambda>(track_id, meta_id) acc.
      and_then (item_of el_result track_id) (\<lambda>result_els. Inr (fold (add_recording (JInt meta_id) []) result_els acc))) x acc)"
    by (cases x) (auto intro!: ret_and_then [OF ret_item [where P = "\<lambda>_. True"]] keeps_fold_add)
qed (simp add: assms)

lemma inject_group_keeps:
  assumes "keeps st0 st" and "group_typed grp"
  shows "ret (keeps st0) (inject_group meta els grp st)"
  unfolding inject_group_def
  by (rule ret_and_then [OF fill_recording_typed [OF assms(2)]], rule ret_and_then [OF ret_item [where P = "\<lambda>_. True"]])
    (simp_all add: keeps_update_els assms(1))

lemma with_user_meta_keeps:
  assumes "keeps st0 (snd acc)" and "list_all row_typed metadata"
  shows "ret (\<lambda>(els, st, metadata). keeps st0 st \<and> list_all row_typed metadata) (with_user_meta fdb meta el_result acc metadata)"
  unfolding with_user_meta_def Let_def
  by (auto simp: assms lookup_meta_typed intro!: ret_and_then [OF inject_user_meta_keeps [OF assms(1)]])

lemma inject_recordings_keeps:
  assumes "store_typed st"
  shows "ret (keeps st) (fst (inject_recordings le fdb meta el_result st q))"
proof (cases "inject_recording_ids_internal fdb el_result (''sources'' \<in> set meta) st")
  case (Inr acc)
  obtain els st1 where acc: "acc = (els, st1)" by fastforce
  from retD [OF inject_recording_ids_keeps [OF assms] Inr] acc have st1: "keeps st st1" by simp
  let ?mbids = "concat (map (\<lambda>(k, refs). case k of JStr i \<Rightarrow> [i] | _ \<Rightarrow> []) els)"
  let ?lg = "''releasegroupids'' \<in> set meta \<or> ''releasegroups'' \<in> set meta"
  let ?lr = "''releaseids'' \<in> set meta \<or> ''releases'' \<in> set meta \<or> ?lg"
  show ?thesis
  proof (cases "lookup_metadata (le_mb le) ?mbids ?lr ?lg (''isrcs'' \<in> set meta)")
    case (Inl e)
    with Inr acc show ?thesis by (simp add: inject_recordings_def Let_def)
  next
    case metadata: (Inr metadata)
    from retD [OF lookup_metadata_typed metadata] have rows: "list_all row_typed metadata" .
    obtain err q' where c: "check_for_missing_recordings le ?mbids metadata q = (err, q')" by fastforce
    show ?thesis
    proof (cases err)
      case None
      have "ret (keeps st) (and_then (with_user_meta fdb meta el_result (els, st1) metadata) (\<lambda>(recording_els, st, metadata).
                       and_then (group_recordings metadata (''recordingids'' \<in> set meta)) (\<lambda>groups.
                         inject_all (inject_group meta recording_els) groups st)))"
      proof (rule ret_and_then [OF with_user_meta_keeps [of st "(els, st1)"]], goal_cases)
        case (3 v)
        obtain els2 st2 md where v: "v = (els2, st2, md)" by (metis prod_cases3)
        with 3 have md: "list_all row_typed md" "keeps st st2" by simp_all
        have "ret (keeps st) (and_then (group_recordings md (''recordingids'' \<in> set meta)) (\<lambda>groups. inject_all (inject_group meta els2) groups st2))"
          by (rule ret_and_then [OF groups_typed(1) [OF md(1)]], rule ret_inject_all)
            (auto simp: md(2) list_all_iff intro: inject_group_keeps)
        with v show ?case by simp
      qed (simp_all add: st1 rows)
      with Inr acc metadata c None show ?thesis by (simp add: inject_recordings_def Let_def)
    next
      case (Some e)
      with Inr acc metadata c show ?thesis by (simp add: inject_recordings_def Let_def)
    qed
  qed
qed (simp add: inject_recordings_def)

lemma releases_only: "ret (\<lambda>d. fst ` set d \<subseteq> {''releases''}) (inject_releases_internal meta [] rs)"
  unfolding inject_releases_internal_def
  by (rule ret_and_then [where Q = "\<lambda>_. True"], simp add: ret_def split: sum.split)
    (rule ret_and_then [where Q = "\<lambda>_. True"], simp_all add: ret_def split: sum.split)

lemma release_groups_only: "ret (\<lambda>d. fst ` set d \<subseteq> {''releasegroups''}) (inject_release_groups_internal meta [] rs)"
  unfolding inject_release_groups_internal_def
  by (rule ret_and_then [where Q = "\<lambda>_. True"], simp add: ret_def split: sum.split)
    (rule ret_and_then [where Q = "\<lambda>_. True"], simp_all add: ret_def split: sum.split)

lemma inject_by_track_keeps:
  assumes st: "store_typed st"
    and typed: "\<And>rs. list_all row_typed rs \<Longrightarrow> ret fields_typed (internal [] rs)"
    and keys: "\<And>rs. ret (\<lambda>d. fst ` set d \<subseteq> {key}) (internal [] rs)"
    and key: "key \<noteq> ''id''" "key \<noteq> ''score''"
  shows "ret (keeps st) (fst (inject_by_track internal le fdb el_result st q))"
proof -
  have one: "ret (keeps st) (inject_track_metadata internal el_result grp st1)"
    if st1: "keeps st st1" and rs: "list_all row_typed (snd grp)" for grp st1
    unfolding inject_track_metadata_def
  proof (rule ret_and_then [where Q = "\<lambda>d. fields_typed d \<and> fst ` set d \<subseteq> {key}"])
    show "ret (\<lambda>d. fields_typed d \<and> fst ` set d \<subseteq> {key}) (internal [] (snd grp))"
      using typed [OF rs] keys [of "snd grp"] by (auto simp: ret_def split: sum.splits)
  next
    fix d assume d: "fields_typed d \<and> fst ` set d \<subseteq> {key}"
    then have "''id'' \<notin> fst ` set d" "''score'' \<notin> fst ` set d" using key by auto
    with d st1 show "ret (keeps st) (and_then (item_of el_result (fst grp)) (\<lambda>result_els. Inr (fold (update_result d) result_els st1)))"
      by (auto intro!: ret_and_then [OF ret_item [where P = "\<lambda>_. True"]] keeps_fold_result)
  qed
  let ?mbids = "recording_keys (track_links fdb el_result)"
  show ?thesis
  proof (cases "lookup_metadata (le_mb le) ?mbids True True False")
    case (Inr metadata)
    from retD [OF lookup_metadata_typed Inr] have rows: "list_all row_typed metadata" .
    have "ret (keeps st) (inject_all (inject_track_metadata internal el_result) (group_metadata metadata tracks) st)" for tracks
      by (rule ret_inject_all) (use rows st in \<open>auto simp: group_metadata_def list_all_iff intro!: one keeps_refl\<close>)
    with Inr show ?thesis by (simp add: inject_by_track_def Let_def split: prod.split option.split)
  qed (simp add: inject_by_track_def)
qed

lemma m2_head_typed: "columns_typed item \<Longrightarrow> ret fields_typed (m2_head item)"
  unfolding m2_head_def
  by (rule ret_and_then [OF extract_recording_typed], assumption)
    (auto simp: typed_arr list_names_def intro!: ret_column ret_and_then [OF ret_duration] fields_typed_set)

lemma m2_track_typed: "columns_typed item \<Longrightarrow> ret fields_typed (m2_track item)"
proof -
  assume item: "columns_typed item"
  have title: "column_typed ''release_title'' v \<Longrightarrow> typed ''title'' v" for v
    by (auto simp: column_typed_def column_fields_def)
  show ?thesis
    unfolding m2_track_def
    by (auto simp: column_fields_def position_column id_columns title typed_obj object_names_def
        intro!: ret_column [OF item] ret_set_if [OF item] ret_and_then [OF ret_to_float])
qed

lemma append_track_typed: "fields_typed track \<Longrightarrow> fields_typed el \<Longrightarrow> fields_typed (append_track track el)"
proof -
  assume t: "fields_typed track" and e: "fields_typed el"
  show ?thesis
  proof (cases "\<exists>ts. dict_get el ''tracks'' = Some (JArr ts)")
    case True
    then obtain ts where ts: "dict_get el ''tracks'' = Some (JArr ts)" by blast
    with t fields_typed_get [OF e ts] have "typed ''tracks'' (JArr (ts @ [JObj track]))"
      by (simp add: typed_arr typed_obj object_names_def)
    with ts e show ?thesis by (simp add: append_track_def fields_typed_set)
  next
    case False
    with e show ?thesis by (simp add: append_track_def split: option.split json.split)
  qed
qed

lemma keeps_fold_recording:
  assumes "\<And>r st. keeps st0 st \<Longrightarrow> keeps st0 (f r st)"
  shows "keeps st0 st \<Longrightarrow> keeps st0 (fold f rs st)"
  by (induction rs arbitrary: st) (simp_all add: assms)

lemma m2_heads_keeps:
  "list_all row_typed metadata \<Longrightarrow> keeps st0 st \<Longrightarrow> ret (keeps st0) (m2_heads els prev metadata st)"
proof (induction els prev metadata st rule: m2_heads.induct)
  case (2 els prev item metadata st)
  then have item: "columns_typed item" and rest: "list_all row_typed metadata" by (simp_all add: columns_of_row)
  show ?case unfolding m2_heads.simps
  proof (rule ret_and_then [OF ret_item [where P = "\<lambda>_. True"]], simp, goal_cases)
    case (1 rid)
    show ?case
    proof (cases "prev = Some rid")
      case True
      with 2(1) [OF True rest 2(4)] show ?thesis by simp
    next
      case False
      have "ret (keeps st0) (and_then (item_of els rid) (\<lambda>rs. and_then (if rs = [] then Inr [] else m2_head item) (\<lambda>recording.
              m2_heads els (Some rid) metadata (fold (\<lambda>r. update_recording r recording) rs st))))"
      proof (rule ret_and_then [OF ret_item [where P = "\<lambda>_. True"]], simp, goal_cases)
        case (1 rs)
        have "ret fields_typed (if rs = [] then Inr [] else m2_head item)" using m2_head_typed [OF item] by simp
        then show ?case
          by (rule ret_and_then) (use 2 False rest in \<open>auto intro!: 2(2) keeps_fold_recording keeps_update_recording\<close>)
      qed
      with False show ?thesis by simp
    qed
  qed
qed simp

lemma m2_append_keeps:
  assumes "keeps st0 st" and "columns_typed item"
  shows "ret (keeps st0) (m2_append els item st)"
  unfolding m2_append_def
proof (rule ret_and_then [OF ret_item [where P = "\<lambda>_. True"]], simp, rule ret_and_then [OF ret_item [where P = "\<lambda>_. True"]], simp, goal_cases)
  case (1 rid rs)
  have "ret fields_typed (if rs = [] then Inr [] else m2_track item)" using m2_track_typed [OF assms(2)] by simp
  then show ?case
  proof (rule ret_and_then)
    fix track assume track: "fields_typed track"
    have "keeps st0 (st\<lparr>lr_recordings := update_nth r (append_track track) (lr_recordings st)\<rparr>)" if "keeps st0 st" for r st
      using that track unfolding keeps_def store_typed_def
      by (auto simp: answers_def intro!: list_all_update_nth append_track_typed)
    then have "keeps st0 (fold (\<lambda>r st. st\<lparr>lr_recordings := update_nth r (append_track track) (lr_recordings st)\<rparr>) rs st)"
      using assms(1) by (rule keeps_fold_recording)
    then show "ret (keeps st0) (Inr (fold (\<lambda>r st. st\<lparr>lr_recordings := update_nth r (append_track track) (lr_recordings st)\<rparr>) rs st))" by simp
  qed
qed

lemma inject_m2_keeps:
  assumes "store_typed st"
  shows "ret (keeps st) (fst (inject_m2 le fdb el_result st q))"
proof (cases "inject_recording_ids_internal fdb el_result False st")
  case (Inr acc)
  obtain els st1 where acc: "acc = (els, st1)" by fastforce
  from retD [OF inject_recording_ids_keeps [OF assms] Inr] acc have st1: "keeps st st1" by simp
  let ?mbids = "recording_keys (track_links fdb el_result)"
  show ?thesis
  proof (cases "lookup_metadata (le_mb le) ?mbids True False False")
    case (Inl e)
    with Inr acc show ?thesis by (simp add: inject_m2_def)
  next
    case metadata: (Inr metadata)
    from retD [OF lookup_metadata_typed metadata] have rows: "list_all row_typed metadata" .
    have "ret (keeps st) (and_then (m2_heads els None metadata st1) (inject_all (m2_append els) (m2_sorted metadata)))"
      by (rule ret_and_then [OF m2_heads_keeps [OF rows st1]], rule ret_inject_all)
        (use rows in \<open>auto simp: m2_sorted_def list_all_iff columns_of_row intro!: m2_append_keeps\<close>)
    with Inr acc metadata show ?thesis by (simp add: inject_m2_def Let_def split: prod.split option.split)
  qed
qed (simp add: inject_m2_def)

lemma inject_releases_keeps: "store_typed st \<Longrightarrow> ret (keeps st) (fst (inject_releases le fdb meta result_map st q))"
  unfolding inject_releases_def
  by (rule inject_by_track_keeps [where key = "''releases''"]) (simp_all add: inject_releases_internal_typed releases_only)

lemma inject_release_groups_keeps: "store_typed st \<Longrightarrow> ret (keeps st) (fst (inject_release_groups le fdb meta result_map st q))"
  unfolding inject_release_groups_def
  by (rule inject_by_track_keeps [where key = "''releasegroups''"]) (simp_all add: inject_release_groups_internal_typed release_groups_only)

lemma inject_metadata_keeps: "store_typed st \<Longrightarrow> ret (keeps st) (fst (inject_metadata le fdb meta result_map st q))"
  unfolding inject_metadata_def
  by (simp add: inject_m2_keeps inject_recordings_keeps keeps_refl inject_releases_keeps inject_release_groups_keeps)

subsection \<open>Results\<close>

text \<open>The first match of every track, in order.\<close>

fun first_matches :: "int list \<Rightarrow> fp_match list \<Rightarrow> fp_match list" where
  "first_matches seen [] = []"
| "first_matches seen (m # ms) =
     (if fm_track_id m \<in> set seen then first_matches seen ms else m # first_matches (seen @ [fm_track_id m]) ms)"

definition match_answer :: "fp_match \<Rightarrow> json option \<times> json option" where
  "match_answer m = (Some (JStr (fm_track_gid m)), Some (JNum (fm_score m)))"

lemma dict_append_not_Nil: "dict_append d k v \<noteq> []"
  by (cases d) (auto split: if_splits)

lemma inject_results_spec:
  "inject_results matches seen (results, result_map, st) = (seen', results', result_map', st') \<Longrightarrow> store_typed st \<Longrightarrow>
     store_typed st' \<and> (\<exists>n. results' = results @ [length (lr_results st)..<length (lr_results st) + n] \<and>
       length (lr_results st') = length (lr_results st) + n) \<and>
     answers st' = answers st @ map match_answer (first_matches seen matches) \<and>
     (seen' = [] \<longleftrightarrow> seen = [] \<and> first_matches seen matches = []) \<and> (result_map' = [] \<longleftrightarrow> result_map = [] \<and> first_matches seen matches = [])"
proof (induction matches arbitrary: seen results result_map st)
  case (Cons m matches)
  show ?case
  proof (cases "fm_track_id m \<in> set seen")
    case True
    with Cons.IH [of seen results result_map st] Cons.prems show ?thesis by auto
  next
    case False
    let ?result = "[(''id'', JStr (fm_track_gid m)), (''score'', JNum (fm_score m))]"
    let ?st = "st\<lparr>lr_results := lr_results st @ [(?result, [])]\<rparr>"
    have t: "store_typed ?st" using Cons.prems(2) by (simp add: store_typed_def text_names_def)
    from Cons.prems(1) False have "inject_results matches (seen @ [fm_track_id m])
       (results @ [length (lr_results st)], dict_append result_map (fm_track_id m) (length (lr_results st)), ?st) = (seen', results', result_map', st')"
      by (simp add: Let_def)
    from Cons.IH [OF this t] obtain n where ih: "store_typed st'"
      "results' = (results @ [length (lr_results st)]) @ [Suc (length (lr_results st))..<Suc (length (lr_results st)) + n]"
      "length (lr_results st') = Suc (length (lr_results st)) + n"
      "answers st' = answers ?st @ map match_answer (first_matches (seen @ [fm_track_id m]) matches)"
      "seen' \<noteq> []" "result_map' \<noteq> []" by (auto simp: dict_append_not_Nil)
    have "answers ?st = answers st @ [match_answer m]"
      by (simp add: answers_def id_and_score_def match_answer_def dict_get_def)
    moreover have "[length (lr_results st)..<length (lr_results st) + Suc n]
        = length (lr_results st) # [Suc (length (lr_results st))..<Suc (length (lr_results st)) + n]"
      by (simp add: upt_conv_Cons del: upt_Suc)
    ultimately show ?thesis using ih False by (intro conjI exI [of _ "Suc n"]) (simp_all del: upt_Suc)
  qed
qed (auto intro!: exI [of _ 0])

lemma batch_results_spec:
  "batch_results le app pairs (result_map, st) c = (fps, (result_map', st'), c') \<Longrightarrow> store_typed st \<Longrightarrow>
     store_typed st' \<and> (\<exists>more. answers st' = answers st @ more) \<and>
     list_all (\<lambda>(index, refs). list_all (\<lambda>r. r < length (lr_results st')) refs) fps \<and>
     map (\<lambda>(index, refs). (index, map ((!) (answers st')) refs)) fps
       = map (\<lambda>(p, ms). (query_index p, map match_answer (first_matches [] ms))) pairs"
proof (induction pairs arbitrary: result_map st c fps c')
  case (Cons pm pairs)
  obtain p ms where pm: "pm = (p, ms)" by fastforce
  obtain seen refs rm1 st1 where r: "inject_results ms [] ([], result_map, st) = (seen, refs, rm1, st1)" by (metis prod_cases4)
  from inject_results_spec [OF r Cons.prems(2)] obtain n where one: "store_typed st1"
    "refs = [length (lr_results st)..<length (lr_results st) + n]" "length (lr_results st1) = length (lr_results st) + n"
    "answers st1 = answers st @ map match_answer (first_matches [] ms)" by auto
  let ?c = "count_lookup le app (seen \<noteq> []) c"
  obtain fps1 acc c1 where b: "batch_results le app pairs (rm1, st1) ?c = (fps1, acc, c1)" by (metis prod_cases3)
  from Cons.prems(1) pm r b have acc: "acc = (result_map', st')" and fps: "fps = (query_index p, refs) # fps1" and "c1 = c'"
    by (simp_all add: Let_def)
  from Cons.IH [OF b [unfolded acc] one(1)] obtain more where ih: "store_typed st'" "answers st' = answers st1 @ more"
    "list_all (\<lambda>(index, refs). list_all (\<lambda>r. r < length (lr_results st')) refs) fps1"
    "map (\<lambda>(index, refs). (index, map ((!) (answers st')) refs)) fps1
       = map (\<lambda>(p, ms). (query_index p, map match_answer (first_matches [] ms))) pairs" by auto
  have len: "length (answers x) = length (lr_results x)" for x by (simp add: answers_def)
  let ?new = "map match_answer (first_matches [] ms)"
  from one(3,4) len [of st] len [of st1] have n: "length ?new = n" by simp
  have "map ((!) (answers st')) refs = ?new"
  proof (rule nth_equalityI)
    fix i assume "i < length (map ((!) (answers st')) refs)"
    with one(2) have i: "i < n" by simp
    with one(2) have "map ((!) (answers st')) refs ! i = answers st' ! (length (lr_results st) + i)" by simp
    also have "\<dots> = ?new ! i" using i n len [of st] unfolding ih(2) one(4) append.assoc by (simp add: nth_append len)
    finally show "map ((!) (answers st')) refs ! i = ?new ! i" .
  qed (use one(2) n in simp)
  moreover have "list_all (\<lambda>r. r < length (lr_results st')) refs"
  proof -
    have "length (lr_results st1) \<le> length (lr_results st')" using ih(2) len [of st1] len [of st'] by simp
    with one show ?thesis by (auto simp: list_all_iff)
  qed
  ultimately show ?case using ih one(4) by (simp add: fps pm)
qed simp

lemma keeps_trans: "keeps a b \<Longrightarrow> keeps b c \<Longrightarrow> keeps a c"
  by (simp add: keeps_def)

text \<open>How a lookup that is answered went.\<close>

lemma lookup_internal_answers:
  assumes "lookup_internal le v env req user_ip params s = (Inr data, s')"
  obtains all_matches fps st where "run_queries le (lp_max_duration_diff params) (as_fp s) 0 (lookup_queries params) = Inr all_matches"
    and "truthy_int (lp_batch params) \<or> all_matches \<noteq> []" and "store_typed st"
    and "list_all (\<lambda>(index, refs). list_all (\<lambda>r. r < length (lr_results st)) refs) fps"
    and "map (\<lambda>(index, refs). (index, map ((!) (answers st)) refs)) fps
       = map (\<lambda>(p, ms). (query_index p, map match_answer (first_matches [] ms))) (zip (lookup_queries params) all_matches)"
    and "data = lookup_answer v (truthy_int (lp_batch params)) st fps"
proof -
  let ?ps = "lookup_queries params"
  let ?c = "update_user_agent_counter (le_hash le) (le_redis_up le) (le_day le) (lp_application_id params) (rq_user_agent req) user_ip (as_counters s)"
  from assms have few: "\<not> too_many_queries ?ps" by (auto simp: lookup_internal_def Let_def)
  with assms obtain ms where ms: "run_queries le (lp_max_duration_diff params) (as_fp s) 0 ?ps = Inr ms"
    by (auto simp: lookup_internal_def Let_def split: sum.splits)
  with assms few have one: "truthy_int (lp_batch params) \<or> ms \<noteq> []" by (auto simp: lookup_internal_def Let_def)
  obtain fps rm st c where b: "batch_results le (lp_application_id params) (zip ?ps ms) ([], empty_store) ?c = (fps, (rm, st), c)"
    by (metis prod.collapse)
  have e: "store_typed empty_store" by (simp add: empty_store_def store_typed_def)
  note spec = batch_results_spec [OF b e]
  show thesis
  proof (cases "le_metadata le \<and> lp_meta params \<noteq> [] \<and> rm \<noteq> []")
    case True
    obtain r q where r: "inject_metadata le (as_fp s) (lp_meta params) rm st (as_tasks s) = (r, q)" by fastforce
    with assms few ms one b True obtain st' where st': "r = Inr st'" and data: "data = lookup_answer v (truthy_int (lp_batch params)) st' fps"
      by (cases r) (auto simp: lookup_internal_def Let_def)
    have "keeps st st'" using inject_metadata_keeps [of st le "as_fp s" "lp_meta params" rm "as_tasks s"] spec r st' by simp
    then have k: "store_typed st'" "answers st' = answers st" by (simp_all add: keeps_def)
    have "length (lr_results st') = length (lr_results st)" using k(2) unfolding answers_def by (metis length_map)
    with spec k data show thesis by (intro that [OF ms one, of st' fps]) simp_all
  next
    case False
    with assms few ms one b have "data = lookup_answer v (truthy_int (lp_batch params)) st fps"
      by (auto simp: lookup_internal_def Let_def split: if_splits)
    with spec show thesis by (intro that [OF ms one, of st fps]) simp_all
  qed
qed

lemma result_json_typed:
  assumes "store_typed st" and "r < length (lr_results st)"
  shows "typed ''result'' (result_json v st r)"
proof -
  obtain el recs where x: "lr_results st ! r = (el, recs)" by fastforce
  with assms nth_mem [OF assms(2)] have t: "fields_typed el" "list_all (\<lambda>i. i < length (lr_recordings st)) recs"
    unfolding store_typed_def list_all_iff by fastforce+
  with assms(1) have "list_all fields_typed (map ((!) (lr_recordings st)) recs)"
    unfolding store_typed_def list_all_iff by auto
  moreover have "recordings_name v \<in> set list_names" "butlast (recordings_name v) \<in> set object_names"
    by (cases v; simp add: recordings_name_def list_names_def object_names_def)+
  ultimately have "typed (recordings_name v) (JArr (map JObj (map ((!) (lr_recordings st)) recs)))" by (intro typed_objs)
  with t show ?thesis by (simp add: result_json_def x typed_obj object_names_def o_def)
qed

lemma lookup_typed_fields:
  assumes "lookup_internal le v env req user_ip params s = (Inr data, s')"
  shows "fields_typed data"
  using assms
proof (rule lookup_internal_answers)
  fix all_matches fps st
  assume st: "store_typed st" and refs: "list_all (\<lambda>(index, refs). list_all (\<lambda>r. r < length (lr_results st)) refs) fps"
    and data: "data = lookup_answer v (truthy_int (lp_batch params)) st fps"
    and pairs: "map (\<lambda>(index, refs). (index, map ((!) (answers st)) refs)) fps
     = map (\<lambda>(p, ms). (query_index p, map match_answer (first_matches [] ms))) (zip (lookup_queries params) all_matches)"
    and ok: "truthy_int (lp_batch params) \<or> all_matches \<noteq> []"
    and queries: "run_queries le (lp_max_duration_diff params) (as_fp s) 0 (lookup_queries params) = Inr all_matches"
  have one: "typed ''results'' (JArr (map (result_json v st) rs))" if "list_all (\<lambda>r. r < length (lr_results st)) rs" for rs
    using that by (auto simp: typed_arr list_names_def list_all_iff result_json_typed [OF st])
  show "fields_typed data"
  proof (cases "truthy_int (lp_batch params)")
    case True
    have "typed ''fingerprint'' (JObj [(''index'', jint index), (''results'', JArr (map (result_json v st) rs))])"
      if "(index, rs) \<in> set fps" for index rs
    proof -
      have "typed ''index'' (jint index)" by (cases index) (simp_all add: jint_def number_names_def)
      moreover have "list_all (\<lambda>r. r < length (lr_results st)) rs" using refs that by (auto simp: list_all_iff)
      ultimately show ?thesis by (simp add: typed_obj object_names_def one)
    qed
    with True data show ?thesis by (auto simp: lookup_answer_def typed_arr list_names_def list_all_iff)
  next
    case False
    with ok queries have "zip (lookup_queries params) all_matches \<noteq> []"
      by (cases "lookup_queries params") (auto simp: and_then_def split: sum.splits)
    then have "fps \<noteq> []" using pairs by auto
    then have "list_all (\<lambda>r. r < length (lr_results st)) (snd (hd fps))" using refs by (cases fps) auto
    with False data show ?thesis by (simp add: lookup_answer_def one)
  qed
qed

text \<open>C27: Whatever the databases hold and whatever metadata a client asks for, the answer of a lookup has one type: every
  field has the kind of value its name promises (identifiers, titles and names are texts, scores and durations are numbers, lists have elements of
  their own kind, and so on, at every level), and \<open>None\<close> appears only as an index, a title, a position or a number of tracks.\<close>

theorem lookup_answer_typed:
  "case fst (lookup_internal le v env req user_ip params s) of Inl e \<Rightarrow> True | Inr data \<Rightarrow> list_all (\<lambda>(name, value). typed name value) data"
proof (cases "lookup_internal le v env req user_ip params s")
  case (Pair result s')
  then show ?thesis
    by (cases result) (auto simp: fields_typed_def dest: lookup_typed_fields)
qed

end
