(* ===== verification/Lookup_Spec.thy ===== *)
theory Lookup_Spec
  imports Lookup_Types
begin

text \<open>
  What a lookup answers: it changes no database, and its results are the tracks of the matches with the MusicBrainz recordings
  linked to them. The handler is an instance of the contract of \<open>Api_Contract\<close>.
\<close>

subsection \<open>The handler keeps the contract\<close>

lemma parse_query_no_http: "no_http (parse_query decode_legacy v values suffix)"
  by (auto simp: parse_query_def missing_def Let_def split: option.splits list.splits)

lemma lookup_parse_keeps:
  assumes "lookup_parse decode_legacy v env values s = (format, parsed, s')"
  shows "same_databases s s'" and "no_http parsed"
proof -
  have no: "no_http (parse_suffixes values [''fingerprint'', ''trackid''] (parse_query decode_legacy v values))"
    by (rule parse_suffixes_no_http) (rule parse_query_no_http)
  obtain fmt fe where f: "parse_format_of v values = (fmt, fe)" by fastforce
  obtain c kc where c: "parse_client env (as_app s) values (as_caches s) = (c, kc)" by fastforce
  have "same_databases s s' \<and> no_http parsed"
  proof (cases fe)
    case (Some e)
    with assms f parse_format_of_web [of v "values"] show ?thesis by (auto simp: lookup_parse_def)
  next
    case None
    with assms f parse_client_no_http [OF c] c no show ?thesis
      by (cases c rule: no_http.cases) (auto simp: lookup_parse_def Let_def split: if_splits)
  qed
  then show "same_databases s s'" "no_http parsed" by simp_all
qed

lemma lookup_internal_keeps:
  assumes "lookup_internal le v env req user_ip params s = (result, s')"
  shows "same_databases s s'" and "no_http result"
  using assms
  by (auto simp: lookup_internal_def Let_def same_databases_def split: if_splits sum.splits prod.splits)

interpretation lookup: read_only_operation "lookup_handler decode_legacy le v" for decode_legacy le v
proof
  fix env "values" s format parsed s'
  assume "h_parse (lookup_handler decode_legacy le v) env values s = (format, parsed, s')"
  then have p: "lookup_parse decode_legacy v env values s = (format, parsed, s')" by (simp add: lookup_handler_def)
  show "same_databases s s'" "no_http parsed" using lookup_parse_keeps [OF p] by simp_all
next
  fix env req user_ip params s result s'
  assume "h_internal (lookup_handler decode_legacy le v) env req user_ip params s = (result, s')"
  then have r: "lookup_internal le v env req user_ip params s = (result, s')" by (simp add: lookup_handler_def)
  show "no_http result" "same_databases s s'" using lookup_internal_keeps [OF r] by simp_all
next
  fix env req user_ip params s data s'
  assume "h_internal (lookup_handler decode_legacy le v) env req user_ip params s = (Inr data, s')"
  then have r: "lookup_internal le v env req user_ip params s = (Inr data, s')" by (simp add: lookup_handler_def)
  with lookup_typed_fields [OF r] show "answer_ready data" by (intro fields_typed_ready)
qed

text \<open>A lookup changes no database: whatever a request asks for and however it ends, the accounts, the fingerprints, the
  submissions and the statistics tables are the same afterwards. (It counts usage and enqueues tasks in Redis.)\<close>

lemma lookup_changes_nothing:
  "case handle_request p cfg (lookup_handler decode_legacy le v) env req s of (out, s') \<Rightarrow>
     as_app s' = as_app s \<and> as_stats s' = as_stats s \<and> as_fp s' = as_fp s \<and> as_ingest s' = as_ingest s"
  using lookup.changes_nothing [of s p cfg decode_legacy le v env req]
  by (simp add: same_databases_def case_prod_unfold)

subsection \<open>Whose result a result is\<close>

text \<open>\<open>owners\<close> are the tracks of the results; the result map lists the results of every track in order.\<close>

definition results_of :: "int list \<Rightarrow> int \<Rightarrow> nat list" where
  "results_of owners t = filter (\<lambda>r. owners ! r = t) [0..<length owners]"

definition owned :: "int list \<Rightarrow> (int, nat list) dict \<Rightarrow> bool" where
  "owned owners rm \<longleftrightarrow> distinct (dict_keys rm) \<and>
     (\<forall>t. dict_get rm t = (if results_of owners t = [] then None else Some (results_of owners t)))"

lemma results_of_snoc: "results_of (owners @ [t']) t = results_of owners t @ (if t' = t then [length owners] else [])"
proof -
  have "filter (\<lambda>r. (owners @ [t']) ! r = t) [0..<length owners] = filter (\<lambda>r. owners ! r = t) [0..<length owners]"
    by (rule filter_cong) (auto simp: nth_append)
  then show ?thesis by (simp add: results_of_def)
qed

lemma owned_append: "owned owners rm \<Longrightarrow> owned (owners @ [t]) (dict_append rm t (length owners))"
  unfolding owned_def by (auto simp: dict_distinct_append results_of_snoc)

lemma inject_results_owned:
  "inject_results matches seen (results, rm, st) = (seen', results', rm', st') \<Longrightarrow> owned owners rm \<Longrightarrow> length (lr_results st) = length owners \<Longrightarrow>
     owned (owners @ map fm_track_id (first_matches seen matches)) rm' \<and> lr_recordings st' = lr_recordings st
     \<and> map (\<lambda>(el, recs). (map fst el, recs)) (lr_results st')
       = map (\<lambda>(el, recs). (map fst el, recs)) (lr_results st) @ map (\<lambda>m. ([''id'', ''score''], [])) (first_matches seen matches)"
proof (induction matches arbitrary: seen results rm st owners)
  case (Cons m matches)
  show ?case
  proof (cases "fm_track_id m \<in> set seen")
    case True
    with Cons show ?thesis by simp
  next
    case False
    let ?st = "st\<lparr>lr_results := lr_results st @ [([(''id'', JStr (fm_track_gid m)), (''score'', JNum (fm_score m))], [])]\<rparr>"
    from Cons.prems(1) False have step: "inject_results matches (seen @ [fm_track_id m])
       (results @ [length (lr_results st)], dict_append rm (fm_track_id m) (length (lr_results st)), ?st) = (seen', results', rm', st')"
      by (simp add: Let_def)
    have "owned (owners @ [fm_track_id m]) (dict_append rm (fm_track_id m) (length (lr_results st)))"
      using owned_append [OF Cons.prems(2)] Cons.prems(3) by simp
    from Cons.IH [OF step this] Cons.prems(3) False show ?thesis by simp
  qed
qed simp

lemma inject_results_refs:
  "inject_results ms seen (rs, rm, st) = (seen', refs, rm', st') \<Longrightarrow>
     refs = rs @ [length (lr_results st)..<length (lr_results st')] \<and> length (lr_results st) \<le> length (lr_results st')"
proof (induction ms arbitrary: seen rs rm st)
  case (Cons m ms)
  show ?case
  proof (cases "fm_track_id m \<in> set seen")
    case False
    let ?st = "st\<lparr>lr_results := lr_results st @ [([(''id'', JStr (fm_track_gid m)), (''score'', JNum (fm_score m))], [])]\<rparr>"
    from Cons.prems False have "inject_results ms (seen @ [fm_track_id m])
       (rs @ [length (lr_results st)], dict_append rm (fm_track_id m) (length (lr_results st)), ?st) = (seen', refs, rm', st')"
      by (simp add: Let_def)
    from Cons.IH [OF this] show ?thesis by (simp add: upt_conv_Cons)
  qed (use Cons in simp)
qed simp

lemma batch_results_owned:
  "batch_results le app pairs (rm, st) c = (fps, (rm', st'), c') \<Longrightarrow> owned owners rm \<Longrightarrow> length (lr_results st) = length owners \<Longrightarrow>
   list_all (\<lambda>(el, recs). map fst el = [''id'', ''score''] \<and> recs = []) (lr_results st) \<Longrightarrow>
     \<exists>more. owned (owners @ more) rm' \<and> length (lr_results st') = length (owners @ more) \<and> lr_recordings st' = lr_recordings st
       \<and> list_all (\<lambda>(el, recs). map fst el = [''id'', ''score''] \<and> recs = []) (lr_results st')
       \<and> map (\<lambda>(index, refs). map ((!) (owners @ more)) refs) fps = map (\<lambda>(p, ms). map fm_track_id (first_matches [] ms)) pairs"
proof (induction pairs arbitrary: rm st c fps c' owners)
  case Nil
  then show ?case by (intro exI [of _ "[]"]) simp
next
  case (Cons pm pairs)
  obtain p ms where pm: "pm = (p, ms)" by fastforce
  obtain seen refs rm1 st1 where r: "inject_results ms [] ([], rm, st) = (seen, refs, rm1, st1)" by (metis prod_cases4)
  let ?new = "map fm_track_id (first_matches [] ms)"
  note o1 = inject_results_owned [OF r Cons.prems(2,3)]
  obtain fps1 acc c1 where b: "batch_results le app pairs (rm1, st1) (count_lookup le app (seen \<noteq> []) c) = (fps1, acc, c1)" by (metis prod_cases3)
  from Cons.prems(1) pm r b have acc: "acc = (rm', st')" and fps: "fps = (query_index p, refs) # fps1"
    by (simp_all add: Let_def)
  have len1: "length (lr_results st1) = length (owners @ ?new)"
    using arg_cong [OF conjunct2 [OF conjunct2 [OF o1]], of length] Cons.prems(3) by simp
  have empty1: "list_all (\<lambda>(el, recs). map fst el = [''id'', ''score''] \<and> recs = []) (lr_results st1)"
  proof -
    have "list_all (\<lambda>x. x = ([''id'', ''score''], [])) (map (\<lambda>(el, recs). (map fst el, recs)) (lr_results st1))"
      using o1 Cons.prems(4) by (auto simp: list_all_iff)
    then show ?thesis by (auto simp: list_all_iff)
  qed
  from Cons.IH [OF b [unfolded acc] conjunct1 [OF o1] len1 empty1] obtain more where ih:
    "owned ((owners @ ?new) @ more) rm'" "length (lr_results st') = length ((owners @ ?new) @ more)" "lr_recordings st' = lr_recordings st1"
    "list_all (\<lambda>(el, recs). map fst el = [''id'', ''score''] \<and> recs = []) (lr_results st')"
    "map (\<lambda>(index, refs). map ((!) ((owners @ ?new) @ more)) refs) fps1 = map (\<lambda>(p, ms). map fm_track_id (first_matches [] ms)) pairs" by blast
  have refs: "refs = [length owners..<length owners + length ?new]"
    using inject_results_refs [OF r] len1 Cons.prems(3) by simp
  have "map ((!) (owners @ ?new @ more)) refs = ?new"
    unfolding refs by (rule nth_equalityI) (simp_all add: nth_append)
  with ih o1 show ?case by (intro exI [of _ "?new @ more"]) (simp add: fps pm)
qed

subsection \<open>The recordings of a result\<close>

definition recording_ids :: "lookup_store \<Rightarrow> nat \<Rightarrow> json option list" where
  "recording_ids st r = map (\<lambda>i. dict_get (lr_recordings st ! i) ''id'') (snd (lr_results st ! r))"

text \<open>The references stand for recordings with the identifier they are filed under.\<close>

definition refs_ok :: "refs \<Rightarrow> lookup_store \<Rightarrow> bool" where
  "refs_ok els st \<longleftrightarrow> (\<forall>k rs. dict_get els k = Some rs \<longrightarrow>
     list_all (\<lambda>i. i < length (lr_recordings st) \<and> dict_get (lr_recordings st ! i) ''id'' = Some k) rs)"

definition recs_bounded :: "lookup_store \<Rightarrow> bool" where
  "recs_bounded st \<longleftrightarrow> (\<forall>r < length (lr_results st). map fst (fst (lr_results st ! r)) = [''id'', ''score'']
     \<and> (\<forall>i \<in> set (snd (lr_results st ! r)). i < length (lr_recordings st)))"

lemma add_recording_ids:
  assumes ok: "refs_ok els st" and b: "recs_bounded st" and r: "r < length (lr_results st)" and id: "dict_get stub ''id'' = Some k"
    and add: "add_recording k stub r (els, st) = (els', st')"
  shows "refs_ok els' st' \<and> recs_bounded st' \<and> length (lr_results st') = length (lr_results st) \<and>
     (\<forall>q < length (lr_results st). recording_ids st' q = recording_ids st q @ (if q = r then [Some k] else []))"
proof -
  let ?n = "length (lr_recordings st)"
  from add r have els': "els' = dict_append els k ?n"
    and st': "st' = st\<lparr>lr_recordings := lr_recordings st @ [stub],
       lr_results := (lr_results st)[r := (fst (lr_results st ! r), snd (lr_results st ! r) @ [?n])]\<rparr>"
    by (simp_all add: add_recording_def Let_def update_nth_def case_prod_unfold)
  have old: "list_all (\<lambda>i. i < Suc ?n \<and> dict_get ((lr_recordings st @ [stub]) ! i) ''id'' = Some k') rs"
    if "dict_get els k' = Some rs" for k' rs
    using ok that by (fastforce simp: refs_ok_def list_all_iff nth_append)
  have "refs_ok els' st'"
    unfolding refs_ok_def els' st'
    by (auto simp: id old nth_append split: option.splits dest: old intro: list.pred_mono_strong)
  moreover have "recs_bounded st'"
    using b r by (auto simp: recs_bounded_def st' nth_list_update less_Suc_eq)
  moreover have "recording_ids st' q = recording_ids st q @ (if q = r then [Some k] else [])" if "q < length (lr_results st)" for q
    using b that r by (auto simp: recording_ids_def st' nth_list_update recs_bounded_def nth_append id)
  ultimately show ?thesis by (simp add: st')
qed

lemma fold_add_ids:
  assumes "dict_get stub ''id'' = Some k"
  shows "refs_ok els st \<Longrightarrow> recs_bounded st \<Longrightarrow> list_all (\<lambda>r. r < length (lr_results st)) rs \<Longrightarrow> distinct rs \<Longrightarrow>
     fold (add_recording k stub) rs (els, st) = (els', st') \<Longrightarrow>
     refs_ok els' st' \<and> recs_bounded st' \<and> length (lr_results st') = length (lr_results st) \<and>
     (\<forall>q < length (lr_results st). recording_ids st' q = recording_ids st q @ (if q \<in> set rs then [Some k] else []))"
proof (induction rs arbitrary: els st)
  case (Cons r rs)
  obtain els1 st1 where add: "add_recording k stub r (els, st) = (els1, st1)" by fastforce
  have r: "r < length (lr_results st)" using Cons.prems(3) by simp
  note one = add_recording_ids [OF Cons.prems(1,2) r assms add]
  have rest: "list_all (\<lambda>r. r < length (lr_results st1)) rs" using Cons.prems(3) one by simp
  have "fold (add_recording k stub) rs (els1, st1) = (els', st')" using Cons.prems(5) add by simp
  from Cons.IH [OF conjunct1 [OF one] conjunct1 [OF conjunct2 [OF one]] rest _ this] Cons.prems(4) one
  show ?case by auto
qed simp

lemma link_stub_id: "dict_get (link_stub b (mbid, n)) ''id'' = Some (JStr mbid)"
  by (simp add: link_stub_def dict_get_def)

lemma inject_links_ids:
  assumes own: "owned owners rm" and len: "length (lr_results st0) = length owners"
  shows "inject_all (inject_link rm b) links (els, st) = Inr (els', st') \<Longrightarrow> refs_ok els st \<Longrightarrow> recs_bounded st \<Longrightarrow>
     length (lr_results st) = length owners \<Longrightarrow>
     refs_ok els' st' \<and> recs_bounded st' \<and> length (lr_results st') = length owners \<and>
     (\<forall>q < length owners. recording_ids st' q
        = recording_ids st q @ map (\<lambda>(t, mbid, n). Some (JStr mbid)) (filter (\<lambda>(t, mbid, n). t = owners ! q) links))"
proof (induction links arbitrary: els st)
  case (Cons link links)
  obtain t mbid n where link: "link = (t, mbid, n)" by (metis prod_cases3)
  let ?add = "\<lambda>rs. fold (add_recording (JStr mbid) (link_stub b (mbid, n))) rs (els, st)"
  have step: "inject_all (inject_link rm b) (link # links) (els, st)
      = and_then (item_of rm t) (\<lambda>rs. inject_all (inject_link rm b) links (?add rs))"
    unfolding inject_all.simps(2) by (cases "item_of rm t") (simp_all add: inject_link_def and_then_def link)
  from Cons.prems(1) obtain rs where rs: "item_of rm t = Inr rs" and rest: "inject_all (inject_link rm b) links (?add rs) = Inr (els', st')"
    unfolding step and_then_def by (cases "item_of rm t") simp_all
  from rs own have rs': "rs = results_of owners t"
    by (auto simp: item_of_def owned_def split: option.splits if_splits)
  obtain els1 st1 where add: "fold (add_recording (JStr mbid) (link_stub b (mbid, n))) rs (els, st) = (els1, st1)" by fastforce
  have in_rs: "q \<in> set rs \<longleftrightarrow> q < length owners \<and> owners ! q = t" for q by (auto simp: rs' results_of_def)
  have "list_all (\<lambda>r. r < length (lr_results st)) rs" "distinct rs"
    using in_rs Cons.prems(4) by (simp_all add: list_all_iff rs' results_of_def)
  note one = fold_add_ids [OF link_stub_id Cons.prems(2,3) this add]
  from Cons.IH [OF rest [unfolded add] conjunct1 [OF one] conjunct1 [OF conjunct2 [OF one]]] one Cons.prems(4) in_rs link
  show ?case by auto
qed simp

text \<open>The MBIDs linked to a track, in order.\<close>

definition enabled_mbids :: "fingerprint_db \<Rightarrow> int \<Rightarrow> string list" where
  "enabled_mbids fdb t = map lk_value (sort_key lk_value (sel (\<lambda>r. lk_track_id r = t \<and> \<not> tm_disabled r) (t_track_mbid fdb)))"

lemma filter_dict_entries:
  "distinct (dict_keys d) \<Longrightarrow> map g (filter (\<lambda>(k, x). k = t) (concat (map (\<lambda>(k, xs). map (Pair k) xs) d)))
     = (case dict_get d t of None \<Rightarrow> [] | Some xs \<Rightarrow> map (\<lambda>x. g (t, x)) xs)"
proof (induction d)
  case (Cons kv d)
  obtain k xs where kv: "kv = (k, xs)" by fastforce
  have other: "filter (\<lambda>(k, x). k = t) (map (Pair k) xs) = (if k = t then map (Pair k) xs else [])" by (induction xs) auto
  show ?case
  proof (cases "k = t")
    case True
    with Cons.prems kv have "t \<notin> set (dict_keys d)" by simp
    then have "dict_get d t = None" by (simp add: dict_get_None_iff)
    with Cons kv True other show ?thesis by (simp add: dict_get_Cons o_def)
  next
    case False
    with Cons kv other show ?thesis by (simp add: dict_get_Cons)
  qed
qed simp

lemma track_links_of:
  assumes "t \<in> set (dict_keys rm)"
  shows "map (\<lambda>(t, mbid, n). mbid) (filter (\<lambda>(t', mbid, n). t' = t) (track_links fdb rm)) = enabled_mbids fdb t"
proof -
  let ?rows = "sort_key lk_value (sel (\<lambda>r. lk_track_id r \<in> set (dict_keys rm) \<and> \<not> tm_disabled r) (t_track_mbid fdb))"
  let ?kvs = "map (\<lambda>r. (lk_track_id r, (lk_value r, lk_submission_count r))) ?rows"
  have ne: "dict_keys rm \<noteq> []" using assms by auto
  have links: "track_links fdb rm = concat (map (\<lambda>(k, xs). map (Pair k) xs) (dict_group ?kvs))"
    by (simp add: track_links_def lookup_mbids_def ne)
  have shape: "filter (\<lambda>(t', mbid, n). t' = t) xs = filter (\<lambda>(k, x). k = t) xs" for xs :: "(int \<times> string \<times> int) list"
    by (rule filter_cong) auto
  have rows: "filter (\<lambda>r. lk_track_id r = t) ?rows = sort_key lk_value (sel (\<lambda>r. lk_track_id r = t \<and> \<not> tm_disabled r) (t_track_mbid fdb))"
    using assms by (auto simp: sel_def filter_sort intro!: arg_cong [where f = "sort_key lk_value"] filter_cong)
  have "map (\<lambda>(t, mbid, n). mbid) (filter (\<lambda>(t', mbid, n). t' = t) (track_links fdb rm))
      = (case dict_get (dict_group ?kvs) t of None \<Rightarrow> [] | Some xs \<Rightarrow> map (\<lambda>x. fst x) xs)"
    unfolding links shape using filter_dict_entries [OF distinct_dict_group, of "\<lambda>(t, mbid, n). mbid" t ?kvs]
    unfolding case_prod_unfold fst_conv snd_conv .
  also have "\<dots> = map lk_value (filter (\<lambda>r. lk_track_id r = t) ?rows)"
    by (auto simp: dict_get_group Let_def filter_map o_def)
  finally show ?thesis by (simp add: rows enabled_mbids_def)
qed

subsection \<open>Metadata does not change which recordings are listed\<close>

text \<open>A dictionary whose \<open>id\<close> is \<open>k\<close>.\<close>

definition has_id :: "json \<Rightarrow> row_dict \<Rightarrow> bool" where
  "has_id k d \<longleftrightarrow> (\<forall>v. (''id'', v) \<in> set d \<longleftrightarrow> v = k)"

lemma has_id_get: "has_id k d \<Longrightarrow> dict_get d ''id'' = Some k"
proof -
  assume h: "has_id k d"
  then obtain v where "dict_get d ''id'' = Some v"
    unfolding has_id_def dict_get_def by (metis map_of_eq_None_iff not_None_eq fst_conv image_eqI)
  with h show ?thesis unfolding has_id_def dict_get_def by (metis map_of_SomeD)
qed

lemma has_id_set: "name \<noteq> ''id'' \<Longrightarrow> has_id k (dict_set d name v) \<longleftrightarrow> has_id k d"
proof -
  assume "name \<noteq> ''id''"
  then have "(''id'', x) \<in> set (dict_set d name v) \<longleftrightarrow> (''id'', x) \<in> set d" for x
    by (induction d name v rule: dict_set.induct) auto
  then show ?thesis by (simp add: has_id_def)
qed

lemma has_id_update: "has_id k d \<Longrightarrow> dict_get (dict_update el d) ''id'' = Some k"
proof -
  have "\<forall>v. (''id'', v) \<in> set d \<longrightarrow> v = k \<Longrightarrow> dict_get el ''id'' = Some k \<or> (''id'', k) \<in> set d \<Longrightarrow>
      dict_get (fold (\<lambda>(k, v) d. dict_set d k v) d el) ''id'' = Some k"
    by (induction d arbitrary: el) auto
  then show "has_id k d \<Longrightarrow> ?thesis" by (simp add: has_id_def dict_update_def)
qed

lemma has_id_map_list: "name \<noteq> ''id'' \<Longrightarrow> has_id k d \<Longrightarrow> has_id k (map_list name f d)"
  by (simp add: map_list_def has_id_set split: option.split json.split)

lemma has_id_map_last: "name \<noteq> ''id'' \<Longrightarrow> has_id k d \<Longrightarrow> has_id k (map_last name f d)"
  by (simp add: map_last_def has_id_set split: option.split json.split list.split)

lemma has_id_del_if: "name \<noteq> ''id'' \<Longrightarrow> has_id k d \<Longrightarrow> has_id k (del_if_equal name parent d)"
  by (auto simp: del_if_equal_def has_id_def dict_del_def)

lemma ret_set: "name \<noteq> ''id'' \<Longrightarrow> has_id k d \<Longrightarrow> ret (has_id k) (Inr (dict_set d name v))"
  by (simp add: has_id_set)

lemma ret_any: "ret (\<lambda>v. True) x"
  by (cases x) simp_all

lemma set_if_id: "name \<noteq> ''id'' \<Longrightarrow> has_id k d \<Longrightarrow> ret (has_id k) (set_if m column name d)"
  unfolding set_if_def by (rule ret_and_then [OF ret_any]) (simp add: has_id_set)

lemma releases_keep_id: "has_id k d \<Longrightarrow> ret (has_id k) (inject_releases_internal meta d metadata)"
  unfolding inject_releases_internal_def by (intro ret_and_then [OF ret_any] ret_set) simp_all

lemma release_groups_keep_id: "has_id k d \<Longrightarrow> ret (has_id k) (inject_release_groups_internal meta d metadata)"
  unfolding inject_release_groups_internal_def by (intro ret_and_then [OF ret_any] ret_set) simp_all

lemma fill_recording_id: "has_id k d \<Longrightarrow> ret (has_id k) (fill_recording meta d metadata)"
  unfolding fill_recording_def
  by (auto intro!: ret_and_then [OF release_groups_keep_id] ret_and_then [OF releases_keep_id]
      simp: compress_recording_groups_def compress_recording_releases_def has_id_map_list has_id_map_last)

lemma ret_mono: "ret P x \<Longrightarrow> (\<And>v. P v \<Longrightarrow> Q v) \<Longrightarrow> ret Q x"
  by (cases x) simp_all

lemma ret_item_any: "ret (\<lambda>v. True) (item_of d k)"
  by (rule ret_any)

lemma duration_id:
  "has_id k d \<Longrightarrow> ret (has_id k) (if jtruthy v then and_then (to_float v) (\<lambda>x. Inr (dict_set d ''duration'' x)) else Inr d)"
  by (auto intro!: ret_and_then [OF ret_any] simp: has_id_set)

lemma extract_recording_id: "ret (\<lambda>d. \<exists>k. dict_get m ''recording_id'' = Some k \<and> has_id k d) (extract_recording m only_id)"
proof (cases "dict_get m ''recording_id''")
  case None
  then show ?thesis by (simp add: extract_recording_def item_of_def and_then_def)
next
  case (Some k)
  have start: "has_id k [(''id'', k)]" by (auto simp: has_id_def)
  have "ret (has_id k) (extract_recording m only_id)"
  proof (cases only_id)
    case True
    then show ?thesis using Some start by (simp add: extract_recording_def item_of_def and_then_def)
  next
    case False
    then show ?thesis
      unfolding extract_recording_def Let_def item_of_Some [OF Some] and_then_Inr if_not_P [OF False] using start
      by (intro ret_and_then [OF ret_item_any] ret_and_then [OF duration_id] ret_and_then [OF set_if_id]) (simp_all add: has_id_set del: dict_set.simps)
  qed
  then show ?thesis using Some by (cases "extract_recording m only_id") simp_all
qed

lemma m2_head_id: "ret (\<lambda>d. \<exists>k. dict_get m ''recording_id'' = Some k \<and> has_id k d) (m2_head m)"
proof -
  have "ret (has_id k) (and_then (item_of m ''recording_duration'') (\<lambda>duration.
      and_then (if jtruthy duration then and_then (to_float duration) (\<lambda>x. Inr (dict_set d ''duration'' x)) else Inr d) (\<lambda>d.
        Inr (dict_set d ''tracks'' (JArr [])))))" if "has_id k d" for k d
    using that by (intro ret_and_then [OF ret_item_any] ret_and_then [OF duration_id]) (simp_all add: has_id_set)
  then show ?thesis
    unfolding m2_head_def
    by (intro ret_and_then [OF extract_recording_id]) (elim exE conjE, rule ret_mono, blast+)
qed

text \<open>A change of the recordings that keeps their identifiers.\<close>

definition same_ids :: "lookup_store \<Rightarrow> lookup_store \<Rightarrow> bool" where
  "same_ids st st' \<longleftrightarrow> lr_results st' = lr_results st \<and>
     map (\<lambda>d. dict_get d ''id'') (lr_recordings st') = map (\<lambda>d. dict_get d ''id'') (lr_recordings st)"

lemma same_ids_refl: "same_ids st st"
  by (simp add: same_ids_def)

lemma same_ids_length: "same_ids st st' \<Longrightarrow> length (lr_recordings st') = length (lr_recordings st)"
  unfolding same_ids_def by (drule conjunct2, drule arg_cong [where f = length], simp)

lemma same_ids_nth:
  assumes "same_ids st st'" and "i < length (lr_recordings st)"
  shows "length (lr_recordings st') = length (lr_recordings st) \<and> dict_get (lr_recordings st' ! i) ''id'' = dict_get (lr_recordings st ! i) ''id''"
proof -
  have "map (\<lambda>d. dict_get d ''id'') (lr_recordings st') ! i = map (\<lambda>d. dict_get d ''id'') (lr_recordings st) ! i"
    using assms(1) unfolding same_ids_def by (drule_tac conjunct2) simp
  with assms(2) same_ids_length [OF assms(1)] show ?thesis by simp
qed

lemma same_ids_refs: "same_ids st st' \<Longrightarrow> refs_ok els st \<Longrightarrow> refs_ok els st'"
  unfolding refs_ok_def by (auto simp: list_all_iff same_ids_nth same_ids_length)

lemma same_ids_recording_ids:
  assumes "same_ids st st'" and "recs_bounded st" and "r < length (lr_results st)"
  shows "recording_ids st' r = recording_ids st r"
proof -
  have "lr_results st' = lr_results st" using assms(1) by (simp add: same_ids_def)
  moreover have "dict_get (lr_recordings st' ! i) ''id'' = dict_get (lr_recordings st ! i) ''id''" if "i \<in> set (snd (lr_results st ! r))" for i
    using same_ids_nth [OF assms(1)] assms(2,3) that by (simp add: recs_bounded_def)
  ultimately show ?thesis by (simp add: recording_ids_def)
qed

lemma same_ids_change:
  assumes "same_ids st st'" and "i < length (lr_recordings st)" and "dict_get (lr_recordings st ! i) ''id'' = Some k"
    and "\<And>el. dict_get el ''id'' = Some k \<Longrightarrow> dict_get (f el) ''id'' = Some k"
  shows "same_ids st (st'\<lparr>lr_recordings := update_nth i f (lr_recordings st')\<rparr>)"
proof -
  note i = same_ids_nth [OF assms(1,2)]
  have "map (\<lambda>d. dict_get d ''id'') (update_nth i f (lr_recordings st')) = map (\<lambda>d. dict_get d ''id'') (lr_recordings st')"
  proof -
    have "dict_get (f (lr_recordings st' ! i)) ''id'' = dict_get (lr_recordings st' ! i) ''id''"
      using i assms(3,4) by simp
    then have "map (\<lambda>d. dict_get d ''id'') ((lr_recordings st')[i := f (lr_recordings st' ! i)]) = map (\<lambda>d. dict_get d ''id'') (lr_recordings st')"
      using i assms(2) unfolding map_update by (metis length_map list_update_id nth_map)
    then show ?thesis by (simp add: update_nth_def)
  qed
  with assms(1) show ?thesis by (simp add: same_ids_def)
qed

lemma same_ids_fold:
  assumes "\<And>el. dict_get el ''id'' = Some k \<Longrightarrow> dict_get (f el) ''id'' = Some k"
  shows "list_all (\<lambda>i. i < length (lr_recordings st) \<and> dict_get (lr_recordings st ! i) ''id'' = Some k) rs \<Longrightarrow> same_ids st st' \<Longrightarrow>
     same_ids st (fold (\<lambda>r st. st\<lparr>lr_recordings := update_nth r f (lr_recordings st)\<rparr>) rs st')"
  by (induction rs arbitrary: st') (auto intro: same_ids_change assms)

lemma item_refs: "refs_ok els st \<Longrightarrow> item_of els k = Inr rs \<Longrightarrow>
    list_all (\<lambda>i. i < length (lr_recordings st) \<and> dict_get (lr_recordings st ! i) ''id'' = Some k) rs"
  by (auto simp: refs_ok_def item_of_def split: option.splits)

lemma same_ids_update_fold:
  "has_id k d \<Longrightarrow> list_all (\<lambda>i. i < length (lr_recordings st) \<and> dict_get (lr_recordings st ! i) ''id'' = Some k) rs \<Longrightarrow> same_ids st st' \<Longrightarrow>
     same_ids st (fold (\<lambda>r. update_recording r d) rs st')"
  unfolding update_recording_def by (rule same_ids_fold) (auto intro: has_id_update)

lemma update_els_fold: "update_els False rs d st = fold (\<lambda>r. update_recording r d) rs st"
  by (induction rs arbitrary: st) simp_all

lemma inject_group_ids:
  assumes "refs_ok els st" and "same_ids st st'" and "''usermeta'' \<notin> set meta" and "has_id k (fst grp)"
  shows "ret (same_ids st) (inject_group meta els grp st')"
  unfolding inject_group_def
proof (rule ret_and_then [OF fill_recording_id [OF assms(4)]])
  fix d
  assume d: "has_id k d"
  then have k: "get_or_null d ''id'' = k" by (simp add: get_or_null_def has_id_get)
  have "same_ids st (update_els False rs d st')" if "item_of els k = Inr rs" for rs
    unfolding update_els_fold by (rule same_ids_update_fold [OF d item_refs [OF assms(1) that] assms(2)])
  then show "ret (same_ids st) (and_then (item_of els (get_or_null d ''id'')) (\<lambda>rs. Inr (update_els (''usermeta'' \<in> set meta) rs d st')))"
    using assms(3) k by (cases "item_of els k") (simp_all add: and_then_def)
qed

lemma group_recordings_ids: "ret (list_all (\<lambda>grp. \<exists>k. has_id k (fst grp))) (group_recordings metadata b)"
proof -
  have "list_all (\<lambda>(k, grp). \<exists>k. has_id k (fst grp)) results \<Longrightarrow>
      ret (list_all (\<lambda>grp. \<exists>k. has_id k (fst grp))) (group_rows ''recording_id'' (\<lambda>m. extract_recording m b) metadata results)" for results
  proof (induction metadata arbitrary: results)
    case Nil
    then show ?case by (simp add: list.pred_map o_def case_prod_unfold)
  next
    case (Cons item metadata)
    show ?case
      unfolding group_rows.simps
    proof (rule ret_and_then [OF ret_item_any])
      fix i
      show "ret (list_all (\<lambda>grp. \<exists>k. has_id k (fst grp))) (case dict_get results i of
            None \<Rightarrow> and_then (extract_recording item b) (\<lambda>head. group_rows ''recording_id'' (\<lambda>m. extract_recording m b) metadata (results @ [(i, head, [item])]))
          | Some (head, items) \<Rightarrow> group_rows ''recording_id'' (\<lambda>m. extract_recording m b) metadata (dict_set results i (head, items @ [item])))"
      proof (cases "dict_get results i")
        case None
        have "ret (\<lambda>d. \<exists>k. has_id k d) (extract_recording item b)" by (rule ret_mono [OF extract_recording_id]) blast
        then show ?thesis unfolding None option.case
          by (rule ret_and_then) (rule Cons.IH, simp add: Cons.prems)
      next
        case (Some hi)
        obtain head items where hi: "hi = (head, items)" by fastforce
        have "\<exists>k. has_id k head" using list_all_snd_get [OF Cons.prems Some] hi by simp
        then have "list_all (\<lambda>(k, grp). \<exists>k. has_id k (fst grp)) (dict_set results i (head, items @ [item]))"
          by (intro list_all_snd_set [OF Cons.prems]) simp
        with Cons.IH Some hi show ?thesis by simp
      qed
    qed
  qed
  then show ?thesis by (simp add: group_recordings_def)
qed

lemma inject_groups_ids:
  "refs_ok els st \<Longrightarrow> ''usermeta'' \<notin> set meta \<Longrightarrow> list_all (\<lambda>grp. \<exists>k. has_id k (fst grp)) groups \<Longrightarrow>
     ret (same_ids st) (inject_all (inject_group meta els) groups st)"
  by (rule ret_inject_all [where P = "same_ids st"]) (auto simp: same_ids_refl list_all_iff intro: inject_group_ids)

lemma m2_heads_ids: "refs_ok els st \<Longrightarrow> same_ids st st' \<Longrightarrow> ret (same_ids st) (m2_heads els lid metadata st')"
proof (induction els lid metadata st' rule: m2_heads.induct)
  case (2 els lid item metadata st')
  show ?case
  proof (cases "item_of item ''recording_id''")
    case (Inl e)
    then show ?thesis by (simp add: and_then_def)
  next
    case (Inr k)
    have step: "ret (same_ids st) (m2_heads els (Some k) metadata (fold (\<lambda>r. update_recording r d) rs st'))"
      if "lid \<noteq> Some k" "item_of els k = Inr rs" "rs = [] \<or> has_id k d" for rs d
    proof (rule "2.IH"(2) [OF that(1) "2.prems"(1)])
      show "same_ids st (fold (\<lambda>r. update_recording r d) rs st')"
      proof (cases rs)
        case (Cons r rs')
        with that show ?thesis by (intro same_ids_update_fold [OF _ item_refs [OF "2.prems"(1) that(2)] "2.prems"(2)]) simp
      qed (simp add: "2.prems")
    qed
    have k: "dict_get item ''recording_id'' = Some k" using Inr by (simp add: item_of_def split: option.splits)
    have head: "ret (has_id k) (m2_head item)" by (rule ret_mono [OF m2_head_id]) (simp add: k)
    have rest: "ret (same_ids st) (and_then (if rs = [] then Inr [] else m2_head item) (\<lambda>recording.
        m2_heads els (Some k) metadata (fold (\<lambda>r. update_recording r recording) rs st')))"
      if "lid \<noteq> Some k" "item_of els k = Inr rs" for rs
    proof (cases "rs = []")
      case True
      with step [OF that, of "[]"] show ?thesis by (simp add: and_then_def)
    next
      case False
      then show ?thesis using step [OF that] by (auto intro!: ret_and_then [OF head])
    qed
    show ?thesis
    proof (cases "lid = Some k")
      case True
      with "2.IH"(1) [OF True "2.prems"] Inr show ?thesis by (simp add: and_then_def)
    next
      case False
      then show ?thesis using rest [OF False] Inr by (cases "item_of els k") (simp_all add: and_then_def)
    qed
  qed
qed simp

lemma append_track_id: "dict_get (append_track track el) ''id'' = dict_get el ''id''"
  by (simp add: append_track_def split: option.split json.split)

lemma m2_append_ids:
  assumes "refs_ok els st" and "same_ids st st'"
  shows "ret (same_ids st) (m2_append els item st')"
  unfolding m2_append_def
proof (rule ret_and_then [OF ret_item_any])
  fix k
  have "same_ids st (fold (\<lambda>r st. st\<lparr>lr_recordings := update_nth r (append_track track) (lr_recordings st)\<rparr>) rs st')"
    if "item_of els k = Inr rs" for rs track
    by (rule same_ids_fold [OF _ item_refs [OF assms(1) that] assms(2)]) (simp add: append_track_id)
  then have "ret (same_ids st) (and_then (if rs = [] then Inr [] else m2_track item) (\<lambda>track.
      Inr (fold (\<lambda>r st. st\<lparr>lr_recordings := update_nth r (append_track track) (lr_recordings st)\<rparr>) rs st')))" if "item_of els k = Inr rs" for rs
    using that by (intro ret_and_then [OF ret_any]) simp
  then show "ret (same_ids st) (and_then (item_of els k) (\<lambda>rs. and_then (if rs = [] then Inr [] else m2_track item) (\<lambda>track.
      Inr (fold (\<lambda>r st. st\<lparr>lr_recordings := update_nth r (append_track track) (lr_recordings st)\<rparr>) rs st'))))"
    by (cases "item_of els k") (simp_all add: and_then_def [of "Inl _"] and_then_def [of "Inr _ :: py_exc + nat list"])
qed

subsection \<open>The recordings of every result\<close>

definition lists_mbids :: "fingerprint_db \<Rightarrow> int list \<Rightarrow> lookup_store \<Rightarrow> bool" where
  "lists_mbids fdb owners st \<longleftrightarrow> recs_bounded st \<and> length (lr_results st) = length owners \<and>
     (\<forall>q < length owners. recording_ids st q = map (\<lambda>mbid. Some (JStr mbid)) (enabled_mbids fdb (owners ! q)))"

lemma same_ids_lists:
  assumes "same_ids st st'" and "lists_mbids fdb owners st"
  shows "lists_mbids fdb owners st'"
proof -
  have b: "recs_bounded st" using assms(2) by (simp add: lists_mbids_def)
  have r: "lr_results st' = lr_results st" using assms(1) by (simp add: same_ids_def)
  have "recs_bounded st'" using b unfolding recs_bounded_def r same_ids_length [OF assms(1)] .
  with assms(2) same_ids_recording_ids [OF assms(1) b] show ?thesis by (simp add: lists_mbids_def r)
qed

lemma inject_recording_ids_lists:
  assumes own: "owned owners rm" and len: "length (lr_results st) = length owners"
    and plain: "list_all (\<lambda>(el, recs). map fst el = [''id'', ''score''] \<and> recs = []) (lr_results st)"
  shows "ret (\<lambda>(els, st'). refs_ok els st' \<and> lists_mbids fdb owners st') (inject_recording_ids_internal fdb rm b st)"
proof (cases "inject_recording_ids_internal fdb rm b st")
  case (Inr acc)
  obtain els st' where acc: "acc = (els, st')" by fastforce
  have empty: "snd (lr_results st ! q) = []" "map fst (fst (lr_results st ! q)) = [''id'', ''score'']" if "q < length owners" for q
    using plain that len by (auto simp: list_all_length case_prod_unfold)
  have start: "refs_ok [] st" "recs_bounded st"
    using empty len by (simp_all add: refs_ok_def recs_bounded_def dict_get_def)
  note ids = inject_links_ids [OF own len Inr [unfolded inject_recording_ids_internal_def acc] start len]
  have "recording_ids st' q = map (\<lambda>mbid. Some (JStr mbid)) (enabled_mbids fdb (owners ! q))" if q: "q < length owners" for q
  proof -
    have "results_of owners (owners ! q) \<noteq> []" using q by (auto simp: results_of_def filter_empty_conv)
    with own have "dict_get rm (owners ! q) \<noteq> None" by (simp add: owned_def)
    then have t: "owners ! q \<in> set (dict_keys rm)" by (simp add: dict_get_None_iff)
    have "recording_ids st q = []" using empty [OF q] by (simp add: recording_ids_def)
    with ids q have "recording_ids st' q
        = map (\<lambda>(t, mbid, n). Some (JStr mbid)) (filter (\<lambda>(t', mbid, n). t' = owners ! q) (track_links fdb rm))" by simp
    also have "\<dots> = map (\<lambda>mbid. Some (JStr mbid)) (map (\<lambda>(t, mbid, n). mbid) (filter (\<lambda>(t', mbid, n). t' = owners ! q) (track_links fdb rm)))"
      by (simp add: case_prod_unfold)
    finally show ?thesis unfolding track_links_of [OF t] .
  qed
  with ids show ?thesis by (simp add: Inr acc lists_mbids_def)
qed simp

lemma inject_m2_lists:
  assumes "owned owners rm" and "length (lr_results st) = length owners"
    and "list_all (\<lambda>(el, recs). map fst el = [''id'', ''score''] \<and> recs = []) (lr_results st)"
  shows "ret (lists_mbids fdb owners) (fst (inject_m2 le fdb rm st q))"
proof (cases "inject_recording_ids_internal fdb rm False st")
  case (Inr acc)
  obtain els st1 where acc: "acc = (els, st1)" by fastforce
  with inject_recording_ids_lists [OF assms, of fdb False] Inr have ok: "refs_ok els st1" "lists_mbids fdb owners st1" by simp_all
  have "ret (same_ids st1) (and_then (m2_heads els None metadata st1) (inject_all (m2_append els) rows'))" for metadata rows'
    by (intro ret_and_then [OF m2_heads_ids [OF ok(1) same_ids_refl]] ret_inject_all [where P = "same_ids st1"] m2_append_ids ok)
  then have "ret (lists_mbids fdb owners) (and_then (m2_heads els None metadata st1) (inject_all (m2_append els) rows'))" for metadata rows'
    by (rule ret_mono) (rule same_ids_lists [OF _ ok(2)])
  then show ?thesis using Inr acc by (simp add: inject_m2_def Let_def split: sum.split prod.split option.split)
qed (simp add: inject_m2_def)

lemma inject_recordings_lists:
  assumes "owned owners rm" and "length (lr_results st) = length owners"
    and "list_all (\<lambda>(el, recs). map fst el = [''id'', ''score''] \<and> recs = []) (lr_results st)" and "''usermeta'' \<notin> set meta"
  shows "ret (lists_mbids fdb owners) (fst (inject_recordings le fdb meta rm st q))"
proof (cases "inject_recording_ids_internal fdb rm (''sources'' \<in> set meta) st")
  case (Inr acc)
  obtain els st1 where acc: "acc = (els, st1)" by fastforce
  with inject_recording_ids_lists [OF assms(1-3), of fdb "''sources'' \<in> set meta"] Inr
  have ok: "refs_ok els st1" "lists_mbids fdb owners st1" by simp_all
  have "ret (same_ids st1) (and_then (group_recordings metadata (''recordingids'' \<in> set meta)) (\<lambda>groups. inject_all (inject_group meta els) groups st1))" for metadata
    by (rule ret_and_then [OF group_recordings_ids]) (rule inject_groups_ids [OF ok(1) assms(4)])
  then have "ret (lists_mbids fdb owners) (and_then (group_recordings metadata (''recordingids'' \<in> set meta)) (\<lambda>groups. inject_all (inject_group meta els) groups st1))" for metadata
    by (rule ret_mono) (rule same_ids_lists [OF _ ok(2)])
  moreover have "with_user_meta fdb meta rm (els, st1) metadata = Inr (els, st1, metadata)" for metadata
    using assms(4) by (simp add: with_user_meta_def)
  ultimately show ?thesis using Inr acc by (simp add: inject_recordings_def Let_def and_then_Inr split: sum.split prod.split option.split)
qed (simp add: inject_recordings_def)

text \<open>Reading an answer back: a result's identifier and score, and the identifiers of its recordings.\<close>

definition read_result :: "api_version \<Rightarrow> json \<Rightarrow> (json option \<times> json option) \<times> json option list" where
  "read_result v r =
     (id_and_score (as_dict r),
      case dict_get (as_dict r) (recordings_name v) of Some (JArr rs) \<Rightarrow> map (\<lambda>d. dict_get (as_dict d) ''id'') rs | _ \<Rightarrow> [])"

definition read_results :: "api_version \<Rightarrow> row_dict \<Rightarrow> ((json option \<times> json option) \<times> json option list) list" where
  "read_results v d = (case dict_get d ''results'' of Some (JArr rs) \<Rightarrow> map (read_result v) rs | _ \<Rightarrow> [])"

definition read_answer :: "api_version \<Rightarrow> bool \<Rightarrow> row_dict \<Rightarrow> (json option \<times> ((json option \<times> json option) \<times> json option list) list) list" where
  "read_answer v batch data =
     (if batch then
        (case dict_get data ''fingerprints'' of
           Some (JArr qs) \<Rightarrow> map (\<lambda>q. (dict_get (as_dict q) ''index'', read_results v (as_dict q))) qs | _ \<Rightarrow> [])
      else [(None, read_results v data)])"

text \<open>What a match should be answered with.\<close>

definition expected_result :: "fingerprint_db \<Rightarrow> fp_match \<Rightarrow> (json option \<times> json option) \<times> json option list" where
  "expected_result fdb m = (match_answer m, map (\<lambda>mbid. Some (JStr mbid)) (enabled_mbids fdb (fm_track_id m)))"

lemma dict_get_append_dict: "dict_get (a @ b) k = (case dict_get a k of None \<Rightarrow> dict_get b k | Some v \<Rightarrow> Some v)"
  by (simp add: dict_get_def map_add_def split: option.split)

lemma read_result_json:
  assumes "recs_bounded st" and "r < length (lr_results st)"
  shows "read_result v (result_json v st r) = (answers st ! r, recording_ids st r)"
proof -
  obtain el recs where r: "lr_results st ! r = (el, recs)" by fastforce
  with assms have "map fst el = [''id'', ''score'']" by (auto simp: recs_bounded_def)
  then obtain a b where el: "el = [(''id'', a), (''score'', b)]" by (cases el; cases "tl el"; auto)
  have "answers st ! r = (Some a, Some b)" using assms(2) by (simp add: answers_def r el id_and_score_def dict_get_def)
  moreover have "recording_ids st r = map (\<lambda>i. dict_get (lr_recordings st ! i) ''id'') recs" by (simp add: recording_ids_def r)
  ultimately show ?thesis
    by (cases v) (simp_all add: read_result_def result_json_def r el id_and_score_def dict_get_def recordings_name_def as_dict_def)
qed

lemma read_results_expected:
  assumes st: "lists_mbids fdb owners st" and refs: "list_all (\<lambda>r. r < length (lr_results st)) refs"
    and a: "map ((!) (answers st)) refs = map match_answer ms" and o: "map ((!) owners) refs = map fm_track_id ms"
  shows "map (read_result v) (map (result_json v st) refs) = map (expected_result fdb) ms"
proof (rule nth_equalityI)
  show len: "length (map (read_result v) (map (result_json v st) refs)) = length (map (expected_result fdb) ms)"
    using arg_cong [OF a, of length] by simp
  fix i
  assume "i < length (map (read_result v) (map (result_json v st) refs))"
  then have i: "i < length refs" "i < length ms" using len by simp_all
  have r: "refs ! i < length (lr_results st)" using refs i by (simp add: list_all_length)
  have "answers st ! (refs ! i) = match_answer (ms ! i)" "owners ! (refs ! i) = fm_track_id (ms ! i)"
    using arg_cong [OF a, of "\<lambda>xs. xs ! i"] arg_cong [OF o, of "\<lambda>xs. xs ! i"] i by simp_all
  with st r i show "map (read_result v) (map (result_json v st) refs) ! i = map (expected_result fdb) ms ! i"
    by (simp add: read_result_json lists_mbids_def expected_result_def)
qed

lemma lookup_answer_expected:
  assumes st: "lists_mbids fdb owners st"
  shows "list_all (\<lambda>(index, refs). list_all (\<lambda>r. r < length (lr_results st)) refs) fps \<Longrightarrow>
     map (\<lambda>(index, refs). (index, map ((!) (answers st)) refs)) fps = map (\<lambda>(p, ms). (query_index p, map match_answer (first_matches [] ms))) pairs \<Longrightarrow>
     map (\<lambda>(index, refs). map ((!) owners) refs) fps = map (\<lambda>(p, ms). map fm_track_id (first_matches [] ms)) pairs \<Longrightarrow>
     map (\<lambda>(index, refs). (index, map (read_result v) (map (result_json v st) refs))) fps
       = map (\<lambda>(p, ms). (query_index p, map (expected_result fdb) (first_matches [] ms))) pairs"
proof (induction fps arbitrary: pairs)
  case (Cons f fps)
  from Cons.prems(2) obtain pm pairs' where p: "pairs = pm # pairs'" by (cases pairs) auto
  obtain index refs where f: "f = (index, refs)" by fastforce
  obtain q ms where pm: "pm = (q, ms)" by fastforce
  have "map (read_result v) (map (result_json v st) refs) = map (expected_result fdb) (first_matches [] ms)"
    using Cons.prems by (intro read_results_expected [OF st]) (simp_all add: p f pm)
  moreover have "index = query_index q" using Cons.prems(2) by (simp add: p f pm)
  moreover have "map (\<lambda>(index, refs). (index, map (read_result v) (map (result_json v st) refs))) fps
      = map (\<lambda>(p, ms). (query_index p, map (expected_result fdb) (first_matches [] ms))) pairs'"
    using Cons.prems by (intro Cons.IH) (simp_all add: p f pm)
  ultimately show ?case by (simp add: p f pm)
qed simp

lemma owned_Nil: "owned [] []"
  by (simp add: owned_def results_of_def)

lemma inject_metadata_lists:
  assumes "owned owners rm" and "length (lr_results st) = length owners"
    and "list_all (\<lambda>(el, recs). map fst el = [''id'', ''score''] \<and> recs = []) (lr_results st)"
    and "list_ex (\<lambda>m. m \<in> set meta) [''m2'', ''recordings'', ''recordingids'', ''isrcs'']" and "''usermeta'' \<notin> set meta"
  shows "ret (lists_mbids fdb owners) (fst (inject_metadata le fdb meta rm st q))"
  using assms(4) inject_m2_lists [OF assms(1-3)] inject_recordings_lists [OF assms(1-3,5)]
  by (auto simp: inject_metadata_def)

lemma lists_no_results: "lr_results st = [] \<Longrightarrow> lists_mbids fdb [] st"
  by (simp add: lists_mbids_def recs_bounded_def)

lemma read_lookup_answer:
  assumes "map (\<lambda>(index, refs). (index, map (read_result v) (map (result_json v st) refs))) fps
       = map (\<lambda>(p, ms). (query_index p, map (expected_result fdb) (first_matches [] ms))) pairs"
    and "batch \<or> length pairs = 1"
  shows "read_answer v batch (lookup_answer v batch st fps)
       = map (\<lambda>(p, ms). (if batch then Some (jint (query_index p)) else None, map (expected_result fdb) (first_matches [] ms))) pairs"
proof (cases batch)
  case True
  have "map (\<lambda>(index, refs). (Some (jint index), map (read_result v) (map (result_json v st) refs))) fps
      = map (\<lambda>(i, rs). (Some (jint i), rs)) (map (\<lambda>(index, refs). (index, map (read_result v) (map (result_json v st) refs))) fps)"
    by (simp add: case_prod_unfold)
  also have "\<dots> = map (\<lambda>(p, ms). (Some (jint (query_index p)), map (expected_result fdb) (first_matches [] ms))) pairs"
    unfolding assms(1) by (simp add: case_prod_unfold)
  finally show ?thesis using True
    by (simp add: read_answer_def lookup_answer_def dict_get_def as_dict_def read_results_def case_prod_unfold o_def)
next
  case False
  with assms(2) obtain p ms where p: "pairs = [(p, ms)]" by (metis One_nat_def length_0_conv length_Suc_conv surj_pair)
  with assms(1) obtain index refs where f: "fps = [(index, refs)]" by (cases fps) auto
  with assms(1) p False show ?thesis by (simp add: read_answer_def lookup_answer_def read_results_def dict_get_def)
qed

lemma run_queries_length: "run_queries le diff fdb n ps = Inr mss \<Longrightarrow> length mss = length ps"
proof (induction ps arbitrary: n mss)
  case (Cons p ps)
  then show ?case
    by (cases "run_query le diff fdb n p"; cases "run_queries le diff fdb (Suc n) ps") (auto simp: and_then_def)
qed simp

text \<open>C26: A lookup that asks for recordings answers, for every query in order (with its index in a batch), the first match of each
  track in order of score with the track's identifier and score, and with each of these exactly the MBIDs whose link to the track
  is enabled, in order and whatever other metadata is loaded, grouped and compressed around them.\<close>

theorem lookup_answers_tracks:
  assumes "lookup_internal le v env req user_ip params s = (Inr data, s')" and "le_metadata le"
    and "list_ex (\<lambda>m. m \<in> set (lp_meta params)) [''m2'', ''recordings'', ''recordingids'', ''isrcs'']" and "''usermeta'' \<notin> set (lp_meta params)"
  shows "\<exists>mss. run_queries le (lp_max_duration_diff params) (as_fp s) 0 (lookup_queries params) = Inr mss \<and>
     read_answer v (truthy_int (lp_batch params)) data
       = map (\<lambda>(p, ms). (if truthy_int (lp_batch params) then Some (jint (query_index p)) else None,
                         map (expected_result (as_fp s)) (first_matches [] ms))) (zip (lookup_queries params) mss)"
proof -
  let ?ps = "lookup_queries params"
  let ?b = "truthy_int (lp_batch params)"
  let ?c = "update_user_agent_counter (le_hash le) (le_redis_up le) (le_day le) (lp_application_id params) (rq_user_agent req) user_ip (as_counters s)"
  from assms(1) have few: "\<not> too_many_queries ?ps" by (auto simp: lookup_internal_def Let_def)
  with assms(1) obtain ms where ms: "run_queries le (lp_max_duration_diff params) (as_fp s) 0 ?ps = Inr ms"
    by (auto simp: lookup_internal_def Let_def split: sum.splits)
  with assms(1) few have "?b \<or> ms \<noteq> []" by (auto simp: lookup_internal_def Let_def)
  then have one: "?b \<or> length (zip ?ps ms) = 1"
    using run_queries_length [OF ms] by (cases ms) (auto simp: lookup_queries_def min_def split: if_splits)
  obtain fps rm st c where b: "batch_results le (lp_application_id params) (zip ?ps ms) ([], empty_store) ?c = (fps, (rm, st), c)"
    by (metis prod.collapse)
  have e: "store_typed empty_store" by (simp add: empty_store_def store_typed_def)
  note spec = batch_results_spec [OF b e]
  obtain owners where o: "owned owners rm" "length (lr_results st) = length owners"
    "list_all (\<lambda>(el, recs). map fst el = [''id'', ''score''] \<and> recs = []) (lr_results st)"
    "map (\<lambda>(index, refs). map ((!) owners) refs) fps = map (\<lambda>(p, ms). map fm_track_id (first_matches [] ms)) (zip ?ps ms)"
    using batch_results_owned [OF b owned_Nil] by (auto simp: empty_store_def)
  obtain st' where st': "lists_mbids (as_fp s) owners st'" "answers st' = answers st" "data = lookup_answer v ?b st' fps"
  proof (cases "rm = []")
    case True
    with o(1) have "results_of owners t = []" for t by (auto simp: owned_def split: if_splits)
    then have "owners = []" using nth_mem [of 0 owners] by (fastforce simp: results_of_def filter_empty_conv)
    with o(2) have "lists_mbids (as_fp s) owners st" by (simp add: lists_no_results)
    with that [of st] True assms(1) few ms one b show thesis by (auto simp: lookup_internal_def Let_def split: if_splits)
  next
    case False
    obtain r q where r: "inject_metadata le (as_fp s) (lp_meta params) rm st (as_tasks s) = (r, q)" by fastforce
    have meta: "lp_meta params \<noteq> []" using assms(3) by auto
    from assms(1,2) few ms one b False meta r obtain st' where st': "r = Inr st'" and data: "data = lookup_answer v ?b st' fps"
      by (cases r) (auto simp: lookup_internal_def Let_def split: if_splits)
    have "keeps st st'" using inject_metadata_keeps [of st le "as_fp s" "lp_meta params" rm "as_tasks s"] spec r st' by simp
    moreover have "lists_mbids (as_fp s) owners st'"
      using inject_metadata_lists [OF o(1-3) assms(3,4), of "as_fp s" le "as_tasks s"] r st' by simp
    ultimately show thesis using that data by (simp add: keeps_def)
  qed
  have "length (lr_results st') = length (lr_results st)" using st'(1) o(2) by (simp add: lists_mbids_def)
  with spec st'(2) o(4) have "map (\<lambda>(index, refs). (index, map (read_result v) (map (result_json v st') refs))) fps
       = map (\<lambda>(p, ms). (query_index p, map (expected_result (as_fp s)) (first_matches [] ms))) (zip ?ps ms)"
    by (intro lookup_answer_expected [OF st'(1)]) simp_all
  from read_lookup_answer [OF this one] ms st'(3) show ?thesis by simp
qed

definition demo_lookup_env :: lookup_env where
  "demo_lookup_env = \<lparr>le_search = (\<lambda>n. demo_env), le_timeout = None, le_metadata = True,
     le_mb = \<lparr>mb_replication_dates = [], mb_artist_credit_names = [\<lparr>acn_artist_credit = 5, acn_position = 0, acn_artist = 6, acn_name = ''N'', acn_join_phrase = []\<rparr>],
       mb_artists = [\<lparr>art_id = 6, art_gid = ''a''\<rparr>], mb_artist_credits = [\<lparr>acr_id = 5, acr_name = ''N''\<rparr>],
       mb_recordings = [\<lparr>rec_id = 3, rec_gid = ''m'', rec_name = ''T'', rec_artist_credit = 5, rec_length = Some 1000, rec_comment = []\<rparr>],
       mb_redirects = [], mb_tracks = [], mb_mediums = [], mb_medium_formats = [], mb_releases = [], mb_release_countries = [],
       mb_iso_3166_1s = [], mb_isrcs = [], mb_release_groups = [], mb_primary_types = [], mb_secondary_type_joins = [], mb_secondary_types = []\<rparr>,
     le_redis_up = True, le_hash = (\<lambda>s. 0), le_task_hash = (\<lambda>j. 0), le_day = ''d'', le_hour = ''h''\<rparr>"

definition demo_gid :: string where
  "demo_gid = ''00000000-0000-0000-0000-000000000007''"

definition demo_lookup_state :: api_state where
  "demo_lookup_state = sample_api_state\<lparr>as_fp := empty_fingerprint_db
     \<lparr>t_track := \<lparr>rows = [\<lparr>tr_id = 7, tr_created = 0, tr_updated = None, tr_new_id = None, tr_gid = demo_gid\<rparr>], serial = 8\<rparr>,
      t_track_mbid := \<lparr>rows =
        [\<lparr>lk_id = 1, lk_track_id = 7, lk_value = ''m'', lk_created = 0, lk_updated = None, lk_submission_count = 2, tm_disabled = False, tm_merged_into = None\<rparr>,
         \<lparr>lk_id = 2, lk_track_id = 7, lk_value = ''b'', lk_created = 0, lk_updated = None, lk_submission_count = 1, tm_disabled = True, tm_merged_into = None\<rparr>],
        serial = 3\<rparr>\<rparr>\<rparr>"

definition demo_lookup :: lookup_params where
  "demo_lookup = \<lparr>lp_application_id = 1, lp_meta = [''recordings''], lp_max_duration_diff = 7, lp_batch = None,
     lp_fingerprints = [TrackLookupQuery None demo_gid]\<rparr>"

definition demo_request :: api_request where
  "demo_request = \<lparr>rq_values = Inr [], rq_access_route = [], rq_remote_addr = None, rq_is_secure = True, rq_user_agent = []\<rparr>"

theorem lookup_answers_tracks_witness:
  "\<forall>env. \<exists>data s'. lookup_internal demo_lookup_env V2 env demo_request [] demo_lookup demo_lookup_state = (Inr data, s')
     \<and> read_answer V2 False data = [(None, [((Some (JStr demo_gid), Some (JNum 1)), [Some (JStr ''m'')])])]"
proof
  fix env
  let ?r = "lookup_internal demo_lookup_env V2 env demo_request [] demo_lookup demo_lookup_state"
  have "case fst ?r of Inl e \<Rightarrow> False | Inr data \<Rightarrow> True" by code_simp
  then obtain data s' where r: "?r = (Inr data, s')" by (cases ?r; cases "fst ?r") auto
  have m: "run_queries demo_lookup_env 7 (as_fp demo_lookup_state) 0 (lookup_queries demo_lookup)
      = Inr [[\<lparr>fm_fingerprint_id = 0, fm_track_id = 7, fm_track_gid = demo_gid, fm_score = 1\<rparr>]]" by code_simp
  have q: "lookup_queries demo_lookup = [TrackLookupQuery None demo_gid]" by (simp add: lookup_queries_def demo_lookup_def)
  have x: "enabled_mbids (as_fp demo_lookup_state) 7 = [''m'']" by code_simp
  have d: "lp_max_duration_diff demo_lookup = 7" "truthy_int (lp_batch demo_lookup) = False" by (simp_all add: demo_lookup_def truthy_int_def)
  have h: "le_metadata demo_lookup_env" "list_ex (\<lambda>m. m \<in> set (lp_meta demo_lookup)) [''m2'', ''recordings'', ''recordingids'', ''isrcs'']"
    "''usermeta'' \<notin> set (lp_meta demo_lookup)" by (simp_all add: demo_lookup_env_def demo_lookup_def)
  from lookup_answers_tracks [OF r h] have "read_answer V2 False data = [(None, [((Some (JStr demo_gid), Some (JNum 1)), [Some (JStr ''m'')])])]"
    unfolding d m by (simp add: q x expected_result_def match_answer_def)
  with r show "\<exists>data s'. ?r = (Inr data, s') \<and> read_answer V2 False data = [(None, [((Some (JStr demo_gid), Some (JNum 1)), [Some (JStr ''m'')])])]"
    by blast
qed

end
