(* ===== verification/Index_Client.thy ===== *)
theory Index_Client
  imports Py_Strings "HOL-Library.Sublist"
begin

text \<open>
  \<^verbatim>\<open>indexclient.py\<close>: the line protocol of the fingerprint index over a non-blocking socket, and the pool that threads share. A
  client carries its connection's future: for every request whether \<open>sendall\<close> goes through, and the turns of the loop in
  \<open>_getline\<close>, each with what \<open>select\<close> and \<open>recv\<close> give and whether the deadline has passed at its end. Bytes are characters; the
  protocol is ASCII. The pool numbers the connections it ever opened.
\<close>

subsection \<open>The connection\<close>

datatype recv = Received string | No_data | Would_block | Recv_interrupted | Recv_error

datatype select = Select_interrupted | Select_error | Socket_error | Nothing_ready | Readable "recv list"

record exchange =
  ex_sent :: bool
  ex_turns :: "(select \<times> bool) list"

record index_client =
  ic_open :: bool
  ic_in_transaction :: bool
  ic_created :: rat
  ic_buffer :: string
  ic_sent :: "string list"
  ic_wire :: "exchange list"

text \<open>\<open>_buffer.find(CRLF)\<close>, as the line before it and what follows.\<close>

fun split_line :: "string \<Rightarrow> (string \<times> string) option" where
  "split_line (a # b # s) =
     (if code a = 13 \<and> code b = 10 then Some ([], s)
      else (case split_line (b # s) of None \<Rightarrow> None | Some (line, rest) \<Rightarrow> Some (a # line, rest)))"
| "split_line s = None"

definition crlf :: string where
  "crlf = [char_of (13 :: nat), char_of (10 :: nat)]"

text \<open>The inner loop reads until there is nothing more; the flag says whether it failed.\<close>

fun recv_loop :: "recv list \<Rightarrow> string \<Rightarrow> bool \<times> string" where
  "recv_loop [] buffer = (True, buffer)"
| "recv_loop (Received data # rs) buffer = (if data = [] then (True, buffer) else recv_loop rs (buffer @ data))"
| "recv_loop (No_data # rs) buffer = (True, buffer)"
| "recv_loop (Would_block # rs) buffer = (True, buffer)"
| "recv_loop (Recv_interrupted # rs) buffer = recv_loop rs buffer"
| "recv_loop (Recv_error # rs) buffer = (False, buffer)"

text \<open>
  An interrupted \<open>select\<close> starts the next turn without a look at the clock; the other turns end with it, also when the line is
  complete. The turns end when the deadline has passed. \<open>closer\<close> is \<open>self.close\<close>.
\<close>

fun getline_loop ::
    "(index_client \<Rightarrow> index_client) \<Rightarrow> (select \<times> bool) list \<Rightarrow> index_client \<Rightarrow> (py_exc + string) \<times> index_client" where
  "getline_loop closer [] c =
     (case split_line (ic_buffer c) of
        Some (line, rest) \<Rightarrow> (Inr line, c\<lparr>ic_buffer := rest\<rparr>)
      | None \<Rightarrow> (Inl IndexClientError, closer c))"
| "getline_loop closer ((turn, late) # turns) c =
     (case split_line (ic_buffer c) of
        Some (line, rest) \<Rightarrow> (Inr line, c\<lparr>ic_buffer := rest\<rparr>)
      | None \<Rightarrow>
          (case turn of
             Select_interrupted \<Rightarrow> getline_loop closer turns c
           | Select_error \<Rightarrow> (Inl IndexClientError, closer c)
           | Socket_error \<Rightarrow> (Inl IndexClientError, closer c)
           | Nothing_ready \<Rightarrow> if late then (Inl IndexClientError, closer c) else getline_loop closer turns c
           | Readable rs \<Rightarrow>
               (case recv_loop rs (ic_buffer c) of (ok, buffer) \<Rightarrow>
                  if \<not> ok \<or> late then (Inl IndexClientError, closer (c\<lparr>ic_buffer := buffer\<rparr>))
                  else getline_loop closer turns (c\<lparr>ic_buffer := buffer\<rparr>))))"

text \<open>\<open>_request\<close>, with the \<open>close\<close> it calls as an argument: \<open>close\<close> itself sends a request.\<close>

definition request_with ::
    "(index_client \<Rightarrow> index_client) \<Rightarrow> string \<Rightarrow> index_client \<Rightarrow> (py_exc + string) \<times> index_client" where
  "request_with closer line c =
     (if \<not> ic_open c then (Inl AssertionError, c)
      else
        case ic_wire c of
          [] \<Rightarrow> (Inl IndexClientError, closer c)
        | ex # wire \<Rightarrow>
            if \<not> ex_sent ex then (Inl IndexClientError, closer (c\<lparr>ic_wire := wire\<rparr>))
            else
              case getline_loop closer (ex_turns ex) (c\<lparr>ic_wire := wire, ic_sent := ic_sent c @ [line]\<rparr>) of
                (Inl e, c) \<Rightarrow> (Inl e, c)
              | (Inr answer, c) \<Rightarrow>
                  if prefix ''OK '' answer then (Inr (drop 3 answer), c)
                  else (Inl IndexClientError, if sublist ''unknown command'' answer then closer c else c))"

text \<open>
  \<open>close\<close>: it clears the flag first, so that the \<open>close\<close> a failing rollback calls sends nothing more; that one is \<open>close_idle\<close>.
  After it, \<open>self.sock.close()\<close> fails on \<open>None\<close> and the failure is swallowed.
\<close>

definition close_idle :: "index_client \<Rightarrow> index_client" where
  "close_idle c = c\<lparr>ic_in_transaction := False, ic_open := False\<rparr>"

definition index_close :: "index_client \<Rightarrow> index_client" where
  "index_close c =
     (let was_in_transaction = ic_in_transaction c; c = c\<lparr>ic_in_transaction := False\<rparr>;
          c = (if ic_open c \<and> was_in_transaction then snd (request_with close_idle ''rollback'' c) else c)
      in c\<lparr>ic_open := False\<rparr>)"

definition index_request :: "string \<Rightarrow> index_client \<Rightarrow> (py_exc + string) \<times> index_client" where
  "index_request = request_with index_close"

subsection \<open>The commands\<close>

definition index_ping :: "index_client \<Rightarrow> (py_exc + unit) \<times> index_client" where
  "index_ping c = (case index_request ''echo'' c of (Inl e, c) \<Rightarrow> (Inl e, c) | (Inr answer, c) \<Rightarrow> (Inr (), c))"

definition index_get_attribute :: "string \<Rightarrow> index_client \<Rightarrow> (py_exc + string) \<times> index_client" where
  "index_get_attribute name = index_request (''get attribute '' @ name)"

definition index_set_attribute :: "string \<Rightarrow> string \<Rightarrow> index_client \<Rightarrow> (py_exc + unit) \<times> index_client" where
  "index_set_attribute name v c =
     (case index_request (''set attribute '' @ name @ '' '' @ v) c of (Inl e, c) \<Rightarrow> (Inl e, c) | (Inr answer, c) \<Rightarrow> (Inr (), c))"

definition encode_fp :: "int list \<Rightarrow> string" where
  "encode_fp data = str_join '','' (map int_str data)"

definition parse_result :: "string \<Rightarrow> py_exc + int \<times> int" where
  "parse_result r =
     (let values = map py_int (str_split (CHR '':'') r)
      in if None \<in> set values then Inl ValueError
         else (case values of [Some i, Some score] \<Rightarrow> Inr (i, score) | _ \<Rightarrow> Inl TypeError))"

definition index_search :: "int list \<Rightarrow> index_client \<Rightarrow> (py_exc + (int \<times> int) list) \<times> index_client" where
  "index_search fingerprint c =
     (case index_request (''search '' @ encode_fp fingerprint) c of
        (Inl e, c) \<Rightarrow> (Inl e, c)
      | (Inr line, c) \<Rightarrow> (if line = [] then Inr [] else each parse_result (str_split (CHR '' '') line), c))"

definition index_begin :: "index_client \<Rightarrow> (py_exc + unit) \<times> index_client" where
  "index_begin c =
     (if ic_in_transaction c then (Inl IndexClientError, c)
      else case index_request ''begin'' c of (Inl e, c) \<Rightarrow> (Inl e, c) | (Inr answer, c) \<Rightarrow> (Inr (), c\<lparr>ic_in_transaction := True\<rparr>))"

definition index_commit :: "index_client \<Rightarrow> (py_exc + unit) \<times> index_client" where
  "index_commit c =
     (if \<not> ic_in_transaction c then (Inl IndexClientError, c)
      else case index_request ''commit'' c of (Inl e, c) \<Rightarrow> (Inl e, c) | (Inr answer, c) \<Rightarrow> (Inr (), c\<lparr>ic_in_transaction := False\<rparr>))"

definition index_rollback :: "index_client \<Rightarrow> (py_exc + unit) \<times> index_client" where
  "index_rollback c =
     (if \<not> ic_in_transaction c then (Inl IndexClientError, c)
      else case index_request ''rollback'' c of (Inl e, c) \<Rightarrow> (Inl e, c) | (Inr answer, c) \<Rightarrow> (Inr (), c\<lparr>ic_in_transaction := False\<rparr>))"

definition index_insert :: "int \<Rightarrow> int list \<Rightarrow> index_client \<Rightarrow> (py_exc + string) \<times> index_client" where
  "index_insert i fingerprint = index_request (''insert '' @ int_str i @ '' '' @ encode_fp fingerprint)"

subsection \<open>Closing\<close>

lemma close_idle_simps [simp]: "\<not> ic_open (close_idle c)" "\<not> ic_in_transaction (close_idle c)" "ic_buffer (close_idle c) = ic_buffer c"
  by (simp_all add: close_idle_def)

lemma index_close_closed [simp]: "\<not> ic_open (index_close c)"
  by (simp add: index_close_def Let_def)

text \<open>The unrolled recursion: outside a transaction \<open>close\<close> is \<open>close_idle\<close>, and the request a \<open>close\<close> sends is outside one.\<close>

lemma close_outside_transaction: "\<not> ic_in_transaction c \<Longrightarrow> index_close c = close_idle c"
  by (simp add: index_close_def close_idle_def Let_def)

lemma getline_closer:
  "(\<And>d. \<not> ic_in_transaction d \<Longrightarrow> f d = g d) \<Longrightarrow> \<not> ic_in_transaction c \<Longrightarrow> getline_loop f turns c = getline_loop g turns c"
proof (induction turns arbitrary: c)
  case (Cons turn turns)
  obtain t late where "turn = (t, late)" by fastforce
  with Cons show ?case by (simp split: option.split prod.split select.split)
qed (simp split: option.split)

subsection \<open>Framing\<close>

lemma split_line_some: "split_line s = Some (line, rest) \<Longrightarrow> s = line @ crlf @ rest"
proof (induction s arbitrary: line rule: split_line.induct)
  case (1 a b s)
  show ?case
  proof (cases "code a = 13 \<and> code b = 10")
    case True
    then have "a = char_of (13 :: nat)" "b = char_of (10 :: nat)" by (metis char_of_char)+
    with True "1.prems" show ?thesis by (simp add: crlf_def)
  next
    case False
    with "1.prems" obtain l where "split_line (b # s) = Some (l, rest)" "line = a # l" by (auto split: option.splits)
    with "1.IH" [OF False] show ?thesis by simp
  qed
qed simp_all

lemma split_line_more: "split_line s = Some (line, rest) \<Longrightarrow> split_line (s @ t) = Some (line, rest @ t)"
proof (induction s arbitrary: line rule: split_line.induct)
  case (1 a b s)
  then show ?case by (auto split: option.splits if_splits)
qed simp_all

text \<open>What the turns receive, failed reads and turns after the deadline included.\<close>

definition turn_data :: "select \<Rightarrow> string" where
  "turn_data t = (case t of Readable rs \<Rightarrow> snd (recv_loop rs []) | _ \<Rightarrow> [])"

definition exchange_data :: "(select \<times> bool) list \<Rightarrow> string" where
  "exchange_data turns = concat (map (\<lambda>(t, late). turn_data t) turns)"

lemma recv_loop_buffer: "recv_loop rs b = (fst (recv_loop rs []), b @ snd (recv_loop rs []))"
proof (induction rs arbitrary: b)
  case (Cons r rs)
  show ?case
  proof (cases r)
    case (Received d)
    show ?thesis using Cons.IH [of "b @ d"] Cons.IH [of d] by (simp add: Received)
  next
    case Recv_interrupted
    show ?thesis using Cons.IH [of b] by (simp add: Recv_interrupted)
  qed simp_all
qed simp

lemma exchange_data_Cons [simp]: "exchange_data [] = []" "exchange_data ((t, late) # turns) = turn_data t @ exchange_data turns"
  by (simp_all add: exchange_data_def)

text \<open>How \<open>_getline\<close> ends: with the first line of what has been received, or with the client closed.\<close>

definition line_read ::
    "(index_client \<Rightarrow> index_client) \<Rightarrow> (select \<times> bool) list \<Rightarrow> index_client \<Rightarrow> (py_exc + string) \<times> index_client \<Rightarrow> bool" where
  "line_read closer turns c out \<longleftrightarrow> (\<exists>data buffer. prefix data (exchange_data turns) \<and>
     (case out of
        (Inr line, c') \<Rightarrow> split_line (ic_buffer c @ data) = Some (line, buffer) \<and> c' = c\<lparr>ic_buffer := buffer\<rparr>
      | (Inl e, c') \<Rightarrow> e = IndexClientError \<and> c' = closer (c\<lparr>ic_buffer := ic_buffer c @ data\<rparr>)))"

lemma line_readI:
  "prefix data (exchange_data turns) \<Longrightarrow> split_line (ic_buffer c @ data) = Some (line, buffer) \<Longrightarrow> line_read f turns c (Inr line, c\<lparr>ic_buffer := buffer\<rparr>)"
  "prefix data (exchange_data turns) \<Longrightarrow> line_read f turns c (Inl IndexClientError, f (c\<lparr>ic_buffer := ic_buffer c @ data\<rparr>))"
  by (auto simp: line_read_def)

lemma line_read_closed: "line_read f turns c (Inl IndexClientError, f c)"
  using line_readI(2) [of "[]" turns f c] by simp

lemma line_read_later:
  "line_read f turns (c\<lparr>ic_buffer := ic_buffer c @ turn_data t\<rparr>) out \<Longrightarrow> line_read f ((t, late) # turns) c out"
  unfolding line_read_def by (erule exE)+ (rule exI [of _ "turn_data t @ _"], force split: prod.splits sum.splits)

lemma getline_reads: "line_read f turns c (getline_loop f turns c)"
proof (induction turns arbitrary: c)
  case Nil
  show ?case using line_readI(1) [of "[]" "[]" c] by (auto simp: line_read_closed split: option.split)
next
  case (Cons turn turns)
  obtain t late where turn: "turn = (t, late)" by fastforce
  show ?case
  proof (cases "split_line (ic_buffer c)")
    case (Some lr)
    then show ?thesis using line_readI(1) [of "[]" "turn # turns" c] by (cases lr) (simp add: turn)
  next
    case None
    have nodata: "turn_data t = [] \<Longrightarrow> line_read f ((t, late) # turns) c (getline_loop f turns c)"
      using line_read_later [of f turns c t "getline_loop f turns c" late] Cons.IH [of c] by simp
    show ?thesis
    proof (cases t)
      case (Readable rs)
      have d: "recv_loop rs (ic_buffer c) = (fst (recv_loop rs []), ic_buffer c @ turn_data t)"
        using recv_loop_buffer [of rs "ic_buffer c"] by (simp add: turn_data_def Readable)
      show ?thesis
      proof (cases "\<not> fst (recv_loop rs []) \<or> late")
        case True
        then show ?thesis using None d line_readI(2) [of "turn_data t" "turn # turns" f c] by (simp add: turn Readable)
      next
        case False
        then show ?thesis using None d line_read_later [where t = t and late = late, OF Cons.IH] by (simp add: turn Readable)
      qed
    qed (use None nodata in \<open>auto simp: turn line_read_closed turn_data_def\<close>)
  qed
qed

text \<open>A turn that receives what there is, in time.\<close>

fun good_turn :: "select \<times> bool \<Rightarrow> bool" where
  "good_turn (Select_interrupted, late) \<longleftrightarrow> True"
| "good_turn (Nothing_ready, late) \<longleftrightarrow> \<not> late"
| "good_turn (Readable rs, late) \<longleftrightarrow> \<not> late \<and> fst (recv_loop rs [])"
| "good_turn (t, late) \<longleftrightarrow> False"

lemma getline_answer:
  "list_all good_turn turns \<Longrightarrow> split_line (ic_buffer c @ exchange_data turns) = Some (line, []) \<Longrightarrow>
     getline_loop f turns c = (Inr line, c\<lparr>ic_buffer := []\<rparr>)"
proof (induction turns arbitrary: c)
  case (Cons turn turns)
  obtain t late where turn: "turn = (t, late)" by fastforce
  show ?case
  proof (cases "split_line (ic_buffer c)")
    case (Some lr)
    obtain l r where "lr = (l, r)" by fastforce
    with Some Cons.prems(2) split_line_more [of "ic_buffer c" l r "exchange_data (turn # turns)"] show ?thesis by (simp add: turn)
  next
    case None
    show ?thesis
    proof (cases t)
      case (Readable rs)
      have d: "recv_loop rs (ic_buffer c) = (fst (recv_loop rs []), ic_buffer c @ turn_data t)"
        using recv_loop_buffer [of rs "ic_buffer c"] by (simp add: turn_data_def Readable)
      show ?thesis
        using None d Cons.prems Cons.IH [of "c\<lparr>ic_buffer := ic_buffer c @ turn_data t\<rparr>"] by (simp add: turn Readable)
    qed (use None Cons turn in \<open>auto simp: turn_data_def\<close>)
  qed
qed (simp split: option.split)

subsection \<open>Requests and their answers\<close>

text \<open>A line of the server, and an exchange in which at most this line arrives, whole or in part.\<close>

definition one_line :: "string \<Rightarrow> bool" where
  "one_line line \<longleftrightarrow> split_line (line @ crlf) = Some (line, [])"

definition framed :: "exchange \<Rightarrow> string \<Rightarrow> bool" where
  "framed ex line \<longleftrightarrow> one_line line \<and> prefix (exchange_data (ex_turns ex)) (line @ crlf)"

lemma one_line_no_cr: "list_all (\<lambda>ch. code ch \<noteq> 13) line \<Longrightarrow> one_line line"
proof (induction line)
  case Nil
  show ?case by (simp add: one_line_def crlf_def)
next
  case (Cons ch line)
  then have "split_line (line @ crlf) = Some (line, [])" by (simp add: one_line_def)
  moreover obtain b t where "line @ crlf = b # t" by (cases line) (auto simp: crlf_def)
  ultimately show ?case using Cons.prems by (simp add: one_line_def)
qed

lemma framed_line:
  assumes "framed ex line" and "prefix data (exchange_data (ex_turns ex))" and "split_line data = Some (l, buffer)"
  shows "l = line \<and> buffer = []"
proof -
  from assms(1,2) obtain rest where "data @ rest = line @ crlf" unfolding framed_def prefix_def by auto
  with split_line_more [OF assms(3), of rest] assms(1) show ?thesis by (simp add: framed_def one_line_def)
qed

lemma request_framed:
  assumes r: "index_request q c = (r, c')" and c: "ic_open c" "ic_buffer c = []" and w: "ic_wire c = ex # wire" "framed ex line"
  shows "(ic_open c' \<longrightarrow> ic_buffer c' = [] \<and> ic_wire c' = wire) \<and> (case r of Inr answer \<Rightarrow> line = ''OK '' @ answer | Inl e \<Rightarrow> True)"
proof (cases "ex_sent ex")
  case False
  with r c w show ?thesis by (auto simp: index_request_def request_with_def)
next
  case True
  let ?c = "c\<lparr>ic_wire := wire, ic_sent := ic_sent c @ [q]\<rparr>"
  obtain g d where g: "getline_loop index_close (ex_turns ex) ?c = (g, d)" by fastforce
  have read: "line_read index_close (ex_turns ex) ?c (g, d)" using getline_reads [of index_close "ex_turns ex" ?c] g by simp
  show ?thesis
  proof (cases g)
    case (Inl e)
    with read have "\<not> ic_open d" by (auto simp: line_read_def)
    with r c w True g Inl show ?thesis by (auto simp: index_request_def request_with_def)
  next
    case (Inr answer)
    with read obtain data buffer where "prefix data (exchange_data (ex_turns ex))" "split_line data = Some (answer, buffer)"
      and d: "d = ?c\<lparr>ic_buffer := buffer\<rparr>" by (auto simp: line_read_def c)
    with framed_line [OF w(2)] have a: "answer = line" "buffer = []" by simp_all
    show ?thesis
    proof (cases "prefix ''OK '' answer")
      case True
      with r c w \<open>ex_sent ex\<close> g Inr have "r = Inr (drop 3 answer)" "c' = d" by (simp_all add: index_request_def request_with_def)
      with True a d show ?thesis by (auto elim!: prefixE)
    next
      case False
      with r c w \<open>ex_sent ex\<close> g Inr have "r = Inl IndexClientError" "ic_open c' \<longrightarrow> c' = d"
        by (auto simp: index_request_def request_with_def split: if_splits)
      with a d show ?thesis by auto
    qed
  qed
qed

fun index_requests :: "string list \<Rightarrow> index_client \<Rightarrow> (py_exc + string) list \<times> index_client" where
  "index_requests [] c = ([], c)"
| "index_requests (q # qs) c =
     (let (r, c) = index_request q c; (rs, c) = index_requests qs c in (r # rs, c))"

lemma closed_requests: "\<not> ic_open c \<Longrightarrow> index_requests qs c = (map (\<lambda>q. Inl AssertionError) qs, c)"
  by (induction qs) (simp_all add: index_request_def request_with_def)

text \<open>C28: No request is ever answered with the answer of another one: on a connection whose server sends at most one line for each
  request, whole or in part, in any pieces, in time or not, every request of a sequence that succeeds gets the line the server sent for it,
  also after requests that were refused or ran out of time.\<close>

theorem no_stale_answers:
  assumes "ic_buffer c = []" and "list_all2 framed (ic_wire c) lines" and "index_requests qs c = (rs, c')"
  shows "list_all (\<lambda>(r, line). case r of Inr answer \<Rightarrow> line = ''OK '' @ answer | Inl e \<Rightarrow> True) (zip rs lines)"
  using assms
proof (induction qs arbitrary: c lines rs)
  case (Cons q qs)
  show ?case
  proof (cases "ic_open c")
    case False
    with Cons.prems(3) have "rs = map (\<lambda>q. Inl AssertionError) (q # qs)" using closed_requests [OF False, of "q # qs"] by simp
    then show ?thesis by (auto simp: list_all_iff dest!: set_zip_leftD)
  next
    case True
    obtain r d where r: "index_request q c = (r, d)" by fastforce
    obtain rs' where rest: "index_requests qs d = (rs', c')" and rs: "rs = r # rs'"
      using Cons.prems(3) r by (auto simp: Let_def split: prod.splits)
    show ?thesis
    proof (cases "ic_wire c")
      case Nil
      with Cons.prems(2) show ?thesis by simp
    next
      case (Cons ex wire)
      with Cons.prems(2) obtain line lines' where l: "lines = line # lines'" "framed ex line" "list_all2 framed wire lines'"
        by (auto simp: list_all2_Cons1)
      note one = request_framed [OF r True Cons.prems(1) Cons l(2)]
      have "list_all (\<lambda>(r, line). case r of Inr answer \<Rightarrow> line = ''OK '' @ answer | Inl e \<Rightarrow> True) (zip rs' lines')"
      proof (cases "ic_open d")
        case True
        with one l(3) Cons.IH [OF _ _ rest] show ?thesis by simp
      next
        case False
        with rest closed_requests [OF False, of qs] show ?thesis by (auto simp: list_all_iff dest!: set_zip_leftD)
      qed
      with one show ?thesis by (simp add: rs l(1))
    qed
  qed
qed simp

theorem no_stale_answers_witness:
  "let late = [(Nothing_ready, False), (Readable [Received ''OK 1:'', Would_block], True)];
       answer = [(Readable [Received (''OK 2:5'' @ [char_of (13 :: nat)])], False), (Select_interrupted, False), (Readable [Received [char_of (10 :: nat)]], False)];
       c = \<lparr>ic_open = True, ic_in_transaction = False, ic_created = 0, ic_buffer = [], ic_sent = [],
              ic_wire = [\<lparr>ex_sent = True, ex_turns = answer\<rparr>, \<lparr>ex_sent = True, ex_turns = late\<rparr>, \<lparr>ex_sent = True, ex_turns = answer\<rparr>]\<rparr>;
       rs = fst (index_requests [''search 7'', ''search 8'', ''search 9''] c)
   in rs = [Inr ''2:5'', Inl IndexClientError, Inl AssertionError] \<and>
      list_all (\<lambda>(r, line). case r of Inr answer \<Rightarrow> line = ''OK '' @ answer | Inl e \<Rightarrow> True) (zip rs [''OK 2:5'', ''OK 1:1'', ''OK 2:5''])"
proof -
  let ?late = "[(Nothing_ready, False), (Readable [Received ''OK 1:'', Would_block], True)]"
  let ?answer = "[(Readable [Received (''OK 2:5'' @ [char_of (13 :: nat)])], False), (Select_interrupted, False), (Readable [Received [char_of (10 :: nat)]], False)]"
  let ?c = "\<lparr>ic_open = True, ic_in_transaction = False, ic_created = 0, ic_buffer = [], ic_sent = [],
              ic_wire = [\<lparr>ex_sent = True, ex_turns = ?answer\<rparr>, \<lparr>ex_sent = True, ex_turns = ?late\<rparr>, \<lparr>ex_sent = True, ex_turns = ?answer\<rparr>]\<rparr>"
  have f: "list_all2 framed (ic_wire ?c) [''OK 2:5'', ''OK 1:1'', ''OK 2:5'']"
    by (simp add: framed_def one_line_no_cr exchange_data_def turn_data_def crlf_def)
  have r: "fst (index_requests [''search 7'', ''search 8'', ''search 9''] ?c) = [Inr ''2:5'', Inl IndexClientError, Inl AssertionError]"
    by code_simp
  obtain c' where "index_requests [''search 7'', ''search 8'', ''search 9''] ?c = (fst (index_requests [''search 7'', ''search 8'', ''search 9''] ?c), c')"
    by (metis prod.collapse)
  from no_stale_answers [OF _ f this] r show ?thesis by (simp only: Let_def) simp
qed

subsection \<open>Searching\<close>

text \<open>The server's answer to a search: the matches, \<open>id:score\<close>.\<close>

definition match_text :: "int \<times> int \<Rightarrow> string" where
  "match_text m = int_str (fst m) @ '':'' @ int_str (snd m)"

definition search_answer :: "(int \<times> int) list \<Rightarrow> string" where
  "search_answer ms = ''OK '' @ str_join '' '' (map match_text ms)"

lemma int_str_plain: "c \<in> set (int_str i) \<Longrightarrow> c \<noteq> CHR '' '' \<and> c \<noteq> CHR '':'' \<and> code c \<noteq> 13"
  using int_str_chars [of c i] by (auto simp: is_digit_def)

lemma parse_result_text: "parse_result (match_text m) = Inr m"
proof -
  have "str_split (CHR '':'') (match_text m) = [int_str (fst m), int_str (snd m)]"
    using str_split_append [OF int_str_no_colon, of "fst m" "int_str (snd m)"] str_split_no_sep [OF int_str_no_colon]
    by (simp add: match_text_def)
  then show ?thesis by (simp add: parse_result_def)
qed

lemma parse_matches: "ms \<noteq> [] \<Longrightarrow> each parse_result (str_split (CHR '' '') (str_join '' '' (map match_text ms))) = Inr ms"
proof -
  assume ne: "ms \<noteq> []"
  have "CHR '' '' \<notin> set (match_text m)" for m
    using int_str_plain by (auto simp: match_text_def)
  then have "str_split (CHR '' '') (str_join '' '' (map match_text ms)) = map match_text ms"
    using ne by (intro str_split_join) auto
  moreover have "each parse_result (map match_text ms) = Inr ms" by (induction ms) (simp_all add: parse_result_text and_then_def)
  ultimately show ?thesis by simp
qed

lemma str_join_chars: "c \<in> set (str_join sep ws) \<Longrightarrow> c \<in> set sep \<or> (\<exists>w \<in> set ws. c \<in> set w)"
  by (induction sep ws rule: str_join.induct) auto

lemma search_answer_line: "one_line (search_answer ms)"
proof -
  have "code c \<noteq> 13" if "c \<in> set (str_join '' '' (map match_text ms))" for c
    using str_join_chars [OF that] int_str_plain by (auto simp: match_text_def)
  then show ?thesis by (intro one_line_no_cr) (auto simp: search_answer_def list_all_iff)
qed

text \<open>A search gives back exactly the matches the server answered, and the connection is then ready for the next
  request, whatever pieces the answer arrives in and whatever interruptions come between them.\<close>

lemma index_search_answers:
  assumes "ic_open c" and "ic_buffer c = []" and "ic_wire c = ex # wire" and "ex_sent ex" and "list_all good_turn (ex_turns ex)"
    and "exchange_data (ex_turns ex) = search_answer ms @ crlf"
  shows "index_search fp c = (Inr ms, c\<lparr>ic_wire := wire, ic_sent := ic_sent c @ [''search '' @ encode_fp fp]\<rparr>)"
proof -
  let ?c = "c\<lparr>ic_wire := wire, ic_sent := ic_sent c @ [''search '' @ encode_fp fp]\<rparr>"
  have "getline_loop index_close (ex_turns ex) ?c = (Inr (search_answer ms), ?c\<lparr>ic_buffer := []\<rparr>)"
    using search_answer_line [of ms] assms by (intro getline_answer) (simp_all add: one_line_def)
  moreover have "?c\<lparr>ic_buffer := []\<rparr> = ?c" using assms(2) by simp
  ultimately have "index_request (''search '' @ encode_fp fp) c = (Inr (str_join '' '' (map match_text ms)), ?c)"
    using assms(1,3,4) by (simp add: index_request_def request_with_def search_answer_def)
  moreover have "str_join '' '' (map match_text ms) = [] \<Longrightarrow> ms = []"
    by (cases ms rule: list.exhaust; cases "tl ms") (simp_all add: match_text_def)
  ultimately show ?thesis using parse_matches [of ms] by (cases "ms = []") (auto simp: index_search_def)
qed

end
