(* ===== verification/Index_Pool.thy ===== *)
theory Index_Pool
  imports Index_Client
begin

text \<open>
  \<open>IndexClientPool\<close> and \<open>IndexClientWrapper\<close> of \<^verbatim>\<open>indexclient.py\<close>. The connections ever opened are numbered; the pool keeps the numbers
  of the idle ones, oldest first, and a wrapper is the number of the connection it holds. The lock is held over the operations on the
  deque only, so threads interleave between them: \<open>pool_step\<close> is what one thread does without letting go of the lock or while it alone
  holds a connection, and the operations of the source are sequences of such steps.
\<close>

subsection \<open>The pool\<close>

record index_pool =
  po_clients :: "index_client list"
  po_idle :: "nat list"
  po_max_idle :: int
  po_recycle :: int
  po_peers :: "exchange list option list"

definition on_client :: "nat \<Rightarrow> (index_client \<Rightarrow> 'r \<times> index_client) \<Rightarrow> index_pool \<Rightarrow> 'r \<times> index_pool" where
  "on_client i f p = (case f (po_clients p ! i) of (r, c) \<Rightarrow> (r, p\<lparr>po_clients := (po_clients p)[i := c]\<rparr>))"

definition close_client :: "nat \<Rightarrow> index_pool \<Rightarrow> index_pool" where
  "close_client i p = snd (on_client i (\<lambda>c. ((), index_close c)) p)"

text \<open>\<open>IndexClient(**self.args)\<close>: the next peer answers with what its connection will give, or the connection fails.\<close>

definition new_client :: "rat \<Rightarrow> index_pool \<Rightarrow> (py_exc + nat) \<times> index_pool" where
  "new_client now p =
     (case po_peers p of
        Some wire # peers \<Rightarrow>
          (Inr (length (po_clients p)),
           p\<lparr>po_peers := peers,
             po_clients := po_clients p @ [\<lparr>ic_open = True, ic_in_transaction = False, ic_created = now, ic_buffer = [], ic_sent = [], ic_wire = wire\<rparr>]\<rparr>)
      | None # peers \<Rightarrow> (Inl IndexClientConnectError, p\<lparr>po_peers := peers\<rparr>)
      | [] \<Rightarrow> (Inl IndexClientConnectError, p))"

text \<open>\<open>except IndexClientError\<close> catches the connection error too; nothing else is caught.\<close>

definition is_index_error :: "py_exc \<Rightarrow> bool" where
  "is_index_error e \<longleftrightarrow> e = IndexClientError \<or> e = IndexClientConnectError"

definition pool_connect :: "rat \<Rightarrow> index_pool \<Rightarrow> (py_exc + nat) \<times> index_pool" where
  "pool_connect now p =
     (case po_idle p of
        [] \<Rightarrow> new_client now p
      | i # idle \<Rightarrow>
          let p = p\<lparr>po_idle := idle\<rparr>;
              (r, p) = (if po_recycle p > 0 \<and> ic_created (po_clients p ! i) + of_int (po_recycle p) < now
                        then (Inl IndexClientError, p) else on_client i index_ping p)
          in case r of
               Inr u \<Rightarrow> (Inr i, p)
             | Inl e \<Rightarrow> if is_index_error e then new_client now (close_client i p) else (Inl e, p))"

definition pool_release :: "nat \<Rightarrow> index_pool \<Rightarrow> index_pool" where
  "pool_release i p =
     (if \<not> ic_open (po_clients p ! i) then p
      else if int (length (po_idle p)) < po_max_idle p then p\<lparr>po_idle := po_idle p @ [i]\<rparr>
      else close_client i p)"

definition wrapper_close :: "nat \<Rightarrow> index_pool \<Rightarrow> (py_exc + unit) \<times> index_pool" where
  "wrapper_close i p =
     (let (r, p) = (if ic_in_transaction (po_clients p ! i) then on_client i index_rollback p else (Inr (), p))
      in (r, pool_release i p))"

fun dispose_each :: "nat list \<Rightarrow> index_pool \<Rightarrow> index_pool" where
  "dispose_each [] p = p"
| "dispose_each (i # idle) p = dispose_each idle (close_client i (p\<lparr>po_idle := idle\<rparr>))"

definition pool_dispose :: "index_pool \<Rightarrow> index_pool" where
  "pool_dispose p = dispose_each (po_idle p) p"

subsection \<open>Steps of the threads\<close>

datatype client_call = Ping | Get_attribute string | Set_attribute string string | Search "int list" | Begin | Commit | Rollback
  | Insert int "int list" | Close

fun run_call :: "client_call \<Rightarrow> index_client \<Rightarrow> index_client" where
  "run_call Ping c = snd (index_ping c)"
| "run_call (Get_attribute name) c = snd (index_get_attribute name c)"
| "run_call (Set_attribute name v) c = snd (index_set_attribute name v c)"
| "run_call (Search fp) c = snd (index_search fp c)"
| "run_call Begin c = snd (index_begin c)"
| "run_call Commit c = snd (index_commit c)"
| "run_call Rollback c = snd (index_rollback c)"
| "run_call (Insert i fp) c = snd (index_insert i fp c)"
| "run_call Close c = index_close c"

text \<open>\<open>held\<close> are the connections that some thread has in its hands.\<close>

inductive pool_step :: "index_pool \<times> nat set \<Rightarrow> index_pool \<times> nat set \<Rightarrow> bool" where
  take_idle: "po_idle p = i # idle \<Longrightarrow> pool_step (p, held) (p\<lparr>po_idle := idle\<rparr>, insert i held)"
| open_new: "new_client now p = (Inr i, p') \<Longrightarrow> pool_step (p, held) (p', insert i held)"
| open_fails: "new_client now p = (Inl e, p') \<Longrightarrow> pool_step (p, held) (p', held)"
| use: "i \<in> held \<Longrightarrow> pool_step (p, held) (p\<lparr>po_clients := (po_clients p)[i := run_call call (po_clients p ! i)]\<rparr>, held)"
| give_back: "i \<in> held \<Longrightarrow> ic_open (po_clients p ! i) \<Longrightarrow> int (length (po_idle p)) < po_max_idle p \<Longrightarrow>
     pool_step (p, held) (p\<lparr>po_idle := po_idle p @ [i]\<rparr>, held - {i})"
| forget: "i \<in> held \<Longrightarrow> \<not> ic_open (po_clients p ! i) \<Longrightarrow> pool_step (p, held) (p, held - {i})"

inductive_cases pool_stepE: "pool_step (p, held) s"

definition empty_pool :: "int \<Rightarrow> int \<Rightarrow> exchange list option list \<Rightarrow> index_pool" where
  "empty_pool max_idle recycle peers = \<lparr>po_clients = [], po_idle = [], po_max_idle = max_idle, po_recycle = recycle, po_peers = peers\<rparr>"

text \<open>Every open connection is in one place: idle once, or in the hands of a thread.\<close>

definition pool_ok :: "index_pool \<times> nat set \<Rightarrow> bool" where
  "pool_ok s \<longleftrightarrow>
     (case s of (p, held) \<Rightarrow>
        distinct (po_idle p) \<and> set (po_idle p) \<inter> held = {} \<and> int (length (po_idle p)) \<le> max 0 (po_max_idle p) \<and>
        (\<forall>i < length (po_clients p). ic_open (po_clients p ! i) \<longrightarrow> i \<in> set (po_idle p) \<or> i \<in> held) \<and>
        (\<forall>i \<in> set (po_idle p). i < length (po_clients p) \<and> ic_open (po_clients p ! i)) \<and> (\<forall>i \<in> held. i < length (po_clients p)))"

lemma new_client_result:
  "new_client now p = (r, p') \<Longrightarrow> po_idle p' = po_idle p \<and> po_max_idle p' = po_max_idle p \<and> po_recycle p' = po_recycle p \<and>
     (case r of Inl e \<Rightarrow> po_clients p' = po_clients p
      | Inr i \<Rightarrow> i = length (po_clients p) \<and> (\<exists>c. po_clients p' = po_clients p @ [c] \<and> ic_open c \<and> \<not> ic_in_transaction c \<and> ic_buffer c = []))"
  by (auto simp: new_client_def split: list.splits option.splits)

lemma pool_ok_step: "pool_step s s' \<Longrightarrow> pool_ok s \<Longrightarrow> pool_ok s'"
proof (induction rule: pool_step.induct)
  case (open_new now p i p' held)
  from new_client_result [OF open_new(1)] obtain c where
    n: "po_idle p' = po_idle p" "po_max_idle p' = po_max_idle p" "i = length (po_clients p)" "po_clients p' = po_clients p @ [c]" by auto
  have "i \<notin> set (po_idle p)" using open_new(2) n(3) by (auto simp: pool_ok_def)
  with open_new(2) n show ?case by (auto simp: pool_ok_def nth_append less_Suc_eq)
next
  case (open_fails now p e p' held)
  with new_client_result [OF open_fails(1)] show ?case by (simp add: pool_ok_def)
next
  case (use i held p call)
  then have "i \<notin> set (po_idle p)" by (auto simp: pool_ok_def)
  with use show ?case by (auto simp: pool_ok_def nth_list_update)
qed (auto simp: pool_ok_def)

lemma pool_ok_steps: "pool_step\<^sup>*\<^sup>* s s' \<Longrightarrow> pool_ok s \<Longrightarrow> pool_ok s'"
  by (induction rule: rtranclp_induct) (auto intro: pool_ok_step)

lemma pool_ok_empty: "pool_ok (empty_pool max_idle recycle peers, {})"
  by (simp add: pool_ok_def empty_pool_def)

text \<open>C29: However threads interleave and whatever the index server does, the pool accounts for every connection: an open connection is
  either idle, once, or in the hands of a thread, never both and never lost; idle connections are open and at most as many as
  configured.\<close>

theorem pool_accounts_for_connections:
  assumes "pool_step\<^sup>*\<^sup>* (empty_pool max_idle recycle peers, {}) (p, held)"
  shows "distinct (po_idle p) \<and> set (po_idle p) \<inter> held = {} \<and> int (length (po_idle p)) \<le> max 0 max_idle \<and>
     {i. i < length (po_clients p) \<and> ic_open (po_clients p ! i)} \<subseteq> set (po_idle p) \<union> held \<and>
     set (po_idle p) \<subseteq> {i. i < length (po_clients p) \<and> ic_open (po_clients p ! i)}"
proof -
  have step: "po_max_idle (fst s') = po_max_idle (fst s)" if "pool_step s s'" for s s'
    using that by (induction rule: pool_step.induct) (auto dest: new_client_result)
  have "po_max_idle (fst s') = po_max_idle (fst s)" if "pool_step\<^sup>*\<^sup>* s s'" for s s'
    using that by (induction rule: rtranclp_induct) (auto dest: step)
  from this [OF assms] have "po_max_idle p = max_idle" by (simp add: empty_pool_def)
  with pool_ok_steps [OF assms pool_ok_empty] show ?thesis by (auto simp: pool_ok_def)
qed

theorem pool_accounts_for_connections_witness:
  "let p = (empty_pool 1 0 [Some [], Some []])\<lparr>po_idle := [0], po_peers := [],
         po_clients := map (\<lambda>now. \<lparr>ic_open = True, ic_in_transaction = False, ic_created = now, ic_buffer = [], ic_sent = [], ic_wire = []\<rparr>) [3, 4]\<rparr>
   in pool_step\<^sup>*\<^sup>* (empty_pool 1 0 [Some [], Some []], {}) (p, {1}) \<and> distinct (po_idle p) \<and> set (po_idle p) \<inter> {1} = {}"
proof -
  let ?e = "empty_pool 1 0 [Some [], Some []]"
  let ?c = "\<lambda>now. \<lparr>ic_open = True, ic_in_transaction = False, ic_created = now, ic_buffer = [], ic_sent = [], ic_wire = []\<rparr>"
  let ?p1 = "?e\<lparr>po_peers := [Some []], po_clients := [?c 3]\<rparr>"
  let ?p2 = "?e\<lparr>po_peers := [], po_clients := [?c 3, ?c 4]\<rparr>"
  let ?p3 = "?p2\<lparr>po_idle := [0]\<rparr>"
  have "pool_step (?e, {}) (?p1, {0})" using open_new [of 3 ?e 0 ?p1 "{}"] by (simp add: new_client_def empty_pool_def)
  moreover have "pool_step (?p1, {0}) (?p2, {0, 1})"
    using open_new [of 4 ?p1 1 ?p2 "{0}"] by (simp add: new_client_def empty_pool_def insert_commute)
  moreover have "pool_step (?p2, {0, 1}) (?p3, {1})"
    using give_back [of 0 "{0, 1}" ?p2] by (simp add: empty_pool_def insert_Diff_if)
  ultimately have "pool_step\<^sup>*\<^sup>* (?e, {}) (?p3, {1})" by (meson rtranclp.rtrancl_refl rtranclp.rtrancl_into_rtrancl)
  from this pool_accounts_for_connections [OF this] show ?thesis by (simp add: empty_pool_def)
qed

subsection \<open>The operations are sequences of steps\<close>

lemma ping_error: "ic_open c \<Longrightarrow> fst (index_ping c) = Inl e \<Longrightarrow> e = IndexClientError"
proof -
  assume c: "ic_open c" and e: "fst (index_ping c) = Inl e"
  have "e' = IndexClientError" if "fst (index_request ''echo'' c) = Inl e'" for e'
  proof (cases "ic_wire c")
    case Nil
    with that c show ?thesis by (simp add: index_request_def request_with_def)
  next
    case (Cons ex wire)
    let ?c = "c\<lparr>ic_wire := wire, ic_sent := ic_sent c @ [''echo'']\<rparr>"
    obtain g d where g: "getline_loop index_close (ex_turns ex) ?c = (g, d)" by fastforce
    have "line_read index_close (ex_turns ex) ?c (g, d)" using getline_reads [of index_close "ex_turns ex" ?c] g by simp
    then have "g = Inl e'' \<Longrightarrow> e'' = IndexClientError" for e'' by (auto simp: line_read_def)
    with that c Cons g show ?thesis by (auto simp: index_request_def request_with_def split: if_splits sum.splits)
  qed
  with e show ?thesis by (auto simp: index_ping_def split: prod.splits sum.splits)
qed

lemma step_call:
  "i \<in> held \<Longrightarrow> pool_step\<^sup>*\<^sup>* (p, held) (p\<lparr>po_clients := (po_clients p)[i := run_call call (po_clients p ! i)]\<rparr>, held)"
  by (rule r_into_rtranclp) (rule use)

lemma close_client_steps: "i \<in> held \<Longrightarrow> pool_step\<^sup>*\<^sup>* (p, held) (close_client i p, held)"
  using step_call [of i held p Close] by (simp add: close_client_def on_client_def)

lemma close_and_forget: "i \<in> held \<Longrightarrow> i < length (po_clients p) \<Longrightarrow> pool_step\<^sup>*\<^sup>* (p, held) (close_client i p, held - {i})"
proof -
  assume i: "i \<in> held" "i < length (po_clients p)"
  then have "pool_step (close_client i p, held) (close_client i p, held - {i})"
    by (intro forget) (simp_all add: close_client_def on_client_def)
  with close_client_steps [OF i(1), of p] show ?thesis by (meson rtranclp.rtrancl_into_rtrancl)
qed

lemma release_steps: "i \<in> held \<Longrightarrow> i < length (po_clients p) \<Longrightarrow> pool_step\<^sup>*\<^sup>* (p, held) (pool_release i p, held - {i})"
  by (simp add: pool_release_def close_and_forget forget give_back r_into_rtranclp)

lemma wrapper_close_steps:
  assumes "i \<in> held" and "i < length (po_clients p)"
  shows "pool_step\<^sup>*\<^sup>* (p, held) (snd (wrapper_close i p), held - {i})"
proof (cases "ic_in_transaction (po_clients p ! i)")
  case True
  let ?p = "snd (on_client i index_rollback p)"
  have "pool_step\<^sup>*\<^sup>* (p, held) (?p, held)"
    using step_call [OF assms(1), of p Rollback] by (simp add: on_client_def case_prod_unfold)
  moreover have "pool_step\<^sup>*\<^sup>* (?p, held) (pool_release i ?p, held - {i})"
    using assms by (intro release_steps) (simp_all add: on_client_def case_prod_unfold)
  ultimately show ?thesis using True by (simp add: wrapper_close_def Let_def case_prod_unfold)
qed (simp add: wrapper_close_def release_steps assms)

lemma new_client_steps:
  "new_client now p = (r, p') \<Longrightarrow> pool_step\<^sup>*\<^sup>* (p, held) (p', case r of Inr i \<Rightarrow> insert i held | Inl e \<Rightarrow> held)"
  by (cases r) (auto intro: r_into_rtranclp open_new open_fails)

lemma connect_steps:
  assumes ok: "pool_ok (p, held)" and r: "pool_connect now p = (r, p')"
  shows "pool_step\<^sup>*\<^sup>* (p, held) (p', case r of Inr i \<Rightarrow> insert i held | Inl e \<Rightarrow> held)"
proof (cases "po_idle p")
  case Nil
  with r show ?thesis by (simp add: pool_connect_def new_client_steps)
next
  case (Cons i idle)
  let ?p = "p\<lparr>po_idle := idle\<rparr>"
  from ok Cons have i: "i < length (po_clients p)" "ic_open (po_clients p ! i)" "i \<notin> held" by (auto simp: pool_ok_def)
  have take: "pool_step\<^sup>*\<^sup>* (p, held) (?p, insert i held)" using take_idle [OF Cons] by (rule r_into_rtranclp)
  have replace: "pool_step\<^sup>*\<^sup>* (p, held) (p', case r of Inr i \<Rightarrow> insert i held | Inl e \<Rightarrow> held)"
    if "pool_step\<^sup>*\<^sup>* (?p, insert i held) (q, insert i held)" "length (po_clients q) = length (po_clients p)"
       "new_client now (close_client i q) = (r, p')" for q
  proof -
    have "pool_step\<^sup>*\<^sup>* (q, insert i held) (close_client i q, insert i held - {i})"
      using i that(2) by (intro close_and_forget) simp_all
    moreover have "insert i held - {i} = held" using i(3) by simp
    ultimately show ?thesis using take that(1) new_client_steps [OF that(3), of held] by (metis rtranclp_trans)
  qed
  show ?thesis
  proof (cases "po_recycle p > 0 \<and> ic_created (po_clients p ! i) + of_int (po_recycle p) < now")
    case True
    then have "new_client now (close_client i ?p) = (r, p')" using r by (simp add: pool_connect_def Cons is_index_error_def)
    then show ?thesis by (intro replace [of ?p]) simp_all
  next
    case False
    obtain u c where ping: "index_ping (po_clients p ! i) = (u, c)" by fastforce
    let ?q = "?p\<lparr>po_clients := (po_clients p)[i := c]\<rparr>"
    have used: "pool_step\<^sup>*\<^sup>* (?p, insert i held) (?q, insert i held)"
      using step_call [of i "insert i held" ?p Ping] ping by simp
    show ?thesis
    proof (cases u)
      case (Inl e)
      then have "e = IndexClientError" using ping_error [OF i(2)] ping by simp
      with Inl False r ping have "new_client now (close_client i ?q) = (r, p')"
        by (auto simp: pool_connect_def Cons is_index_error_def on_client_def Let_def)
      then show ?thesis using used by (intro replace [of ?q]) simp_all
    next
      case (Inr v)
      with False r ping have "r = Inr i" "p' = ?q" by (auto simp: pool_connect_def Cons on_client_def Let_def split: if_splits)
      with take used show ?thesis by (simp add: rtranclp_trans)
    qed
  qed
qed

lemma dispose_steps:
  "\<forall>i \<in> set idle. i < length (po_clients p) \<and> i \<notin> held \<Longrightarrow> distinct idle \<Longrightarrow> po_idle p = idle \<Longrightarrow> pool_step\<^sup>*\<^sup>* (p, held) (dispose_each idle p, held)"
proof (induction idle arbitrary: p)
  case (Cons i idle)
  let ?p = "p\<lparr>po_idle := idle\<rparr>"
  have "pool_step (p, held) (?p, insert i held)" using Cons.prems(3) by (rule take_idle)
  moreover have "pool_step\<^sup>*\<^sup>* (?p, insert i held) (close_client i ?p, held)"
    using close_and_forget [of i "insert i held" ?p] Cons.prems(1) by simp
  moreover have "pool_step\<^sup>*\<^sup>* (close_client i ?p, held) (dispose_each idle (close_client i ?p), held)"
    using Cons.prems by (intro Cons.IH) (auto simp: close_client_def on_client_def)
  ultimately show ?case by (metis dispose_each.simps(2) converse_rtranclp_into_rtranclp rtranclp_trans)
qed simp

text \<open>A thread's call of the pool, and the connections in the hands of threads after it.\<close>

datatype pool_call = Connect rat | Close_wrapper nat | Dispose

fun run_pool_call :: "pool_call \<Rightarrow> index_pool \<times> nat set \<Rightarrow> index_pool \<times> nat set" where
  "run_pool_call (Connect now) (p, held) =
     (case pool_connect now p of (Inr i, p) \<Rightarrow> (p, insert i held) | (Inl e, p) \<Rightarrow> (p, held))"
| "run_pool_call (Close_wrapper i) (p, held) = (snd (wrapper_close i p), held - {i})"
| "run_pool_call Dispose (p, held) = (pool_dispose p, held)"

text \<open>C30: The pool's operations implement the steps: \<open>connect\<close> takes an idle connection or opens one, \<open>close\<close> on a wrapper gives its
  connection back or closes it even when the rollback fails, and \<open>dispose\<close> closes what is idle.\<close>

theorem pool_calls_refine_steps:
  assumes "pool_ok (p, held)" and "\<And>i. call = Close_wrapper i \<Longrightarrow> i \<in> held"
  shows "pool_step\<^sup>*\<^sup>* (p, held) (run_pool_call call (p, held))"
proof (cases call)
  case (Connect now)
  obtain r p' where r: "pool_connect now p = (r, p')" by fastforce
  from connect_steps [OF assms(1) r] show ?thesis by (cases r) (simp_all add: Connect r)
next
  case (Close_wrapper i)
  with assms show ?thesis by (auto simp: pool_ok_def intro: wrapper_close_steps)
next
  case Dispose
  with assms(1) show ?thesis by (auto simp: pool_dispose_def pool_ok_def intro!: dispose_steps)
qed

theorem pool_calls_refine_steps_witness:
  "let c = \<lparr>ic_open = True, ic_in_transaction = True, ic_created = 0, ic_buffer = [], ic_sent = [], ic_wire = []\<rparr>;
       p = (empty_pool 5 0 [])\<lparr>po_clients := [c]\<rparr>
   in pool_step\<^sup>*\<^sup>* (p, {0}) (run_pool_call (Close_wrapper 0) (p, {0}))
      \<and> run_pool_call (Close_wrapper 0) (p, {0}) = (p\<lparr>po_clients := [close_idle c]\<rparr>, {})"
proof -
  let ?c = "\<lparr>ic_open = True, ic_in_transaction = True, ic_created = 0, ic_buffer = [], ic_sent = [], ic_wire = []\<rparr> :: index_client"
  let ?p = "(empty_pool 5 0 [])\<lparr>po_clients := [?c]\<rparr>"
  have "pool_ok (?p, {0})" by (simp add: pool_ok_def empty_pool_def)
  from pool_calls_refine_steps [OF this, of "Close_wrapper 0"] show ?thesis
    by (simp add: wrapper_close_def on_client_def index_rollback_def index_request_def request_with_def index_close_def close_idle_def
        pool_release_def empty_pool_def)
qed

subsection \<open>A rollback the server refuses\<close>

text \<open>
  \<open>IndexClientWrapper.close\<close> releases the connection when the rollback fails. A failure to talk to the server closes it, but a rollback the
  server refuses does not: the connection goes back to the pool with \<open>in_transaction\<close> set, and the next user's \<open>begin\<close> fails.
\<close>

lemma refused_rollback_returns_to_pool:
  assumes "ic_open c" and "ic_in_transaction c" and "ic_buffer c = []"
    and "ic_wire c = \<lparr>ex_sent = True, ex_turns = [(Readable [Received (''ERR no transaction'' @ crlf)], False)]\<rparr> # wire"
    and "p = (empty_pool 5 0 peers)\<lparr>po_clients := [c]\<rparr>" and "wrapper_close 0 p = (r, p')"
  shows "r = Inl IndexClientError \<and> po_idle p' = [0] \<and> fst (index_begin (po_clients p' ! 0)) = Inl IndexClientError"
proof -
  let ?c = "c\<lparr>ic_wire := wire, ic_sent := ic_sent c @ [''rollback'']\<rparr>"
  have "split_line (''ERR no transaction'' @ crlf) = Some (''ERR no transaction'', [])" by code_simp
  then have "index_rollback c = (Inl IndexClientError, ?c)"
    using assms(1-4) by (simp add: index_rollback_def index_request_def request_with_def sublist_code)
  with assms show ?thesis
    by (auto simp: wrapper_close_def on_client_def pool_release_def empty_pool_def Let_def index_begin_def)
qed

end
