(* ===== verification/Api_Admin.thy ===== *)
theory Api_Admin
  imports Api_Lookup
begin

text \<open>
  The handlers of \<^verbatim>\<open>api/v2/misc.py\<close> (tracks of an MBID, users, a fingerprint) and \<^verbatim>\<open>api/v2/internal.py\<close> (the service's own
  servers and its web site). \<open>api_externals\<close> is what they call outside: the new API key, SQL's \<open>lower\<close>, texts as dates in
  PostgreSQL and in \<open>strptime\<close>, \<open>strftime\<close>, and MusicBrainz's user information. The handlers of \<^verbatim>\<open>internal.py\<close> are
  instances of \<open>cluster_operation\<close>: without the cluster's secret they do nothing.
\<close>

record api_externals =
  ex_key :: string
  ex_lower :: "string \<Rightarrow> string"
  ex_date :: "string \<Rightarrow> int option"
  ex_strptime :: "string \<Rightarrow> int option"
  ex_strftime :: "int \<Rightarrow> string"
  ex_userinfo :: "string \<Rightarrow> py_exc + int \<times> json"

text \<open>\<open>parse\<close> of most parameters: the format, and then the values, which read the databases at most.\<close>

definition parse_after_format ::
    "(request_values \<Rightarrow> api_state \<Rightarrow> api_exc + 'p) \<Rightarrow> api_env \<Rightarrow> request_values \<Rightarrow> api_state \<Rightarrow> string \<times> (api_exc + 'p) \<times> api_state" where
  "parse_after_format f env values s =
     (case parse_format values of (format, Some e) \<Rightarrow> (format, Inl e, s) | (format, None) \<Rightarrow> (format, f values s, s))"

text \<open>A text that must be there and not be empty.\<close>

definition required :: "request_values \<Rightarrow> string \<Rightarrow> api_exc + string" where
  "required values name = (case vget values name of None \<Rightarrow> Inl (missing name) | Some v \<Rightarrow> if v = [] then Inl (missing name) else Inr v)"

subsection \<open>\<^verbatim>\<open>misc.py\<close>\<close>

record list_by_mbid_params =
  lb_disabled :: "int option"
  lb_batch :: "int option"
  lb_mbids :: "string list"

definition list_by_mbid_parse :: "request_values \<Rightarrow> api_state \<Rightarrow> api_exc + list_by_mbid_params" where
  "list_by_mbid_parse values s =
     (let mbids = vgetlist values ''mbid''
      in if mbids = [] then Inl (missing ''mbid'')
         else if \<not> list_all is_uuid mbids then Inl (Web (InvalidUUIDError ''mbid''))
         else Inr \<lparr>lb_disabled = vget_int values ''disabled'', lb_batch = vget_int values ''batch'', lb_mbids = mbids\<rparr>)"

definition mbid_track_json :: "bool \<Rightarrow> track_mbid_row \<Rightarrow> track_row \<Rightarrow> json" where
  "mbid_track_json show_disabled r t =
     JObj ([(''id'', JStr (tr_gid t))] @ (if show_disabled \<and> tm_disabled r then [(''disabled'', JBool True)] else []))"

definition tracks_map :: "fingerprint_db \<Rightarrow> bool \<Rightarrow> string list \<Rightarrow> (string, json list) dict" where
  "tracks_map fdb show_disabled mbids =
     dict_group [(lk_value r, mbid_track_json show_disabled r t).
       r \<leftarrow> rows (t_track_mbid fdb), t \<leftarrow> rows (t_track fdb),
       lk_track_id r = tr_id t \<and> lk_value r \<in> set mbids \<and> (show_disabled \<or> \<not> tm_disabled r)]"

definition tracks_of :: "(string, json list) dict \<Rightarrow> string \<Rightarrow> json" where
  "tracks_of d mbid = JArr (case dict_get d mbid of None \<Rightarrow> [] | Some ts \<Rightarrow> ts)"

text \<open>The MBIDs go to the database as texts and come back as the canonical texts of UUIDs.\<close>

definition list_by_mbid_internal ::
    "api_env \<Rightarrow> api_request \<Rightarrow> string \<Rightarrow> list_by_mbid_params \<Rightarrow> api_state \<Rightarrow> (api_exc + (string \<times> json) list) \<times> api_state" where
  "list_by_mbid_internal env req user_ip params s =
     (case each pg_uuid (lb_mbids params) of
        Inl e \<Rightarrow> (Inl (Crash e), s)
      | Inr mbids \<Rightarrow>
          let d = tracks_map (as_fp s) (truthy_int (lb_disabled params)) mbids
          in (Inr (if truthy_int (lb_batch params)
                   then [(''mbids'', JArr (map (\<lambda>mbid. JObj [(''mbid'', JStr mbid), (''tracks'', tracks_of d mbid)]) (lb_mbids params)))]
                   else [(''tracks'', tracks_of d (hd (lb_mbids params)))]), s))"

definition list_by_mbid_handler :: "list_by_mbid_params api_handler" where
  "list_by_mbid_handler =
     \<lparr>h_parse = parse_after_format list_by_mbid_parse, h_application_id = (\<lambda>p. None), h_internal = list_by_mbid_internal\<rparr>"

definition list_by_puid_parse :: "request_values \<Rightarrow> api_state \<Rightarrow> api_exc + string" where
  "list_by_puid_parse values s =
     (case required values ''puid'' of
        Inl e \<Rightarrow> Inl e
      | Inr puid \<Rightarrow> if is_uuid puid then Inr puid else Inl (Web (InvalidUUIDError ''puid'')))"

definition list_by_puid_handler :: "string api_handler" where
  "list_by_puid_handler =
     \<lparr>h_parse = parse_after_format list_by_puid_parse, h_application_id = (\<lambda>p. None),
      h_internal = (\<lambda>env req user_ip params s. (Inr [(''tracks'', JArr [])], s))\<rparr>"

definition user_json :: "string \<Rightarrow> (string \<times> json) list" where
  "user_json api_key = [(''user'', JObj [(''apikey'', JStr api_key)])]"

definition create_musicbrainz_internal ::
    "api_externals \<Rightarrow> api_env \<Rightarrow> api_request \<Rightarrow> string \<Rightarrow> string \<Rightarrow> api_state \<Rightarrow> (api_exc + (string \<times> json) list) \<times> api_state" where
  "create_musicbrainz_internal ex env req user_ip access_token s =
     (if \<not> rq_is_secure req then (Inl (Web InsecureRequestError), s)
      else case ex_userinfo ex access_token of
        Inl e \<Rightarrow> (Inl (Crash e), s)
      | Inr (http_status, info) \<Rightarrow>
          if http_status \<noteq> 200 then (Inl (Web InvalidMusicBrainzAccessTokenError), s)
          else case (case info of JObj d \<Rightarrow> item_of d ''sub'' | _ \<Rightarrow> Inl TypeError) of
            Inl e \<Rightarrow> (Inl (Crash e), s)
          | Inr (JStr mbuser) \<Rightarrow>
              (case get_account_details_by_mbuser (ex_lower ex) (as_app s) mbuser of
                 Some account \<Rightarrow> (Inr (user_json (ac_apikey account)), s)
               | None \<Rightarrow>
                   (case insert_account (ex_key ex) \<lparr>na_name = mbuser, na_mbuser = Some mbuser, na_created_from = Some user_ip,
                            na_application_id = None, na_application_version = None, na_openid = None\<rparr> (as_app s) of
                      Inl e \<Rightarrow> (Inl (Crash e), s)
                    | Inr ((i, api_key), db) \<Rightarrow> (Inr (user_json api_key), s\<lparr>as_app := db\<rparr>)))
          | Inr _ \<Rightarrow> (Inl (Crash ProgrammingError), s))"

definition create_musicbrainz_handler :: "api_externals \<Rightarrow> string api_handler" where
  "create_musicbrainz_handler ex =
     \<lparr>h_parse = parse_after_format (\<lambda>values s. required values ''access_token''), h_application_id = (\<lambda>p. None),
      h_internal = create_musicbrainz_internal ex\<rparr>"

definition create_anonymous_parse ::
    "api_env \<Rightarrow> request_values \<Rightarrow> api_state \<Rightarrow> string \<times> (api_exc + client_params) \<times> api_state" where
  "create_anonymous_parse env values s =
     (case parse_format values of
        (format, Some e) \<Rightarrow> (format, Inl e, s)
      | (format, None) \<Rightarrow>
          (case parse_client env (as_app s) values (as_caches s) of (client, kc) \<Rightarrow> (format, client, with_caches kc s)))"

definition create_anonymous_internal ::
    "api_externals \<Rightarrow> api_env \<Rightarrow> api_request \<Rightarrow> string \<Rightarrow> client_params \<Rightarrow> api_state \<Rightarrow> (api_exc + (string \<times> json) list) \<times> api_state" where
  "create_anonymous_internal ex env req user_ip params s =
     (case insert_account (ex_key ex) \<lparr>na_name = ''Anonymous'', na_mbuser = None, na_created_from = Some user_ip,
              na_application_id = Some (cp_application_id params), na_application_version = cp_application_version params,
              na_openid = None\<rparr> (as_app s) of
        Inl e \<Rightarrow> (Inl (Crash e), s)
      | Inr ((i, api_key), db) \<Rightarrow> (Inr (user_json api_key), s\<lparr>as_app := db\<rparr>))"

definition create_anonymous_handler :: "api_externals \<Rightarrow> client_params api_handler" where
  "create_anonymous_handler ex =
     \<lparr>h_parse = create_anonymous_parse, h_application_id = (\<lambda>p. Some (cp_application_id p)), h_internal = create_anonymous_internal ex\<rparr>"

definition user_lookup_parse :: "request_values \<Rightarrow> api_state \<Rightarrow> api_exc + string" where
  "user_lookup_parse values s =
     (case required values ''user'' of
        Inl e \<Rightarrow> Inl e
      | Inr account_apikey \<Rightarrow>
          if truthy_id (lookup_account_id_by_apikey (as_app s) account_apikey) = None then Inl (Web InvalidUserAPIKeyError)
          else Inr account_apikey)"

definition user_lookup_handler :: "string api_handler" where
  "user_lookup_handler =
     \<lparr>h_parse = parse_after_format user_lookup_parse, h_application_id = (\<lambda>p. None),
      h_internal = (\<lambda>env req user_ip account_apikey s. (Inr (user_json account_apikey), s))\<rparr>"

definition get_fingerprint_parse :: "request_values \<Rightarrow> api_state \<Rightarrow> api_exc + int" where
  "get_fingerprint_parse values s =
     (case truthy_id (vget_int values ''id'') of None \<Rightarrow> Inl (missing ''id'') | Some i \<Rightarrow> Inr i)"

definition get_fingerprint_internal ::
    "api_env \<Rightarrow> api_request \<Rightarrow> string \<Rightarrow> int \<Rightarrow> api_state \<Rightarrow> (api_exc + (string \<times> json) list) \<times> api_state" where
  "get_fingerprint_internal env req user_ip i s =
     (case first_of (sel (\<lambda>r. fp_id r = i) (t_fingerprint (as_fp s))) of
        None \<Rightarrow> (Inl (Web FingerprintNotFoundError), s)
      | Some r \<Rightarrow>
          (Inr [(''fingerprint'', JObj [(''id'', JInt (fp_id r)), (''hashes'', JArr (map JInt (fp_fingerprint r))),
                                        (''duration'', JInt (fp_length r))])], s))"

definition get_fingerprint_handler :: "int api_handler" where
  "get_fingerprint_handler =
     \<lparr>h_parse = parse_after_format get_fingerprint_parse, h_application_id = (\<lambda>p. None), h_internal = get_fingerprint_internal\<rparr>"

subsection \<open>\<^verbatim>\<open>internal.py\<close>\<close>

text \<open>\<open>config.cluster.secret != params.secret\<close>: without a secret in the configuration, not giving one passes.\<close>

definition wrong_secret :: "api_env \<Rightarrow> string option \<Rightarrow> bool" where
  "wrong_secret env given \<longleftrightarrow> ae_cluster_secret env \<noteq> given"

text \<open>The upsert's outcome; a value that is missing violates a constraint, once PostgreSQL accepts the statement at all.\<close>

definition stats_applied :: "api_state \<Rightarrow> stats_db applied \<Rightarrow> (api_exc + (string \<times> json) list) \<times> api_state" where
  "stats_applied s out =
     (case out of
        Applied db \<Rightarrow> (Inr [], s\<lparr>as_stats := db\<rparr>)
      | Unknown_Application \<Rightarrow> (Inl (Crash IntegrityError), s)
      | Refused e \<Rightarrow> (Inl (Crash e), s))"

definition missing_value :: "stats_db \<Rightarrow> stats_db applied" where
  "missing_value db = Refused (if sd_unique db then IntegrityError else ProgrammingError)"

record lookup_stats_params =
  ul_secret :: "string option"
  ul_application_id :: "int option"
  ul_date :: "string option"
  ul_hour :: "int option"
  ul_type :: "string option"
  ul_count :: "int option"

definition update_lookup_stats_parse :: "request_values \<Rightarrow> api_state \<Rightarrow> api_exc + lookup_stats_params" where
  "update_lookup_stats_parse values s =
     Inr \<lparr>ul_secret = vget values ''secret'', ul_application_id = vget_int values ''application_id'', ul_date = vget values ''date'',
          ul_hour = vget_int values ''hour'', ul_type = vget values ''type'', ul_count = vget_int values ''count''\<rparr>"

definition update_lookup_stats_internal ::
    "api_externals \<Rightarrow> api_env \<Rightarrow> api_request \<Rightarrow> string \<Rightarrow> lookup_stats_params \<Rightarrow> api_state \<Rightarrow> (api_exc + (string \<times> json) list) \<times> api_state" where
  "update_lookup_stats_internal ex env req user_ip params s =
     (if ae_cluster_role env \<noteq> ''master'' then (Inl (Web NotAllowedError), s)
      else if wrong_secret env (ul_secret params) then (Inl (Web NotAllowedError), s)
      else
        stats_applied s
          (case (ul_application_id params, ul_date params, ul_hour params, ul_count params) of
             (Some application_id, Some date, Some hour, Some n) \<Rightarrow>
               update_lookup_stats (ex_date ex) (as_app s) (as_stats s) application_id date (int_str hour)
                 (case ul_type params of None \<Rightarrow> [] | Some t \<Rightarrow> t) n
           | _ \<Rightarrow> missing_value (as_stats s)))"

definition update_lookup_stats_handler :: "api_externals \<Rightarrow> lookup_stats_params api_handler" where
  "update_lookup_stats_handler ex =
     \<lparr>h_parse = parse_after_format update_lookup_stats_parse, h_application_id = ul_application_id, h_internal = update_lookup_stats_internal ex\<rparr>"

record user_agent_params =
  uu_secret :: "string option"
  uu_application_id :: "int option"
  uu_date :: "string option"
  uu_user_agent :: "string option"
  uu_ip :: "string option"
  uu_count :: "int option"

definition update_user_agent_stats_parse :: "request_values \<Rightarrow> api_state \<Rightarrow> api_exc + user_agent_params" where
  "update_user_agent_stats_parse values s =
     Inr \<lparr>uu_secret = vget values ''secret'', uu_application_id = vget_int values ''application_id'', uu_date = vget values ''date'',
          uu_user_agent = vget values ''user_agent'', uu_ip = vget values ''ip'', uu_count = vget_int values ''count''\<rparr>"

definition update_user_agent_stats_internal ::
    "api_externals \<Rightarrow> api_env \<Rightarrow> api_request \<Rightarrow> string \<Rightarrow> user_agent_params \<Rightarrow> api_state \<Rightarrow> (api_exc + (string \<times> json) list) \<times> api_state" where
  "update_user_agent_stats_internal ex env req user_ip params s =
     (if ae_cluster_role env \<noteq> ''master'' then (Inl (Web NotAllowedError), s)
      else if wrong_secret env (uu_secret params) then (Inl (Web NotAllowedError), s)
      else
        stats_applied s
          (case (uu_application_id params, uu_date params, uu_user_agent params, uu_ip params, uu_count params) of
             (Some application_id, Some date, Some user_agent, Some ip, Some n) \<Rightarrow>
               update_user_agent_stats (ex_date ex) (as_app s) (as_stats s) application_id date user_agent ip n
           | _ \<Rightarrow> missing_value (as_stats s)))"

definition update_user_agent_stats_handler :: "api_externals \<Rightarrow> user_agent_params api_handler" where
  "update_user_agent_stats_handler ex =
     \<lparr>h_parse = parse_after_format update_user_agent_stats_parse, h_application_id = uu_application_id,
      h_internal = update_user_agent_stats_internal ex\<rparr>"

record lookup_stats_query =
  ls_secret :: "string option"
  ls_applications :: "application_row list"
  ls_from_date :: "int option"
  ls_to_date :: "int option"
  ls_days :: "int option"

definition parse_date :: "api_externals \<Rightarrow> string option \<Rightarrow> api_exc + int option" where
  "parse_date ex v =
     (case v of None \<Rightarrow> Inr None | Some t \<Rightarrow> (case ex_strptime ex t of None \<Rightarrow> Inl (Crash ValueError) | Some d \<Rightarrow> Inr (Some d)))"

definition lookup_stats_parse :: "api_externals \<Rightarrow> request_values \<Rightarrow> api_state \<Rightarrow> api_exc + lookup_stats_query" where
  "lookup_stats_parse ex values s =
     (let apikeys = vgetlist values ''client''; applications = find_applications_by_apikeys (as_app s) apikeys
      in if apikeys = [] \<or> applications = [] then Inl (Web InvalidAPIKeyError)
         else case parse_date ex (vget values ''from'') of
           Inl e \<Rightarrow> Inl e
         | Inr from_date \<Rightarrow>
             (case parse_date ex (vget values ''to'') of
                Inl e \<Rightarrow> Inl e
              | Inr to_date \<Rightarrow>
                  Inr \<lparr>ls_secret = vget values ''secret'', ls_applications = applications, ls_from_date = from_date, ls_to_date = to_date,
                       ls_days = vget_int values ''days''\<rparr>))"

definition stats_entry_json :: "api_externals \<Rightarrow> lookup_stats_entry \<Rightarrow> json" where
  "stats_entry_json ex e =
     JObj [(''date'', JStr (ex_strftime ex (le_date e))), (''count_hits'', JInt (le_count_hits e)),
           (''count_nohits'', JInt (le_count_nohits e)), (''count'', JInt (le_count e))]"

definition lookup_stats_internal ::
    "api_externals \<Rightarrow> api_env \<Rightarrow> api_request \<Rightarrow> string \<Rightarrow> lookup_stats_query \<Rightarrow> api_state \<Rightarrow> (api_exc + (string \<times> json) list) \<times> api_state" where
  "lookup_stats_internal ex env req user_ip params s =
     (if wrong_secret env (ls_secret params) then (Inl (Web NotAllowedError), s)
      else
        let application_ids = remdups (map ap_id (ls_applications params));
            stats = find_application_lookup_stats_multi (as_stats s) application_ids (ls_from_date params) (ls_to_date params)
                      (case ls_days params of None \<Rightarrow> 30 | Some d \<Rightarrow> d)
        in (Inr [(''stats'', JArr (map (stats_entry_json ex) stats))], s))"

definition lookup_stats_handler :: "api_externals \<Rightarrow> lookup_stats_query api_handler" where
  "lookup_stats_handler ex =
     \<lparr>h_parse = parse_after_format (lookup_stats_parse ex), h_application_id = (\<lambda>p. None), h_internal = lookup_stats_internal ex\<rparr>"

definition id_and_key :: "int \<times> string \<Rightarrow> (string \<times> json) list" where
  "id_and_key r = [(''id'', JInt (fst r)), (''api_key'', JStr (snd r))]"

text \<open>\<open>insert_account\<close> does not look at \<open>anonymous\<close>.\<close>

definition create_account_internal ::
    "api_externals \<Rightarrow> api_env \<Rightarrow> api_request \<Rightarrow> string \<Rightarrow> string option \<Rightarrow> api_state \<Rightarrow> (api_exc + (string \<times> json) list) \<times> api_state" where
  "create_account_internal ex env req user_ip secret s =
     (if wrong_secret env secret then (Inl (Web NotAllowedError), s)
      else case insert_account (ex_key ex) \<lparr>na_name = ''External User'', na_mbuser = None, na_created_from = None,
                  na_application_id = None, na_application_version = None, na_openid = None\<rparr> (as_app s) of
             Inl e \<Rightarrow> (Inl (Crash e), s)
           | Inr (r, db) \<Rightarrow> (Inr (id_and_key r), s\<lparr>as_app := db\<rparr>))"

definition create_account_handler :: "api_externals \<Rightarrow> string option api_handler" where
  "create_account_handler ex =
     \<lparr>h_parse = parse_after_format (\<lambda>values s. Inr (vget values ''secret'')), h_application_id = (\<lambda>p. None),
      h_internal = create_account_internal ex\<rparr>"

record check_application_params =
  ck_secret :: "string option"
  ck_api_key :: "string option"

text \<open>
  \<open>check_app_api_key\<close> is called with a connection where it expects the database context, so it raises unless its result is in
  the cache.
\<close>

definition check_application_internal ::
    "api_env \<Rightarrow> api_request \<Rightarrow> string \<Rightarrow> check_application_params \<Rightarrow> api_state \<Rightarrow> (api_exc + (string \<times> json) list) \<times> api_state" where
  "check_application_internal env req user_ip params s =
     (if wrong_secret env (ck_secret params) then (Inl (Web NotAllowedError), s)
      else case Option.bind (ck_api_key params) (kc_app (as_caches s)) of
             None \<Rightarrow> (Inl (Crash AttributeError), s)
           | Some application_id \<Rightarrow>
               (case truthy_id application_id of
                  None \<Rightarrow> (Inl (Web InvalidAPIKeyError), s)
                | Some i \<Rightarrow> (Inr [(''id'', JInt i)], s)))"

definition check_application_handler :: "check_application_params api_handler" where
  "check_application_handler =
     \<lparr>h_parse = parse_after_format (\<lambda>values s. Inr \<lparr>ck_secret = vget values ''secret'', ck_api_key = vget values ''api_key''\<rparr>),
      h_application_id = (\<lambda>p. None), h_internal = check_application_internal\<rparr>"

record create_application_params =
  cr_secret :: "string option"
  cr_account_id :: "int option"
  cr_name :: "string option"
  cr_version :: "string option"

definition create_application_internal ::
    "api_externals \<Rightarrow> api_env \<Rightarrow> api_request \<Rightarrow> string \<Rightarrow> create_application_params \<Rightarrow> api_state \<Rightarrow> (api_exc + (string \<times> json) list) \<times> api_state" where
  "create_application_internal ex env req user_ip params s =
     (if wrong_secret env (cr_secret params) then (Inl (Web NotAllowedError), s)
      else case (cr_account_id params, cr_name params, cr_version params) of
        (Some account_id, Some name, Some version) \<Rightarrow>
          (case insert_application (ex_key ex) \<lparr>ad_name = name, ad_version = version, ad_email = None, ad_website = None,
                  ad_account_id = account_id\<rparr> (as_app s) of
             Inl e \<Rightarrow> (Inl (Crash e), s)
           | Inr (r, db) \<Rightarrow> (Inr (id_and_key r), s\<lparr>as_app := db\<rparr>))
      | _ \<Rightarrow> (Inl (Crash IntegrityError), s))"

definition create_application_handler :: "api_externals \<Rightarrow> create_application_params api_handler" where
  "create_application_handler ex =
     \<lparr>h_parse = parse_after_format (\<lambda>values s. Inr \<lparr>cr_secret = vget values ''secret'', cr_account_id = vget_int values ''account_id'',
          cr_name = vget values ''name'', cr_version = vget values ''version''\<rparr>),
      h_application_id = (\<lambda>p. None), h_internal = create_application_internal ex\<rparr>"

record application_status_params =
  us_secret :: "string option"
  us_application_id :: int
  us_active :: "bool option"

text \<open>With \<open>type=bool\<close> every text but the empty one is true.\<close>

definition update_application_status_parse :: "request_values \<Rightarrow> api_state \<Rightarrow> api_exc + application_status_params" where
  "update_application_status_parse values s =
     (case vget_int values ''application_id'' of
        None \<Rightarrow> Inl (Web UnknownApplicationError)
      | Some i \<Rightarrow>
          if truthy_id (lookup_application_id (as_app s) i (vget_int values ''account_id'')) = None then Inl (Web UnknownApplicationError)
          else Inr \<lparr>us_secret = vget values ''secret'', us_application_id = i, us_active = vget_bool values ''active''\<rparr>)"

definition update_application_status_internal ::
    "api_env \<Rightarrow> api_request \<Rightarrow> string \<Rightarrow> application_status_params \<Rightarrow> api_state \<Rightarrow> (api_exc + (string \<times> json) list) \<times> api_state" where
  "update_application_status_internal env req user_ip params s =
     (if wrong_secret env (us_secret params) then (Inl (Web NotAllowedError), s)
      else
        let (i, db) = update_application_status (as_app s) (us_application_id params) (us_active params)
        in (Inr [(''id'', JInt (us_application_id params)), (''active'', case us_active params of None \<Rightarrow> JNull | Some b \<Rightarrow> JBool b)],
            s\<lparr>as_app := db\<rparr>))"

definition update_application_status_handler :: "application_status_params api_handler" where
  "update_application_status_handler =
     \<lparr>h_parse = parse_after_format update_application_status_parse, h_application_id = (\<lambda>p. Some (us_application_id p)),
      h_internal = update_application_status_internal\<rparr>"

subsection \<open>The handlers keep the contract\<close>

lemma parse_after_format_keeps:
  assumes "parse_after_format f env values s = (format, parsed, s')" and "no_http (f values s)"
  shows "same_databases s s' \<and> no_http parsed"
proof -
  obtain fmt fe where f: "parse_format values = (fmt, fe)" by fastforce
  then have "\<exists>err. fe = None \<or> fe = Some (Web err)"
    using parse_format_of_web [of V2 "values" fmt] by (cases fe) (auto simp: parse_format_of_def)
  with assms f show ?thesis by (auto simp: parse_after_format_def)
qed

lemma after_format_operation:
  assumes "h_parse h = parse_after_format parse" and "\<And>values s. no_http (parse values s)"
    and "\<And>env req user_ip params s. no_http (fst (h_internal h env req user_ip params s))"
    and "\<And>env req user_ip params s data s'. h_internal h env req user_ip params s = (Inr data, s') \<Longrightarrow> answer_ready data"
  shows "api_operation h"
proof
  fix env "values" s format parsed s'
  assume "h_parse h env values s = (format, parsed, s')"
  with parse_after_format_keeps [of parse env "values" s format parsed s'] assms(1,2)
  show "same_databases s s'" "no_http parsed" by simp_all
next
  fix env req user_ip params s result s'
  assume "h_internal h env req user_ip params s = (result, s')"
  with assms(3) [of env req user_ip params s] show "no_http result" by simp
next
  fix env req user_ip params s data s'
  assume "h_internal h env req user_ip params s = (Inr data, s')"
  with assms(4) show "answer_ready data" .
qed

lemma required_no_http: "no_http (required values name)"
  by (simp add: required_def missing_def split: option.split)

lemma singular_names: "singular ''tracks'' = Inr ''track''" "singular ''mbids'' = Inr ''mbid''" "singular ''hashes'' = Inr ''hashe''"
  "singular ''stats'' = Inr ''stat''"
  by code_simp+

lemma tracks_ready: "xml_ready ''tracks'' (tracks_of (tracks_map fdb b mbids) m)"
proof -
  have "xml_ready ''track'' j" if "j \<in> set ts" "dict_get (tracks_map fdb b mbids) m = Some ts" for j ts
    using that by (auto simp: tracks_map_def dict_get_group Let_def mbid_track_json_def split: if_splits)
  then show ?thesis by (auto simp: tracks_of_def list_all_iff singular_names split: option.split)
qed

lemma list_by_mbid_ready: "list_by_mbid_internal env req user_ip params s = (Inr data, s') \<Longrightarrow> answer_ready data"
proof -
  have "xml_ready ''mbids'' (JArr (map (\<lambda>mbid. JObj [(''mbid'', JStr mbid), (''tracks'', tracks_of (tracks_map fdb b ms) mbid)]) mbids))" for fdb b ms mbids
    using tracks_ready by (auto simp: list_all_iff singular_names)
  with tracks_ready show "list_by_mbid_internal env req user_ip params s = (Inr data, s') \<Longrightarrow> answer_ready data"
    by (auto simp: list_by_mbid_internal_def answer_ready_def Let_def simp del: xml_ready.simps split: sum.splits if_splits)
qed

interpretation list_by_mbid: read_only_operation list_by_mbid_handler
proof (intro read_only_operation.intro after_format_operation read_only_operation_axioms.intro)
  show "h_parse list_by_mbid_handler = parse_after_format list_by_mbid_parse" by (simp add: list_by_mbid_handler_def)
next
  fix env req user_ip params s data s'
  assume "h_internal list_by_mbid_handler env req user_ip params s = (Inr data, s')"
  then show "answer_ready data" using list_by_mbid_ready by (simp add: list_by_mbid_handler_def)
qed (auto simp: list_by_mbid_handler_def list_by_mbid_parse_def list_by_mbid_internal_def missing_def Let_def split: sum.splits)

interpretation list_by_puid: read_only_operation list_by_puid_handler
proof (intro read_only_operation.intro after_format_operation read_only_operation_axioms.intro)
  show "h_parse list_by_puid_handler = parse_after_format list_by_puid_parse" by (simp add: list_by_puid_handler_def)
qed (auto simp: list_by_puid_handler_def list_by_puid_parse_def required_def missing_def answer_ready_def singular_names split: sum.splits option.splits)

lemma user_json_ready: "answer_ready (user_json k)"
  by (simp add: user_json_def answer_ready_def is_attribute_def)

interpretation user_lookup: read_only_operation user_lookup_handler
proof (intro read_only_operation.intro after_format_operation read_only_operation_axioms.intro)
  show "h_parse user_lookup_handler = parse_after_format user_lookup_parse" by (simp add: user_lookup_handler_def)
qed (auto simp: user_lookup_handler_def user_lookup_parse_def required_def missing_def user_json_ready split: sum.splits option.splits)

interpretation get_fingerprint: read_only_operation get_fingerprint_handler
proof (intro read_only_operation.intro after_format_operation read_only_operation_axioms.intro)
  show "h_parse get_fingerprint_handler = parse_after_format get_fingerprint_parse" by (simp add: get_fingerprint_handler_def)
qed (auto simp: get_fingerprint_handler_def get_fingerprint_parse_def get_fingerprint_internal_def missing_def answer_ready_def
    list_all_iff singular_names split: sum.splits option.splits)

lemma create_musicbrainz_outcome:
  "no_http (fst (create_musicbrainz_internal ex env req user_ip token s))"
  "create_musicbrainz_internal ex env req user_ip token s = (Inr data, s') \<Longrightarrow> answer_ready data"
  by (auto simp: create_musicbrainz_internal_def user_json_ready split: sum.splits option.splits prod.splits if_splits json.splits)

interpretation create_musicbrainz: api_operation "create_musicbrainz_handler ex" for ex
  by (rule after_format_operation [where parse = "\<lambda>values s. required values ''access_token''"])
    (auto simp: create_musicbrainz_handler_def required_no_http create_musicbrainz_outcome)

interpretation create_anonymous: api_operation "create_anonymous_handler ex" for ex
proof
  fix env "values" s format parsed s'
  assume "h_parse (create_anonymous_handler ex) env values s = (format, parsed, s')"
  then have p: "create_anonymous_parse env values s = (format, parsed, s')" by (simp add: create_anonymous_handler_def)
  obtain fmt fe where f: "parse_format values = (fmt, fe)" by fastforce
  obtain c kc where c: "parse_client env (as_app s) values (as_caches s) = (c, kc)" by fastforce
  from p f c parse_client_no_http [OF c] parse_format_of_web [of V2 "values" fmt]
  show "same_databases s s'" "no_http parsed"
    by (cases fe; auto simp: create_anonymous_parse_def parse_format_of_def)+
next
  fix env req user_ip params s result s'
  assume "h_internal (create_anonymous_handler ex) env req user_ip params s = (result, s')"
  then show "no_http result"
    by (auto simp: create_anonymous_handler_def create_anonymous_internal_def split: sum.splits prod.splits)
next
  fix env req user_ip params s data s'
  assume "h_internal (create_anonymous_handler ex) env req user_ip params s = (Inr data, s')"
  then show "answer_ready data"
    by (auto simp: create_anonymous_handler_def create_anonymous_internal_def user_json_ready split: sum.splits prod.splits)
qed

subsection \<open>Operations of the cluster\<close>

text \<open>The handlers that serve only callers with the cluster's secret; \<open>given\<close> is the secret among the parameters.\<close>

locale cluster_operation = api_operation h for h :: "'p api_handler" +
  fixes given :: "'p \<Rightarrow> string option"
  assumes needs_secret: "h_internal h env req user_ip params s = (Inr data, s') \<Longrightarrow> given params = ae_cluster_secret env"
    and gives_secret: "h_parse h env values s = (format, Inr params, s0) \<Longrightarrow> given params = vget values ''secret''"
begin

lemma unauthorised_fails:
  assumes "\<And>vs. rq_values req = Inr vs \<Longrightarrow> vget vs ''secret'' \<noteq> ae_cluster_secret env"
    and "attempt p cfg h env req s = (format, result, s')"
  shows "\<exists>e. result = Inl e"
  using assms(2)
proof (cases rule: attempt_cases)
  case (internal_returns vs params s0 r data)
  with needs_secret gives_secret assms(1) show ?thesis by metis
qed simp_all

lemma unauthorised_changes_nothing:
  assumes "\<And>vs. rq_values req = Inr vs \<Longrightarrow> vget vs ''secret'' \<noteq> ae_cluster_secret env"
  shows "same_databases s (snd (handle_request p cfg h env req s))"
proof -
  obtain format result s' where att: "attempt p cfg h env req s = (format, result, s')" by (metis prod_cases3)
  with unauthorised_fails [OF assms att] attempt_refused have "same_databases s s'" by blast
  moreover have "snd (handle_request p cfg h env req s) = s'"
    using att by (auto simp: handle_request_def split: sum.splits api_exc.splits)
  ultimately show ?thesis by simp
qed

end

lemma after_format_secret:
  "h_parse h = parse_after_format parse \<Longrightarrow> (\<And>values s params. parse values s = Inr params \<Longrightarrow> given params = vget values ''secret'') \<Longrightarrow>
     h_parse h env values s = (format, Inr params, s0) \<Longrightarrow> given params = vget values ''secret''"
  by (auto simp: parse_after_format_def split: prod.splits option.splits)

lemma cluster_operationI:
  assumes "h_parse h = parse_after_format parse" and "\<And>values s. no_http (parse values s)"
    and "\<And>values s params. parse values s = Inr params \<Longrightarrow> given params = vget values ''secret''"
    and "\<And>env req user_ip params s. no_http (fst (h_internal h env req user_ip params s))"
    and "\<And>env req user_ip params s data s'. h_internal h env req user_ip params s = (Inr data, s') \<Longrightarrow>
           answer_ready data \<and> \<not> wrong_secret env (given params)"
  shows "cluster_operation h given"
proof (intro cluster_operation.intro cluster_operation_axioms.intro)
  show "api_operation h" using assms(5) by (intro after_format_operation [OF assms(1,2,4)]) blast
qed (use assms(5) after_format_secret [OF assms(1,3)] in \<open>auto simp: wrong_secret_def\<close>)

lemma stats_applied_outcome:
  "no_http (fst (stats_applied s out))" "stats_applied s out = (Inr data, s') \<Longrightarrow> answer_ready data"
  by (auto simp: stats_applied_def answer_ready_def split: applied.splits)

interpretation update_lookup_stats: cluster_operation "update_lookup_stats_handler ex" ul_secret for ex
  by (rule cluster_operationI [where parse = update_lookup_stats_parse])
    (auto simp: update_lookup_stats_handler_def update_lookup_stats_parse_def update_lookup_stats_internal_def stats_applied_outcome split: if_splits)

interpretation update_user_agent_stats: cluster_operation "update_user_agent_stats_handler ex" uu_secret for ex
  by (rule cluster_operationI [where parse = update_user_agent_stats_parse])
    (auto simp: update_user_agent_stats_handler_def update_user_agent_stats_parse_def update_user_agent_stats_internal_def stats_applied_outcome
      split: if_splits)

lemma lookup_stats_parsed:
  "no_http (lookup_stats_parse ex values s)"
  "lookup_stats_parse ex values s = Inr params \<Longrightarrow> ls_secret params = vget values ''secret''"
  by (auto simp: lookup_stats_parse_def parse_date_def Let_def split: sum.splits option.splits if_splits)

lemma stats_ready: "answer_ready [(''stats'', JArr (map (stats_entry_json ex) es))]"
  by (simp add: answer_ready_def singular_names stats_entry_json_def list_all_iff)

interpretation lookup_stats: cluster_operation "lookup_stats_handler ex" ls_secret for ex
  by (rule cluster_operationI [where parse = "lookup_stats_parse ex"])
    (auto simp: lookup_stats_handler_def lookup_stats_parsed lookup_stats_internal_def Let_def stats_ready split: if_splits)

lemma id_and_key_ready: "answer_ready (id_and_key r)"
  by (simp add: id_and_key_def answer_ready_def)

interpretation create_account: cluster_operation "create_account_handler ex" "\<lambda>secret. secret" for ex
  by (rule cluster_operationI [where parse = "\<lambda>values s. Inr (vget values ''secret'')"])
    (auto simp: create_account_handler_def create_account_internal_def id_and_key_ready split: if_splits sum.splits prod.splits)

interpretation check_application: cluster_operation check_application_handler ck_secret
  by (rule cluster_operationI [where parse = "\<lambda>values s. Inr \<lparr>ck_secret = vget values ''secret'', ck_api_key = vget values ''api_key''\<rparr>"])
    (auto simp: check_application_handler_def check_application_internal_def answer_ready_def split: if_splits option.splits)

interpretation create_application: cluster_operation "create_application_handler ex" cr_secret for ex
  by (rule cluster_operationI [where parse = "\<lambda>values s. Inr \<lparr>cr_secret = vget values ''secret'', cr_account_id = vget_int values ''account_id'',
        cr_name = vget values ''name'', cr_version = vget values ''version''\<rparr>"])
    (auto simp: create_application_handler_def create_application_internal_def id_and_key_ready split: if_splits sum.splits prod.splits option.splits)

lemma application_status_parsed:
  "no_http (update_application_status_parse values s)"
  "update_application_status_parse values s = Inr params \<Longrightarrow> us_secret params = vget values ''secret''"
  by (auto simp: update_application_status_parse_def split: option.splits if_splits)

interpretation update_application_status: cluster_operation update_application_status_handler us_secret
  by (rule cluster_operationI [where parse = update_application_status_parse])
    (auto simp: update_application_status_handler_def application_status_parsed update_application_status_internal_def update_application_status_def answer_ready_def
      split: if_splits option.splits)

subsection \<open>What the code does not mean to do\<close>

text \<open>A server whose configuration has no cluster secret creates accounts for anybody who gives none.\<close>

lemma no_secret_configured:
  assumes "ae_cluster_secret env = None" and "ac_apikey ` set (rows (t_account (as_app s))) \<inter> {ex_key ex} = {}"
  shows "\<exists>i s'. create_account_internal ex env req user_ip None s = (Inr (id_and_key (i, ex_key ex)), s')"
  using assms by (force simp: create_account_internal_def wrong_secret_def insert_account_def account_insert_violates_def Let_def
      list_ex_iff ins_def)

text \<open>\<open>active=0\<close> activates an application.\<close>

lemma active_zero_activates:
  assumes "vget values ''active'' = Some ''0''" and "update_application_status_parse values s = Inr params"
  shows "us_active params = Some True"
  using assms by (auto simp: update_application_status_parse_def vget_bool_def split: option.splits if_splits)

text \<open>An API key that is not in the cache cannot be checked, even a valid one.\<close>

lemma check_application_uncached:
  assumes "kc_app (as_caches s) k = None" and "ck_secret params = ae_cluster_secret env" and "ck_api_key params = Some k"
  shows "check_application_internal env req user_ip params s = (Inl (Crash AttributeError), s)"
  using assms by (simp add: check_application_internal_def wrong_secret_def)

text \<open>
  The parameters of an administration request name the application it is about, and the rate limiter counts the request against that
  application before the secret is looked at: anybody can use up an application's limit without knowing any key.
\<close>

lemma unauthorised_request_spends_target_limit:
  assumes "rq_values req = Inr vs" and "parse_format vs = (format, None)" and "vget vs ''secret'' = None"
    and "vget_int vs ''application_id'' = Some i"
    and "attempt p cfg (update_lookup_stats_handler ex) env req s = (fmt, result, s')" and "ae_cluster_secret env = Some secret"
  shows "(\<exists>e. result = Inl (Web e)) \<and> as_redis s' = snd (rate_limit cfg (ae_now env) (request_ip req) (Some i) (as_redis s))"
proof -
  obtain refused r where r: "rate_limit cfg (ae_now env) (request_ip req) (Some i) (as_redis s) = (refused, r)" by fastforce
  have "\<not> is_cluster_request env vs" by (simp add: is_cluster_request_def assms(3) split: option.split)
  with assms r show ?thesis
    by (cases refused) (auto simp: attempt_def update_lookup_stats_handler_def parse_after_format_def update_lookup_stats_parse_def
        update_lookup_stats_internal_def wrong_secret_def keep_databases_def Let_def split: if_splits)
qed

text \<open>An MBID in capitals is found by the database and lost on the way back.\<close>

lemma uppercase_mbid_finds_nothing:
  assumes "m \<noteq> map lower_char m" and "pg_uuid m = Inr u" and "lb_mbids params = [m]" and "\<not> truthy_int (lb_batch params)"
  shows "list_by_mbid_internal env req user_ip params s = (Inr [(''tracks'', JArr [])], s)"
proof -
  have u: "u = map lower_char m" using assms(2) by (auto simp: pg_uuid_def split: if_splits)
  have "dict_get (tracks_map fdb b [u]) m = None" for fdb b
    using assms(1) u by (auto simp: tracks_map_def dict_get_group filter_empty_conv)
  then show ?thesis using assms(2-4) by (simp add: list_by_mbid_internal_def and_then_def tracks_of_def)
qed

end
