(* ===== verification/Server.thy ===== *)
theory Server
  imports Api_Admin Lookup_Spec
begin

text \<open>
  \<^verbatim>\<open>server.py\<close>: the routes of the API service, the dispatch of a request to its handler, and the middleware around it. What a
  handler needs from outside is one record, \<open>server_env\<close>. Werkzeug's part is \<open>read_request\<close>, which makes a request of what the WSGI server
  gives; \<open>gunzip\<close> is \<open>gzip\<close>. Response headers are not modelled, so \<open>add_cors_headers\<close> is not, nor are Sentry and \<open>ProxyFix\<close>.
\<close>

subsection \<open>Routes\<close>

definition submount :: "string \<Rightarrow> (string \<times> string) list \<Rightarrow> (string \<times> string) list" where
  "submount path rules = map (\<lambda>(rule, endpoint). (path @ rule, endpoint)) rules"

definition internal_rules :: "(string \<times> string) list" where
  "internal_rules =
     [(''/update_lookup_stats'', ''v2.internal.update_lookup_stats''),
      (''/update_user_agent_stats'', ''v2.internal.update_user_agent_stats''),
      (''/lookup_stats'', ''v2.internal.lookup_stats''),
      (''/create_account'', ''v2.internal.create_account''),
      (''/create_application'', ''v2.internal.create_application''),
      (''/update_application_status'', ''v2.internal.update_application_status''),
      (''/check_application'', ''v2.internal.check_application'')]"

definition api_url_rules :: "(string \<times> string) list" where
  "api_url_rules =
     [(''/_health'', ''health''), (''/_health_ro'', ''health_ro''), (''/_health_docker'', ''health_docker''),
      (''/lookup'', ''v1.lookup''), (''/submit'', ''v1.submit'')]
     @ submount ''/v2''
         ([(''/lookup'', ''v2.lookup''), (''/submit'', ''v2.submit''), (''/submission_status'', ''v2.submission_status''),
           (''/fingerprint'', ''v2.fingerprint''), (''/track/list_by_mbid'', ''v2.track.list_by_mbid''),
           (''/track/list_by_puid'', ''v2.track.list_by_puid''), (''/user/lookup'', ''v2.user.lookup''),
           (''/user/create_anonymous'', ''v2.user.create_anonymous''), (''/user/create_musicbrainz'', ''v2.user.create_musicbrainz'')]
          @ submount ''/internal'' internal_rules)"

text \<open>\<open>urls.match()\<close>: a slash at the end makes no difference, and a path with double slashes is redirected to one without.\<close>

fun merge_slashes :: "string \<Rightarrow> string" where
  "merge_slashes (a # b # s) = (if a = CHR ''/'' \<and> b = CHR ''/'' then merge_slashes (b # s) else a # merge_slashes (b # s))"
| "merge_slashes s = s"

definition rule_endpoint :: "string \<Rightarrow> string option" where
  "rule_endpoint path =
     map_of api_url_rules (if path \<noteq> [] \<and> last path = CHR ''/'' then butlast path else path)"

datatype route = Endpoint string | No_route int

definition match_url :: "string \<Rightarrow> route" where
  "match_url path =
     (case rule_endpoint path of
        Some endpoint \<Rightarrow> Endpoint endpoint
      | None \<Rightarrow> if merge_slashes path \<noteq> path \<and> rule_endpoint (merge_slashes path) \<noteq> None then No_route 308 else No_route 404)"

subsection \<open>Endpoints\<close>

record server_env =
  sv_printers :: printers
  sv_rates :: rate_config
  sv_lookup :: lookup_env
  sv_decode :: "string \<Rightarrow> (int list \<times> int) option"
  sv_externals :: api_externals
  sv_shutting_down :: bool

type_synonym service = "api_env \<Rightarrow> api_request \<Rightarrow> api_state \<Rightarrow> outcome \<times> api_state"

definition serve :: "server_env \<Rightarrow> 'p api_handler \<Rightarrow> service" where
  "serve x h env req s = handle_request (sv_printers x) (sv_rates x) h env req s"

definition health :: "server_env \<Rightarrow> bool \<Rightarrow> service" where
  "health x require_master env req s = (Answer (get_health_response (ae_cluster_role env) (sv_shutting_down x) require_master), s)"

definition endpoints :: "server_env \<Rightarrow> (string \<times> service) list" where
  "endpoints x =
     [(''health'', health x True),
      (''health_ro'', health x False),
      (''health_docker'', health x False),
      (''v1.lookup'', serve x (lookup_handler (sv_decode x) (sv_lookup x) V1)),
      (''v1.submit'', serve x (submit_handler (sv_decode x) V1)),
      (''v2.lookup'', serve x (lookup_handler (sv_decode x) (sv_lookup x) V2)),
      (''v2.submit'', serve x (submit_handler (sv_decode x) V2)),
      (''v2.submission_status'', serve x status_handler),
      (''v2.fingerprint'', serve x get_fingerprint_handler),
      (''v2.track.list_by_mbid'', serve x list_by_mbid_handler),
      (''v2.track.list_by_puid'', serve x list_by_puid_handler),
      (''v2.user.lookup'', serve x user_lookup_handler),
      (''v2.user.create_anonymous'', serve x (create_anonymous_handler (sv_externals x))),
      (''v2.user.create_musicbrainz'', serve x (create_musicbrainz_handler (sv_externals x))),
      (''v2.internal.update_lookup_stats'', serve x (update_lookup_stats_handler (sv_externals x))),
      (''v2.internal.update_user_agent_stats'', serve x (update_user_agent_stats_handler (sv_externals x))),
      (''v2.internal.lookup_stats'', serve x (lookup_stats_handler (sv_externals x))),
      (''v2.internal.create_account'', serve x (create_account_handler (sv_externals x))),
      (''v2.internal.create_application'', serve x (create_application_handler (sv_externals x))),
      (''v2.internal.update_application_status'', serve x update_application_status_handler),
      (''v2.internal.check_application'', serve x check_application_handler)]"

datatype http_result = Response api_response | Http_error int | Server_error api_exc

definition wsgi_app :: "server_env \<Rightarrow> api_env \<Rightarrow> string \<Rightarrow> api_request \<Rightarrow> api_state \<Rightarrow> http_result \<times> api_state" where
  "wsgi_app x env path req s =
     (case match_url path of
        No_route n \<Rightarrow> (Http_error n, s)
      | Endpoint endpoint \<Rightarrow>
          (case map_of (endpoints x) endpoint of
             None \<Rightarrow> (Http_error 400, s)
           | Some handler \<Rightarrow>
               (case handler env req s of
                  (Answer response, s) \<Rightarrow> (Response response, s)
                | (Raised (HttpException n), s) \<Rightarrow> (Http_error n, s)
                | (Raised e, s) \<Rightarrow> (Server_error e, s))))"

subsection \<open>Middleware\<close>

definition MAX_CONTENT_LENGTH :: int where "MAX_CONTENT_LENGTH = 1048576"

text \<open>A request before it is read: a body of \<open>None\<close> is a client that went away.\<close>

record raw_request =
  rw_path :: string
  rw_content_encoding :: string
  rw_content_length :: "int option"
  rw_body :: "string option"

datatype gunzipped = Gunzipped string | Not_gzip | Corrupt_gzip py_exc

definition gzip_request_middleware ::
    "(string \<Rightarrow> gunzipped) \<Rightarrow> (raw_request \<Rightarrow> 's \<Rightarrow> http_result \<times> 's) \<Rightarrow> raw_request \<Rightarrow> 's \<Rightarrow> http_result \<times> 's" where
  "gzip_request_middleware gunzip app raw s =
     (if py_strip (map lower_char (rw_content_encoding raw)) = ''gzip'' then
        (if (case rw_content_length raw of None \<Rightarrow> False | Some n \<Rightarrow> n > MAX_CONTENT_LENGTH) then (Http_error 400, s)
         else case rw_body raw of
           None \<Rightarrow> (Http_error 400, s)
         | Some compressed_body \<Rightarrow>
             (case gunzip compressed_body of
                Not_gzip \<Rightarrow> (Http_error 400, s)
              | Corrupt_gzip e \<Rightarrow> (Server_error (Crash e), s)
              | Gunzipped content \<Rightarrow>
                  app (raw\<lparr>rw_body := Some content, rw_content_length := Some (int (length content)), rw_content_encoding := []\<rparr>) s))
      else app raw s)"

text \<open>\<open>replace("//", "/")\<close>, from the left and once.\<close>

fun halve_slashes :: "string \<Rightarrow> string" where
  "halve_slashes (a # b # s) = (if a = CHR ''/'' \<and> b = CHR ''/'' then CHR ''/'' # halve_slashes s else a # halve_slashes (b # s))"
| "halve_slashes s = s"

definition replace_double_slashes :: "(raw_request \<Rightarrow> 's \<Rightarrow> http_result \<times> 's) \<Rightarrow> raw_request \<Rightarrow> 's \<Rightarrow> http_result \<times> 's" where
  "replace_double_slashes app raw s = app (raw\<lparr>rw_path := halve_slashes (rw_path raw)\<rparr>) s"

text \<open>\<open>make_application\<close>: the middleware added last is entered first.\<close>

definition application ::
    "server_env \<Rightarrow> (string \<Rightarrow> gunzipped) \<Rightarrow> (raw_request \<Rightarrow> api_request) \<Rightarrow> api_env \<Rightarrow> raw_request \<Rightarrow> api_state \<Rightarrow> http_result \<times> api_state" where
  "application x gunzip read_request env =
     replace_double_slashes (gzip_request_middleware gunzip (\<lambda>raw s. wsgi_app x env (rw_path raw) (read_request raw) s))"

subsection \<open>Every endpoint\<close>

definition service_ok :: "service \<Rightarrow> bool" where
  "service_ok h \<longleftrightarrow> (\<forall>env req s. case h env req s of (out, s') \<Rightarrow>
     ((\<exists>body. out = Answer \<lparr>ar_status = 200, ar_body = body\<rparr>) \<or> same_databases s s') \<and>
     (no_http (rq_values req) \<longrightarrow> (\<exists>response. out = Answer response)))"

lemma service_okD:
  "service_ok h \<Longrightarrow> h env req s = (out, s') \<Longrightarrow>
     ((\<exists>body. out = Answer \<lparr>ar_status = 200, ar_body = body\<rparr>) \<or> same_databases s s') \<and>
     (no_http (rq_values req) \<longrightarrow> (\<exists>response. out = Answer response))"
  unfolding service_ok_def by (drule spec [of _ env], drule spec [of _ req], drule spec [of _ s]) simp

lemma service_ok_health: "service_ok (health x b)"
  by (simp add: service_ok_def health_def)

lemma service_ok_serve: "api_operation h \<Longrightarrow> service_ok (serve x h)"
  using api_operation.refused_changes_nothing [of h _ "sv_printers x" "sv_rates x"]
    api_operation.always_answered [of h _ "sv_printers x" "sv_rates x"]
  unfolding service_ok_def serve_def by (auto simp: case_prod_unfold)

lemmas operations =
  lookup.api_operation_axioms submit.api_operation_axioms status.api_operation_axioms get_fingerprint.api_operation_axioms
  list_by_mbid.api_operation_axioms list_by_puid.api_operation_axioms user_lookup.api_operation_axioms
  create_anonymous.api_operation_axioms create_musicbrainz.api_operation_axioms update_lookup_stats.api_operation_axioms
  update_user_agent_stats.api_operation_axioms lookup_stats.api_operation_axioms create_account.api_operation_axioms
  create_application.api_operation_axioms update_application_status.api_operation_axioms check_application.api_operation_axioms

lemma endpoints_ok: "list_all (\<lambda>(name, h). service_ok h) (endpoints x)"
  by (simp add: endpoints_def service_ok_health service_ok_serve operations)

lemma endpoint_ok: "map_of (endpoints x) e = Some h \<Longrightarrow> service_ok h"
  using endpoints_ok [of x] by (auto simp: list_all_iff dest: map_of_SomeD)


text \<open>C33: Every request on a known path is answered by its handler, also when the handler fails: whatever it raises becomes an error
  response, unless reading the request already raised one of werkzeug's own errors.\<close>

theorem every_request_answered:
  assumes "match_url path = Endpoint endpoint" and "no_http (rq_values req)"
  shows "\<exists>response. fst (wsgi_app x env path req s) = Response response"
proof -
  have "map_of api_url_rules p = Some endpoint \<Longrightarrow> map_of (endpoints x) endpoint \<noteq> None" for p
    by (simp add: api_url_rules_def internal_rules_def submount_def endpoints_def split: if_splits)
  then obtain h where h: "map_of (endpoints x) endpoint = Some h"
    using assms(1) by (auto simp: match_url_def rule_endpoint_def split: option.splits if_splits)
  obtain out s' where out: "h env req s = (out, s')" by fastforce
  from service_okD [OF endpoint_ok [OF h] out] assms(2) obtain response where "out = Answer response" by blast
  with assms(1) h out show ?thesis by (simp add: wsgi_app_def)
qed

subsection \<open>The internal paths\<close>

definition service_secret :: "server_env \<Rightarrow> string \<Rightarrow> bool" where
  "service_secret x e \<longleftrightarrow> (\<forall>h env req s. map_of (endpoints x) e = Some h \<longrightarrow>
     (\<forall>vs. rq_values req = Inr vs \<longrightarrow> vget vs ''secret'' \<noteq> ae_cluster_secret env) \<longrightarrow> same_databases s (snd (h env req s)))"

lemmas cluster_operations =
  update_lookup_stats.unauthorised_changes_nothing update_user_agent_stats.unauthorised_changes_nothing
  lookup_stats.unauthorised_changes_nothing create_account.unauthorised_changes_nothing create_application.unauthorised_changes_nothing
  update_application_status.unauthorised_changes_nothing check_application.unauthorised_changes_nothing

lemma internal_services: "list_all (service_secret x) (map snd internal_rules)"
  by (simp add: internal_rules_def service_secret_def endpoints_def serve_def cluster_operations)

lemma internal_route:
  assumes "rule_endpoint path = Some e" and "starts_with ''/v2/internal/'' path"
  shows "e \<in> set (map snd internal_rules)"
proof -
  let ?p = "if path \<noteq> [] \<and> last path = CHR ''/'' then butlast path else path"
  have path: "path = ?p \<or> path = ?p @ ''/''" by (cases path rule: rev_cases) auto
  from assms(1) have "(?p, e) \<in> set api_url_rules" unfolding rule_endpoint_def by (rule map_of_SomeD)
  then consider "e \<in> set (map snd internal_rules)" | "?p \<in> {''/_health'', ''/_health_ro'', ''/_health_docker'', ''/lookup'', ''/submit'', ''/v2/lookup'',
      ''/v2/submit'', ''/v2/submission_status'', ''/v2/fingerprint'', ''/v2/track/list_by_mbid'', ''/v2/track/list_by_puid'', ''/v2/user/lookup'',
      ''/v2/user/create_anonymous'', ''/v2/user/create_musicbrainz''}"
    unfolding api_url_rules_def submount_def by force
  then show ?thesis
  proof cases
    case 2
    with path assms(2) show ?thesis by (elim insertE disjE) (simp_all add: starts_with_def)
  qed
qed

text \<open>C31: Without the cluster's secret nobody changes anything through the internal API: a request to any path under
  \<open>/v2/internal\<close> whose secret is not the configured one leaves every database as it was.\<close>

theorem internal_api_needs_secret:
  assumes "starts_with ''/v2/internal/'' path" and "rq_values req = Inr vs" and "vget vs ''secret'' \<noteq> ae_cluster_secret env"
  shows "case wsgi_app x env path req s of (out, s') \<Rightarrow>
     as_app s' = as_app s \<and> as_stats s' = as_stats s \<and> as_fp s' = as_fp s \<and> as_ingest s' = as_ingest s"
proof (cases "\<exists>e h. match_url path = Endpoint e \<and> map_of (endpoints x) e = Some h")
  case True
  then obtain e h where h: "match_url path = Endpoint e" "map_of (endpoints x) e = Some h" by blast
  then have "rule_endpoint path = Some e" by (auto simp: match_url_def split: option.splits if_splits)
  then have "e \<in> set (map snd internal_rules)" using assms(1) by (rule internal_route)
  with internal_services [of x] have "service_secret x e" by (auto simp: list_all_iff)
  with h(2) assms(2,3) have same: "same_databases s (snd (h env req s))" by (simp add: service_secret_def)
  obtain out s' where "h env req s = (out, s')" by fastforce
  with h same show ?thesis
    by (cases out) (auto simp: wsgi_app_def same_databases_def split: api_exc.split)
next
  case False
  then show ?thesis by (auto simp: wsgi_app_def split: route.split option.split)
qed

theorem every_request_answered_witness:
  "\<forall>x env. \<exists>response. fst (wsgi_app x env ''/v2/fingerprint/'' \<lparr>rq_values = Inr [], rq_access_route = [], rq_remote_addr = None,
      rq_is_secure = False, rq_user_agent = []\<rparr> sample_api_state) = Response response"
proof (intro allI)
  fix x env
  have "match_url ''/v2/fingerprint/'' = Endpoint ''v2.fingerprint''" by code_simp
  then show "\<exists>response. fst (wsgi_app x env ''/v2/fingerprint/'' \<lparr>rq_values = Inr [], rq_access_route = [], rq_remote_addr = None,
      rq_is_secure = False, rq_user_agent = []\<rparr> sample_api_state) = Response response"
    by (rule every_request_answered) simp
qed

theorem internal_api_needs_secret_witness:
  "\<forall>x env. case wsgi_app x (env\<lparr>ae_cluster_secret := Some ''s''\<rparr>) ''/v2/internal/create_account'' \<lparr>rq_values = Inr [[(''secret'', ''t'')]],
       rq_access_route = [], rq_remote_addr = None, rq_is_secure = False, rq_user_agent = []\<rparr> sample_api_state of (out, s') \<Rightarrow> as_app s' = empty_app_db"
proof (intro allI)
  fix x env
  let ?req = "\<lparr>rq_values = Inr [[(''secret'', ''t'')]], rq_access_route = [], rq_remote_addr = None, rq_is_secure = False, rq_user_agent = []\<rparr>"
  have "starts_with ''/v2/internal/'' ''/v2/internal/create_account''" by (simp add: starts_with_def)
  then have "case wsgi_app x (env\<lparr>ae_cluster_secret := Some ''s''\<rparr>) ''/v2/internal/create_account'' ?req sample_api_state of (out, s') \<Rightarrow>
     as_app s' = as_app sample_api_state \<and> as_stats s' = as_stats sample_api_state \<and> as_fp s' = as_fp sample_api_state
     \<and> as_ingest s' = as_ingest sample_api_state"
    by (rule internal_api_needs_secret [where vs = "[[(''secret'', ''t'')]]"]) simp_all
  then show "case wsgi_app x (env\<lparr>ae_cluster_secret := Some ''s''\<rparr>) ''/v2/internal/create_account'' ?req sample_api_state of (out, s') \<Rightarrow>
     as_app s' = empty_app_db" by (auto simp: sample_api_state_def split: prod.splits)
qed

subsection \<open>The middleware\<close>

text \<open>An unreadable body never reaches a handler; a corrupt one is not refused but ends in an exception.\<close>

lemma gzip_refuses:
  assumes "py_strip (map lower_char (rw_content_encoding raw)) = ''gzip''" and "rw_body raw = Some b" and "\<nexists>content. gunzip b = Gunzipped content"
  shows "gzip_request_middleware gunzip app raw s = (Http_error 400, s) \<or>
     (\<exists>e. gunzip b = Corrupt_gzip e \<and> gzip_request_middleware gunzip app raw s = (Server_error (Crash e), s))"
  using assms by (cases "gunzip b") (auto simp: gzip_request_middleware_def)

end
