(* ===== verification/Web_User.thy ===== *)
theory Web_User
  imports Api_Params Json Track
begin

text \<open>
  The users of the web site: \<^verbatim>\<open>web/utils.py\<close> and \<^verbatim>\<open>web/views/user.py\<close>. The session is the visitor's signed cookie, so it
  is part of a request's state but of no transaction: what a view writes into it stays when the databases are
  rolled back. A site without a secret key has no sessions, and is left out. \<open>web_env\<close> is what the views call and does
  not change: the configured two-phase commit, PostgreSQL's reading of a text as an integer, \<open>strptime\<close> of a month,
  \<open>url_for\<close>, the serialiser of the \<open>state\<close> parameter (itsdangerous), \<open>str\<close> and the decoding of an
  ID token, and the check of a bracketed host (Python's \<^verbatim>\<open>ipaddress\<close>). \<open>web_outside\<close> is what happens while one request
  is served: the random token and API key, the answers of MusicBrainz, Google and the OpenID library, what the
  commit raises, and which databases commit when several take part. Texts with a NUL, which the driver refuses, are left out.
\<close>

subsection \<open>URLs\<close>

text \<open>\<open>urlparse\<close>: the scheme and the network location.\<close>

definition is_letter :: "char \<Rightarrow> bool" where
  "is_letter c \<longleftrightarrow> is_alnum c \<and> \<not> is_digit c"

definition split_scheme :: "string \<Rightarrow> string \<times> string" where
  "split_scheme url =
     (case str_split1 CHR '':'' url of
        (scheme, Some rest) \<Rightarrow>
          (if scheme \<noteq> [] \<and> is_letter (hd scheme) \<and> list_all (\<lambda>c. is_alnum c \<or> c \<in> set ''+-.'') scheme
           then (map lower_char scheme, rest) else ([], url))
      | (_, None) \<Rightarrow> ([], url))"

definition urlparse :: "(string \<Rightarrow> bool) \<Rightarrow> string \<Rightarrow> py_exc + string \<times> string" where
  "urlparse bracket_ok url =
     (let url = filter (\<lambda>c. code c \<notin> {9, 10, 13}) (dropWhile (\<lambda>c. code c \<le> 32) url);
          (scheme, rest) = split_scheme url
      in if starts_with ''//'' rest then
           (let netloc = takeWhile (\<lambda>c. c \<notin> set ''/?#'') (drop 2 rest)
            in if (CHR ''['' \<in> set netloc) \<noteq> (CHR '']'' \<in> set netloc) \<or> CHR ''['' \<in> set netloc \<and> \<not> bracket_ok netloc
               then Inl ValueError else Inr (scheme, netloc))
         else Inr (scheme, []))"

definition hostname :: "string \<Rightarrow> string" where
  "hostname netloc =
     (let hostinfo = last (str_split CHR ''@'' netloc);
          host = (case str_split1 CHR ''['' hostinfo of
                    (_, Some bracketed) \<Rightarrow> fst (str_split1 CHR '']'' bracketed)
                  | (_, None) \<Rightarrow> fst (str_split1 CHR '':'' hostinfo))
      in case str_split1 CHR ''%'' host of
           (name, None) \<Rightarrow> py_lower name
         | (name, Some zone) \<Rightarrow> py_lower name @ ''%'' @ zone)"

definition is_our_url :: "(string \<Rightarrow> bool) \<Rightarrow> string \<Rightarrow> string \<Rightarrow> py_exc + bool" where
  "is_our_url bracket_ok host url = and_then (urlparse bracket_ok url) (\<lambda>(scheme, netloc). Inr (netloc = host))"

definition is_valid_url :: "(string \<Rightarrow> bool) \<Rightarrow> string \<Rightarrow> py_exc + bool" where
  "is_valid_url bracket_ok s =
     and_then (urlparse bracket_ok s) (\<lambda>(scheme, netloc). Inr (scheme \<in> {''http'', ''https''} \<and> netloc \<noteq> []))"

definition email_body :: "string \<Rightarrow> bool" where
  "email_body s \<longleftrightarrow>
     (case str_split1 CHR ''@'' s of
        (_, None) \<Rightarrow> False
      | (local, Some domain) \<Rightarrow>
          (let top = last (str_split CHR ''.'' domain); host = take (length domain - length top - 1) domain
           in local \<noteq> [] \<and> list_all (\<lambda>c. is_alnum c \<or> c \<in> set ''._%+-'') local
              \<and> length top < length domain \<and> host \<noteq> [] \<and> list_all (\<lambda>c. is_alnum c \<or> c \<in> set ''.-'') host
              \<and> 2 \<le> length top \<and> length top \<le> 4 \<and> list_all is_letter top))"

definition is_valid_email :: "string \<Rightarrow> bool" where
  "is_valid_email s = re_dollar email_body s"

subsection \<open>Requests, sessions and answers\<close>

record web_request =
  wr_post :: bool
  wr_args :: "(string \<times> string) list"
  wr_form :: "(string \<times> string) list"
  wr_host :: string
  wr_url :: string

definition arg :: "web_request \<Rightarrow> string \<Rightarrow> string option" where
  "arg req k = map_of (wr_args req) k"

definition form :: "web_request \<Rightarrow> string \<Rightarrow> string option" where
  "form req k = map_of (wr_form req) k"

definition web_values :: "web_request \<Rightarrow> request_values" where
  "web_values req = (if wr_post req then [wr_args req, wr_form req] else [wr_args req])"

record web_session =
  se_id :: "int option"
  se_tokens :: "string \<rightharpoonup> string"
  se_openid :: string

definition new_session :: web_session where
  "new_session = \<lparr>se_id = None, se_tokens = Map.empty, se_openid = []\<rparr>"

record web_site =
  ws_session :: web_session
  ws_app :: app_db
  ws_fp :: fingerprint_db
  ws_ingest :: ingest_db

text \<open>Where a redirect leads: to a view of the site, to a URL, or to an identity provider with parameters.\<close>

datatype web_location =
    Url_for string "(string \<times> string) list"
  | Location string
  | Authorize string "(string \<times> string) list"

datatype web_response =
    Rendered string
  | Redirect web_location
  | Abort int
  | Crashed py_exc

datatype openid_begin = Discovery_failure | No_services | Openid_request string | Begin_raises py_exc

text \<open>A verified identity comes with what reading its attributes raises.\<close>

datatype openid_info = Openid_success string "py_exc option" | Openid_cancel | Openid_failure

record web_env =
  we_two_phase_commit :: bool
  we_pg_int :: "string \<Rightarrow> int option"
  we_month :: "string \<Rightarrow> int option"
  we_bracket_ok :: "string \<Rightarrow> bool"
  we_url_for :: "string \<Rightarrow> (string \<times> string) list \<Rightarrow> string"
  we_dumps :: "json \<Rightarrow> string"
  we_loads :: "string \<Rightarrow> py_exc + json"
  we_str :: "json \<Rightarrow> string"
  we_id_token :: "string \<Rightarrow> py_exc + json"

record web_outside =
  wo_token :: string
  wo_apikey :: string
  wo_commit :: "py_exc option"
  wo_fp_commits :: bool
  wo_ingest_commits :: bool
  wo_mb_userinfo :: "string \<Rightarrow> py_exc + json"
  wo_google_token :: "string \<Rightarrow> py_exc + json"
  wo_openid_begin :: "string \<Rightarrow> string \<Rightarrow> openid_begin \<times> string"
  wo_openid_complete :: "web_request \<Rightarrow> string \<Rightarrow> (py_exc + openid_info) \<times> string"

text \<open>A view that raises aborts the request; its session survives, its transaction does not, and a sequence never goes back.\<close>

definition rolled_back :: "web_site \<Rightarrow> web_site \<Rightarrow> web_site" where
  "rolled_back st st' =
     st\<lparr>ws_session := ws_session st',
        ws_app := (ws_app st)\<lparr>t_account := (t_account (ws_app st))\<lparr>serial := serial (t_account (ws_app st'))\<rparr>,
                             t_application := (t_application (ws_app st))\<lparr>serial := serial (t_application (ws_app st'))\<rparr>\<rparr>\<rparr>"

subsection \<open>\<open>require_user\<close> and \<open>require_admin\<close>\<close>

definition account_by_id :: "app_db \<Rightarrow> int \<Rightarrow> account_row option" where
  "account_by_id db i = scalar (\<lambda>r. ac_id r = i) (\<lambda>r. r) (t_account db)"

definition login_url :: "web_request \<Rightarrow> web_response" where
  "login_url req = Redirect (Url_for ''user.login'' [(''return_url'', wr_url req)])"

definition require_user :: "web_request \<Rightarrow> web_site \<Rightarrow> (web_response + account_row) \<times> web_site" where
  "require_user req st =
     (case se_id (ws_session st) of
        None \<Rightarrow> (Inl (login_url req), st)
      | Some account_id \<Rightarrow>
          (case account_by_id (ws_app st) account_id of
             None \<Rightarrow> (Inl (login_url req), st\<lparr>ws_session := (ws_session st)\<lparr>se_id := None\<rparr>\<rparr>)
           | Some account \<Rightarrow> (Inr account, st)))"

definition require_admin :: "web_request \<Rightarrow> web_site \<Rightarrow> (web_response + account_row) \<times> web_site" where
  "require_admin req st =
     (case require_user req st of
        (Inl response, st) \<Rightarrow> (Inl response, st)
      | (Inr account, st) \<Rightarrow> (if ac_is_admin account then Inr account else Inl (Abort 404), st))"

subsection \<open>Login tokens\<close>

datatype login_failure = LoginError string | Failed py_exc

type_synonym 'a login_step = "(login_failure + 'a) \<times> web_site"

definition set_session :: "(web_session \<Rightarrow> web_session) \<Rightarrow> web_site \<Rightarrow> web_site" where
  "set_session f st = st\<lparr>ws_session := f (ws_session st)\<rparr>"

definition generate_login_token :: "web_outside \<Rightarrow> string \<Rightarrow> web_site \<Rightarrow> string \<times> web_site" where
  "generate_login_token wo session_key st =
     (wo_token wo, set_session (\<lambda>s. s\<lparr>se_tokens := (se_tokens s)(session_key \<mapsto> wo_token wo)\<rparr>) st)"

definition expired :: login_failure where
  "expired = LoginError ''Your sign-in session has expired. Please try again.''"

text \<open>\<open>state\<close> comes from the query string or out of a signed value: anything but a text has no \<open>encode\<close>.\<close>

definition check_login_token :: "string \<Rightarrow> json \<Rightarrow> web_site \<Rightarrow> unit login_step" where
  "check_login_token session_key state st =
     (let token = se_tokens (ws_session st) session_key;
          st = set_session (\<lambda>s. s\<lparr>se_tokens := (se_tokens s)(session_key := None)\<rparr>) st
      in (if \<not> truthy_str token then Inl expired
          else if \<not> jtruthy state then Inl expired
          else case state of
                 JStr s \<Rightarrow> if token = Some s then Inr () else Inl expired
               | _ \<Rightarrow> Inl (Failed AttributeError), st))"

text \<open>The return URL is a text of the query, or what the signed state holds.\<close>

definition login_user_and_redirect :: "web_env \<Rightarrow> web_request \<Rightarrow> int \<Rightarrow> json \<Rightarrow> web_site \<Rightarrow> web_response login_step" where
  "login_user_and_redirect env req user_id return_url st =
     (let st = set_session (\<lambda>s. s\<lparr>se_id := Some user_id\<rparr>) st;
          return_url = (if jtruthy return_url then return_url else jstr (vget (web_values req) ''return_url''))
      in (if \<not> jtruthy return_url then Inr (Redirect (Url_for ''general.index'' []))
          else case return_url of
                 JStr url \<Rightarrow>
                   (case is_our_url (we_bracket_ok env) (wr_host req) url of
                      Inl e \<Rightarrow> Inl (Failed e)
                    | Inr ours \<Rightarrow> Inr (Redirect (if ours then Location url else Url_for ''general.index'' [])))
               | _ \<Rightarrow> Inl (Failed AttributeError), st))"

text \<open>
  The end of the three login views: a failure becomes a message on the login page. What the handler left to the
  flush at commit is a row of \<open>account_google\<close>, whose key may be \<open>None\<close>.
\<close>

type_synonym pending = "(string option \<times> int) option"

definition flush_pending :: "pending \<Rightarrow> app_db \<Rightarrow> py_exc + app_db" where
  "flush_pending p db =
     (case p of
        None \<Rightarrow> Inr db
      | Some (None, i) \<Rightarrow> Inl IntegrityError
      | Some (Some g, i) \<Rightarrow>
          if list_ex (\<lambda>r. ag_google_user_id r = g) (rows (t_account_google db)) then Inl IntegrityError
          else Inr (db\<lparr>t_account_google := (t_account_google db)
                 \<lparr>rows := rows (t_account_google db) @ [\<lparr>ag_google_user_id = g, ag_account_id = i\<rparr>]\<rparr>\<rparr>))"

definition commit :: "web_outside \<Rightarrow> app_db \<Rightarrow> py_exc + app_db" where
  "commit wo db = (case wo_commit wo of None \<Rightarrow> Inr db | Some e \<Rightarrow> Inl e)"

definition login_error :: "string \<Rightarrow> web_response" where
  "login_error message = Redirect (Url_for ''user.login'' [(''error'', message)])"

definition finish_login :: "web_outside \<Rightarrow> string \<Rightarrow> web_site \<Rightarrow> (web_response \<times> pending) login_step \<Rightarrow> web_response \<times> web_site" where
  "finish_login wo failed st step =
     (case step of
        (Inl (LoginError message), st') \<Rightarrow> (login_error message, rolled_back st st')
      | (Inl (Failed e), st') \<Rightarrow> (login_error failed, rolled_back st st')
      | (Inr (response, pending), st') \<Rightarrow>
          (case and_then (flush_pending pending (ws_app st')) (commit wo) of
             Inl e \<Rightarrow> (login_error failed, rolled_back st st')
           | Inr app \<Rightarrow> (response, st'\<lparr>ws_app := app\<rparr>)))"

definition nothing_pending :: "'a login_step \<Rightarrow> ('a \<times> pending) login_step" where
  "nothing_pending step = (case step of (Inl e, st) \<Rightarrow> (Inl e, st) | (Inr r, st) \<Rightarrow> (Inr (r, None), st))"

subsection \<open>MusicBrainz\<close>

text \<open>\<open>d.get(k)\<close>, \<open>value[k]\<close>, and a JSON value as the parameter of a comparison with a text column.\<close>

definition get_or_null :: "(string \<times> json) list \<Rightarrow> string \<Rightarrow> json" where
  "get_or_null d k = (case dict_get d k of None \<Rightarrow> JNull | Some v \<Rightarrow> v)"

definition json_item :: "json \<Rightarrow> string \<Rightarrow> py_exc + json" where
  "json_item v k = (case v of JObj d \<Rightarrow> item_of d k | _ \<Rightarrow> Inl TypeError)"

definition sql_text :: "json \<Rightarrow> py_exc + string option" where
  "sql_text v = (case v of JStr s \<Rightarrow> Inr (Some s) | JNull \<Rightarrow> Inr None | _ \<Rightarrow> Inl ProgrammingError)"

definition new_user :: "string \<Rightarrow> string \<Rightarrow> string option \<Rightarrow> app_db \<Rightarrow> py_exc + int \<times> app_db" where
  "new_user apikey name mbuser db =
     (if list_ex (\<lambda>r. ac_apikey r = apikey \<or> mbuser \<noteq> None \<and> ac_mbuser r = mbuser) (rows (t_account db)) then Inl IntegrityError
      else let (i, t) = ins (\<lambda>i. \<lparr>ac_id = i, ac_name = name, ac_apikey = apikey, ac_mbuser = mbuser, ac_anonymous = False,
              ac_created = a_now db, ac_lastlogin = None, ac_submission_count = 0, ac_application_id = None,
              ac_application_version = None, ac_created_from = None, ac_is_admin = False\<rparr>) (t_account db)
           in Inr (i, db\<lparr>t_account := t\<rparr>))"

text \<open>\<open>filter_by(mbuser=None)\<close> asks for a NULL; a new account without a name is refused.\<close>

definition find_or_create_musicbrainz_user :: "string \<Rightarrow> string option \<Rightarrow> app_db \<Rightarrow> py_exc + int \<times> app_db" where
  "find_or_create_musicbrainz_user apikey mb_user_name db =
     (case scalar (\<lambda>r. ac_mbuser r = mb_user_name) ac_id (t_account db) of
        Some user_id \<Rightarrow> Inr (user_id, db)
      | None \<Rightarrow> (case mb_user_name of None \<Rightarrow> Inl IntegrityError | Some name \<Rightarrow> new_user apikey name (Some name) db))"

definition read_state :: "web_env \<Rightarrow> web_request \<Rightarrow> py_exc + (string \<times> json) list" where
  "read_state env req =
     (case none_if_empty (arg req ''state'') of
        None \<Rightarrow> Inr []
      | Some serialized_state \<Rightarrow>
          and_then (we_loads env serialized_state) (\<lambda>state. case state of JObj d \<Rightarrow> Inr d | _ \<Rightarrow> Inl AttributeError))"

definition musicbrainz_user_of :: "web_outside \<Rightarrow> string \<Rightarrow> app_db \<Rightarrow> py_exc + int \<times> app_db" where
  "musicbrainz_user_of wo auth_code db =
     and_then (wo_mb_userinfo wo auth_code) (\<lambda>response.
     and_then (json_item response ''sub'') (\<lambda>sub.
     and_then (sql_text sub) (\<lambda>name. find_or_create_musicbrainz_user (wo_apikey wo) name db)))"

definition handle_musicbrainz_oauth2_login :: "web_env \<Rightarrow> web_request \<Rightarrow> web_outside \<Rightarrow> web_site \<Rightarrow> web_response login_step" where
  "handle_musicbrainz_oauth2_login env req wo st =
     (case none_if_empty (arg req ''code'') of
        None \<Rightarrow>
          (case generate_login_token wo ''mb_login_token'' st of (token, st) \<Rightarrow>
             (Inr (Redirect (Authorize ''https://musicbrainz.org/oauth2/authorize''
                [(''response_type'', ''code''), (''scope'', ''profile''), (''redirect_uri'', we_url_for env ''user.musicbrainz_login'' []),
                 (''state'', we_dumps env (JObj [(''return_url'', jstr (vget (web_values req) ''return_url'')), (''token'', JStr token)]))])), st))
      | Some auth_code \<Rightarrow>
          (case read_state env req of
             Inl e \<Rightarrow> (Inl (Failed e), st)
           | Inr state \<Rightarrow>
               (case check_login_token ''mb_login_token'' (get_or_null state ''token'') st of
                  (Inl e, st) \<Rightarrow> (Inl e, st)
                | (Inr _, st) \<Rightarrow>
                    (case musicbrainz_user_of wo auth_code (ws_app st) of
                       Inl e \<Rightarrow> (Inl (Failed e), st)
                     | Inr (user_id, app) \<Rightarrow>
                         login_user_and_redirect env req user_id (get_or_null state ''return_url'') (st\<lparr>ws_app := app\<rparr>)))))"

definition musicbrainz_login :: "web_env \<Rightarrow> web_request \<Rightarrow> web_outside \<Rightarrow> web_site \<Rightarrow> web_response \<times> web_site" where
  "musicbrainz_login env req wo st =
     finish_login wo ''MusicBrainz login failed'' st (nothing_pending (handle_musicbrainz_oauth2_login env req wo st))"

subsection \<open>OpenID\<close>

fun has_substring :: "string \<Rightarrow> string \<Rightarrow> bool" where
  "has_substring p [] = (p = [])"
| "has_substring p (c # s) = (starts_with p (c # s) \<or> has_substring p s)"

definition strip_char :: "char \<Rightarrow> string \<Rightarrow> string" where
  "strip_char c s = rev (dropWhile (\<lambda>x. x = c) (rev (dropWhile (\<lambda>x. x = c) s)))"

definition validate_openid_identifier :: "web_env \<Rightarrow> string \<Rightarrow> login_failure + string" where
  "validate_openid_identifier env openid_url =
     (let openid_url = py_strip openid_url;
          url = (if has_substring ''://'' openid_url then openid_url else ''http://'' @ openid_url);
          host = (case urlparse (we_bracket_ok env) url of Inl e \<Rightarrow> [] | Inr (scheme, netloc) \<Rightarrow> hostname netloc)
      in if openid_url = [] then Inl (LoginError ''Please enter your OpenID URL.'')
         else if CHR ''@'' \<in> set openid_url then
           Inl (LoginError (''That looks like an email address. OpenID needs the URL of your '' @
             ''OpenID provider, for example https://example.com/openid.''))
         else if CHR ''.'' \<notin> set (strip_char CHR ''.'' host) then
           Inl (LoginError (''That does not look like an OpenID URL. It should be a full '' @
             ''address, for example https://example.com/openid.''))
         else Inr openid_url)"

definition get_openid_realm :: "web_env \<Rightarrow> string" where
  "get_openid_realm env = rev (dropWhile (\<lambda>c. c = CHR ''/'') (rev (we_url_for env ''general.index'' [])))"

definition no_provider :: login_failure where
  "no_provider = LoginError ''We could not find an OpenID provider at that address.''"

definition handle_openid_login_request :: "web_env \<Rightarrow> web_request \<Rightarrow> web_outside \<Rightarrow> web_site \<Rightarrow> web_response login_step" where
  "handle_openid_login_request env req wo st =
     (case validate_openid_identifier env (case form req ''openid_identifier'' of None \<Rightarrow> [] | Some s \<Rightarrow> s) of
        Inl e \<Rightarrow> (Inl e, st)
      | Inr openid_url \<Rightarrow>
          (case wo_openid_begin wo openid_url (se_openid (ws_session st)) of (openid_req, entries) \<Rightarrow>
             (case openid_req of
                Begin_raises e \<Rightarrow> Inl (Failed e)
              | Discovery_failure \<Rightarrow> Inl no_provider
              | No_services \<Rightarrow> Inl no_provider
              | Openid_request url \<Rightarrow>
                  Inr (Redirect (Authorize url [(''realm'', get_openid_realm env),
                    (''return_to'', we_url_for env ''user.openid_login''
                       (case vget (web_values req) ''return_url'' of None \<Rightarrow> [] | Some u \<Rightarrow> [(''return_url'', u)]))])),
              set_session (\<lambda>s. s\<lparr>se_openid := entries\<rparr>) st)))"

definition handle_openid_login_response :: "web_env \<Rightarrow> web_request \<Rightarrow> web_outside \<Rightarrow> web_site \<Rightarrow> web_response login_step" where
  "handle_openid_login_response env req wo st =
     (case wo_openid_complete wo req (se_openid (ws_session st)) of (info, entries) \<Rightarrow>
        let st = set_session (\<lambda>s. s\<lparr>se_openid := entries\<rparr>) st
        in case info of
             Inl e \<Rightarrow> (Inl (Failed e), st)
           | Inr Openid_cancel \<Rightarrow> (Inl (LoginError ''OpenID login was canceled.''), st)
           | Inr Openid_failure \<Rightarrow> (Inl (LoginError ''OpenID login failed.''), st)
           | Inr (Openid_success openid_url (Some e)) \<Rightarrow> (Inl (Failed e), st)
           | Inr (Openid_success openid_url None) \<Rightarrow>
               (let account_id = lookup_account_id_by_openid (ws_app st) openid_url
                in if truthy_int account_id then login_user_and_redirect env req (the account_id) JNull st
                   else case insert_account (wo_apikey wo) \<lparr>na_name = ''OpenID User'', na_mbuser = None, na_created_from = None,
                          na_application_id = None, na_application_version = None, na_openid = Some openid_url\<rparr> (ws_app st) of
                          Inl e \<Rightarrow> (Inl (Failed e), st)
                        | Inr ((account_id, _), app) \<Rightarrow> login_user_and_redirect env req account_id JNull (st\<lparr>ws_app := app\<rparr>)))"

definition handle_openid_login :: "web_env \<Rightarrow> web_request \<Rightarrow> web_outside \<Rightarrow> web_site \<Rightarrow> web_response login_step" where
  "handle_openid_login env req wo st =
     (if arg req ''openid.mode'' \<noteq> None then handle_openid_login_response env req wo st
      else handle_openid_login_request env req wo st)"

definition openid_login :: "web_env \<Rightarrow> web_request \<Rightarrow> web_outside \<Rightarrow> web_site \<Rightarrow> web_response \<times> web_site" where
  "openid_login env req wo st =
     finish_login wo ''OpenID login failed'' st (nothing_pending (handle_openid_login env req wo st))"

subsection \<open>Google\<close>

definition google_account :: "app_db \<Rightarrow> string option \<Rightarrow> int option" where
  "google_account db google_user_id =
     first_of [ac_id a. a \<leftarrow> rows (t_account db), g \<leftarrow> rows (t_account_google db),
               ag_account_id g = ac_id a \<and> Some (ag_google_user_id g) = google_user_id]"

definition openid_account :: "app_db \<Rightarrow> string option \<Rightarrow> int option" where
  "openid_account db openid =
     first_of [ac_id a. a \<leftarrow> rows (t_account db), r \<leftarrow> rows (t_account_openid db),
               ao_account_id r = ac_id a \<and> Some (ao_openid r) = openid]"

definition find_or_create_google_user ::
    "string \<Rightarrow> string option \<Rightarrow> string option \<Rightarrow> app_db \<Rightarrow> py_exc + int \<times> pending \<times> app_db" where
  "find_or_create_google_user apikey google_user_id openid db =
     (case google_account db google_user_id of
        Some user_id \<Rightarrow> Inr (user_id, None, db)
      | None \<Rightarrow>
          (case openid_account db openid of
             Some user_id \<Rightarrow>
               Inr (user_id, Some (google_user_id, user_id),
                    db\<lparr>t_account_openid := del (\<lambda>r. Some (ao_openid r) = openid) (t_account_openid db)\<rparr>)
           | None \<Rightarrow>
               and_then (new_user apikey ''Google Account'' None db) (\<lambda>(user_id, db).
                 Inr (user_id, Some (google_user_id, user_id), db))))"

text \<open>The token endpoint's answer up to the claims of its ID token, of which only the middle part is read.\<close>

definition id_token_of :: "web_env \<Rightarrow> json \<Rightarrow> login_failure + json" where
  "id_token_of env response =
     (case response of
        JObj d \<Rightarrow>
          (case dict_get d ''id_token'' of
             None \<Rightarrow> Inl (LoginError ''Your Google sign-in link has expired. Please try again.'')
           | Some id_token \<Rightarrow>
               (case str_split CHR ''.'' (case id_token of JStr s \<Rightarrow> s | v \<Rightarrow> we_str env v) of
                  [header, payload, secret] \<Rightarrow>
                    (case we_id_token env (payload @ replicate (4 - length payload mod 4) CHR ''='') of
                       Inl e \<Rightarrow> Inl (Failed e) | Inr claims \<Rightarrow> Inr claims)
                | _ \<Rightarrow> Inl (Failed ValueError)))
      | _ \<Rightarrow> Inl (Failed TypeError))"

definition google_user_of :: "web_outside \<Rightarrow> json \<Rightarrow> app_db \<Rightarrow> py_exc + int \<times> pending \<times> app_db" where
  "google_user_of wo id_token db =
     and_then (json_item id_token ''sub'') (\<lambda>sub.
     and_then (sql_text sub) (\<lambda>google_user_id.
     and_then (sql_text (case id_token of JObj d \<Rightarrow> get_or_null d ''openid_id'' | _ \<Rightarrow> JNull)) (\<lambda>openid.
       find_or_create_google_user (wo_apikey wo) google_user_id openid db)))"

definition handle_google_oauth2_login ::
    "web_env \<Rightarrow> web_request \<Rightarrow> web_outside \<Rightarrow> web_site \<Rightarrow> (web_response \<times> pending) login_step" where
  "handle_google_oauth2_login env req wo st =
     (case none_if_empty (arg req ''code'') of
        None \<Rightarrow>
          (case generate_login_token wo ''google_login_token'' st of (token, st) \<Rightarrow>
             (Inr (Redirect (Authorize ''https://accounts.google.com/o/oauth2/auth''
                [(''response_type'', ''code''), (''access_type'', ''online''), (''scope'', ''openid''),
                 (''redirect_uri'', we_url_for env ''user.google_login'' []), (''openid.realm'', get_openid_realm env),
                 (''state'', token)]), None), st))
      | Some auth_code \<Rightarrow>
          (case check_login_token ''google_login_token'' (jstr (arg req ''state'')) st of
             (Inl e, st) \<Rightarrow> (Inl e, st)
           | (Inr _, st) \<Rightarrow>
               (case wo_google_token wo auth_code of
                  Inl e \<Rightarrow> (Inl (Failed e), st)
                | Inr response \<Rightarrow>
                    (case id_token_of env response of
                       Inl e \<Rightarrow> (Inl e, st)
                     | Inr id_token \<Rightarrow>
                         (case google_user_of wo id_token (ws_app st) of
                            Inl e \<Rightarrow> (Inl (Failed e), st)
                          | Inr (user_id, pending, app) \<Rightarrow>
                              (case login_user_and_redirect env req user_id JNull (st\<lparr>ws_app := app\<rparr>) of
                                 (Inl e, st) \<Rightarrow> (Inl e, st) | (Inr response, st) \<Rightarrow> (Inr (response, pending), st)))))))"

definition google_login :: "web_env \<Rightarrow> web_request \<Rightarrow> web_outside \<Rightarrow> web_site \<Rightarrow> web_response \<times> web_site" where
  "google_login env req wo st =
     finish_login wo ''Google authentication failed'' st (handle_google_oauth2_login env req wo st)"

subsection \<open>Login, logout and API keys\<close>

definition login :: "web_env \<Rightarrow> web_request \<Rightarrow> web_outside \<Rightarrow> web_site \<Rightarrow> web_response \<times> web_site" where
  "login env req wo st =
     (if se_id (ws_session st) \<noteq> None then (Redirect (Url_for ''general.index'' []), st)
      else if wr_post req \<and> form req ''login'' = Some ''musicbrainz'' then musicbrainz_login env req wo st
      else if wr_post req \<and> form req ''login'' = Some ''google'' then google_login env req wo st
      else if wr_post req \<and> form req ''login'' = Some ''openid'' then openid_login env req wo st
      else (Rendered ''login.html'', st))"

definition logout :: "web_site \<Rightarrow> web_response \<times> web_site" where
  "logout st = (Redirect (Url_for ''general.index'' []), set_session (\<lambda>s. s\<lparr>se_id := None\<rparr>) st)"

definition api_key :: "web_request \<Rightarrow> web_site \<Rightarrow> web_response \<times> web_site" where
  "api_key req st = (case require_user req st of (Inl response, st) \<Rightarrow> (response, st) | (Inr user, st) \<Rightarrow> (Rendered ''apikey.html'', st))"

definition new_api_key :: "web_request \<Rightarrow> web_outside \<Rightarrow> web_site \<Rightarrow> web_response \<times> web_site" where
  "new_api_key req wo st =
     (case require_user req st of
        (Inl response, st) \<Rightarrow> (response, st)
      | (Inr user, st) \<Rightarrow>
          (case and_then (reset_account_apikey (wo_apikey wo) (ws_app st) (ac_id user)) (commit wo) of
             Inl e \<Rightarrow> (Crashed e, st)
           | Inr app \<Rightarrow> (Redirect (Url_for ''user.api_key'' []), st\<lparr>ws_app := app\<rparr>)))"

subsection \<open>The session under the login views\<close>

text \<open>Which token a callback presents, or what reading it raises.\<close>

definition presented_token :: "web_env \<Rightarrow> string \<Rightarrow> web_request \<Rightarrow> py_exc + json" where
  "presented_token env session_key req =
     (if session_key = ''mb_login_token'' then and_then (read_state env req) (\<lambda>state. Inr (get_or_null state ''token''))
      else Inr (jstr (arg req ''state'')))"

text \<open>The effect of an OAuth view on the session: the token it issues, or the check of the presented one, which may let an account in.\<close>

definition oauth_effect :: "web_env \<Rightarrow> string \<Rightarrow> web_request \<Rightarrow> web_outside \<Rightarrow> web_session \<Rightarrow> web_session \<Rightarrow> bool" where
  "oauth_effect env key req wo s s' \<longleftrightarrow>
     (if none_if_empty (arg req ''code'') = None then s' = s\<lparr>se_tokens := (se_tokens s)(key \<mapsto> wo_token wo)\<rparr>
      else case presented_token env key req of
             Inl e \<Rightarrow> s' = s
           | Inr token \<Rightarrow>
               s' = s\<lparr>se_tokens := (se_tokens s)(key := None)\<rparr>
               \<or> (\<exists>t i. token = JStr t \<and> t \<noteq> [] \<and> se_tokens s key = Some t
                     \<and> s' = s\<lparr>se_tokens := (se_tokens s)(key := None), se_id := Some i\<rparr>))"

lemma session_rolled_back [simp]: "ws_session (rolled_back st st') = ws_session st'"
  by (simp add: rolled_back_def)

lemma finish_login_session: "ws_session (snd (finish_login wo failed st step)) = ws_session (snd step)"
  by (auto simp: finish_login_def split: prod.splits sum.splits login_failure.splits)

lemma nothing_pending_session [simp]: "ws_session (snd (nothing_pending step)) = ws_session (snd step)"
  by (auto simp: nothing_pending_def split: prod.splits sum.splits)

lemma login_user_session:
  "ws_session (snd (login_user_and_redirect env req i u st)) = (ws_session st)\<lparr>se_id := Some i\<rparr>"
  by (simp add: login_user_and_redirect_def set_session_def Let_def)

lemma check_login_token_cases:
  assumes "check_login_token key state st = (res, st')"
  shows "st' = set_session (\<lambda>s. s\<lparr>se_tokens := (se_tokens s)(key := None)\<rparr>) st"
    and "res = Inr u \<Longrightarrow> \<exists>t. state = JStr t \<and> t \<noteq> [] \<and> se_tokens (ws_session st) key = Some t"
  using assms by (auto simp: check_login_token_def Let_def truthy_str_def split: if_splits json.splits option.splits)

lemma set_session_simps [simp]:
  "ws_session (set_session f st) = f (ws_session st)"
  "ws_app (set_session f st) = ws_app st" "ws_fp (set_session f st) = ws_fp st" "ws_ingest (set_session f st) = ws_ingest st"
  by (simp_all add: set_session_def)

lemma no_code_effect:
  "none_if_empty (arg req ''code'') = None \<Longrightarrow> s' = s\<lparr>se_tokens := (se_tokens s)(key \<mapsto> wo_token wo)\<rparr> \<Longrightarrow> oauth_effect env key req wo s s'"
  by (simp add: oauth_effect_def)

lemma code_effect:
  assumes "none_if_empty (arg req ''code'') = Some auth_code" and "presented_token env key req = Inr token"
    and "check_login_token key token st = (res, st')"
    and "s' = ws_session st' \<or> (\<exists>i. res = Inr () \<and> s' = (ws_session st')\<lparr>se_id := Some i\<rparr>)"
  shows "oauth_effect env key req wo (ws_session st) s'"
proof -
  have st': "ws_session st' = (ws_session st)\<lparr>se_tokens := (se_tokens (ws_session st))(key := None)\<rparr>"
    using check_login_token_cases(1) [OF assms(3)] by simp
  have "res = Inr () \<Longrightarrow> \<exists>t. token = JStr t \<and> t \<noteq> [] \<and> se_tokens (ws_session st) key = Some t"
    by (rule check_login_token_cases(2) [OF assms(3)])
  with assms(4) have "s' = (ws_session st)\<lparr>se_tokens := (se_tokens (ws_session st))(key := None)\<rparr>
     \<or> (\<exists>t i. token = JStr t \<and> t \<noteq> [] \<and> se_tokens (ws_session st) key = Some t
           \<and> s' = (ws_session st)\<lparr>se_tokens := (se_tokens (ws_session st))(key := None), se_id := Some i\<rparr>)"
    unfolding st' by auto
  with assms(1,2) show ?thesis by (simp add: oauth_effect_def)
qed

lemma musicbrainz_login_effect:
  "oauth_effect env ''mb_login_token'' req wo (ws_session st) (ws_session (snd (musicbrainz_login env req wo st)))"
proof (cases "none_if_empty (arg req ''code'')")
  case None
  then show ?thesis
    by (intro no_code_effect) (simp_all add: musicbrainz_login_def finish_login_session handle_musicbrainz_oauth2_login_def generate_login_token_def)
next
  case (Some auth_code)
  show ?thesis
  proof (cases "read_state env req")
    case (Inl e)
    with Some show ?thesis
      by (simp add: musicbrainz_login_def finish_login_session handle_musicbrainz_oauth2_login_def oauth_effect_def presented_token_def and_then_def)
  next
    case Inr': (Inr state)
    then have p: "presented_token env ''mb_login_token'' req = Inr (get_or_null state ''token'')"
      by (simp add: presented_token_def and_then_def)
    obtain res st' where c: "check_login_token ''mb_login_token'' (get_or_null state ''token'') st = (res, st')" by fastforce
    have "ws_session (snd (musicbrainz_login env req wo st)) = ws_session st'
       \<or> (\<exists>i. res = Inr () \<and> ws_session (snd (musicbrainz_login env req wo st)) = (ws_session st')\<lparr>se_id := Some i\<rparr>)"
    proof (cases res)
      case (Inl e)
      with Some Inr' c show ?thesis by (simp add: musicbrainz_login_def finish_login_session handle_musicbrainz_oauth2_login_def)
    next
      case (Inr u)
      with Some Inr' c show ?thesis
        by (cases "musicbrainz_user_of wo auth_code (ws_app st')")
          (auto simp: musicbrainz_login_def finish_login_session handle_musicbrainz_oauth2_login_def login_user_session split: prod.split)
    qed
    then show ?thesis by (rule code_effect [OF Some p c])
  qed
qed

lemma google_login_effect:
  "oauth_effect env ''google_login_token'' req wo (ws_session st) (ws_session (snd (google_login env req wo st)))"
proof (cases "none_if_empty (arg req ''code'')")
  case None
  then show ?thesis
    by (intro no_code_effect) (simp_all add: google_login_def finish_login_session handle_google_oauth2_login_def generate_login_token_def)
next
  case (Some auth_code)
  have p: "presented_token env ''google_login_token'' req = Inr (jstr (arg req ''state''))" by (simp add: presented_token_def)
  obtain res st' where c: "check_login_token ''google_login_token'' (jstr (arg req ''state'')) st = (res, st')" by fastforce
  have "ws_session (snd (google_login env req wo st)) = ws_session st'
     \<or> (\<exists>i. res = Inr () \<and> ws_session (snd (google_login env req wo st)) = (ws_session st')\<lparr>se_id := Some i\<rparr>)"
  proof (cases "\<exists>response id_token i pending app. res = Inr () \<and> wo_google_token wo auth_code = Inr response
      \<and> id_token_of env response = Inr id_token \<and> google_user_of wo id_token (ws_app st') = Inr (i, pending, app)")
    case True
    then obtain response id_token i pending app where r: "res = Inr ()" "wo_google_token wo auth_code = Inr response"
        "id_token_of env response = Inr id_token" "google_user_of wo id_token (ws_app st') = Inr (i, pending, app)" by blast
    obtain r st'' where l: "login_user_and_redirect env req i JNull (st'\<lparr>ws_app := app\<rparr>) = (r, st'')" by fastforce
    from login_user_session [of env req i JNull "st'\<lparr>ws_app := app\<rparr>"] have "ws_session st'' = (ws_session st')\<lparr>se_id := Some i\<rparr>"
      by (simp add: l)
    with Some c r l show ?thesis
      by (cases r) (auto simp: google_login_def finish_login_session handle_google_oauth2_login_def)
  next
    case False
    with Some c show ?thesis
      by (auto simp: google_login_def finish_login_session handle_google_oauth2_login_def split: sum.splits)
  qed
  then show ?thesis by (rule code_effect [OF Some p c])
qed

text \<open>The OpenID view touches no token, and lets an account in only if the library verified an identity.\<close>

definition openid_effect :: "web_request \<Rightarrow> web_outside \<Rightarrow> web_session \<Rightarrow> web_session \<Rightarrow> bool" where
  "openid_effect req wo s s' \<longleftrightarrow>
     se_tokens s' = se_tokens s
     \<and> (se_id s' = se_id s \<or> (\<exists>url. fst (wo_openid_complete wo req (se_openid s)) = Inr (Openid_success url None)))"

lemma openid_login_effect: "openid_effect req wo (ws_session st) (ws_session (snd (openid_login env req wo st)))"
proof (cases "arg req ''openid.mode'' = None")
  case True
  then show ?thesis
    by (auto simp: openid_effect_def openid_login_def finish_login_session handle_openid_login_def handle_openid_login_request_def
        split: sum.splits prod.splits openid_begin.splits)
next
  case False
  obtain info entries where "wo_openid_complete wo req (se_openid (ws_session st)) = (info, entries)" by fastforce
  with False show ?thesis
    by (auto simp: openid_effect_def openid_login_def finish_login_session handle_openid_login_def handle_openid_login_response_def
        login_user_session Let_def split: sum.splits prod.splits openid_info.splits option.splits)
qed

end
