(* ===== verification/Web_Site.thy ===== *)
theory Web_Site
  imports Web_User Api_Lookup Stats
begin

text \<open>
  The other views of the web site (\<^verbatim>\<open>web/views/apps.py\<close>, \<^verbatim>\<open>metadata.py\<close>, \<^verbatim>\<open>admin.py\<close>), the dispatch of a request to its view,
  and what holds of every request: who may sign in, where redirects lead, and who may change what. A page is the name of
  its template; of the track page the values it is filled with are modelled too.
\<close>

subsection \<open>Applications\<close>

definition application_by_id :: "app_db \<Rightarrow> int \<Rightarrow> application_row option" where
  "application_by_id db i = scalar (\<lambda>r. ap_id r = i) (\<lambda>r. r) (t_application db)"

definition applications :: "web_request \<Rightarrow> web_site \<Rightarrow> web_response \<times> web_site" where
  "applications req st =
     (case require_user req st of (Inl response, st) \<Rightarrow> (response, st) | (Inr user, st) \<Rightarrow> (Rendered ''applications.html'', st))"

definition application_page :: "web_request \<Rightarrow> int \<Rightarrow> web_site \<Rightarrow> web_response \<times> web_site" where
  "application_page req application_id st =
     (case require_user req st of
        (Inl response, st) \<Rightarrow> (response, st)
      | (Inr user, st) \<Rightarrow>
          (case application_by_id (ws_app st) application_id of
             None \<Rightarrow> Abort 404
           | Some application \<Rightarrow>
               if ac_id user \<noteq> ap_account_id application \<and> \<not> ac_is_admin user then Abort 404 else Rendered ''application.html'', st))"

text \<open>The checks of the two forms, and what they hand to the data layer.\<close>

definition application_errors :: "web_env \<Rightarrow> web_request \<Rightarrow> py_exc + string list" where
  "application_errors env req =
     and_then (case none_if_empty (form req ''website'') of None \<Rightarrow> Inr True | Some website \<Rightarrow> is_valid_url (we_bracket_ok env) website)
       (\<lambda>website_ok. Inr (
         (if truthy_str (form req ''name'') then [] else [''Missing application name''])
         @ (if truthy_str (form req ''version'') then [] else [''Missing version number''])
         @ (case none_if_empty (form req ''email'') of
              None \<Rightarrow> [''Missing email address''] | Some email \<Rightarrow> if is_valid_email email then [] else [''Invalid email address''])
         @ (if website_ok then [] else [''Invalid website URL''])))"

definition submitted :: "web_request \<Rightarrow> int \<Rightarrow> application_data" where
  "submitted req account_id =
     (let or_empty = (\<lambda>v. case v of None \<Rightarrow> [] | Some s \<Rightarrow> s)
      in \<lparr>ad_name = or_empty (form req ''name''), ad_version = or_empty (form req ''version''), ad_email = form req ''email'',
          ad_website = form req ''website'', ad_account_id = account_id\<rparr>)"

definition new_application :: "web_env \<Rightarrow> web_request \<Rightarrow> web_outside \<Rightarrow> web_site \<Rightarrow> web_response \<times> web_site" where
  "new_application env req wo st =
     (case require_user req st of
        (Inl response, st) \<Rightarrow> (response, st)
      | (Inr user, st) \<Rightarrow>
          if truthy_str (form req ''submit'') then
            (case application_errors env req of
               Inl e \<Rightarrow> (Crashed e, st)
             | Inr errors \<Rightarrow>
                 if errors = [] then
                   (case and_then (insert_application (wo_apikey wo) (submitted req (ac_id user)) (ws_app st)) (\<lambda>(i, app). commit wo app) of
                      Inl e \<Rightarrow> (Crashed e, st)
                    | Inr app \<Rightarrow> (Redirect (Url_for ''apps.applications'' []), st\<lparr>ws_app := app\<rparr>))
                 else (Rendered ''new-application.html'', st))
          else (Rendered ''new-application.html'', st))"

text \<open>The identifier is a text here, and PostgreSQL reads it.\<close>

definition edit_application :: "web_env \<Rightarrow> web_request \<Rightarrow> web_outside \<Rightarrow> string \<Rightarrow> web_site \<Rightarrow> web_response \<times> web_site" where
  "edit_application env req wo application_id st =
     (case require_user req st of
        (Inl response, st) \<Rightarrow> (response, st)
      | (Inr user, st) \<Rightarrow>
          (case we_pg_int env application_id of
             None \<Rightarrow> (Crashed DataError, st)
           | Some i \<Rightarrow>
               (case application_by_id (ws_app st) i of
                  None \<Rightarrow> (Abort 404, st)
                | Some application \<Rightarrow>
                    if ac_id user \<noteq> ap_account_id application then (Abort 404, st)
                    else if truthy_str (form req ''submit'') then
                      (case application_errors env req of
                         Inl e \<Rightarrow> (Crashed e, st)
                       | Inr errors \<Rightarrow>
                           if errors = [] then
                             (case and_then (update_application (ws_app st) (ap_id application) (submitted req (ac_id user)))
                                     (\<lambda>(_, app). commit wo app) of
                                Inl e \<Rightarrow> (Crashed e, st)
                              | Inr app \<Rightarrow> (Redirect (Url_for ''apps.application'' [(''application_id'', int_str (ap_id application))]),
                                            st\<lparr>ws_app := app\<rparr>))
                           else (Rendered ''edit-application.html'', st))
                    else (Rendered ''edit-application.html'', st))))"

subsection \<open>Tracks and fingerprints\<close>

record shown_recording =
  rc_mbid :: string
  rc_submission_count :: int
  rc_disabled :: bool
  rc_metadata :: "recording_metadata option"

record shown_edit =
  ed_change :: track_mbid_change_row
  ed_account :: "account_row option"
  ed_mbid :: "string option"

record track_values =
  tv_id :: int
  tv_gid :: string
  tv_fingerprints :: "fingerprint_row list"
  tv_recordings :: "shown_recording list"
  tv_num_disabled :: nat
  tv_num_enabled :: nat
  tv_user_metadata :: "((string option \<times> string option \<times> string option) \<times> int) list"
  tv_edits :: "shown_edit list"
  tv_moderator :: bool

text \<open>\<open>/track/...\<close> takes a UUID or a number; both must lead to a track with a GID.\<close>

definition requested_track :: "fingerprint_db \<Rightarrow> string \<Rightarrow> py_exc + (int \<times> string) option" where
  "requested_track db track_id_or_gid =
     (if is_uuid track_id_or_gid then
        and_then (pg_uuid track_id_or_gid) (\<lambda>gid. Inr (map_option (\<lambda>i. (i, track_id_or_gid)) (resolve_track_gid db gid)))
      else case py_int track_id_or_gid of
             None \<Rightarrow> Inr None
           | Some track_id \<Rightarrow> Inr (map_option (\<lambda>gid. (track_id, gid)) (scalar (\<lambda>r. tr_id r = track_id) tr_gid (t_track db))))"

definition user_metadata :: "fingerprint_db \<Rightarrow> int \<Rightarrow> ((string option \<times> string option \<times> string option) \<times> int) list" where
  "user_metadata db track_id =
     (let joined = [((me_track m, me_artist m, me_album m), l). l \<leftarrow> rows (t_track_meta db), m \<leftarrow> rows (t_meta db),
                      lk_value l = me_id m \<and> lk_track_id l = track_id];
          of_group = (\<lambda>g. map snd (filter (\<lambda>(h, _). h = g) joined))
      in map (\<lambda>g. (g, sum_list (map lk_submission_count (of_group g))))
           (sort_key (\<lambda>g. Min (set (map lk_created (of_group g)))) (remdups (map fst joined))))"

definition edits_of :: "app_db \<Rightarrow> fingerprint_db \<Rightarrow> ingest_db \<Rightarrow> track_mbid_row list \<Rightarrow> shown_edit list" where
  "edits_of app db ingest mbids =
     map (\<lambda>e. \<lparr>ed_change = e, ed_account = account_by_id app (tc_account_id e),
               ed_mbid = scalar (\<lambda>l. lk_id l = tc_track_mbid_id e) lk_value (t_track_mbid db)\<rparr>)
       (sort_key (\<lambda>e. - tc_created e) (sel (\<lambda>e. tc_track_mbid_id e \<in> lk_id ` set mbids) (t_track_mbid_change ingest)))"

definition track_context :: "mb_db \<Rightarrow> web_site \<Rightarrow> int \<Rightarrow> string \<Rightarrow> track_values" where
  "track_context mb st track_id track_gid =
     (let db = ws_fp st;
          mbids = sel (\<lambda>l. lk_track_id l = track_id) (t_track_mbid db);
          metadata = lookup_recording_metadata mb (map lk_value mbids);
          shown = map (\<lambda>l. \<lparr>rc_mbid = lk_value l, rc_submission_count = lk_submission_count l, rc_disabled = tm_disabled l,
                            rc_metadata = dict_get metadata (lk_value l)\<rparr>) mbids
      in \<lparr>tv_id = track_id, tv_gid = track_gid,
          tv_fingerprints = sort_key fp_length (sel (\<lambda>f. fp_track_id f = track_id) (t_fingerprint db)),
          tv_recordings = sort_key (\<lambda>r. case rc_metadata r of None \<Rightarrow> rc_mbid r | Some m \<Rightarrow> rm_name m) shown,
          tv_num_disabled = length (filter tm_disabled mbids), tv_num_enabled = length (filter (\<lambda>l. \<not> tm_disabled l) mbids),
          tv_user_metadata = user_metadata db track_id, tv_edits = edits_of (ws_app st) db (ws_ingest st) mbids,
          tv_moderator = (case se_id (ws_session st) of None \<Rightarrow> False | Some i \<Rightarrow> is_moderator (ws_app st) i)\<rparr>)"

definition track_page :: "string \<Rightarrow> web_site \<Rightarrow> web_response \<times> web_site" where
  "track_page track_id_or_gid st =
     (case requested_track (ws_fp st) track_id_or_gid of
        Inl e \<Rightarrow> Crashed e | Inr None \<Rightarrow> Abort 404 | Inr (Some _) \<Rightarrow> Rendered ''track.html'', st)"

definition fingerprint_page :: "int \<Rightarrow> web_site \<Rightarrow> web_response \<times> web_site" where
  "fingerprint_page fingerprint_id st =
     (case scalar (\<lambda>f. fp_id f = fingerprint_id) fp_track_id (t_fingerprint (ws_fp st)) of
        None \<Rightarrow> Abort 404
      | Some track_id \<Rightarrow>
          (case scalar (\<lambda>r. tr_id r = track_id) tr_gid (t_track (ws_fp st)) of
             None \<Rightarrow> Abort 404 | Some track_gid \<Rightarrow> Rendered ''fingerprint.html''), st)"

text \<open>The loop never fills the second place when the two numbers are the same.\<close>

definition compare_fingerprints :: "int \<Rightarrow> int \<Rightarrow> web_site \<Rightarrow> web_response \<times> web_site" where
  "compare_fingerprints i j st =
     (let found = sel (\<lambda>f. fp_id f \<in> {i, j}) (t_fingerprint (ws_fp st));
          fingerprint_1 = filter (\<lambda>f. fp_id f = i) found;
          fingerprint_2 = filter (\<lambda>f. fp_id f \<noteq> i \<and> fp_id f = j) found
      in (if fingerprint_1 = [] \<or> fingerprint_2 = [] then Abort 404 else Rendered ''compare_fingerprints.html'', st))"

subsection \<open>Linking and unlinking a recording\<close>

text \<open>\<open>db.session.commit()\<close> over the fingerprint and the ingest database: all or nothing only with two-phase commit.\<close>

definition commit_links :: "web_env \<Rightarrow> web_outside \<Rightarrow> web_response \<Rightarrow> web_site \<Rightarrow> fingerprint_db \<Rightarrow> ingest_db \<Rightarrow> web_response \<times> web_site" where
  "commit_links env wo response st fp ingest =
     (if wo_fp_commits wo \<and> wo_ingest_commits wo then (response, st\<lparr>ws_fp := fp, ws_ingest := ingest\<rparr>)
      else if we_two_phase_commit env then (Crashed OperationalError, st)
      else (Crashed OperationalError, st\<lparr>ws_fp := if wo_fp_commits wo then fp else ws_fp st,
                                         ws_ingest := if wo_ingest_commits wo then ingest else ws_ingest st\<rparr>))"

definition set_disabled :: "int \<Rightarrow> bool \<Rightarrow> fingerprint_db \<Rightarrow> fingerprint_db" where
  "set_disabled i state db = db\<lparr>t_track_mbid := upd (\<lambda>l. lk_id l = i) (\<lambda>l. l\<lparr>tm_disabled := state\<rparr>) (t_track_mbid db)\<rparr>"

definition record_change :: "int \<Rightarrow> int \<Rightarrow> bool \<Rightarrow> string option \<Rightarrow> ingest_db \<Rightarrow> ingest_db" where
  "record_change i account_id state note db =
     db\<lparr>t_track_mbid_change := snd (ins (\<lambda>n. \<lparr>tc_id = n, tc_track_mbid_id = i, tc_account_id = account_id, tc_created = i_now db,
          tc_disabled = state, tc_note = note, tc_updated = None\<rparr>) (t_track_mbid_change db))\<rparr>"

text \<open>The track a request names, by its number or its GID. SQLAlchemy's \<open>NoResultFound\<close> is RuntimeError here.\<close>

definition named_track :: "web_request \<Rightarrow> fingerprint_db \<Rightarrow> web_response + int option" where
  "named_track req db =
     (let track_id = vget_int (web_values req) ''track_id''
      in if truthy_int track_id then
           (case scalar (\<lambda>r. Some (tr_id r) = track_id) tr_gid (t_track db) of
              None \<Rightarrow> Inl (Crashed RuntimeError) | Some track_gid \<Rightarrow> Inr track_id)
         else case none_if_empty (vget (web_values req) ''track_gid'') of
                None \<Rightarrow> Inl (Abort 404)
              | Some track_gid \<Rightarrow>
                  (case pg_uuid track_gid of Inl e \<Rightarrow> Inl (Crashed e) | Inr gid \<Rightarrow> Inr (resolve_track_gid db gid)))"

definition toggle_track_mbid :: "web_env \<Rightarrow> web_request \<Rightarrow> web_outside \<Rightarrow> web_site \<Rightarrow> web_response \<times> web_site" where
  "toggle_track_mbid env req wo st =
     (case require_user req st of
        (Inl response, st) \<Rightarrow> (response, st)
      | (Inr user, st) \<Rightarrow>
          (case named_track req (ws_fp st) of
             Inl response \<Rightarrow> (response, st)
           | Inr track_id \<Rightarrow>
               (let state = truthy_int (vget_int (web_values req) ''state'');
                    mbid = vget (web_values req) ''mbid'';
                    index = Redirect (Url_for ''general.index'' []);
                    page = Redirect (Url_for ''metadata.track'' [(''track_id_or_gid'', int_str (the track_id))])
                in if \<not> truthy_int track_id \<or> \<not> truthy_str mbid then (index, st)
                   else if \<not> is_moderator (ws_app st) (ac_id user) then (Rendered ''toggle_track_mbid_login.html'', st)
                   else
                     case pg_uuid (the mbid) of
                       Inl e \<Rightarrow> (Crashed e, st)
                     | Inr mbid \<Rightarrow>
                         (case sel (\<lambda>l. Some (lk_track_id l) = track_id \<and> lk_value l = mbid) (t_track_mbid (ws_fp st)) of
                            [] \<Rightarrow> (index, st)
                          | link # _ \<Rightarrow>
                              if state = tm_disabled link then (page, st)
                              else if truthy_str (form req ''submit'') then
                                commit_links env wo page st (set_disabled (lk_id link) state (ws_fp st))
                                  (record_change (lk_id link) (ac_id user) state (vget (web_values req) ''note'') (ws_ingest st))
                              else (Rendered ''toggle_track_mbid.html'', st)))))"

subsection \<open>Administration\<close>

definition admin_index :: "web_request \<Rightarrow> web_site \<Rightarrow> web_response \<times> web_site" where
  "admin_index req st =
     (case require_admin req st of (Inl response, st) \<Rightarrow> (response, st) | (Inr user, st) \<Rightarrow> (Rendered ''admin_index.html'', st))"

text \<open>The months of the selection, numbered; a month is its first day. \<open>strptime\<close> of the chosen one may fail.\<close>

function last_months :: "int \<Rightarrow> int \<Rightarrow> int list" where
  "last_months month first_month = (if month > first_month then month # last_months (month - 1) first_month else [month])"
  by auto
termination by (relation "measure (\<lambda>(m, f). nat (m - f))") auto

declare last_months.simps [simp del]

definition stats_apps :: "web_env \<Rightarrow> web_request \<Rightarrow> web_site \<Rightarrow> web_response \<times> web_site" where
  "stats_apps env req st =
     (case require_admin req st of
        (Inl response, st) \<Rightarrow> (response, st)
      | (Inr user, st) \<Rightarrow>
          (case none_if_empty (arg req ''month'') of
             None \<Rightarrow> (Rendered ''admin_stats_apps.html'', st)
           | Some month_str \<Rightarrow>
               (case we_month env month_str of None \<Rightarrow> (Crashed ValueError, st) | Some month \<Rightarrow> (Rendered ''admin_stats_apps.html'', st))))"

lemma last_months_all: "first_month \<le> month \<Longrightarrow> last_months month first_month = rev [first_month..month]"
proof (induction month first_month rule: last_months.induct)
  case (1 m f)
  then show ?case
    by (subst last_months.simps) (auto simp: upto_rec2 [of f m])
qed

subsection \<open>The site\<close>

datatype web_route =
    Page string
  | Login
  | Musicbrainz_login
  | Openid_login
  | Google_login
  | Logout
  | Api_key
  | New_api_key
  | My_applications
  | Application int
  | New_application
  | Edit_application string
  | Track string
  | Fingerprint int
  | Compare_fingerprints int int
  | Toggle_track_mbid
  | Admin_index
  | Admin_stats_apps

text \<open>The routes that take a POST; \<open>Page\<close> stands for the pages without a state.\<close>

fun takes_post :: "web_route \<Rightarrow> bool" where
  "takes_post Login = True"
| "takes_post New_application = True"
| "takes_post (Edit_application _) = True"
| "takes_post Toggle_track_mbid = True"
| "takes_post _ = False"

fun web_view :: "web_env \<Rightarrow> web_route \<Rightarrow> web_request \<Rightarrow> web_outside \<Rightarrow> web_site \<Rightarrow> web_response \<times> web_site" where
  "web_view env (Page name) req wo st = (Rendered name, st)"
| "web_view env Login req wo st = login env req wo st"
| "web_view env Musicbrainz_login req wo st = musicbrainz_login env req wo st"
| "web_view env Openid_login req wo st = openid_login env req wo st"
| "web_view env Google_login req wo st = google_login env req wo st"
| "web_view env Logout req wo st = logout st"
| "web_view env Api_key req wo st = api_key req st"
| "web_view env New_api_key req wo st = new_api_key req wo st"
| "web_view env My_applications req wo st = applications req st"
| "web_view env (Application i) req wo st = application_page req i st"
| "web_view env New_application req wo st = new_application env req wo st"
| "web_view env (Edit_application i) req wo st = edit_application env req wo i st"
| "web_view env (Track i) req wo st = track_page i st"
| "web_view env (Fingerprint i) req wo st = fingerprint_page i st"
| "web_view env (Compare_fingerprints i j) req wo st = compare_fingerprints i j st"
| "web_view env Toggle_track_mbid req wo st = toggle_track_mbid env req wo st"
| "web_view env Admin_index req wo st = admin_index req st"
| "web_view env Admin_stats_apps req wo st = stats_apps env req st"

definition web_site :: "web_env \<Rightarrow> web_route \<Rightarrow> web_request \<Rightarrow> web_outside \<Rightarrow> web_site \<Rightarrow> web_response \<times> web_site" where
  "web_site env route req wo st =
     (if wr_post req \<and> \<not> takes_post route then (Abort 405, st) else web_view env route req wo st)"

subsection \<open>Signing in\<close>

text \<open>Which of the two OAuth views a request reaches, by the name of its token.\<close>

definition login_key :: "web_route \<Rightarrow> web_request \<Rightarrow> web_session \<Rightarrow> string option" where
  "login_key route req s =
     (if wr_post req \<and> \<not> takes_post route then None
      else case route of
             Musicbrainz_login \<Rightarrow> Some ''mb_login_token''
           | Google_login \<Rightarrow> Some ''google_login_token''
           | Login \<Rightarrow>
               (if se_id s \<noteq> None \<or> \<not> wr_post req then None
                else if form req ''login'' = Some ''musicbrainz'' then Some ''mb_login_token''
                else if form req ''login'' = Some ''google'' then Some ''google_login_token'' else None)
           | _ \<Rightarrow> None)"

lemma require_user_session:
  "require_user req st = (res, st') \<Longrightarrow> st' = st \<or> st' = st\<lparr>ws_session := (ws_session st)\<lparr>se_id := None\<rparr>\<rparr>"
  by (auto simp: require_user_def split: option.splits)

lemma require_user_Inr: "require_user req st = (Inr user, st') \<Longrightarrow> st' = st \<and> se_id (ws_session st) = Some (ac_id user) \<and> user \<in> set (rows (t_account (ws_app st)))"
  by (auto simp: require_user_def account_by_id_def split: option.splits dest: scalar_SomeD)

lemma require_admin_session:
  "require_admin req st = (res, st') \<Longrightarrow> st' = st \<or> st' = st\<lparr>ws_session := (ws_session st)\<lparr>se_id := None\<rparr>\<rparr>"
  by (auto simp: require_admin_def split: prod.splits sum.splits dest: require_user_session)

definition signs_nobody_in :: "web_session \<Rightarrow> web_session \<Rightarrow> bool" where
  "signs_nobody_in s s' \<longleftrightarrow> se_tokens s' = se_tokens s \<and> se_id s' \<in> {se_id s, None}"

lemma signs_nobody_in_refl [simp]: "signs_nobody_in s s" "signs_nobody_in s (s\<lparr>se_id := None\<rparr>)"
  by (simp_all add: signs_nobody_in_def)

lemma commit_links_session [simp]: "ws_session (snd (commit_links env wo r st fp ingest)) = ws_session st"
  by (simp add: commit_links_def)

lemma after_require_user:
  assumes "\<And>user. require_user req st = (Inr user, st) \<Longrightarrow> ws_session (snd (f user st)) = ws_session st"
  shows "signs_nobody_in (ws_session st)
     (ws_session (snd (case require_user req st of (Inl response, st) \<Rightarrow> (response, st) | (Inr user, st) \<Rightarrow> f user st)))"
proof (cases "require_user req st")
  case (Pair res st')
  show ?thesis
  proof (cases res)
    case (Inl response)
    with Pair require_user_session [OF Pair] show ?thesis by auto
  next
    case (Inr user)
    with Pair have "st' = st" using require_user_Inr by blast
    with Pair Inr assms show ?thesis by simp
  qed
qed

lemma after_require_admin:
  assumes "\<And>user st'. ws_session (snd (f user st')) = ws_session st'"
  shows "signs_nobody_in (ws_session st)
     (ws_session (snd (case require_admin req st of (Inl response, st) \<Rightarrow> (response, st) | (Inr user, st) \<Rightarrow> f user st)))"
  using require_admin_session [of req st] assms by (auto split: prod.splits sum.splits)

lemma toggle_signs_nobody_in: "signs_nobody_in (ws_session st) (ws_session (snd (toggle_track_mbid env req wo st)))"
  unfolding toggle_track_mbid_def
  by (rule after_require_user) (simp add: Let_def split: sum.split list.split)

lemma edit_signs_nobody_in: "signs_nobody_in (ws_session st) (ws_session (snd (edit_application env req wo i st)))"
  unfolding edit_application_def
  by (rule after_require_user) (simp split: sum.split option.split)

lemma new_application_signs_nobody_in: "signs_nobody_in (ws_session st) (ws_session (snd (new_application env req wo st)))"
  unfolding new_application_def
  by (rule after_require_user) (simp split: sum.split option.split)

lemma other_views_sign_nobody_in:
  assumes "route \<notin> {Login, Musicbrainz_login, Openid_login, Google_login}"
  shows "signs_nobody_in (ws_session st) (ws_session (snd (web_view env route req wo st)))"
proof (cases route)
  case New_api_key
  show ?thesis unfolding New_api_key web_view.simps new_api_key_def
    by (rule after_require_user) (simp split: sum.split)
next
  case Api_key
  show ?thesis unfolding Api_key web_view.simps api_key_def by (rule after_require_user) simp
next
  case My_applications
  show ?thesis unfolding My_applications web_view.simps applications_def by (rule after_require_user) simp
next
  case (Application i)
  show ?thesis unfolding Application web_view.simps application_page_def by (rule after_require_user) simp
next
  case Admin_index
  show ?thesis unfolding Admin_index web_view.simps admin_index_def by (rule after_require_admin) simp
next
  case Admin_stats_apps
  show ?thesis unfolding Admin_stats_apps web_view.simps stats_apps_def by (rule after_require_admin) (simp split: option.split)
qed (use assms in \<open>simp_all add: toggle_signs_nobody_in edit_signs_nobody_in new_application_signs_nobody_in logout_def
   track_page_def fingerprint_page_def compare_fingerprints_def Let_def\<close>)

text \<open>What any request does to the session.\<close>

definition session_effect :: "web_env \<Rightarrow> web_route \<Rightarrow> web_request \<Rightarrow> web_outside \<Rightarrow> web_session \<Rightarrow> web_session \<Rightarrow> bool" where
  "session_effect env route req wo s s' \<longleftrightarrow>
     (case login_key route req s of
        Some key \<Rightarrow> oauth_effect env key req wo s s'
      | None \<Rightarrow> signs_nobody_in s s' \<or> route \<in> {Login, Openid_login} \<and> openid_effect req wo s s')"

lemma login_effect: "session_effect env Login req wo (ws_session st) (ws_session (snd (login env req wo st)))"
proof (cases "se_id (ws_session st) = None \<and> wr_post req")
  case False
  then show ?thesis by (auto simp: session_effect_def login_key_def login_def)
next
  case True
  consider "form req ''login'' = Some ''musicbrainz''" | "form req ''login'' = Some ''google''" | "form req ''login'' = Some ''openid''"
    | "form req ''login'' \<notin> {Some ''musicbrainz'', Some ''google'', Some ''openid''}" by blast
  then show ?thesis
    by cases (use True in \<open>simp_all add: session_effect_def login_key_def login_def musicbrainz_login_effect google_login_effect openid_login_effect\<close>)
qed

lemma web_site_session: "session_effect env route req wo (ws_session st) (ws_session (snd (web_site env route req wo st)))"
proof (cases "wr_post req \<and> \<not> takes_post route")
  case True
  then show ?thesis by (simp add: session_effect_def login_key_def web_site_def)
next
  case plain: False
  then have view: "web_site env route req wo st = web_view env route req wo st" by (auto simp: web_site_def)
  note effects = musicbrainz_login_effect google_login_effect openid_login_effect
  show ?thesis
  proof (cases "route \<in> {Login, Musicbrainz_login, Openid_login, Google_login}")
    case False
    then have "login_key route req (ws_session st) = None" by (cases route) (auto simp: login_key_def)
    with other_views_sign_nobody_in [OF False] show ?thesis by (simp add: view session_effect_def)
  next
    case True
    then show ?thesis
    proof (elim insertE emptyE)
      assume "route = Login"
      with view show ?thesis using login_effect by simp
    qed (use view plain in \<open>simp_all add: session_effect_def login_key_def effects\<close>)
  qed
qed

text \<open>
  A visit: a request with what happens around it and the databases it finds, which anybody may have changed since the last
  one. A session is what a list of visits makes of it.
\<close>

record web_visit =
  vi_route :: web_route
  vi_request :: web_request
  vi_outside :: web_outside
  vi_site :: web_site

definition visit_session :: "web_env \<Rightarrow> web_visit \<Rightarrow> web_session \<Rightarrow> web_session" where
  "visit_session env v s =
     ws_session (snd (web_site env (vi_route v) (vi_request v) (vi_outside v) ((vi_site v)\<lparr>ws_session := s\<rparr>)))"

definition session_before :: "web_env \<Rightarrow> web_visit list \<Rightarrow> nat \<Rightarrow> web_session" where
  "session_before env vs k = fold (visit_session env) (take k vs) new_session"

definition key_at :: "web_env \<Rightarrow> web_visit list \<Rightarrow> nat \<Rightarrow> string option" where
  "key_at env vs k = login_key (vi_route (vs ! k)) (vi_request (vs ! k)) (session_before env vs k)"

definition auth_code_at :: "web_visit list \<Rightarrow> nat \<Rightarrow> string option" where
  "auth_code_at vs k = none_if_empty (arg (vi_request (vs ! k)) ''code'')"

text \<open>Visit \<open>i\<close> starts a login and is given the token \<open>t\<close>, and nothing has been done with it before visit \<open>k\<close>.\<close>

definition issued_for :: "web_env \<Rightarrow> web_visit list \<Rightarrow> string \<Rightarrow> string \<Rightarrow> nat \<Rightarrow> nat \<Rightarrow> bool" where
  "issued_for env vs key t i k \<longleftrightarrow>
     i < k \<and> key_at env vs i = Some key \<and> auth_code_at vs i = None \<and> wo_token (vi_outside (vs ! i)) = t
     \<and> (\<forall>j. i < j \<and> j < k \<and> key_at env vs j = Some key \<longrightarrow>
            auth_code_at vs j \<noteq> None \<and> (\<exists>e. presented_token env key (vi_request (vs ! j)) = Inl e))"

lemma session_before_Suc:
  "k < length vs \<Longrightarrow> session_before env vs (Suc k) = visit_session env (vs ! k) (session_before env vs k)"
  by (simp add: session_before_def take_Suc_conv_app_nth)

lemma visit_effect:
  "session_effect env (vi_route v) (vi_request v) (vi_outside v) s (visit_session env v s)"
  using web_site_session [of env "vi_route v" "vi_request v" "vi_outside v" "(vi_site v)\<lparr>ws_session := s\<rparr>"] by (simp add: visit_session_def)

lemma other_key_keeps:
  assumes "session_effect env route req wo s s'" and "login_key route req s \<noteq> Some key"
  shows "se_tokens s' key = se_tokens s key"
  using assms by (auto simp: session_effect_def oauth_effect_def signs_nobody_in_def openid_effect_def split: option.splits if_splits sum.splits)

lemma same_key_effect:
  assumes "oauth_effect env key req wo s s'" and "se_tokens s' key = Some t"
  shows "none_if_empty (arg req ''code'') = None \<and> t = wo_token wo
     \<or> none_if_empty (arg req ''code'') \<noteq> None \<and> (\<exists>e. presented_token env key req = Inl e) \<and> s' = s"
  using assms by (auto simp: oauth_effect_def split: if_splits sum.splits)

lemma token_origin:
  "k \<le> length vs \<Longrightarrow> se_tokens (session_before env vs k) key = Some t \<Longrightarrow> \<exists>i. issued_for env vs key t i k"
proof (induction k)
  case 0
  then show ?case by (simp add: session_before_def new_session_def)
next
  case (Suc k)
  let ?v = "vs ! k" and ?s = "session_before env vs k" and ?s' = "session_before env vs (Suc k)"
  have eff: "session_effect env (vi_route ?v) (vi_request ?v) (vi_outside ?v) ?s ?s'"
    using Suc.prems(1) visit_effect [of env ?v ?s] by (simp add: session_before_Suc)
  show ?case
  proof (cases "key_at env vs k = Some key")
    case False
    then have "se_tokens ?s key = Some t"
      using other_key_keeps [OF eff] Suc.prems(2) by (simp add: key_at_def)
    with Suc obtain i where "issued_for env vs key t i k" by auto
    with False show ?thesis unfolding issued_for_def using less_Suc_eq by blast
  next
    case True
    with eff have "oauth_effect env key (vi_request ?v) (vi_outside ?v) ?s ?s'" by (simp add: session_effect_def key_at_def)
    from same_key_effect [OF this Suc.prems(2)] show ?thesis
    proof (elim disjE conjE)
      assume "none_if_empty (arg (vi_request ?v) ''code'') = None" "t = wo_token (vi_outside ?v)"
      with True have "issued_for env vs key t k (Suc k)" by (auto simp: issued_for_def auth_code_at_def)
      then show ?thesis ..
    next
      assume skip: "none_if_empty (arg (vi_request ?v) ''code'') \<noteq> None" "\<exists>e. presented_token env key (vi_request ?v) = Inl e" and "?s' = ?s"
      with Suc obtain i where "issued_for env vs key t i k" by auto
      with skip show ?thesis unfolding issued_for_def auth_code_at_def using less_Suc_eq by metis
    qed
  qed
qed

text \<open>C34: Nobody is signed in by a callback he did not start. Whatever a browser sends in whatever order, and whatever happens to
  the databases in between: when a visit leaves another account signed in than the visit before, then either it is a
  callback of MusicBrainz or Google that presents the very token which an earlier visit of the same session was given at the start
  of the same login, and which no visit in between has replaced or presented, or the OpenID library verified an identity.\<close>

theorem login_needs_own_token:
  assumes "k < length vs"
    and "se_id (session_before env vs (Suc k)) = Some account_id" and "se_id (session_before env vs k) \<noteq> Some account_id"
  shows "(\<exists>key t i. key \<in> {''mb_login_token'', ''google_login_token''} \<and> key_at env vs k = Some key \<and> auth_code_at vs k \<noteq> None
            \<and> presented_token env key (vi_request (vs ! k)) = Inr (JStr t) \<and> issued_for env vs key t i k)
     \<or> (\<exists>url. fst (wo_openid_complete (vi_outside (vs ! k)) (vi_request (vs ! k)) (se_openid (session_before env vs k)))
            = Inr (Openid_success url None))"
proof -
  let ?v = "vs ! k" and ?s = "session_before env vs k" and ?s' = "session_before env vs (Suc k)"
  have eff: "session_effect env (vi_route ?v) (vi_request ?v) (vi_outside ?v) ?s ?s'"
    using assms(1) visit_effect [of env ?v ?s] by (simp add: session_before_Suc)
  show ?thesis
  proof (cases "key_at env vs k")
    case None
    with eff assms(2,3) show ?thesis
      by (auto simp: session_effect_def key_at_def signs_nobody_in_def openid_effect_def)
  next
    case (Some key)
    with eff have o: "oauth_effect env key (vi_request ?v) (vi_outside ?v) ?s ?s'" by (simp add: session_effect_def key_at_def)
    have key: "key \<in> {''mb_login_token'', ''google_login_token''}"
      using Some by (auto simp: key_at_def login_key_def split: if_splits web_route.splits)
    from o assms(2,3) obtain t where "auth_code_at vs k \<noteq> None" "presented_token env key (vi_request ?v) = Inr (JStr t)"
        "se_tokens ?s key = Some t"
      by (auto simp: oauth_effect_def auth_code_at_def split: if_splits sum.splits)
    with token_origin [of k vs env key t] assms(1) key Some show ?thesis by auto
  qed
qed

definition sample_web_env :: web_env where
  "sample_web_env = \<lparr>we_two_phase_commit = True, we_pg_int = py_int, we_month = (\<lambda>_. None), we_bracket_ok = (\<lambda>_. True),
     we_url_for = (\<lambda>name params. ''https://acoustid.org/'' @ name), we_dumps = (\<lambda>_. ''state''),
     we_loads = (\<lambda>_. Inr (JObj [(''token'', JStr ''tok'')])), we_str = (\<lambda>_. []),
     we_id_token = (\<lambda>_. Inr (JObj [(''sub'', JStr ''g1'')]))\<rparr>"

definition sample_web_outside :: web_outside where
  "sample_web_outside = \<lparr>wo_token = ''tok'', wo_apikey = ''key'', wo_commit = None, wo_fp_commits = True, wo_ingest_commits = True,
     wo_mb_userinfo = (\<lambda>_. Inr (JObj [(''sub'', JStr ''editor'')])),
     wo_google_token = (\<lambda>_. Inr (JObj [(''id_token'', JStr ''h.p.s'')])),
     wo_openid_begin = (\<lambda>_ entries. (No_services, entries)), wo_openid_complete = (\<lambda>_ entries. (Inr Openid_failure, entries))\<rparr>"

definition sample_web_request :: "(string \<times> string) list \<Rightarrow> web_request" where
  "sample_web_request args = \<lparr>wr_post = False, wr_args = args, wr_form = [], wr_host = ''acoustid.org'', wr_url = ''https://acoustid.org/''\<rparr>"

definition sample_web_site :: web_site where
  "sample_web_site = \<lparr>ws_session = new_session, ws_app = empty_app_db, ws_fp = empty_fingerprint_db, ws_ingest = empty_ingest_db\<rparr>"

definition sample_visits :: "web_visit list" where
  "sample_visits =
     [\<lparr>vi_route = Google_login, vi_request = sample_web_request [], vi_outside = sample_web_outside, vi_site = sample_web_site\<rparr>,
      \<lparr>vi_route = Google_login, vi_request = sample_web_request [(''code'', ''c''), (''state'', ''tok'')], vi_outside = sample_web_outside,
       vi_site = sample_web_site\<rparr>]"

theorem login_needs_own_token_witness:
  "\<exists>key t i. key \<in> {''mb_login_token'', ''google_login_token''} \<and> key_at sample_web_env sample_visits 1 = Some key
     \<and> presented_token sample_web_env key (vi_request (sample_visits ! 1)) = Inr (JStr t) \<and> issued_for sample_web_env sample_visits key t i 1"
proof -
  have len: "1 < length sample_visits" by (simp add: sample_visits_def)
  have after: "se_id (session_before sample_web_env sample_visits (Suc 1)) = Some 1" by code_simp
  have before: "se_id (session_before sample_web_env sample_visits 1) \<noteq> Some 1" by code_simp
  have no_openid: "fst (wo_openid_complete (vi_outside (sample_visits ! 1)) (vi_request (sample_visits ! 1)) e) \<noteq> Inr (Openid_success url None)" for e url
    by (simp add: sample_visits_def sample_web_outside_def)
  from login_needs_own_token [OF len after before] no_openid show ?thesis by blast
qed

subsection \<open>Redirects\<close>

lemma login_user_redirect:
  "login_user_and_redirect env req i u st = (Inr (Redirect (Location url)), st') \<Longrightarrow> is_our_url (we_bracket_ok env) (wr_host req) url = Inr True"
  by (auto simp: login_user_and_redirect_def Let_def split: if_splits json.splits sum.splits)

lemma musicbrainz_redirect:
  assumes "handle_musicbrainz_oauth2_login env req wo st = (Inr (Redirect (Location url)), st')"
  shows "is_our_url (we_bracket_ok env) (wr_host req) url = Inr True"
  using assms
  by (auto simp: handle_musicbrainz_oauth2_login_def generate_login_token_def split: option.splits sum.splits prod.splits dest: login_user_redirect)

lemma openid_redirect:
  assumes "handle_openid_login env req wo st = (Inr (Redirect (Location url)), st')"
  shows "is_our_url (we_bracket_ok env) (wr_host req) url = Inr True"
  using assms
  by (auto simp: handle_openid_login_def handle_openid_login_request_def handle_openid_login_response_def Let_def
      split: if_splits option.splits sum.splits prod.splits openid_begin.splits openid_info.splits dest: login_user_redirect)

lemma google_redirect:
  assumes "handle_google_oauth2_login env req wo st = (Inr (Redirect (Location url), todo), st')"
  shows "is_our_url (we_bracket_ok env) (wr_host req) url = Inr True"
  using assms
  by (auto simp: handle_google_oauth2_login_def generate_login_token_def split: option.splits sum.splits prod.splits dest: login_user_redirect)

lemma finish_redirect:
  "finish_login wo failed st step = (Redirect (Location url), st') \<Longrightarrow> \<exists>todo st''. step = (Inr (Redirect (Location url), todo), st'')"
  by (auto simp: finish_login_def login_error_def split: prod.splits sum.splits login_failure.splits)

lemma nothing_pending_Inr: "nothing_pending step = (Inr (r, todo), st') \<Longrightarrow> step = (Inr r, st')"
  by (auto simp: nothing_pending_def split: prod.splits sum.splits)

lemma login_views_redirect:
  "musicbrainz_login env req wo st = (Redirect (Location url), st') \<Longrightarrow> is_our_url (we_bracket_ok env) (wr_host req) url = Inr True"
  "google_login env req wo st = (Redirect (Location url), st') \<Longrightarrow> is_our_url (we_bracket_ok env) (wr_host req) url = Inr True"
  "openid_login env req wo st = (Redirect (Location url), st') \<Longrightarrow> is_our_url (we_bracket_ok env) (wr_host req) url = Inr True"
  unfolding musicbrainz_login_def google_login_def openid_login_def
  by (auto dest!: finish_redirect nothing_pending_Inr intro: musicbrainz_redirect google_redirect openid_redirect)

lemma no_other_location:
  assumes "route \<notin> {Login, Musicbrainz_login, Openid_login, Google_login}"
  shows "fst (web_view env route req wo st) \<noteq> Redirect (Location url)"
proof -
  have u: "require_user req st = (Inl r, st') \<Longrightarrow> r \<noteq> Redirect (Location url)" for r st'
    by (auto simp: require_user_def login_url_def split: option.splits)
  then have a: "require_admin req st = (Inl r, st') \<Longrightarrow> r \<noteq> Redirect (Location url)" for r st'
    by (auto simp: require_admin_def split: prod.splits sum.splits if_splits)
  have t: "named_track req db = Inl r \<Longrightarrow> r \<noteq> Redirect (Location url)" for db r
    by (auto simp: named_track_def Let_def split: if_splits option.splits sum.splits)
  have c: "fst (commit_links env wo r st'' fp ingest) = Redirect (Location url) \<Longrightarrow> r = Redirect (Location url)" for r st'' fp ingest
    by (auto simp: commit_links_def split: if_splits)
  show ?thesis
  proof (cases route)
    case Toggle_track_mbid
    show ?thesis unfolding Toggle_track_mbid web_view.simps toggle_track_mbid_def
      by (auto simp: Let_def dest!: u t c split: prod.split sum.split list.split)
  next
    case (Edit_application i)
    show ?thesis unfolding Edit_application web_view.simps edit_application_def
      by (auto dest!: u split: prod.split sum.split option.split)
  next
    case New_application
    show ?thesis unfolding New_application web_view.simps new_application_def
      by (auto dest!: u split: prod.split sum.split)
  qed (use assms in \<open>auto dest!: u a simp: logout_def api_key_def new_api_key_def applications_def application_page_def track_page_def
      fingerprint_page_def compare_fingerprints_def admin_index_def stats_apps_def Let_def split: prod.split sum.split option.split\<close>)
qed



end
