(* ===== verification/Web_Access.thy ===== *)
theory Web_Access
  imports Web_Site
begin

text \<open>
  Who may change what on the web site: the views behind \<open>require_user\<close> and \<open>require_admin\<close>, the accounts and
  applications of other users, and the links of a track.
\<close>

subsection \<open>Who may change what\<close>

text \<open>What a login leaves alone: the links and their history, every application, and every account there was.\<close>

definition only_adds_users :: "web_site \<Rightarrow> web_site \<Rightarrow> bool" where
  "only_adds_users st st' \<longleftrightarrow>
     ws_fp st' = ws_fp st \<and> ws_ingest st' = ws_ingest st \<and> rows (t_application (ws_app st')) = rows (t_application (ws_app st))
     \<and> set (rows (t_account (ws_app st))) \<subseteq> set (rows (t_account (ws_app st')))"

definition adds_users :: "app_db \<Rightarrow> app_db \<Rightarrow> bool" where
  "adds_users db db' \<longleftrightarrow> t_application db' = t_application db \<and> set (rows (t_account db)) \<subseteq> set (rows (t_account db'))"

lemma adds_users_refl [simp]: "adds_users db db"
  by (simp add: adds_users_def)

lemma only_adds_users_refl [simp]: "only_adds_users st st" "only_adds_users st (set_session f st)"
  by (simp_all add: only_adds_users_def set_session_def)

lemma only_adds_users_trans: "only_adds_users st st' \<Longrightarrow> only_adds_users st' st'' \<Longrightarrow> only_adds_users st st''"
  unfolding only_adds_users_def by (elim conjE) (intro conjI; (erule subset_trans)?; simp)

lemma only_adds_users_app: "adds_users (ws_app st) app \<Longrightarrow> only_adds_users st (st\<lparr>ws_app := app\<rparr>)"
  by (simp add: only_adds_users_def adds_users_def)

lemma only_adds_users_rolled_back: "only_adds_users st (rolled_back st st')"
  by (simp add: only_adds_users_def rolled_back_def)

lemma new_user_adds: "new_user apikey name mbuser db = Inr (i, db') \<Longrightarrow> adds_users db db'"
  by (auto simp: new_user_def ins_def adds_users_def split: if_splits)

lemma musicbrainz_user_adds: "musicbrainz_user_of wo auth_code db = Inr (i, db') \<Longrightarrow> adds_users db db'"
  by (auto simp: musicbrainz_user_of_def and_then_def find_or_create_musicbrainz_user_def split: sum.splits option.splits dest: new_user_adds)

lemma and_then_InrE: "and_then x f = Inr y \<Longrightarrow> (\<And>v. x = Inr v \<Longrightarrow> f v = Inr y \<Longrightarrow> thesis) \<Longrightarrow> thesis"
  by (cases x) (simp_all add: and_then_def)

lemma find_google_user_adds: "find_or_create_google_user apikey g openid db = Inr (i, p, db') \<Longrightarrow> adds_users db db'"
  by (cases "google_account db g"; cases "openid_account db openid")
    (auto simp: find_or_create_google_user_def adds_users_def elim!: and_then_InrE dest!: new_user_adds)

lemma google_user_adds: "google_user_of wo id_token db = Inr (i, p, db') \<Longrightarrow> adds_users db db'"
  unfolding google_user_of_def by (elim and_then_InrE) (rule find_google_user_adds)

lemma insert_account_adds: "insert_account apikey data db = Inr (r, db') \<Longrightarrow> adds_users db db'"
  by (auto simp: insert_account_def ins_def adds_users_def Let_def split: if_splits option.splits)

lemma login_user_adds:
  "only_adds_users st st' \<Longrightarrow> only_adds_users st (snd (login_user_and_redirect env req i u st'))"
  by (erule only_adds_users_trans) (simp add: login_user_and_redirect_def Let_def)

lemma check_token_adds: "check_login_token key state st = (res, st') \<Longrightarrow> only_adds_users st st'"
  by (auto dest: check_login_token_cases(1))

lemma musicbrainz_handler_adds: "only_adds_users st (snd (handle_musicbrainz_oauth2_login env req wo st))"
proof -
  have "only_adds_users st (snd (login_user_and_redirect env req i u (st'\<lparr>ws_app := app\<rparr>)))"
    if "check_login_token key state st = (res, st')" and "musicbrainz_user_of wo auth_code (ws_app st') = Inr (i, app)" for key state res st' auth_code i app u
    using that by (intro login_user_adds only_adds_users_trans [OF check_token_adds only_adds_users_app] musicbrainz_user_adds)
  then show ?thesis
    by (auto simp: handle_musicbrainz_oauth2_login_def generate_login_token_def split: option.split sum.split prod.split dest: check_token_adds)
qed

lemma google_handler_adds: "only_adds_users st (snd (handle_google_oauth2_login env req wo st))"
proof -
  have l: "only_adds_users st st''"
    if "check_login_token key state st = (res, st')" and "google_user_of wo id_token (ws_app st') = Inr (i, p, app)"
      and "login_user_and_redirect env req i JNull (st'\<lparr>ws_app := app\<rparr>) = (r, st'')" for key state res st' id_token i p app r st''
    using that login_user_adds [OF only_adds_users_trans [OF check_token_adds [OF that(1)] only_adds_users_app [OF google_user_adds [OF that(2)]]],
        of env req i JNull] by simp
  show ?thesis
    by (auto simp: handle_google_oauth2_login_def generate_login_token_def split: option.split sum.split prod.split dest: check_token_adds l)
qed

lemma openid_handler_adds: "only_adds_users st (snd (handle_openid_login env req wo st))"
proof -
  have "only_adds_users st (snd (login_user_and_redirect env req i u ((set_session f st)\<lparr>ws_app := app\<rparr>)))"
    if "insert_account (wo_apikey wo) data (ws_app (set_session f st)) = Inr (r, app)" for data f r app i u
    using that by (intro login_user_adds only_adds_users_trans [OF _ only_adds_users_app [OF insert_account_adds]]) simp_all
  then show ?thesis
    by (auto simp: handle_openid_login_def handle_openid_login_request_def handle_openid_login_response_def Let_def
        split: option.split sum.split prod.split openid_begin.split openid_info.split intro: login_user_adds)
qed

lemma finish_login_adds: "only_adds_users st (snd step) \<Longrightarrow> only_adds_users st (snd (finish_login wo failed st step))"
  by (auto simp: finish_login_def flush_pending_def commit_def and_then_def only_adds_users_rolled_back
      split: prod.splits sum.splits login_failure.splits option.splits if_splits)
    (auto simp: only_adds_users_def)

lemma nothing_pending_snd [simp]: "snd (nothing_pending step) = snd step"
  by (auto simp: nothing_pending_def split: prod.splits sum.splits)

lemma login_views_add:
  "only_adds_users st (snd (musicbrainz_login env req wo st))"
  "only_adds_users st (snd (google_login env req wo st))"
  "only_adds_users st (snd (openid_login env req wo st))"
  unfolding musicbrainz_login_def google_login_def openid_login_def
  by (auto intro!: finish_login_adds musicbrainz_handler_adds google_handler_adds openid_handler_adds)

definition same_data :: "web_site \<Rightarrow> web_site \<Rightarrow> bool" where
  "same_data st st' \<longleftrightarrow> ws_app st' = ws_app st \<and> ws_fp st' = ws_fp st \<and> ws_ingest st' = ws_ingest st"

lemma same_data_refl [simp]: "same_data st st" "same_data st (st\<lparr>ws_session := s\<rparr>)" "same_data st (set_session f st)"
  by (simp_all add: same_data_def)

text \<open>A view behind \<open>require_user\<close>: nothing happens to the data, or it works for the account of the session.\<close>

lemma behind_require_user:
  assumes "(response, st') = (case require_user req st of (Inl response, st) \<Rightarrow> (response, st) | (Inr user, st) \<Rightarrow> f user st)"
  obtains "same_data st st'"
  | user where "se_id (ws_session st) = Some (ac_id user)" and "account_by_id (ws_app st) (ac_id user) = Some user" and "f user st = (response, st')"
proof (cases "require_user req st")
  case (Pair res st'')
  show ?thesis
  proof (cases res)
    case (Inl r)
    with Pair assms require_user_session [OF Pair] show ?thesis using that(1) by auto
  next
    case (Inr user)
    with Pair have "st'' = st" "se_id (ws_session st) = Some (ac_id user)" using require_user_Inr by blast+
    moreover from Pair Inr calculation have "account_by_id (ws_app st) (ac_id user) = Some user"
      by (auto simp: require_user_def split: option.splits)
    ultimately show ?thesis using that(2) Pair Inr assms by simp
  qed
qed

lemma behind_require_admin:
  assumes "(response, st') = (case require_admin req st of (Inl response, st) \<Rightarrow> (response, st) | (Inr user, st) \<Rightarrow> f user st)"
    and "\<And>user st. snd (f user st) = st"
  shows "same_data st st'"
proof (cases "require_admin req st")
  case (Pair res st'')
  have "st' = st''"
  proof (cases res)
    case (Inr user)
    with Pair assms(1) have "f user st'' = (response, st')" by simp
    then show ?thesis using assms(2) [of user st''] by simp
  qed (use Pair assms(1) in simp)
  with require_admin_session [OF Pair] show ?thesis by auto
qed

lemma changing_views:
  assumes "web_site env route req wo st = (response, st')" and "\<not> same_data st st'" and "\<not> only_adds_users st st'"
  shows "route = New_api_key \<and> new_api_key req wo st = (response, st')
     \<or> route = New_application \<and> new_application env req wo st = (response, st')
     \<or> (\<exists>i. route = Edit_application i \<and> edit_application env req wo i st = (response, st'))
     \<or> route = Toggle_track_mbid \<and> toggle_track_mbid env req wo st = (response, st')"
proof -
  from assms have view: "web_view env route req wo st = (response, st')" by (auto simp: web_site_def split: if_splits)
  have "\<not> same_data st (snd (web_view env route req wo st)) \<and> \<not> only_adds_users st (snd (web_view env route req wo st))"
    using assms(2,3) view by simp
  then show ?thesis
  proof (cases route)
    case Login
    then show ?thesis using assms(2,3) view login_views_add by (auto simp: login_def split: if_splits) (metis snd_conv)+
  next
    case Musicbrainz_login
    then show ?thesis using assms(3) view login_views_add(1) by (metis web_view.simps(3) snd_conv)
  next
    case Openid_login
    then show ?thesis using assms(3) view login_views_add(3) by (metis web_view.simps(4) snd_conv)
  next
    case Google_login
    then show ?thesis using assms(3) view login_views_add(2) by (metis web_view.simps(5) snd_conv)
  next
    case Api_key
    from view Api_key have "(response, st') = api_key req st" by simp
    then have "same_data st st'" unfolding api_key_def by (rule behind_require_user) (auto simp: same_data_def)
    with assms show ?thesis by simp
  next
    case My_applications
    from view My_applications have "(response, st') = applications req st" by simp
    then have "same_data st st'" unfolding applications_def by (rule behind_require_user) (auto simp: same_data_def)
    with assms show ?thesis by simp
  next
    case (Application i)
    from view Application have "(response, st') = application_page req i st" by simp
    then have "same_data st st'" unfolding application_page_def by (rule behind_require_user) (auto simp: same_data_def)
    with assms show ?thesis by simp
  next
    case Admin_index
    from view Admin_index have "(response, st') = admin_index req st" by simp
    then have "same_data st st'" unfolding admin_index_def by (rule behind_require_admin) simp
    with assms show ?thesis by simp
  next
    case Admin_stats_apps
    from view Admin_stats_apps have "(response, st') = stats_apps env req st" by simp
    then have "same_data st st'" unfolding stats_apps_def by (rule behind_require_admin) (simp split: option.split)
    with assms show ?thesis by simp
  qed (use view assms in \<open>auto simp: logout_def track_page_def fingerprint_page_def compare_fingerprints_def Let_def\<close>)
qed

text \<open>An edit changes nothing, or it updates one application of the account signed in.\<close>

lemma edit_outcome:
  assumes "edit_application env req wo i st = (response, st')"
  shows "same_data st st' \<or>
     (\<exists>application r app. se_id (ws_session st) = Some (ap_account_id application) \<and> application \<in> set (rows (t_application (ws_app st)))
        \<and> update_application (ws_app st) (ap_id application) (submitted req (ap_account_id application)) = Inr (r, app) \<and> ws_app st' = app)"
  using assms [symmetric, unfolded edit_application_def]
proof (rule behind_require_user, goal_cases)
  case 1
  then show ?case by simp
next
  case (2 user)
  note view = 2(3)
  show ?case
  proof (cases "st' = st")
    case False
    with view obtain n where n: "we_pg_int env i = Some n" by (cases "we_pg_int env i") auto
    with view False obtain application where a: "application_by_id (ws_app st) n = Some application"
      by (cases "application_by_id (ws_app st) n") auto
    with view False n have own: "ap_account_id application = ac_id user" and submit: "truthy_str (form req ''submit'')"
      by (auto split: if_splits)
    with view False n a have errors: "application_errors env req = Inr []"
      by (cases "application_errors env req") (auto split: if_splits)
    from view False n a own submit errors obtain r app where
        "update_application (ws_app st) (ap_id application) (submitted req (ac_id user)) = Inr (r, app) \<and> ws_app st' = app"
      by (cases "update_application (ws_app st) (ap_id application) (submitted req (ac_id user))")
        (auto simp: and_then_def commit_def split: option.splits)
    moreover have "application \<in> set (rows (t_application (ws_app st)))" using a by (auto simp: application_by_id_def dest: scalar_SomeD)
    ultimately show ?thesis using 2(1) unfolding own [symmetric] by blast
  qed simp
qed

lemma update_application_frame:
  assumes "update_application db i data = Inr (r, db')"
  shows "t_account db' = t_account db" and "a \<in> set (rows (t_application db)) \<Longrightarrow> ap_id a \<noteq> i \<Longrightarrow> a \<in> set (rows (t_application db'))"
  using assms by (auto simp: update_application_def table_simps split: if_splits)

text \<open>A toggle changes nothing, or it flips one link for a moderator and records it.\<close>

lemma toggle_outcome:
  assumes "toggle_track_mbid env req wo st = (response, st')"
  shows "same_data st st' \<or>
     (\<exists>user link note page. se_id (ws_session st) = Some (ac_id user) \<and> account_by_id (ws_app st) (ac_id user) = Some user
        \<and> is_moderator (ws_app st) (ac_id user) \<and> link \<in> set (rows (t_track_mbid (ws_fp st)))
        \<and> (response, st') = commit_links env wo page st (set_disabled (lk_id link) (\<not> tm_disabled link) (ws_fp st))
             (record_change (lk_id link) (ac_id user) (\<not> tm_disabled link) note (ws_ingest st)))"
  using assms [symmetric, unfolded toggle_track_mbid_def]
proof (rule behind_require_user, goal_cases)
  case 1
  then show ?case by simp
next
  case (2 user)
  note body = 2(3)
  show ?case
  proof (cases "named_track req (ws_fp st)")
    case (Inl r)
    with body show ?thesis by simp
  next
    case (Inr track_id)
    let ?mbid = "vget (web_values req) ''mbid''" and ?state = "truthy_int (vget_int (web_values req) ''state'')"
    show ?thesis
    proof (cases "truthy_int track_id \<and> truthy_str ?mbid \<and> is_moderator (ws_app st) (ac_id user)")
      case False
      with body Inr have "st' = st" by (auto simp: Let_def split: if_splits)
      then show ?thesis by simp
    next
      case True
      show ?thesis
      proof (cases "pg_uuid (the ?mbid)")
        case (Inl e)
        with body Inr True show ?thesis by simp
      next
        case Inr': (Inr mbid)
        show ?thesis
        proof (cases "sel (\<lambda>l. Some (lk_track_id l) = track_id \<and> lk_value l = mbid) (t_track_mbid (ws_fp st))")
          case Nil
          with body Inr Inr' True show ?thesis by simp
        next
          case (Cons link rest)
          then have "link \<in> set (sel (\<lambda>l. Some (lk_track_id l) = track_id \<and> lk_value l = mbid) (t_track_mbid (ws_fp st)))" by simp
          then have link: "link \<in> set (rows (t_track_mbid (ws_fp st)))" by (simp add: sel_def)
          show ?thesis
          proof (cases "?state \<noteq> tm_disabled link \<and> truthy_str (form req ''submit'')")
            case False
            with body Inr Inr' True Cons have "st' = st" by (simp add: Let_def split: if_splits)
            then show ?thesis by simp
          next
            case submit: True
            then have state: "?state = (\<not> tm_disabled link)" by blast
            define page where "page = Redirect (Url_for ''metadata.track'' [(''track_id_or_gid'', int_str (the track_id))])"
            have "(response, st') = commit_links env wo page st (set_disabled (lk_id link) (\<not> tm_disabled link) (ws_fp st))
                (record_change (lk_id link) (ac_id user) (\<not> tm_disabled link) (vget (web_values req) ''note'') (ws_ingest st))"
              using body Inr Inr' True Cons submit unfolding state by (simp add: Let_def page_def)
            with link 2(1,2) True show ?thesis by blast
          qed
        qed
      qed
    qed
  qed
qed

lemma commit_links_app: "(response, st') = commit_links env wo page st fp ingest \<Longrightarrow> ws_app st' = ws_app st"
  by (simp add: commit_links_def split: if_splits)

lemma toggle_app: "toggle_track_mbid env req wo st = (response, st') \<Longrightarrow> ws_app st' = ws_app st"
  by (drule toggle_outcome) (elim disjE exE conjE commit_links_app; simp add: same_data_def)

text \<open>The other views that change data leave the links and their history alone.\<close>

lemma new_api_key_frame: "ws_fp (snd (new_api_key req wo st)) = ws_fp st"
  by (auto simp: new_api_key_def require_user_def split: option.split sum.split)

lemma new_application_frame: "ws_fp (snd (new_application env req wo st)) = ws_fp st"
  by (auto simp: new_application_def require_user_def split: option.split sum.split)

lemma edit_application_frame: "ws_fp (snd (edit_application env req wo i st)) = ws_fp st"
  by (auto simp: edit_application_def require_user_def split: option.split sum.split)

lemma fp_kept:
  "new_api_key req wo st = (response, st') \<Longrightarrow> ws_fp st' = ws_fp st"
  "new_application env req wo st = (response, st') \<Longrightarrow> ws_fp st' = ws_fp st"
  "edit_application env req wo i st = (response, st') \<Longrightarrow> ws_fp st' = ws_fp st"
  by (metis new_api_key_frame snd_conv, metis new_application_frame snd_conv, metis edit_application_frame snd_conv)

text \<open>C36: Users change only what is theirs: whatever a request does, every account but the one signed in, and every application
  but those of the account signed in, is still there unchanged.\<close>

theorem only_own_data_changes:
  assumes "web_site env route req wo st = (response, st')" and "wf_table ap_id (t_application (ws_app st))"
  shows "(\<forall>r \<in> set (rows (t_account (ws_app st))). r \<in> set (rows (t_account (ws_app st'))) \<or> se_id (ws_session st) = Some (ac_id r))
     \<and> (\<forall>a \<in> set (rows (t_application (ws_app st))).
           a \<in> set (rows (t_application (ws_app st'))) \<or> se_id (ws_session st) = Some (ap_account_id a))"
proof (cases "same_data st st' \<or> only_adds_users st st'")
  case True
  then show ?thesis by (auto simp: same_data_def only_adds_users_def)
next
  case False
  then have "\<not> same_data st st'" "\<not> only_adds_users st st'" by simp_all
  from changing_views [OF assms(1) this] show ?thesis
  proof (elim disjE exE conjE)
    assume "new_api_key req wo st = (response, st')"
    from this [symmetric, unfolded new_api_key_def] show ?thesis
    proof (rule behind_require_user)
      fix user assume s: "se_id (ws_session st) = Some (ac_id user)"
        and "(case and_then (reset_account_apikey (wo_apikey wo) (ws_app st) (ac_id user)) (commit wo) of
             Inl e \<Rightarrow> (Crashed e, st) | Inr app \<Rightarrow> (Redirect (Url_for ''user.api_key'' []), st\<lparr>ws_app := app\<rparr>)) = (response, st')"
      then have "st' = st \<or> (\<exists>app. st' = st\<lparr>ws_app := app\<rparr> \<and> reset_account_apikey (wo_apikey wo) (ws_app st) (ac_id user) = Inr app)"
        by (auto simp: commit_def and_then_def split: sum.splits option.splits)
      with s show ?thesis by (auto simp: reset_account_apikey_def table_simps split: if_splits)
    qed (auto simp: same_data_def)
  next
    assume "new_application env req wo st = (response, st')"
    from this [symmetric, unfolded new_application_def] show ?thesis
      by (rule behind_require_user)
        (auto simp: same_data_def commit_def and_then_def insert_application_def Let_def ins_def split: if_splits sum.splits option.splits)
  next
    fix i assume "edit_application env req wo i st = (response, st')"
    from edit_outcome [OF this] show ?thesis
    proof (elim disjE exE conjE)
      fix application r app
      assume s: "se_id (ws_session st) = Some (ap_account_id application)" and app: "application \<in> set (rows (t_application (ws_app st)))"
        and u: "update_application (ws_app st) (ap_id application) (submitted req (ap_account_id application)) = Inr (r, app)" and st': "ws_app st' = app"
      have "a = application" if "a \<in> set (rows (t_application (ws_app st)))" "ap_id a = ap_id application" for a
        using that app assms(2) distinct_map_unique [of ap_id "rows (t_application (ws_app st))"] by (auto simp: wf_table_def)
      then have "a \<in> set (rows (t_application app)) \<or> se_id (ws_session st) = Some (ap_account_id a)"
        if "a \<in> set (rows (t_application (ws_app st)))" for a
        using that s update_application_frame(2) [OF u that] by blast
      then show ?thesis unfolding st' update_application_frame(1) [OF u] by blast
    qed (auto simp: same_data_def)
  next
    assume "toggle_track_mbid env req wo st = (response, st')"
    from toggle_app [OF this] show ?thesis by simp
  qed
qed


definition signed_in :: "int \<Rightarrow> web_session" where
  "signed_in i = new_session\<lparr>se_id := Some i\<rparr>"

theorem only_own_data_changes_witness:
  "\<exists>st'. web_site sample_web_env New_api_key (sample_web_request []) sample_web_outside
        (sample_web_site\<lparr>ws_app := two_accounts, ws_session := signed_in 1\<rparr>) = (Redirect (Url_for ''user.api_key'' []), st')
     \<and> sample_account 2 ''bb'' \<in> set (rows (t_account (ws_app st')))"
proof -
  let ?st = "sample_web_site\<lparr>ws_app := two_accounts, ws_session := signed_in 1\<rparr>"
  have wf: "wf_table ap_id (t_application (ws_app ?st))" by (simp add: two_accounts_def empty_app_db_def)
  have "fst (web_site sample_web_env New_api_key (sample_web_request []) sample_web_outside ?st) = Redirect (Url_for ''user.api_key'' [])"
    by code_simp
  then obtain st' where w: "web_site sample_web_env New_api_key (sample_web_request []) sample_web_outside ?st = (Redirect (Url_for ''user.api_key'' []), st')"
    by (metis prod.collapse)
  have "sample_account 2 ''bb'' \<in> set (rows (t_account (ws_app ?st)))" by (simp add: two_accounts_def)
  moreover have "se_id (ws_session ?st) \<noteq> Some (ac_id (sample_account 2 ''bb''))" by (simp add: signed_in_def sample_account_def)
  ultimately have "sample_account 2 ''bb'' \<in> set (rows (t_account (ws_app st')))"
    using only_own_data_changes [OF w wf] by blast
  with w show ?thesis by blast
qed

definition editor_account :: account_row where
  "editor_account = (sample_account 1 ''aa'')\<lparr>ac_mbuser := Some ''editor''\<rparr>"

definition sample_mbid :: string where
  "sample_mbid = ''a84b9fdc-f7ef-4e2c-9f9a-4c0e4c1c0b1e''"

definition sample_link :: track_mbid_row where
  "sample_link = new_mbid_link 0 7 sample_mbid 1 5"

definition editor_site :: web_site where
  "editor_site = sample_web_site\<lparr>ws_session := signed_in 1,
     ws_app := empty_app_db\<lparr>t_account := \<lparr>rows = [editor_account], serial = 2\<rparr>\<rparr>,
     ws_fp := empty_fingerprint_db\<lparr>t_track := \<lparr>rows = [\<lparr>tr_id = 7, tr_created = 0, tr_updated = None, tr_new_id = None, tr_gid = sample_mbid\<rparr>], serial = 8\<rparr>,
                                   t_track_mbid := \<lparr>rows = [sample_link], serial = 6\<rparr>\<rparr>\<rparr>"

definition unlink_request :: web_request where
  "unlink_request = \<lparr>wr_post = True, wr_args = [],
     wr_form = [(''track_id'', ''7''), (''mbid'', sample_mbid), (''state'', ''1''), (''submit'', ''1''), (''note'', ''wrong'')],
     wr_host = ''acoustid.org'', wr_url = ''https://acoustid.org/edit/toggle-track-mbid''\<rparr>"


subsection \<open>Where the code falls short\<close>

text \<open>Without two-phase commit, which is the default, a link can be switched with no entry in the history.\<close>

lemma toggle_without_trace:
  "case web_site (sample_web_env\<lparr>we_two_phase_commit := False\<rparr>) Toggle_track_mbid unlink_request
      (sample_web_outside\<lparr>wo_ingest_commits := False\<rparr>) editor_site of (response, st') \<Rightarrow>
     map tm_disabled (rows (t_track_mbid (ws_fp st'))) = [True] \<and> rows (t_track_mbid_change (ws_ingest st')) = []"
  by code_simp

text \<open>A login whose commit fails shows an error and yet leaves the visitor signed in, as an account that was never stored.\<close>

lemma failed_login_signs_in:
  "case web_site sample_web_env Google_login (sample_web_request [(''code'', ''c''), (''state'', ''tok'')])
      (sample_web_outside\<lparr>wo_commit := Some OperationalError\<rparr>)
      (sample_web_site\<lparr>ws_session := new_session\<lparr>se_tokens := [''google_login_token'' \<mapsto> ''tok'']\<rparr>\<rparr>) of (response, st') \<Rightarrow>
     response = login_error ''Google authentication failed'' \<and> se_id (ws_session st') = Some 1 \<and> rows (t_account (ws_app st')) = []"
  by code_simp

text \<open>\<open>/new-api-key\<close> is a GET: a link on any page replaces the API key of whoever follows it.\<close>

lemma new_api_key_by_get:
  "case web_site sample_web_env New_api_key (sample_web_request []) sample_web_outside editor_site of (response, st') \<Rightarrow>
     map ac_apikey (rows (t_account (ws_app st'))) = [''key'']"
  by code_simp

text \<open>A UUID with a newline passes \<open>is_uuid\<close> and then fails in the database.\<close>

lemma track_page_newline: "fst (track_page (sample_mbid @ [newline]) editor_site) = Crashed DataError"
  by code_simp

lemma compare_with_itself: "fst (compare_fingerprints i i st) = Abort 404"
  by (simp add: compare_fingerprints_def)

text \<open>Administration pages are for administrators only.\<close>

lemma admin_pages_need_admin:
  assumes "route \<in> {Admin_index, Admin_stats_apps}" and "web_site env route req wo st = (Rendered page, st')"
  shows "\<exists>user \<in> set (rows (t_account (ws_app st))). se_id (ws_session st) = Some (ac_id user) \<and> ac_is_admin user"
proof -
  obtain res st'' where a: "require_admin req st = (res, st'')" by fastforce
  have "\<exists>user. res = Inr user"
  proof (cases res)
    case (Inl r)
    then have "r \<noteq> Rendered page" using a
      by (auto simp: require_admin_def require_user_def login_url_def split: prod.splits sum.splits if_splits option.splits)
    with Inl a assms show ?thesis by (auto simp: web_site_def admin_index_def stats_apps_def split: if_splits)
  qed simp
  then obtain user where res: "res = Inr user" by blast
  with a have "require_user req st = (Inr user, st'') \<and> ac_is_admin user"
    by (auto simp: require_admin_def split: prod.splits sum.splits if_splits)
  with require_user_Inr [of req st user st''] show ?thesis by blast
qed

end
