(* ===== verification/Config.thy ===== *)
theory Config
  imports Py_Strings Track
begin

text \<open>
  \<^verbatim>\<open>config.py\<close>: the configuration, read from an INI file and then from environment variables, and the database engines made from it.
  A parsed file (\<open>RawConfigParser\<close>) is its DEFAULT section and its sections; option names are in lower case already.
  \<open>config_env\<close> is the process's environment: its variables, the files it can read, the parser of INI texts and the parser of floats.
\<close>

record ini =
  ini_defaults :: "(string, string) dict"
  ini_sections :: "(string, (string, string) dict) dict"

record config_env =
  ce_environ :: "(string, string) dict"
  ce_file :: "string \<Rightarrow> string option"
  ce_parse_ini :: "string \<Rightarrow> py_exc + ini"
  ce_float :: "string \<Rightarrow> rat option"

subsection \<open>The parser's methods\<close>

definition has_section :: "ini \<Rightarrow> string \<Rightarrow> bool" where
  "has_section p section = (dict_get (ini_sections p) section \<noteq> None)"

text \<open>\<open>has_option\<close> and \<open>get\<close> in one: an option of the section, or of the DEFAULT section.\<close>

definition option_of :: "ini \<Rightarrow> string \<Rightarrow> string \<Rightarrow> string option" where
  "option_of p section name =
     (case dict_get (ini_sections p) section of
        None \<Rightarrow> None
      | Some d \<Rightarrow> (case dict_get d name of None \<Rightarrow> dict_get (ini_defaults p) name | Some v \<Rightarrow> Some v))"

text \<open>\<open>options\<close>: the names of the section, then those of the DEFAULT section it does not have.\<close>

definition options_of :: "ini \<Rightarrow> string \<Rightarrow> string list" where
  "options_of p section =
     (case dict_get (ini_sections p) section of
        None \<Rightarrow> []
      | Some d \<Rightarrow> dict_keys d @ filter (\<lambda>name. name \<notin> set (dict_keys d)) (dict_keys (ini_defaults p)))"

type_synonym 'a conversion = "string \<Rightarrow> py_exc + 'a"

definition as_str :: "string conversion" where "as_str s = Inr s"

definition as_int :: "int conversion" where
  "as_int s = (case py_int s of None \<Rightarrow> Inl ValueError | Some i \<Rightarrow> Inr i)"

definition as_float :: "config_env \<Rightarrow> rat conversion" where
  "as_float e s = (case ce_float e s of None \<Rightarrow> Inl ValueError | Some x \<Rightarrow> Inr x)"

text \<open>\<open>getboolean\<close>.\<close>

definition as_boolean :: "bool conversion" where
  "as_boolean s =
     (if py_lower s \<in> {''1'', ''yes'', ''true'', ''on''} then Inr True
      else if py_lower s \<in> {''0'', ''no'', ''false'', ''off''} then Inr False else Inl ValueError)"

subsection \<open>Helpers\<close>

definition str_to_bool :: "string \<Rightarrow> bool" where
  "str_to_bool x \<longleftrightarrow> py_lower x \<in> {''1'', ''on'', ''true''}"

definition as_flag :: "bool conversion" where "as_flag s = Inr (str_to_bool s)"

definition open_and_strip :: "config_env \<Rightarrow> string \<Rightarrow> py_exc + string" where
  "open_and_strip e path = (case ce_file e path of None \<Rightarrow> Inl FileNotFoundError | Some s \<Rightarrow> Inr (py_strip s))"

definition set_value :: "('v \<Rightarrow> 'c \<Rightarrow> 'c) \<Rightarrow> 'v conversion \<Rightarrow> string option \<Rightarrow> 'c \<Rightarrow> py_exc + 'c" where
  "set_value set_attr convert v obj = (case v of None \<Rightarrow> Inr obj | Some s \<Rightarrow> and_then (convert s) (\<lambda>x. Inr (set_attr x obj)))"

text \<open>\<open>if parser.has_option(section, name): obj.key = parser.get...(section, name)\<close>, also \<open>read_config_str_option\<close>.\<close>

definition read_option :: "ini \<Rightarrow> string \<Rightarrow> ('v \<Rightarrow> 'c \<Rightarrow> 'c) \<Rightarrow> 'v conversion \<Rightarrow> string \<Rightarrow> 'c \<Rightarrow> py_exc + 'c" where
  "read_option p section set_attr convert name obj = set_value set_attr convert (option_of p section name) obj"

definition read_config_secret_str_option ::
    "config_env \<Rightarrow> ini \<Rightarrow> string \<Rightarrow> (string \<Rightarrow> 'c \<Rightarrow> 'c) \<Rightarrow> string \<Rightarrow> 'c \<Rightarrow> py_exc + 'c" where
  "read_config_secret_str_option e p section set_attr name obj =
     (case option_of p section name of
        Some value \<Rightarrow> Inr (set_attr value obj)
      | None \<Rightarrow>
          (case option_of p section (name @ ''_file'') of
             Some value_file_path \<Rightarrow> and_then (open_and_strip e value_file_path) (\<lambda>value. Inr (set_attr value obj))
           | None \<Rightarrow> Inr obj))"

definition read_env_item :: "config_env \<Rightarrow> ('v \<Rightarrow> 'c \<Rightarrow> 'c) \<Rightarrow> 'v conversion \<Rightarrow> string \<Rightarrow> 'c \<Rightarrow> py_exc + 'c" where
  "read_env_item e set_attr convert name obj =
     (case dict_get (ce_environ e) (name @ ''_FILE'') of
        Some path \<Rightarrow> and_then (open_and_strip e path) (\<lambda>value. set_value set_attr convert (Some value) obj)
      | None \<Rightarrow> set_value set_attr convert (dict_get (ce_environ e) name) obj)"

text \<open>The statements of a \<open>read_section\<close> or \<open>read_env\<close>, one after the other.\<close>

fun in_order :: "('c \<Rightarrow> py_exc + 'c) list \<Rightarrow> 'c \<Rightarrow> py_exc + 'c" where
  "in_order [] obj = Inr obj"
| "in_order (f # fs) obj = and_then (f obj) (in_order fs)"

text \<open>\<open>BaseConfig.read\<close>.\<close>

definition read_if_section :: "(ini \<Rightarrow> string \<Rightarrow> 'c \<Rightarrow> py_exc + 'c) \<Rightarrow> ini \<Rightarrow> string \<Rightarrow> 'c \<Rightarrow> py_exc + 'c" where
  "read_if_section read_section p section obj = (if has_section p section then read_section p section obj else Inr obj)"

subsection \<open>Databases\<close>

record database_config =
  dc_user :: string
  dc_name :: string
  dc_host :: string
  dc_port :: int
  dc_password :: string
  dc_pool_size :: "int option"
  dc_pool_recycle :: "int option"
  dc_pool_pre_ping :: "bool option"
  dc_pool_timeout :: "int option"

definition new_database_config :: database_config where
  "new_database_config = \<lparr>dc_user = ''acoustid'', dc_name = ''acoustid'', dc_host = ''localhost'', dc_port = 5432, dc_password = '''',
     dc_pool_size = Some 20, dc_pool_recycle = None, dc_pool_pre_ping = None, dc_pool_timeout = Some 2\<rparr>"

text \<open>The name of a database is not optional: \<open>parser.get\<close> raises without it.\<close>

definition read_database_section :: "config_env \<Rightarrow> ini \<Rightarrow> string \<Rightarrow> database_config \<Rightarrow> py_exc + database_config" where
  "read_database_section e p section = in_order
     [\<lambda>c. case option_of p section ''name'' of None \<Rightarrow> Inl ConfigParserError | Some v \<Rightarrow> Inr (c\<lparr>dc_name := v\<rparr>),
      read_option p section (\<lambda>v c. c\<lparr>dc_host := v\<rparr>) as_str ''host'',
      read_option p section (\<lambda>v c. c\<lparr>dc_port := v\<rparr>) as_int ''port'',
      read_config_secret_str_option e p section (\<lambda>v c. c\<lparr>dc_user := v\<rparr>) ''user'',
      read_config_secret_str_option e p section (\<lambda>v c. c\<lparr>dc_password := v\<rparr>) ''password'',
      read_option p section (\<lambda>v c. c\<lparr>dc_pool_size := Some v\<rparr>) as_int ''pool_size'',
      read_option p section (\<lambda>v c. c\<lparr>dc_pool_recycle := Some v\<rparr>) as_int ''pool_recycle'',
      read_option p section (\<lambda>v c. c\<lparr>dc_pool_pre_ping := Some v\<rparr>) as_boolean ''pool_pre_ping'',
      read_option p section (\<lambda>v c. c\<lparr>dc_pool_timeout := Some v\<rparr>) as_int ''pool_timeout'']"

definition read_database_env :: "config_env \<Rightarrow> string \<Rightarrow> database_config \<Rightarrow> py_exc + database_config" where
  "read_database_env e prefix = in_order
     [read_env_item e (\<lambda>v c. c\<lparr>dc_name := v\<rparr>) as_str (prefix @ ''NAME''),
      read_env_item e (\<lambda>v c. c\<lparr>dc_host := v\<rparr>) as_str (prefix @ ''HOST''),
      read_env_item e (\<lambda>v c. c\<lparr>dc_port := v\<rparr>) as_int (prefix @ ''PORT''),
      read_env_item e (\<lambda>v c. c\<lparr>dc_user := v\<rparr>) as_str (prefix @ ''USER''),
      read_env_item e (\<lambda>v c. c\<lparr>dc_password := v\<rparr>) as_str (prefix @ ''PASSWORD''),
      read_env_item e (\<lambda>v c. c\<lparr>dc_pool_size := Some v\<rparr>) as_int (prefix @ ''POOL_SIZE''),
      read_env_item e (\<lambda>v c. c\<lparr>dc_pool_recycle := Some v\<rparr>) as_int (prefix @ ''POOL_RECYCLE''),
      read_env_item e (\<lambda>v c. c\<lparr>dc_pool_pre_ping := Some v\<rparr>) as_flag (prefix @ ''POOL_PRE_PING''),
      read_env_item e (\<lambda>v c. c\<lparr>dc_pool_timeout := Some v\<rparr>) as_int (prefix @ ''POOL_TIMEOUT'')]"

record db_url =
  url_scheme :: string
  url_username :: string
  url_database :: string
  url_host :: string
  url_port :: int
  url_password :: string

definition create_url :: "string option \<Rightarrow> database_config \<Rightarrow> db_url" where
  "create_url driver c =
     \<lparr>url_scheme = ''postgresql'' @ (case driver of None \<Rightarrow> [] | Some d \<Rightarrow> ''+'' @ d), url_username = dc_user c, url_database = dc_name c,
      url_host = dc_host c, url_port = dc_port c, url_password = dc_password c\<rparr>"

text \<open>Keyword arguments of \<open>create_engine\<close>: numbers, flags or a class.\<close>

datatype engine_arg = Arg_int int | Arg_bool bool | Arg_class string

definition set_missing :: "string \<Rightarrow> engine_arg option \<Rightarrow> (string, engine_arg) dict \<Rightarrow> (string, engine_arg) dict" where
  "set_missing name v kwargs =
     (case v of None \<Rightarrow> kwargs | Some x \<Rightarrow> if dict_get kwargs name = None then dict_set kwargs name x else kwargs)"

definition create_engine_params :: "database_config \<Rightarrow> (string, engine_arg) dict \<Rightarrow> (string, engine_arg) dict" where
  "create_engine_params c kwargs =
     (if dict_get kwargs ''poolclass'' \<noteq> None then kwargs
      else set_missing ''pool_timeout'' (map_option Arg_int (dc_pool_timeout c))
          (set_missing ''pool_pre_ping'' (map_option Arg_bool (dc_pool_pre_ping c))
          (set_missing ''pool_recycle'' (map_option Arg_int (dc_pool_recycle c))
          (set_missing ''pool_size'' (map_option Arg_int (dc_pool_size c)) kwargs))))"

definition create_psql_args :: "database_config \<Rightarrow> string list" where
  "create_psql_args c = [''-U'', dc_user c, ''-h'', dc_host c, ''-p'', int_str (dc_port c), dc_name c]"

text \<open>An engine is a new object: it is known by the database it was made for.\<close>

record engine =
  en_made_for :: string
  en_url :: db_url
  en_params :: "(string, engine_arg) dict"

definition create_engine :: "string option \<Rightarrow> (string, engine_arg) dict \<Rightarrow> string \<Rightarrow> database_config \<Rightarrow> engine" where
  "create_engine driver kwargs name c = \<lparr>en_made_for = name, en_url = create_url driver c, en_params = create_engine_params c kwargs\<rparr>"

record databases_config =
  ds_databases :: "(string, database_config) dict"
  ds_two_phase_commit :: bool
  ds_auto_commit :: bool

definition database_names :: "string list" where
  "database_names = [''app'', ''fingerprint'', ''ingest'', ''musicbrainz'']"

definition new_databases_config :: databases_config where
  "new_databases_config =
     \<lparr>ds_databases = concat (map (\<lambda>name. [(name, new_database_config), (name @ '':ro'', new_database_config)]) database_names),
      ds_two_phase_commit = False, ds_auto_commit = False\<rparr>"

text \<open>The loop of \<open>create_engines\<close> and \<open>create_async_engines\<close>: an equal database that has an engine already shares it.\<close>

definition sharing :: "(string, database_config) dict \<Rightarrow> (string, engine) dict \<Rightarrow> database_config \<Rightarrow> engine list" where
  "sharing databases engines c =
     [engine. (other_name, other) \<leftarrow> databases, other = c, engine \<leftarrow> (case dict_get engines other_name of None \<Rightarrow> [] | Some x \<Rightarrow> [x])]"

definition engine_for ::
    "string option \<Rightarrow> (string, engine_arg) dict \<Rightarrow> (string, database_config) dict \<Rightarrow> string \<times> database_config
     \<Rightarrow> (string, engine) dict \<Rightarrow> (string, engine) dict" where
  "engine_for driver kwargs databases nc engines =
     (case nc of (name, c) \<Rightarrow>
        dict_set engines name
          (case first_of (sharing databases engines c) of
             Some engine \<Rightarrow> engine
           | None \<Rightarrow> create_engine driver kwargs name c))"

definition create_engines :: "string option \<Rightarrow> (string, engine_arg) dict \<Rightarrow> databases_config \<Rightarrow> (string, engine) dict" where
  "create_engines driver kwargs ds = fold (engine_for driver kwargs (ds_databases ds)) (ds_databases ds) []"

fun each_database :: "(string \<Rightarrow> database_config \<Rightarrow> py_exc + database_config) \<Rightarrow> (string, database_config) dict \<Rightarrow> py_exc + (string, database_config) dict" where
  "each_database f [] = Inr []"
| "each_database f ((name, c) # ds) = and_then (f name c) (\<lambda>c. and_then (each_database f ds) (\<lambda>ds. Inr ((name, c) # ds)))"

text \<open>\<open>sub_section.replace(":ro", "")\<close> for names that end in it; no other name has it.\<close>

definition without_ro :: "string \<Rightarrow> string" where
  "without_ro s = (if ends_with '':ro'' s then take (length s - 3) s else s)"

definition read_sub_section :: "config_env \<Rightarrow> ini \<Rightarrow> string \<Rightarrow> string \<Rightarrow> database_config \<Rightarrow> py_exc + database_config" where
  "read_sub_section e p section name c =
     (let sub_section = section @ '':'' @ name
      in if has_section p sub_section then read_if_section (read_database_section e) p sub_section c
         else if ends_with '':ro'' sub_section \<and> has_section p (without_ro sub_section)
         then read_if_section (read_database_section e) p (without_ro sub_section) c
         else Inr c)"

definition read_databases_section :: "config_env \<Rightarrow> ini \<Rightarrow> string \<Rightarrow> databases_config \<Rightarrow> py_exc + databases_config" where
  "read_databases_section e p section = in_order
     [read_option p section (\<lambda>v c. c\<lparr>ds_two_phase_commit := v\<rparr>) as_boolean ''two_phase_commit'',
      read_option p section (\<lambda>v c. c\<lparr>ds_auto_commit := v\<rparr>) as_boolean ''auto_commit'',
      \<lambda>c. and_then (each_database (read_sub_section e p section) (ds_databases c)) (\<lambda>ds. Inr (c\<lparr>ds_databases := ds\<rparr>))]"

definition env_name :: "string \<Rightarrow> string" where
  "env_name name = map upper_char (map (\<lambda>c. if c = CHR '':'' then CHR ''_'' else c) name)"

definition read_databases_env :: "config_env \<Rightarrow> string \<Rightarrow> databases_config \<Rightarrow> py_exc + databases_config" where
  "read_databases_env e prefix = in_order
     [read_env_item e (\<lambda>v c. c\<lparr>ds_auto_commit := v\<rparr>) as_flag (prefix @ ''DATABASE_AUTO_COMMIT''),
      read_env_item e (\<lambda>v c. c\<lparr>ds_two_phase_commit := v\<rparr>) as_flag (prefix @ ''DATABASE_TWO_PHASE_COMMIT''),
      \<lambda>c. and_then (each_database (\<lambda>name. read_database_env e (prefix @ ''DATABASE_'' @ env_name name @ ''_'')) (ds_databases c))
             (\<lambda>ds. Inr (c\<lparr>ds_databases := ds\<rparr>))]"

subsection \<open>Services, the web site and the cluster\<close>

record index_config =
  ix_host :: string
  ix_port :: int

definition new_index_config :: index_config where
  "new_index_config = \<lparr>ix_host = ''127.0.0.1'', ix_port = 6080\<rparr>"

definition read_index_section :: "ini \<Rightarrow> string \<Rightarrow> index_config \<Rightarrow> py_exc + index_config" where
  "read_index_section p section = in_order
     [read_option p section (\<lambda>v c. c\<lparr>ix_host := v\<rparr>) as_str ''host'',
      read_option p section (\<lambda>v c. c\<lparr>ix_port := v\<rparr>) as_int ''port'']"

definition read_index_env :: "config_env \<Rightarrow> string \<Rightarrow> index_config \<Rightarrow> py_exc + index_config" where
  "read_index_env e prefix = in_order
     [read_env_item e (\<lambda>v c. c\<lparr>ix_host := v\<rparr>) as_str (prefix @ ''INDEX_HOST''),
      read_env_item e (\<lambda>v c. c\<lparr>ix_port := v\<rparr>) as_int (prefix @ ''INDEX_PORT'')]"

record fpstore_config =
  fc_host :: string
  fc_port :: int

definition new_fpstore_config :: fpstore_config where
  "new_fpstore_config = \<lparr>fc_host = '''', fc_port = 4659\<rparr>"

definition read_fpstore_section :: "ini \<Rightarrow> string \<Rightarrow> fpstore_config \<Rightarrow> py_exc + fpstore_config" where
  "read_fpstore_section p section = in_order
     [read_option p section (\<lambda>v c. c\<lparr>fc_host := v\<rparr>) as_str ''host'',
      read_option p section (\<lambda>v c. c\<lparr>fc_port := v\<rparr>) as_int ''port'']"

definition read_fpstore_env :: "config_env \<Rightarrow> string \<Rightarrow> fpstore_config \<Rightarrow> py_exc + fpstore_config" where
  "read_fpstore_env e prefix = in_order
     [read_env_item e (\<lambda>v c. c\<lparr>fc_host := v\<rparr>) as_str (prefix @ ''FPSTORE_HOST''),
      read_env_item e (\<lambda>v c. c\<lparr>fc_port := v\<rparr>) as_int (prefix @ ''FPSTORE_PORT'')]"

definition fpstore_is_enabled :: "fpstore_config \<Rightarrow> bool" where
  "fpstore_is_enabled c \<longleftrightarrow> fc_host c \<noteq> []"

record redis_config =
  rd_host :: string
  rd_port :: int
  rd_sentinel :: bool
  rd_cluster :: string
  rd_password :: "string option"

definition new_redis_config :: redis_config where
  "new_redis_config = \<lparr>rd_host = ''127.0.0.1'', rd_port = 6379, rd_sentinel = False, rd_cluster = ''acoustid'', rd_password = None\<rparr>"

definition read_redis_section :: "config_env \<Rightarrow> ini \<Rightarrow> string \<Rightarrow> redis_config \<Rightarrow> py_exc + redis_config" where
  "read_redis_section e p section = in_order
     [read_option p section (\<lambda>v c. c\<lparr>rd_host := v\<rparr>) as_str ''host'',
      read_option p section (\<lambda>v c. c\<lparr>rd_port := v\<rparr>) as_int ''port'',
      read_option p section (\<lambda>v c. c\<lparr>rd_sentinel := v\<rparr>) as_boolean ''sentinel'',
      read_option p section (\<lambda>v c. c\<lparr>rd_cluster := v\<rparr>) as_str ''cluster'',
      read_config_secret_str_option e p section (\<lambda>v c. c\<lparr>rd_password := Some v\<rparr>) ''password'']"

definition read_redis_env :: "config_env \<Rightarrow> string \<Rightarrow> redis_config \<Rightarrow> py_exc + redis_config" where
  "read_redis_env e prefix = in_order
     [read_env_item e (\<lambda>v c. c\<lparr>rd_host := v\<rparr>) as_str (prefix @ ''REDIS_HOST''),
      read_env_item e (\<lambda>v c. c\<lparr>rd_port := v\<rparr>) as_int (prefix @ ''REDIS_PORT''),
      read_env_item e (\<lambda>v c. c\<lparr>rd_sentinel := v\<rparr>) as_flag (prefix @ ''SENTINEL''),
      read_env_item e (\<lambda>v c. c\<lparr>rd_cluster := v\<rparr>) as_str (prefix @ ''REDIS_CLUSTER''),
      read_env_item e (\<lambda>v c. c\<lparr>rd_password := Some v\<rparr>) as_str (prefix @ ''REDIS_PASSWORD'')]"

record statsd_config =
  sd_host :: string
  sd_port :: int
  sd_prefix :: string

definition new_statsd_config :: statsd_config where
  "new_statsd_config = \<lparr>sd_host = '''', sd_port = 8125, sd_prefix = ''''\<rparr>"

definition read_statsd_section :: "ini \<Rightarrow> string \<Rightarrow> statsd_config \<Rightarrow> py_exc + statsd_config" where
  "read_statsd_section p section = in_order
     [read_option p section (\<lambda>v c. c\<lparr>sd_host := v\<rparr>) as_str ''host'',
      read_option p section (\<lambda>v c. c\<lparr>sd_port := v\<rparr>) as_int ''port'',
      read_option p section (\<lambda>v c. c\<lparr>sd_prefix := v\<rparr>) as_str ''prefix'']"

definition read_statsd_env :: "config_env \<Rightarrow> string \<Rightarrow> statsd_config \<Rightarrow> py_exc + statsd_config" where
  "read_statsd_env e prefix = in_order
     [read_env_item e (\<lambda>v c. c\<lparr>sd_host := v\<rparr>) as_str (prefix @ ''STATSD_HOST''),
      read_env_item e (\<lambda>v c. c\<lparr>sd_port := v\<rparr>) as_int (prefix @ ''STATSD_PORT''),
      read_env_item e (\<lambda>v c. c\<lparr>sd_prefix := v\<rparr>) as_str (prefix @ ''STATSD_PREFIX'')]"

definition statsd_enabled :: "statsd_config \<Rightarrow> bool" where
  "statsd_enabled c \<longleftrightarrow> sd_host c \<noteq> []"

record gunicorn_config =
  gu_timeout :: int
  gu_workers :: int
  gu_threads :: int
  gu_backlog :: int

definition new_gunicorn_config :: gunicorn_config where
  "new_gunicorn_config = \<lparr>gu_timeout = 90, gu_workers = 1, gu_threads = 1, gu_backlog = 1024\<rparr>"

definition read_gunicorn_section :: "ini \<Rightarrow> string \<Rightarrow> gunicorn_config \<Rightarrow> py_exc + gunicorn_config" where
  "read_gunicorn_section p section = in_order
     [read_option p section (\<lambda>v c. c\<lparr>gu_timeout := v\<rparr>) as_int ''timeout'',
      read_option p section (\<lambda>v c. c\<lparr>gu_workers := v\<rparr>) as_int ''workers'',
      read_option p section (\<lambda>v c. c\<lparr>gu_threads := v\<rparr>) as_int ''threads'',
      read_option p section (\<lambda>v c. c\<lparr>gu_backlog := v\<rparr>) as_int ''backlog'']"

definition read_gunicorn_env :: "config_env \<Rightarrow> string \<Rightarrow> gunicorn_config \<Rightarrow> py_exc + gunicorn_config" where
  "read_gunicorn_env e prefix = in_order
     [read_env_item e (\<lambda>v c. c\<lparr>gu_timeout := v\<rparr>) as_int (prefix @ ''GUNICORN_TIMEOUT''),
      read_env_item e (\<lambda>v c. c\<lparr>gu_workers := v\<rparr>) as_int (prefix @ ''GUNICORN_WORKERS''),
      read_env_item e (\<lambda>v c. c\<lparr>gu_threads := v\<rparr>) as_int (prefix @ ''GUNICORN_THREADS''),
      read_env_item e (\<lambda>v c. c\<lparr>gu_backlog := v\<rparr>) as_int (prefix @ ''GUNICORN_BACKLOG'')]"

record uwsgi_config =
  uw_harakiri :: int
  uw_http_timeout :: int
  uw_http_connect_timeout :: int
  uw_workers :: int
  uw_post_buffering :: int
  uw_buffer_size :: int
  uw_offload_threads :: int

definition new_uwsgi_config :: uwsgi_config where
  "new_uwsgi_config = \<lparr>uw_harakiri = 120, uw_http_timeout = 90, uw_http_connect_timeout = 10, uw_workers = 2, uw_post_buffering = 0, uw_buffer_size = 10240, uw_offload_threads = 1\<rparr>"

definition read_uwsgi_section :: "ini \<Rightarrow> string \<Rightarrow> uwsgi_config \<Rightarrow> py_exc + uwsgi_config" where
  "read_uwsgi_section p section = in_order
     [read_option p section (\<lambda>v c. c\<lparr>uw_harakiri := v\<rparr>) as_int ''harakiri'',
      read_option p section (\<lambda>v c. c\<lparr>uw_http_timeout := v\<rparr>) as_int ''http_timeout'',
      read_option p section (\<lambda>v c. c\<lparr>uw_http_connect_timeout := v\<rparr>) as_int ''http_connect_timeout'',
      read_option p section (\<lambda>v c. c\<lparr>uw_workers := v\<rparr>) as_int ''workers'',
      read_option p section (\<lambda>v c. c\<lparr>uw_post_buffering := v\<rparr>) as_int ''post_buffering'',
      read_option p section (\<lambda>v c. c\<lparr>uw_buffer_size := v\<rparr>) as_int ''buffer_size'',
      read_option p section (\<lambda>v c. c\<lparr>uw_offload_threads := v\<rparr>) as_int ''offload_threads'']"

definition read_uwsgi_env :: "config_env \<Rightarrow> string \<Rightarrow> uwsgi_config \<Rightarrow> py_exc + uwsgi_config" where
  "read_uwsgi_env e prefix = in_order
     [read_env_item e (\<lambda>v c. c\<lparr>uw_harakiri := v\<rparr>) as_int (prefix @ ''UWSGI_HARAKIRI''),
      read_env_item e (\<lambda>v c. c\<lparr>uw_http_timeout := v\<rparr>) as_int (prefix @ ''UWSGI_HTTP_TIMEOUT''),
      read_env_item e (\<lambda>v c. c\<lparr>uw_http_connect_timeout := v\<rparr>) as_int (prefix @ ''UWSGI_CONNECT_TIMEOUT''),
      read_env_item e (\<lambda>v c. c\<lparr>uw_workers := v\<rparr>) as_int (prefix @ ''UWSGI_WORKERS''),
      read_env_item e (\<lambda>v c. c\<lparr>uw_post_buffering := v\<rparr>) as_int (prefix @ ''UWSGI_POST_BUFFERING''),
      read_env_item e (\<lambda>v c. c\<lparr>uw_buffer_size := v\<rparr>) as_int (prefix @ ''UWSGI_BUFFER_SIZE''),
      read_env_item e (\<lambda>v c. c\<lparr>uw_offload_threads := v\<rparr>) as_int (prefix @ ''UWSGI_OFFLOAD_THREADS'')]"

record replication_config =
  re_import_acoustid :: "string option"
  re_import_acoustid_musicbrainz :: "string option"

definition new_replication_config :: replication_config where
  "new_replication_config = \<lparr>re_import_acoustid = None, re_import_acoustid_musicbrainz = None\<rparr>"

definition read_replication_section :: "ini \<Rightarrow> string \<Rightarrow> replication_config \<Rightarrow> py_exc + replication_config" where
  "read_replication_section p section = in_order
     [read_option p section (\<lambda>v c. c\<lparr>re_import_acoustid := Some v\<rparr>) as_str ''import_acoustid'',
      read_option p section (\<lambda>v c. c\<lparr>re_import_acoustid_musicbrainz := Some v\<rparr>) as_str ''import_acoustid_musicbrainz'']"

record cluster_config =
  cc_role :: string
  cc_base_master_url :: "string option"
  cc_secret :: "string option"

definition new_cluster_config :: cluster_config where
  "new_cluster_config = \<lparr>cc_role = ''master'', cc_base_master_url = None, cc_secret = None\<rparr>"

definition read_cluster_section :: "config_env \<Rightarrow> ini \<Rightarrow> string \<Rightarrow> cluster_config \<Rightarrow> py_exc + cluster_config" where
  "read_cluster_section e p section = in_order
     [read_option p section (\<lambda>v c. c\<lparr>cc_role := v\<rparr>) as_str ''role'',
      read_option p section (\<lambda>v c. c\<lparr>cc_base_master_url := Some v\<rparr>) as_str ''base_master_url'',
      read_config_secret_str_option e p section (\<lambda>v c. c\<lparr>cc_secret := Some v\<rparr>) ''secret'']"

definition read_cluster_env :: "config_env \<Rightarrow> string \<Rightarrow> cluster_config \<Rightarrow> py_exc + cluster_config" where
  "read_cluster_env e prefix = in_order
     [read_env_item e (\<lambda>v c. c\<lparr>cc_role := v\<rparr>) as_str (prefix @ ''CLUSTER_ROLE''),
      read_env_item e (\<lambda>v c. c\<lparr>cc_base_master_url := Some v\<rparr>) as_str (prefix @ ''CLUSTER_BASE_MASTER_URL''),
      read_env_item e (\<lambda>v c. c\<lparr>cc_secret := Some v\<rparr>) as_str (prefix @ ''CLUSTER_SECRET'')]"

record sentry_config =
  sn_dsn :: "string option"
  sn_traces_sample_rate :: rat

definition new_sentry_config :: sentry_config where
  "new_sentry_config = \<lparr>sn_dsn = None, sn_traces_sample_rate = 0\<rparr>"

definition read_sentry_section :: "config_env \<Rightarrow> ini \<Rightarrow> string \<Rightarrow> sentry_config \<Rightarrow> py_exc + sentry_config" where
  "read_sentry_section e p section = in_order
     [read_config_secret_str_option e p section (\<lambda>v c. c\<lparr>sn_dsn := Some v\<rparr>) ''dsn'',
      read_option p section (\<lambda>v c. c\<lparr>sn_traces_sample_rate := v\<rparr>) (as_float e) ''traces_sample_rate'']"

definition read_sentry_env :: "config_env \<Rightarrow> string \<Rightarrow> sentry_config \<Rightarrow> py_exc + sentry_config" where
  "read_sentry_env e prefix = in_order
     [read_env_item e (\<lambda>v c. c\<lparr>sn_dsn := Some v\<rparr>) as_str (prefix @ ''SENTRY_DSN''),
      read_env_item e (\<lambda>v c. c\<lparr>sn_traces_sample_rate := v\<rparr>) (as_float e) (prefix @ ''SENTRY_TRACES_SAMPLE_RATE'')]"

record website_config =
  wc_debug :: bool
  wc_secret :: "string option"
  wc_mb_oauth_client_id :: "string option"
  wc_mb_oauth_client_secret :: "string option"
  wc_google_oauth_client_id :: "string option"
  wc_google_oauth_client_secret :: "string option"
  wc_maintenance :: bool
  wc_shutdown_delay :: int
  wc_shutdown_file_path :: string
  wc_search_timeout :: rat
  wc_search_return_metadata :: bool

definition new_website_config :: website_config where
  "new_website_config = \<lparr>wc_debug = False, wc_secret = None, wc_mb_oauth_client_id = None, wc_mb_oauth_client_secret = None, wc_google_oauth_client_id = None, wc_google_oauth_client_secret = None, wc_maintenance = False, wc_shutdown_delay = 0, wc_shutdown_file_path = ''/tmp/acoustid-server-shutdown.txt'', wc_search_timeout = 1, wc_search_return_metadata = True\<rparr>"

definition read_website_section :: "config_env \<Rightarrow> ini \<Rightarrow> string \<Rightarrow> website_config \<Rightarrow> py_exc + website_config" where
  "read_website_section e p section = in_order
     [read_config_secret_str_option e p section (\<lambda>v c. c\<lparr>wc_secret := Some v\<rparr>) ''secret'',
      read_config_secret_str_option e p section (\<lambda>v c. c\<lparr>wc_mb_oauth_client_id := Some v\<rparr>) ''mb_oauth_client_id'',
      read_config_secret_str_option e p section (\<lambda>v c. c\<lparr>wc_mb_oauth_client_secret := Some v\<rparr>) ''mb_oauth_client_secret'',
      read_config_secret_str_option e p section (\<lambda>v c. c\<lparr>wc_google_oauth_client_id := Some v\<rparr>) ''google_oauth_client_id'',
      read_config_secret_str_option e p section (\<lambda>v c. c\<lparr>wc_google_oauth_client_secret := Some v\<rparr>) ''google_oauth_client_secret'',
      read_option p section (\<lambda>v c. c\<lparr>wc_debug := v\<rparr>) as_boolean ''debug'',
      read_option p section (\<lambda>v c. c\<lparr>wc_maintenance := v\<rparr>) as_boolean ''maintenance'',
      read_option p section (\<lambda>v c. c\<lparr>wc_shutdown_delay := v\<rparr>) as_int ''shutdown_delay'',
      read_option p section (\<lambda>v c. c\<lparr>wc_shutdown_file_path := v\<rparr>) as_str ''shutdown_file'',
      read_option p section (\<lambda>v c. c\<lparr>wc_search_timeout := v\<rparr>) (as_float e) ''search_timeout'',
      read_option p section (\<lambda>v c. c\<lparr>wc_search_return_metadata := v\<rparr>) as_boolean ''search_return_metadata'']"

definition read_website_env :: "config_env \<Rightarrow> string \<Rightarrow> website_config \<Rightarrow> py_exc + website_config" where
  "read_website_env e prefix = in_order
     [read_env_item e (\<lambda>v c. c\<lparr>wc_debug := v\<rparr>) as_flag (prefix @ ''DEBUG''),
      read_env_item e (\<lambda>v c. c\<lparr>wc_maintenance := v\<rparr>) as_flag (prefix @ ''MAINTENANCE''),
      read_env_item e (\<lambda>v c. c\<lparr>wc_secret := Some v\<rparr>) as_str (prefix @ ''SECRET''),
      read_env_item e (\<lambda>v c. c\<lparr>wc_mb_oauth_client_id := Some v\<rparr>) as_str (prefix @ ''MB_OAUTH_CLIENT_ID''),
      read_env_item e (\<lambda>v c. c\<lparr>wc_mb_oauth_client_secret := Some v\<rparr>) as_str (prefix @ ''MB_OAUTH_CLIENT_SECRET''),
      read_env_item e (\<lambda>v c. c\<lparr>wc_google_oauth_client_id := Some v\<rparr>) as_str (prefix @ ''GOOGLE_OAUTH_CLIENT_ID''),
      read_env_item e (\<lambda>v c. c\<lparr>wc_google_oauth_client_secret := Some v\<rparr>) as_str (prefix @ ''GOOGLE_OAUTH_CLIENT_SECRET''),
      read_env_item e (\<lambda>v c. c\<lparr>wc_shutdown_delay := v\<rparr>) as_int (prefix @ ''SHUTDOWN_DELAY''),
      read_env_item e (\<lambda>v c. c\<lparr>wc_shutdown_file_path := v\<rparr>) as_str (prefix @ ''SHUTDOWN_FILE'')]"

subsection \<open>Logging and rate limits\<close>

definition get_logging_level_names :: "(string, int) dict" where
  "get_logging_level_names =
     [(''CRITICAL'', 50), (''ERROR'', 40), (''WARNING'', 30), (''INFO'', 20), (''DEBUG'', 10), (''NOTSET'', 0)]"

type_synonym logging_config = "(string, int) dict"

definition set_level :: "string \<Rightarrow> string \<Rightarrow> logging_config \<Rightarrow> py_exc + logging_config" where
  "set_level logger_name level c = and_then (item_of get_logging_level_names level) (\<lambda>value. Inr (dict_set c logger_name value))"

definition logging_option :: "ini \<Rightarrow> string \<Rightarrow> string \<Rightarrow> logging_config \<Rightarrow> py_exc + logging_config" where
  "logging_option p section name c =
     (let level = (case option_of p section name of None \<Rightarrow> [] | Some v \<Rightarrow> v)
      in if name = ''level'' then set_level [] level c
         else if starts_with ''level.'' name then set_level (drop 6 name) level c
         else Inr c)"

definition read_logging_section :: "ini \<Rightarrow> string \<Rightarrow> logging_config \<Rightarrow> py_exc + logging_config" where
  "read_logging_section p section = in_order (map (logging_option p section) (options_of p section))"

text \<open>\<open>str.replace\<close>, from the left, without overlaps; the texts replaced are not empty.\<close>

function str_replace :: "string \<Rightarrow> string \<Rightarrow> string \<Rightarrow> string" where
  "str_replace old new [] = []"
| "str_replace old new (c # s) =
     (if old \<noteq> [] \<and> starts_with old (c # s) then new @ str_replace old new (drop (length old - 1) s)
      else c # str_replace old new s)"
  by pat_completeness auto
termination by (relation "measure (\<lambda>(old, new, s). length s)") auto

text \<open>
  The loop over the variables carries \<open>logger_name\<close> from one to the next: a name that begins like the right ones and goes on
  differently takes the last one's, or fails when there is none.
\<close>

fun logging_env_items :: "string \<Rightarrow> (string, string) dict \<Rightarrow> string option \<Rightarrow> logging_config \<Rightarrow> py_exc + logging_config" where
  "logging_env_items level_field_prefix [] logger_name c = Inr c"
| "logging_env_items level_field_prefix ((name, value) # items) logger_name c =
     (if starts_with level_field_prefix name then
        (let logger_name =
               (if name = level_field_prefix then Some []
                else if starts_with (level_field_prefix @ ''_'') name
                then Some (str_replace ''__'' ''.'' (py_lower (str_replace (level_field_prefix @ ''_'') [] name)))
                else logger_name)
         in case logger_name of
              None \<Rightarrow> Inl (if dict_get get_logging_level_names value = None then KeyError else UnboundLocalError)
            | Some n \<Rightarrow> and_then (set_level n value c) (logging_env_items level_field_prefix items logger_name))
      else logging_env_items level_field_prefix items logger_name c)"

definition read_logging_env :: "config_env \<Rightarrow> string \<Rightarrow> logging_config \<Rightarrow> py_exc + logging_config" where
  "read_logging_env e prefix = logging_env_items (prefix @ ''LOGGING_LEVEL'') (ce_environ e) None"

record rate_limiter_config =
  rl_global :: rat
  rl_ips :: "(string, rat) dict"
  rl_applications :: "(int, rat) dict"

definition new_rate_limiter_config :: rate_limiter_config where
  "new_rate_limiter_config = \<lparr>rl_global = DEFAULT_GLOBAL_RATE_LIMIT, rl_ips = [], rl_applications = []\<rparr>"

text \<open>The value is read before the application's number.\<close>

definition rate_limit_option :: "config_env \<Rightarrow> ini \<Rightarrow> string \<Rightarrow> string \<Rightarrow> rate_limiter_config \<Rightarrow> py_exc + rate_limiter_config" where
  "rate_limit_option e p section name c =
     (let value = as_float e (case option_of p section name of None \<Rightarrow> [] | Some v \<Rightarrow> v)
      in if name = ''global'' then and_then value (\<lambda>x. Inr (c\<lparr>rl_global := x\<rparr>))
         else if starts_with ''ip.'' name then and_then value (\<lambda>x. Inr (c\<lparr>rl_ips := dict_set (rl_ips c) (drop 3 name) x\<rparr>))
         else if starts_with ''application.'' name then
           and_then value (\<lambda>x. and_then (as_int (drop 12 name)) (\<lambda>i. Inr (c\<lparr>rl_applications := dict_set (rl_applications c) i x\<rparr>)))
         else Inr c)"

definition read_rate_limiter_section :: "config_env \<Rightarrow> ini \<Rightarrow> string \<Rightarrow> rate_limiter_config \<Rightarrow> py_exc + rate_limiter_config" where
  "read_rate_limiter_section e p section = in_order (map (rate_limit_option e p section) (options_of p section))"

subsection \<open>The whole configuration\<close>

record config =
  cf_databases :: databases_config
  cf_logging :: logging_config
  cf_website :: website_config
  cf_index :: index_config
  cf_fpstore :: fpstore_config
  cf_redis :: redis_config
  cf_replication :: replication_config
  cf_cluster :: cluster_config
  cf_rate_limiter :: rate_limiter_config
  cf_gunicorn :: gunicorn_config
  cf_statsd :: statsd_config
  cf_sentry :: sentry_config

definition new_config :: config where
  "new_config = \<lparr>cf_databases = new_databases_config, cf_logging = [], cf_website = new_website_config, cf_index = new_index_config,
     cf_fpstore = new_fpstore_config, cf_redis = new_redis_config, cf_replication = new_replication_config,
     cf_cluster = new_cluster_config, cf_rate_limiter = new_rate_limiter_config, cf_gunicorn = new_gunicorn_config,
     cf_statsd = new_statsd_config, cf_sentry = new_sentry_config\<rparr>"

text \<open>Reading one part of the configuration.\<close>

definition part :: "(config \<Rightarrow> 'a) \<Rightarrow> ('a \<Rightarrow> config \<Rightarrow> config) \<Rightarrow> ('a \<Rightarrow> py_exc + 'a) \<Rightarrow> config \<Rightarrow> py_exc + config" where
  "part get put f c = and_then (f (get c)) (\<lambda>x. Inr (put x c))"

definition read_parser :: "config_env \<Rightarrow> ini \<Rightarrow> config \<Rightarrow> py_exc + config" where
  "read_parser e p = in_order
     [part cf_databases (\<lambda>x c. c\<lparr>cf_databases := x\<rparr>) (read_if_section (read_databases_section e) p ''database''),
      part cf_logging (\<lambda>x c. c\<lparr>cf_logging := x\<rparr>) (read_if_section read_logging_section p ''logging''),
      part cf_website (\<lambda>x c. c\<lparr>cf_website := x\<rparr>) (read_if_section (read_website_section e) p ''website''),
      part cf_index (\<lambda>x c. c\<lparr>cf_index := x\<rparr>) (read_if_section read_index_section p ''index''),
      part cf_fpstore (\<lambda>x c. c\<lparr>cf_fpstore := x\<rparr>) (read_if_section read_fpstore_section p ''fpstore''),
      part cf_redis (\<lambda>x c. c\<lparr>cf_redis := x\<rparr>) (read_if_section (read_redis_section e) p ''redis''),
      part cf_replication (\<lambda>x c. c\<lparr>cf_replication := x\<rparr>) (read_if_section read_replication_section p ''replication''),
      part cf_cluster (\<lambda>x c. c\<lparr>cf_cluster := x\<rparr>) (read_if_section (read_cluster_section e) p ''cluster''),
      part cf_rate_limiter (\<lambda>x c. c\<lparr>cf_rate_limiter := x\<rparr>) (read_if_section (read_rate_limiter_section e) p ''rate_limiter''),
      part cf_gunicorn (\<lambda>x c. c\<lparr>cf_gunicorn := x\<rparr>) (read_if_section read_gunicorn_section p ''gunicorn''),
      part cf_statsd (\<lambda>x c. c\<lparr>cf_statsd := x\<rparr>) (read_if_section read_statsd_section p ''statsd''),
      part cf_sentry (\<lambda>x c. c\<lparr>cf_sentry := x\<rparr>) (read_if_section (read_sentry_section e) p ''sentry'')]"

text \<open>\<open>RawConfigParser.read\<close> ignores a file it cannot find.\<close>

definition parse_file :: "config_env \<Rightarrow> string \<Rightarrow> py_exc + ini" where
  "parse_file e path = (case ce_file e path of None \<Rightarrow> Inr \<lparr>ini_defaults = [], ini_sections = []\<rparr> | Some text \<Rightarrow> ce_parse_ini e text)"

definition read_config :: "config_env \<Rightarrow> string \<Rightarrow> config \<Rightarrow> py_exc + config" where
  "read_config e path c = and_then (parse_file e path) (\<lambda>p. read_parser e p c)"

text \<open>The replication and the rate limiter take nothing from the environment.\<close>

definition read_config_env :: "config_env \<Rightarrow> bool \<Rightarrow> config \<Rightarrow> py_exc + config" where
  "read_config_env e tests =
     (let prefix = (if tests then ''ACOUSTID_TEST_'' else ''ACOUSTID_'')
      in in_order
        [part cf_databases (\<lambda>x c. c\<lparr>cf_databases := x\<rparr>) (read_databases_env e prefix),
         part cf_logging (\<lambda>x c. c\<lparr>cf_logging := x\<rparr>) (read_logging_env e prefix),
         part cf_website (\<lambda>x c. c\<lparr>cf_website := x\<rparr>) (read_website_env e prefix),
         part cf_index (\<lambda>x c. c\<lparr>cf_index := x\<rparr>) (read_index_env e prefix),
         part cf_fpstore (\<lambda>x c. c\<lparr>cf_fpstore := x\<rparr>) (read_fpstore_env e prefix),
         part cf_redis (\<lambda>x c. c\<lparr>cf_redis := x\<rparr>) (read_redis_env e prefix),
         part cf_cluster (\<lambda>x c. c\<lparr>cf_cluster := x\<rparr>) (read_cluster_env e prefix),
         part cf_gunicorn (\<lambda>x c. c\<lparr>cf_gunicorn := x\<rparr>) (read_gunicorn_env e prefix),
         part cf_statsd (\<lambda>x c. c\<lparr>cf_statsd := x\<rparr>) (read_statsd_env e prefix),
         part cf_sentry (\<lambda>x c. c\<lparr>cf_sentry := x\<rparr>) (read_sentry_env e prefix)])"

definition load :: "config_env \<Rightarrow> string option \<Rightarrow> bool \<Rightarrow> py_exc + config" where
  "load e path tests =
     (let path = (case path of None \<Rightarrow> dict_get (ce_environ e) ''ACOUSTID_CONFIG'' | Some p \<Rightarrow> Some p)
      in and_then (case path of None \<Rightarrow> Inr new_config | Some p \<Rightarrow> read_config e p new_config) (read_config_env e tests))"

subsection \<open>Engines\<close>

text \<open>What \<open>create_engines\<close> has made for the databases handled so far.\<close>

definition engines_ok ::
    "string option \<Rightarrow> (string, engine_arg) dict \<Rightarrow> (string, database_config) dict \<Rightarrow> (string, engine) dict \<Rightarrow> bool" where
  "engines_ok driver kwargs done engines \<longleftrightarrow>
     (\<forall>name. dict_get engines name = None \<longleftrightarrow> dict_get done name = None)
     \<and> (\<forall>name c en. dict_get done name = Some c \<longrightarrow> dict_get engines name = Some en \<longrightarrow>
          (\<exists>maker. dict_get done maker = Some c \<and> en = create_engine driver kwargs maker c))
     \<and> (\<forall>n m c en en'. dict_get done n = Some c \<longrightarrow> dict_get done m = Some c \<longrightarrow>
          dict_get engines n = Some en \<longrightarrow> dict_get engines m = Some en' \<longrightarrow> en = en')"

lemma dict_get_snoc: "dict_get (d @ [(name, c)]) k = (case dict_get d k of None \<Rightarrow> if k = name then Some c else None | Some v \<Rightarrow> Some v)"
  by (auto simp: dict_get_def map_add_def split: option.splits)

lemma engine_for_step:
  assumes ok: "engines_ok driver kwargs done engines" and new: "dict_get done name = None"
    and known: "\<And>k x. dict_get done k = Some x \<Longrightarrow> dict_get databases k = Some x" and distinct: "distinct (dict_keys databases)"
  shows "engines_ok driver kwargs (done @ [(name, c)]) (engine_for driver kwargs databases (name, c) engines)"
proof -
  let ?found = "sharing databases engines c"
  define en where "en = (case first_of ?found of Some engine \<Rightarrow> engine | None \<Rightarrow> create_engine driver kwargs name c)"
  have step: "engine_for driver kwargs databases (name, c) engines = dict_set engines name en"
    by (simp add: engine_for_def en_def)
  have keys: "dict_get engines k = None \<longleftrightarrow> dict_get done k = None" for k using ok by (simp add: engines_ok_def)
  have found: "x \<in> set ?found \<longleftrightarrow> (\<exists>k. dict_get done k = Some c \<and> dict_get engines k = Some x)" for x
  proof
    assume "x \<in> set ?found"
    then obtain k where k: "(k, c) \<in> set databases" "dict_get engines k = Some x" by (auto simp: sharing_def split: option.splits)
    with keys [of k] obtain c' where "dict_get done k = Some c'" by (cases "dict_get done k") auto
    with known k(1) distinct have "dict_get done k = Some c" by (auto simp: in_dict_iff)
    with k show "\<exists>k. dict_get done k = Some c \<and> dict_get engines k = Some x" by blast
  next
    assume "\<exists>k. dict_get done k = Some c \<and> dict_get engines k = Some x"
    then obtain k where "dict_get done k = Some c" "dict_get engines k = Some x" by blast
    with known distinct show "x \<in> set ?found" by (force simp: sharing_def in_dict_iff [symmetric])
  qed
  have same: "en = en'" if "dict_get done k = Some c" "dict_get engines k = Some en'" for k en'
  proof -
    from that found have "?found \<noteq> []" by fastforce
    then obtain x where x: "first_of ?found = Some x" by (cases ?found) auto
    with found obtain k' where "dict_get done k' = Some c" "dict_get engines k' = Some x" by (blast dest: first_of_SomeD)
    with that ok have "x = en'" unfolding engines_ok_def by metis
    with x show ?thesis by (simp add: en_def)
  qed
  have made: "\<exists>maker. dict_get (done @ [(name, c)]) maker = Some c \<and> en = create_engine driver kwargs maker c"
  proof (cases "first_of ?found")
    case None
    with new show ?thesis by (auto simp: en_def dict_get_snoc)
  next
    case (Some x)
    with found obtain k where "dict_get done k = Some c" "dict_get engines k = Some x" by (blast dest: first_of_SomeD)
    with ok obtain maker where "dict_get done maker = Some c" "x = create_engine driver kwargs maker c" unfolding engines_ok_def by metis
    moreover have "en = x" by (simp only: en_def Some option.case)
    ultimately show ?thesis by (intro exI [of _ maker] conjI) (simp_all add: dict_get_snoc)
  qed
  have old: "\<exists>maker. dict_get (done @ [(name, c)]) maker = Some x \<and> en' = create_engine driver kwargs maker x"
    if "dict_get done k = Some x" "dict_get engines k = Some en'" for k x en'
  proof -
    from that ok obtain maker where "dict_get done maker = Some x" "en' = create_engine driver kwargs maker x" unfolding engines_ok_def by metis
    then show ?thesis by (intro exI [of _ maker] conjI) (simp_all add: dict_get_snoc)
  qed
  have pairs: "en1 = en2" if "dict_get done n = Some x" "dict_get done m = Some x" "dict_get engines n = Some en1" "dict_get engines m = Some en2" for n m x en1 en2
    using ok that unfolding engines_ok_def by metis
  have look: "x = c \<and> en' = en \<or> dict_get done k = Some x \<and> dict_get engines k = Some en'"
    if "dict_get (done @ [(name, c)]) k = Some x" "dict_get (dict_set engines name en) k = Some en'" for k x en'
    using that new by (cases "k = name") (simp_all add: dict_get_snoc split: option.splits)
  show ?thesis
    unfolding step engines_ok_def
  proof (intro conjI allI impI)
    fix k show "(dict_get (dict_set engines name en) k = None) = (dict_get (done @ [(name, c)]) k = None)"
      using keys [of k] by (auto simp: dict_get_snoc split: option.splits)
  next
    fix k x en' assume "dict_get (done @ [(name, c)]) k = Some x" "dict_get (dict_set engines name en) k = Some en'"
    from look [OF this] show "\<exists>maker. dict_get (done @ [(name, c)]) maker = Some x \<and> en' = create_engine driver kwargs maker x"
    proof
      assume "x = c \<and> en' = en"
      with made show ?thesis by blast
    qed (blast intro: old)
  next
    fix n m x en1 en2
    assume d: "dict_get (done @ [(name, c)]) n = Some x" "dict_get (done @ [(name, c)]) m = Some x"
      and e: "dict_get (dict_set engines name en) n = Some en1" "dict_get (dict_set engines name en) m = Some en2"
    from look [OF d(1) e(1)] look [OF d(2) e(2)] show "en1 = en2"
      by (elim disjE conjE) (blast dest: same pairs)+
  qed
qed

lemma create_engines_ok:
  assumes "distinct (dict_keys (ds_databases ds))"
  shows "engines_ok driver kwargs (ds_databases ds) (create_engines driver kwargs ds)"
proof -
  have "ds_databases ds = xs @ ys \<Longrightarrow> engines_ok driver kwargs xs (fold (engine_for driver kwargs (ds_databases ds)) xs [])" for xs ys
  proof (induction xs arbitrary: ys rule: rev_induct)
    case Nil
    then show ?case by (simp add: engines_ok_def)
  next
    case (snoc nc xs)
    obtain name c where nc: "nc = (name, c)" by fastforce
    from snoc.prems have split: "ds_databases ds = xs @ (name, c) # ys" by (simp add: nc)
    with assms have "name \<notin> set (dict_keys xs)" by (auto simp: dict_keys_def)
    then have "dict_get xs name = None" by (simp add: dict_get_None_iff)
    moreover have "dict_get (ds_databases ds) k = Some x" if "dict_get xs k = Some x" for k x
    proof -
      from that have "(k, x) \<in> set (ds_databases ds)" by (auto simp: split dict_get_def dest: map_of_SomeD)
      with assms show ?thesis by (simp add: in_dict_iff)
    qed
    ultimately show ?case
      using engine_for_step [OF snoc.IH [of "(name, c) # ys"]] split assms by (simp add: nc)
  qed
  from this [of "ds_databases ds" "[]"] show ?thesis by (simp add: create_engines_def)
qed

text \<open>C38: Every configured database gets an engine with its own URL, and two databases share one engine exactly when they are
  configured the same.\<close>

theorem engines_shared_iff_equal:
  assumes "distinct (dict_keys (ds_databases ds))"
    and "dict_get (ds_databases ds) n = Some c" and "dict_get (ds_databases ds) m = Some c'"
  shows "\<exists>en en'. dict_get (create_engines driver kwargs ds) n = Some en \<and> dict_get (create_engines driver kwargs ds) m = Some en'
     \<and> en_url en = create_url driver c \<and> (en = en' \<longleftrightarrow> c = c')"
proof -
  let ?es = "create_engines driver kwargs ds"
  note ok = create_engines_ok [OF assms(1), of driver kwargs]
  have keys: "dict_get ?es k = None \<longleftrightarrow> dict_get (ds_databases ds) k = None" for k using ok by (simp add: engines_ok_def)
  have made: "\<exists>maker. dict_get (ds_databases ds) maker = Some x \<and> e = create_engine driver kwargs maker x"
    if "dict_get (ds_databases ds) k = Some x" "dict_get ?es k = Some e" for k x e
    using ok that unfolding engines_ok_def by blast
  have same: "e = e'" if "dict_get (ds_databases ds) k = Some x" "dict_get (ds_databases ds) k' = Some x"
      "dict_get ?es k = Some e" "dict_get ?es k' = Some e'" for k k' x e e'
    using ok that unfolding engines_ok_def by blast
  obtain en where en: "dict_get ?es n = Some en" using keys [of n] assms(2) by auto
  obtain en' where en': "dict_get ?es m = Some en'" using keys [of m] assms(3) by auto
  from made [OF assms(2) en] obtain k where k: "dict_get (ds_databases ds) k = Some c" "en = create_engine driver kwargs k c" by blast
  from made [OF assms(3) en'] obtain k' where k': "dict_get (ds_databases ds) k' = Some c'" "en' = create_engine driver kwargs k' c'" by blast
  have maker: "en_made_for en = k" "en_made_for en' = k'" by (simp_all only: k(2) k'(2) create_engine_def engine.simps)
  have "c = c'" if "en = en'"
  proof -
    from that maker have "k = k'" by simp
    with k(1) k'(1) show ?thesis by simp
  qed
  moreover have "en = en'" if "c = c'" by (rule same [OF assms(2) assms(3) [folded that] en en'])
  moreover have "en_url en = create_url driver c" by (simp add: k create_engine_def)
  ultimately show ?thesis using en en' by blast
qed

theorem engines_shared_iff_equal_witness:
  "\<exists>en. dict_get (create_engines None [] new_databases_config) ''app'' = Some en
     \<and> dict_get (create_engines None [] new_databases_config) ''app:ro'' = Some en"
proof -
  have "distinct (dict_keys (ds_databases new_databases_config))" by code_simp
  moreover have "dict_get (ds_databases new_databases_config) ''app'' = Some new_database_config" by code_simp
  moreover have "dict_get (ds_databases new_databases_config) ''app:ro'' = Some new_database_config" by code_simp
  ultimately show ?thesis by (fastforce dest: engines_shared_iff_equal)
qed

subsection \<open>Precedence\<close>

text \<open>A secret as the file gives it, and as the whole configuration does.\<close>

definition secret_in_file :: "config_env \<Rightarrow> ini \<Rightarrow> string \<Rightarrow> string \<Rightarrow> string option" where
  "secret_in_file e p section name =
     (if \<not> has_section p section then None
      else case option_of p section name of
             Some v \<Rightarrow> Some v
           | None \<Rightarrow> (case option_of p section (name @ ''_file'') of None \<Rightarrow> None | Some path \<Rightarrow> map_option py_strip (ce_file e path)))"

definition secret_in_env :: "config_env \<Rightarrow> string \<Rightarrow> string option" where
  "secret_in_env e name =
     (case dict_get (ce_environ e) (name @ ''_FILE'') of
        Some path \<Rightarrow> map_option py_strip (ce_file e path)
      | None \<Rightarrow> dict_get (ce_environ e) name)"

definition config_path :: "config_env \<Rightarrow> string option \<Rightarrow> string option" where
  "config_path e path = (case path of None \<Rightarrow> dict_get (ce_environ e) ''ACOUSTID_CONFIG'' | Some p \<Rightarrow> Some p)"

lemma part_Inr: "part get put f c = Inr c' \<longleftrightarrow> (\<exists>x. f (get c) = Inr x \<and> c' = put x c)"
  by (auto simp: part_def and_then_def split: sum.splits)

lemma in_order_Inr: "in_order (f # fs) c = Inr c' \<longleftrightarrow> (\<exists>x. f c = Inr x \<and> in_order fs x = Inr c')"
  by (auto simp: and_then_def split: sum.splits)

lemma read_parser_cluster:
  "read_parser e p c = Inr c' \<Longrightarrow> read_if_section (read_cluster_section e) p ''cluster'' (cf_cluster c) = Inr (cf_cluster c')"
  by (auto simp: read_parser_def in_order_Inr part_Inr simp del: in_order.simps(2))

lemma read_config_env_cluster:
  "read_config_env e tests c = Inr c' \<Longrightarrow>
     read_cluster_env e (if tests then ''ACOUSTID_TEST_'' else ''ACOUSTID_'') (cf_cluster c) = Inr (cf_cluster c')"
  by (auto simp: read_config_env_def Let_def in_order_Inr part_Inr simp del: in_order.simps(2))

text \<open>What an item does to the attribute it is for, and to any other.\<close>

lemma secret_option_sets:
  "read_config_secret_str_option e p section set_attr name c = Inr c' \<Longrightarrow> has_section p section \<Longrightarrow>
     c' = (case secret_in_file e p section name of None \<Rightarrow> c | Some v \<Rightarrow> set_attr v c)"
  by (auto simp: read_config_secret_str_option_def secret_in_file_def open_and_strip_def and_then_def split: option.splits)

lemma env_item_sets:
  "read_env_item e set_attr as_str name c = Inr c' \<Longrightarrow> c' = (case secret_in_env e name of None \<Rightarrow> c | Some v \<Rightarrow> set_attr v c)"
  by (auto simp: read_env_item_def secret_in_env_def open_and_strip_def and_then_def set_value_def as_str_def split: option.splits)

lemma option_keeps:
  "read_option p section set_attr conv name c = Inr c' \<Longrightarrow> (\<And>v c. get (set_attr v c) = get c) \<Longrightarrow> get c' = get c"
  by (auto simp: read_option_def set_value_def and_then_def split: option.splits sum.splits)

lemma secret_option_keeps:
  "read_config_secret_str_option e p section set_attr name c = Inr c' \<Longrightarrow> (\<And>v c. get (set_attr v c) = get c) \<Longrightarrow> get c' = get c"
  by (auto simp: read_config_secret_str_option_def open_and_strip_def and_then_def split: option.splits sum.splits)

lemma env_item_keeps:
  "read_env_item e set_attr conv name c = Inr c' \<Longrightarrow> (\<And>v c. get (set_attr v c) = get c) \<Longrightarrow> get c' = get c"
  by (auto simp: read_env_item_def set_value_def open_and_strip_def and_then_def split: option.splits sum.splits)

lemma read_cluster_section_secret:
  assumes "read_if_section (read_cluster_section e) p ''cluster'' c = Inr c'"
  shows "cc_secret c' = (case secret_in_file e p ''cluster'' ''secret'' of None \<Rightarrow> cc_secret c | Some v \<Rightarrow> Some v)"
proof (cases "has_section p ''cluster''")
  case False
  with assms show ?thesis by (simp add: read_if_section_def secret_in_file_def)
next
  case True
  with assms have "read_cluster_section e p ''cluster'' c = Inr c'" by (simp add: read_if_section_def)
  then obtain c1 c2 where "read_option p ''cluster'' (\<lambda>v c. c\<lparr>cc_role := v\<rparr>) as_str ''role'' c = Inr c1"
      and "read_option p ''cluster'' (\<lambda>v c. c\<lparr>cc_base_master_url := Some v\<rparr>) as_str ''base_master_url'' c1 = Inr c2"
      and s: "read_config_secret_str_option e p ''cluster'' (\<lambda>v c. c\<lparr>cc_secret := Some v\<rparr>) ''secret'' c2 = Inr c'"
    by (auto simp: read_cluster_section_def in_order_Inr simp del: in_order.simps(2))
  then have "cc_secret c1 = cc_secret c" "cc_secret c2 = cc_secret c1" by (auto intro: option_keeps)
  with secret_option_sets [OF s True] show ?thesis by (simp split: option.splits)
qed

lemma read_cluster_env_secret:
  assumes "read_cluster_env e prefix c = Inr c'"
  shows "cc_secret c' = (case secret_in_env e (prefix @ ''CLUSTER_SECRET'') of None \<Rightarrow> cc_secret c | Some v \<Rightarrow> Some v)"
proof -
  from assms obtain c1 c2 where "read_env_item e (\<lambda>v c. c\<lparr>cc_role := v\<rparr>) as_str (prefix @ ''CLUSTER_ROLE'') c = Inr c1"
      and "read_env_item e (\<lambda>v c. c\<lparr>cc_base_master_url := Some v\<rparr>) as_str (prefix @ ''CLUSTER_BASE_MASTER_URL'') c1 = Inr c2"
      and s: "read_env_item e (\<lambda>v c. c\<lparr>cc_secret := Some v\<rparr>) as_str (prefix @ ''CLUSTER_SECRET'') c2 = Inr c'"
    by (auto simp: read_cluster_env_def in_order_Inr simp del: in_order.simps(2))
  then have "cc_secret c1 = cc_secret c" "cc_secret c2 = cc_secret c1" by (auto intro: env_item_keeps)
  with env_item_sets [OF s] show ?thesis by (simp split: option.splits)
qed

text \<open>A configuration that loads has the secret of the cluster that was given: the environment's before the file's, a value or
  the file it names (stripped), and none only if none was given. So a misspelt path or an empty section never silently
  replaces a secret, which guards the internal API.\<close>

lemma cluster_secret_precedence:
  assumes "load e path tests = Inr c"
  shows "cc_secret (cf_cluster c) =
     (case secret_in_env e ((if tests then ''ACOUSTID_TEST_'' else ''ACOUSTID_'') @ ''CLUSTER_SECRET'') of
        Some v \<Rightarrow> Some v
      | None \<Rightarrow> (case config_path e path of
                   None \<Rightarrow> None
                 | Some conf \<Rightarrow> (case parse_file e conf of Inl _ \<Rightarrow> None | Inr p \<Rightarrow> secret_in_file e p ''cluster'' ''secret'')))"
proof -
  have new: "cc_secret (cf_cluster new_config) = None" by (simp add: new_config_def new_cluster_config_def)
  from assms obtain c1 where c1: "(case config_path e path of None \<Rightarrow> Inr new_config | Some p \<Rightarrow> read_config e p new_config) = Inr c1"
      and env: "read_config_env e tests c1 = Inr c"
    by (auto simp: load_def Let_def config_path_def and_then_def split: sum.splits)
  have "cc_secret (cf_cluster c1) = (case config_path e path of None \<Rightarrow> None
      | Some conf \<Rightarrow> (case parse_file e conf of Inl _ \<Rightarrow> None | Inr p \<Rightarrow> secret_in_file e p ''cluster'' ''secret''))"
  proof (cases "config_path e path")
    case None
    with c1 new show ?thesis by simp
  next
    case (Some conf)
    with c1 obtain p where p: "parse_file e conf = Inr p" "read_parser e p new_config = Inr c1"
      by (auto simp: read_config_def and_then_def split: sum.splits)
    from read_cluster_section_secret [OF read_parser_cluster [OF p(2)]] new Some p(1) show ?thesis
      by (simp split: option.splits)
  qed
  with read_cluster_env_secret [OF read_config_env_cluster [OF env]] show ?thesis by (simp split: option.splits)
qed

definition sample_config_env :: config_env where
  "sample_config_env = \<lparr>ce_environ = [(''ACOUSTID_CLUSTER_SECRET_FILE'', ''/run/secret'')],
     ce_file = (\<lambda>path. if path = ''/run/secret'' then Some ('' hush '') else None),
     ce_parse_ini = (\<lambda>_. Inl ConfigParserError), ce_float = (\<lambda>_. None)\<rparr>"

lemma env_names:
  "env_name ''app'' = ''APP''" "env_name ''app:ro'' = ''APP_RO''" "env_name ''fingerprint'' = ''FINGERPRINT''"
  "env_name ''fingerprint:ro'' = ''FINGERPRINT_RO''" "env_name ''ingest'' = ''INGEST''" "env_name ''ingest:ro'' = ''INGEST_RO''"
  "env_name ''musicbrainz'' = ''MUSICBRAINZ''" "env_name ''musicbrainz:ro'' = ''MUSICBRAINZ_RO''"
  by code_simp+

lemmas read_env_defs =
  and_then_def read_env_item_def sample_config_env_def dict_get_def set_value_def open_and_strip_def as_str_def part_def
  read_databases_env_def read_database_env_def new_databases_config_def database_names_def env_names
  read_logging_env_def starts_with_def read_website_env_def read_index_env_def read_fpstore_env_def read_redis_env_def
  read_cluster_env_def read_gunicorn_env_def read_statsd_env_def read_sentry_env_def

lemma sample_config_loads: "\<exists>c. load sample_config_env None False = Inr c"
  by (simp add: load_def read_config_env_def new_config_def read_env_defs)

subsection \<open>Where the code falls short\<close>

text \<open>A variable like \<open>ACOUSTID_LOGGING_LEVELS\<close> stops the server.\<close>

lemma logging_level_name_unbound:
  "read_logging_env (sample_config_env\<lparr>ce_environ := [(''ACOUSTID_LOGGING_LEVELS'', ''INFO'')]\<rparr>) ''ACOUSTID_'' [] = Inl UnboundLocalError"
  by code_simp

text \<open>What turns a flag on in the file does not in the environment, and there nothing is refused.\<close>

lemma flags_differ: "as_boolean ''yes'' = Inr True \<and> as_flag ''yes'' = Inr False \<and> as_flag ''ture'' = Inr False \<and> as_boolean ''ture'' = Inl ValueError"
  by (simp add: as_boolean_def as_flag_def str_to_bool_def py_lower_def lower_char_def)

text \<open>A read-only database takes the main database's section of the file, but not its environment variables.\<close>

lemma read_only_env:
  "\<exists>ds. read_databases_env (sample_config_env\<lparr>ce_environ := [(''ACOUSTID_DATABASE_APP_HOST'', ''db'')]\<rparr>) ''ACOUSTID_'' new_databases_config = Inr ds
     \<and> map_option dc_host (dict_get (ds_databases ds) ''app'') = Some ''db''
     \<and> map_option dc_host (dict_get (ds_databases ds) ''app:ro'') = Some ''localhost''"
  by (simp add: read_env_defs new_database_config_def)

text \<open>The sentinel switch of Redis is read from \<open>ACOUSTID_SENTINEL\<close>; \<open>ACOUSTID_REDIS_SENTINEL\<close> is ignored.\<close>

lemma redis_sentinel_ignored:
  "read_redis_env (sample_config_env\<lparr>ce_environ := [(''ACOUSTID_REDIS_SENTINEL'', ''1'')]\<rparr>) ''ACOUSTID_'' new_redis_config = Inr new_redis_config"
  by (simp add: read_env_defs new_redis_config_def)

end
