(* ===== verification/Updater_Publisher.thy ===== *)
theory Updater_Publisher
  imports Fp_Codec Json "HOL-Library.Sublist"
begin

text \<open>
  The publisher of fingerprint changes: \<^verbatim>\<open>future/fpindex/updater/publisher.py\<close> and the messages of
  \<^verbatim>\<open>updater/queue.py\<close>. PostgreSQL hands over the committed transactions of a replication slot as
  \<^verbatim>\<open>wal2json\<close> rows; each change is given to a receiver, and the slot moves on only when a whole batch has been received. The slot is
  the list of its transactions, as \<^verbatim>\<open>pg_logical_slot_peek_changes\<close> and \<^verbatim>\<open>pg_replication_slot_advance\<close> are
  documented: whole transactions in commit order, the limit on rows checked after each of them. \<open>update_receiver\<close> is the contract of
  \<open>FingerprintUpdateReceiver\<close>; what the loop promises is proved from it once, for the receiver that logs and the one that
  publishes to NATS.
\<close>

subsection \<open>The rows of wal2json and the changes they stand for\<close>

definition SUBJECT_NAME :: string where "SUBJECT_NAME = ''fpindex.changes''"
definition REPL_BATCH_SIZE :: nat where "REPL_BATCH_SIZE = 1000"
definition REPL_MIN_DELAY :: rat where "REPL_MIN_DELAY = 5 / 100"
definition REPL_MAX_DELAY :: rat where "REPL_MAX_DELAY = 1"

record wal_row =
  wr_lsn :: int
  wr_xid :: int
  wr_data :: json

text \<open>A call of the receiver: transaction, position, fingerprint number as the row has it, and the hashes.\<close>

datatype fp_change =
    FP_Insert int int json "32 word list"
  | FP_Update int int json "32 word list"
  | FP_Delete int int json

text \<open>\<open>value[key]\<close> and \<open>for x in value\<close> for a parsed JSON value.\<close>

definition wal_item :: "json \<Rightarrow> string \<Rightarrow> py_exc + json" where
  "wal_item j key = (case j of JObj d \<Rightarrow> item_of d key | _ \<Rightarrow> Inl TypeError)"

definition wal_iter :: "json \<Rightarrow> py_exc + json list" where
  "wal_iter j = (case j of
     JArr xs \<Rightarrow> Inr xs
   | JObj d \<Rightarrow> Inr (map (\<lambda>kv. JStr (fst kv)) d)
   | JStr s \<Rightarrow> Inr (map (\<lambda>c. JStr [c]) s)
   | _ \<Rightarrow> Inl TypeError)"

text \<open>\<open>for col in columns: if col["name"] == name: ... break\<close>, whose \<open>else\<close> raises.\<close>

fun find_column :: "string \<Rightarrow> json list \<Rightarrow> py_exc + json" where
  "find_column name [] = Inl ValueError"
| "find_column name (col # cols) =
     and_then (wal_item col ''name'') (\<lambda>n. if n = JStr name then wal_item col ''value'' else find_column name cols)"

definition column_of :: "json \<Rightarrow> string \<Rightarrow> string \<Rightarrow> py_exc + json" where
  "column_of data part name = and_then (wal_item data part) (\<lambda>cols. and_then (wal_iter cols) (find_column name))"

definition hashes_of :: "(nat \<Rightarrow> 32 word list) \<Rightarrow> json \<Rightarrow> py_exc + 32 word list" where
  "hashes_of junk v = (case v of JStr s \<Rightarrow> decode_postgres_array junk s | _ \<Rightarrow> Inl TypeError)"

definition unhashable :: "json \<Rightarrow> bool" where
  "unhashable j = (case j of JArr xs \<Rightarrow> True | JObj d \<Rightarrow> True | _ \<Rightarrow> False)"

definition stored_change :: "(nat \<Rightarrow> 32 word list) \<Rightarrow> wal_row \<Rightarrow> json \<Rightarrow> py_exc + fp_change option" where
  "stored_change junk row action =
     (let data = wr_data row; xid = wr_xid row; lsn = wr_lsn row
      in if action = JStr ''I'' then
           and_then (column_of data ''columns'' ''id'') (\<lambda>fp_id.
           and_then (column_of data ''columns'' ''fingerprint'') (\<lambda>v.
           and_then (hashes_of junk v) (\<lambda>fp_hashes. Inr (Some (FP_Insert xid lsn fp_id fp_hashes)))))
         else if action = JStr ''U'' then
           and_then (column_of data ''identity'' ''id'') (\<lambda>fp_id.
           and_then (column_of data ''columns'' ''fingerprint'') (\<lambda>v.
           and_then (hashes_of junk v) (\<lambda>fp_hashes. Inr (Some (FP_Update xid lsn fp_id fp_hashes)))))
         else if action = JStr ''D'' then
           and_then (column_of data ''identity'' ''id'') (\<lambda>fp_id. Inr (Some (FP_Delete xid lsn fp_id)))
         else Inr None)"

text \<open>What one row asks for: a call of the receiver, nothing, or an exception.\<close>

definition row_change :: "(nat \<Rightarrow> 32 word list) \<Rightarrow> wal_row \<Rightarrow> py_exc + fp_change option" where
  "row_change junk row =
     (let data = wr_data row
      in and_then (wal_item data ''action'') (\<lambda>action.
         if unhashable action then Inl TypeError
         else if action \<notin> {JStr ''I'', JStr ''U'', JStr ''D''} then Inr None
         else and_then (wal_item data ''schema'') (\<lambda>schema.
           if schema \<noteq> JStr ''public'' then Inr None
           else and_then (wal_item data ''table'') (\<lambda>tab.
             if tab \<noteq> JStr ''fingerprint'' then Inr None else stored_change junk row action))))"

subsection \<open>The replication slot\<close>

type_synonym wal_txn = "wal_row list"

record repl_slot =
  sl_confirmed :: "wal_txn list"
  sl_pending :: "wal_txn list"

definition commit_lsn :: "wal_txn \<Rightarrow> int" where
  "commit_lsn t = wr_lsn (last t)"

definition slot_ok :: "wal_txn list \<Rightarrow> bool" where
  "slot_ok ts \<longleftrightarrow> list_all (\<lambda>t. t \<noteq> []) ts \<and> sorted_wrt (<) (map commit_lsn ts)"

fun peek_changes :: "nat \<Rightarrow> wal_txn list \<Rightarrow> wal_row list" where
  "peek_changes n [] = []"
| "peek_changes n (t # ts) = t @ (if n \<le> length t then [] else peek_changes (n - length t) ts)"

definition slot_advance :: "int \<Rightarrow> repl_slot \<Rightarrow> repl_slot" where
  "slot_advance lsn slot =
     slot\<lparr>sl_confirmed := sl_confirmed slot @ takeWhile (\<lambda>t. commit_lsn t \<le> lsn) (sl_pending slot),
          sl_pending := dropWhile (\<lambda>t. commit_lsn t \<le> lsn) (sl_pending slot)\<rparr>"

subsection \<open>The loop\<close>

text \<open>
  One round of \<open>while True\<close> meets: whether shutdown was asked for, the transactions committed since the last round, a failure of the
  query, and a failure of the call that moves the slot together with whether the server had moved it.
\<close>

record poll =
  pl_shutdown :: bool
  pl_new :: "wal_txn list"
  pl_fetch :: "py_exc option"
  pl_advance :: "(py_exc \<times> bool) option"

record 'r repl =
  rp_delay :: rat
  rp_waits :: "rat list"
  rp_slot :: repl_slot
  rp_receiver :: 'r

type_synonym 'r receive = "fp_change \<Rightarrow> 'r \<Rightarrow> (py_exc + unit) \<times> 'r"

fun process_changes ::
    "'r receive \<Rightarrow> (nat \<Rightarrow> 32 word list) \<Rightarrow> wal_row list \<Rightarrow> int option \<Rightarrow> 'r \<Rightarrow> (py_exc + int option) \<times> 'r" where
  "process_changes receive junk [] last_processed_lsn r = (Inr last_processed_lsn, r)"
| "process_changes receive junk (row # changes) last_processed_lsn r =
     (case row_change junk row of
        Inl e \<Rightarrow> (Inl e, r)
      | Inr None \<Rightarrow> process_changes receive junk changes (Some (wr_lsn row)) r
      | Inr (Some c) \<Rightarrow>
          (case receive c r of
             (Inl e, r) \<Rightarrow> (Inl e, r)
           | (Inr u, r) \<Rightarrow> process_changes receive junk changes (Some (wr_lsn row)) r))"

definition wait_a_bit :: "wal_row list \<Rightarrow> 'r repl \<Rightarrow> 'r repl" where
  "wait_a_bit changes st =
     (if length changes < REPL_BATCH_SIZE then st\<lparr>rp_waits := rp_waits st @ [rp_delay st]\<rparr> else st)"

definition replicate_poll :: "'r receive \<Rightarrow> (nat \<Rightarrow> 32 word list) \<Rightarrow> poll \<Rightarrow> 'r repl \<Rightarrow> (py_exc + unit) \<times> 'r repl" where
  "replicate_poll receive junk p st =
     (if pl_shutdown p then (Inl ShutdownError, st)
      else
        let slot = (rp_slot st)\<lparr>sl_pending := sl_pending (rp_slot st) @ pl_new p\<rparr>;
            st = st\<lparr>rp_slot := slot\<rparr>
        in case pl_fetch p of
             Some e \<Rightarrow> (Inl e, st)
           | None \<Rightarrow>
               let changes = peek_changes REPL_BATCH_SIZE (sl_pending slot)
               in case process_changes receive junk changes None (rp_receiver st) of
                    (Inl e, r) \<Rightarrow> (Inl e, st\<lparr>rp_receiver := r\<rparr>)
                  | (Inr None, r) \<Rightarrow>
                      (Inr (), wait_a_bit changes
                        (st\<lparr>rp_receiver := r, rp_delay := min (rp_delay st * 2) REPL_MAX_DELAY\<rparr>))
                  | (Inr (Some lsn), r) \<Rightarrow>
                      (case pl_advance p of
                         Some (e, moved) \<Rightarrow>
                           (Inl e, st\<lparr>rp_receiver := r, rp_slot := (if moved then slot_advance lsn slot else slot)\<rparr>)
                       | None \<Rightarrow>
                           (Inr (), wait_a_bit changes
                             (st\<lparr>rp_receiver := r, rp_slot := slot_advance lsn slot, rp_delay := REPL_MIN_DELAY\<rparr>))))"

text \<open>The rounds that happen; \<open>Inr ()\<close> says that the loop is still running after them.\<close>

fun replicate_data ::
    "'r receive \<Rightarrow> (nat \<Rightarrow> 32 word list) \<Rightarrow> poll list \<Rightarrow> 'r repl \<Rightarrow> (py_exc + unit) \<times> 'r repl" where
  "replicate_data receive junk [] st = (Inr (), st)"
| "replicate_data receive junk (p # ps) st =
     (case replicate_poll receive junk p st of
        (Inl e, st) \<Rightarrow> (Inl e, st)
      | (Inr u, st) \<Rightarrow> replicate_data receive junk ps st)"

subsection \<open>The first load\<close>

text \<open>
  The rows of the snapshot are given to \<open>insert\<close> with position and transaction 0. At every thousandth the progress line divides by the
  planner's estimate of the number of rows, and shutdown is looked at; \<open>shutdown n\<close> is whether it was asked for when \<open>n\<close> rows are loaded.
\<close>

definition progress :: "(nat \<Rightarrow> bool) \<Rightarrow> int option \<Rightarrow> nat \<Rightarrow> py_exc + unit" where
  "progress shutdown total_count loaded_count =
     (if loaded_count mod 1000 \<noteq> 0 then Inr ()
      else case total_count of
             None \<Rightarrow> Inl TypeError
           | Some n \<Rightarrow> if n = 0 then Inl ZeroDivisionError else if shutdown loaded_count then Inl ShutdownError else Inr ())"

fun load_rows ::
    "'r receive \<Rightarrow> (nat \<Rightarrow> 32 word list) \<Rightarrow> (nat \<Rightarrow> bool) \<Rightarrow> int option \<Rightarrow> (int \<times> string) list \<Rightarrow> nat \<Rightarrow> 'r \<Rightarrow>
       (py_exc + nat) \<times> 'r" where
  "load_rows receive junk shutdown total_count [] loaded_count r = (Inr loaded_count, r)"
| "load_rows receive junk shutdown total_count ((fp_id, fp_hashes_str) # cursor) loaded_count r =
     (case decode_postgres_array junk fp_hashes_str of
        Inl e \<Rightarrow> (Inl e, r)
      | Inr fp_hashes \<Rightarrow>
          (case receive (FP_Insert 0 0 (JInt fp_id) fp_hashes) r of
             (Inl e, r) \<Rightarrow> (Inl e, r)
           | (Inr u, r) \<Rightarrow>
               (case progress shutdown total_count (loaded_count + 1) of
                  Inl e \<Rightarrow> (Inl e, r)
                | Inr u \<Rightarrow> load_rows receive junk shutdown total_count cursor (loaded_count + 1) r)))"

text \<open>What the database holds at the start. The slot is \<open>None\<close> when there is none; the result carries the slot afterwards.\<close>

record pg_start =
  ps_slot :: "repl_slot option"
  ps_total_count :: "int option"
  ps_rows :: "(int \<times> string) list"

definition create_replication_slot :: "repl_slot option \<Rightarrow> bool \<times> repl_slot option" where
  "create_replication_slot slot =
     (case slot of Some sl \<Rightarrow> (False, Some sl) | None \<Rightarrow> (True, Some \<lparr>sl_confirmed = [], sl_pending = []\<rparr>))"

definition drop_replication_slot :: "repl_slot option \<Rightarrow> repl_slot option" where
  "drop_replication_slot slot = None"

definition load_initial_data ::
    "'r receive \<Rightarrow> (nat \<Rightarrow> 32 word list) \<Rightarrow> (nat \<Rightarrow> bool) \<Rightarrow> pg_start \<Rightarrow> 'r \<Rightarrow> (py_exc + unit) \<times> repl_slot option \<times> 'r" where
  "load_initial_data receive junk shutdown pg r =
     (case create_replication_slot (ps_slot pg) of
        (needs_import, slot) \<Rightarrow>
          if \<not> needs_import then (Inr (), slot, r)
          else case load_rows receive junk shutdown (ps_total_count pg) (ps_rows pg) 0 r of
                 (Inl e, r) \<Rightarrow> (Inl e, drop_replication_slot slot, r)
               | (Inr loaded_count, r) \<Rightarrow> (Inr (), slot, r))"

text \<open>\<open>try: load; replicate; except ShutdownError: pass\<close>.\<close>

definition replicate_from_pg ::
    "'r receive \<Rightarrow> (nat \<Rightarrow> 32 word list) \<Rightarrow> (nat \<Rightarrow> bool) \<Rightarrow> pg_start \<Rightarrow> poll list \<Rightarrow> 'r \<Rightarrow> (py_exc + unit) \<times> 'r" where
  "replicate_from_pg receive junk shutdown pg polls r =
     (let (res, r) =
        (case load_initial_data receive junk shutdown pg r of
           (Inl e, slot, r) \<Rightarrow> (Inl e, r)
         | (Inr u, slot, r) \<Rightarrow>
             (case replicate_data receive junk polls
                     \<lparr>rp_delay = REPL_MIN_DELAY, rp_waits = [], rp_slot = the slot, rp_receiver = r\<rparr> of
                (res, st) \<Rightarrow> (res, rp_receiver st)))
      in (if res = Inl ShutdownError then Inr () else res, r))"

subsection \<open>The two receivers\<close>

text \<open>\<open>FingerprintUpdateReceiver\<close> writes a line of the log for each call.\<close>

definition log_entry :: "fp_change \<Rightarrow> string \<times> json \<times> 32 word list option" where
  "log_entry c = (case c of
     FP_Insert xid lsn fp_id fp_hashes \<Rightarrow> (''INSERT'', fp_id, Some fp_hashes)
   | FP_Update xid lsn fp_id fp_hashes \<Rightarrow> (''UPDATE'', fp_id, Some fp_hashes)
   | FP_Delete xid lsn fp_id \<Rightarrow> (''DELETE'', fp_id, None))"

definition log_receive :: "(string \<times> json \<times> 32 word list option) list receive" where
  "log_receive c lines = (Inr (), lines @ [log_entry c])"

text \<open>
  The messages of \<^verbatim>\<open>queue.py\<close>, and the stream: what it holds, and what the coming calls of \<open>publish\<close> meet, where an error may be
  seen although the message was stored. \<open>py_format\<close> is Python's \<open>format\<close> of the values that are neither an integer nor a text.
  \<open>encode_legacy_fingerprint\<close> is called with a keyword that it does not have, which raises once its first argument is evaluated.
\<close>

datatype 'i fp_message =
    FingerprintInsert (fm_xid: int) (fm_lsn: int) (fm_id: 'i) (fm_query: "8 word list") (fm_simhash: int)
  | FingerprintUpdate (fm_xid: int) (fm_lsn: int) (fm_id: 'i) (fm_query: "8 word list") (fm_simhash: int)
  | FingerprintDelete (fm_xid: int) (fm_lsn: int) (fm_id: 'i)

record nats_stream =
  ns_messages :: "(string \<times> json fp_message) list"
  ns_faults :: "(py_exc \<times> bool) option list"

definition js_publish :: "string \<times> json fp_message \<Rightarrow> nats_stream \<Rightarrow> (py_exc + unit) \<times> nats_stream" where
  "js_publish m js =
     (case ns_faults js of
        Some (e, stored) # later \<Rightarrow>
          (Inl e, js\<lparr>ns_messages := ns_messages js @ (if stored then [m] else []), ns_faults := later\<rparr>)
      | faults \<Rightarrow> (Inr (), js\<lparr>ns_messages := ns_messages js @ [m], ns_faults := tl faults\<rparr>))"

definition subject_of :: "(json \<Rightarrow> string) \<Rightarrow> json \<Rightarrow> string" where
  "subject_of py_format fp_id =
     SUBJECT_NAME @ ''.'' @ (case fp_id of JInt i \<Rightarrow> int_str i | JStr s \<Rightarrow> s | v \<Rightarrow> py_format v)"

definition query_payload :: "32 word list \<Rightarrow> py_exc + 8 word list" where
  "query_payload fp_hashes = and_then (extract_query (map sint fp_hashes) 120 80) (\<lambda>query. Inl TypeError)"

definition nats_message :: "(json \<Rightarrow> string) \<Rightarrow> (32 word list \<Rightarrow> 32 word) \<Rightarrow> fp_change \<Rightarrow> py_exc + string \<times> json fp_message" where
  "nats_message py_format chromaprint_hash c =
     (case c of
        FP_Insert xid lsn fp_id fp_hashes \<Rightarrow>
          and_then (query_payload fp_hashes) (\<lambda>query.
          and_then (compute_simhash chromaprint_hash Type_i fp_hashes False) (\<lambda>simhash.
            Inr (subject_of py_format fp_id, FingerprintInsert xid lsn fp_id query simhash)))
      | FP_Update xid lsn fp_id fp_hashes \<Rightarrow>
          and_then (query_payload fp_hashes) (\<lambda>query.
          and_then (compute_simhash chromaprint_hash Type_i fp_hashes False) (\<lambda>simhash.
            Inr (subject_of py_format fp_id, FingerprintUpdate xid lsn fp_id query simhash)))
      | FP_Delete xid lsn fp_id \<Rightarrow> Inr (subject_of py_format fp_id, FingerprintDelete xid lsn fp_id))"

definition nats_receive :: "(json \<Rightarrow> string) \<Rightarrow> (32 word list \<Rightarrow> 32 word) \<Rightarrow> nats_stream receive" where
  "nats_receive py_format chromaprint_hash c js =
     (case nats_message py_format chromaprint_hash c of Inl e \<Rightarrow> (Inl e, js) | Inr m \<Rightarrow> js_publish m js)"

subsection \<open>What the loop promises of any receiver\<close>

text \<open>The changes of the rows before the first one that raises, and rows none of which does.\<close>

fun clean_changes :: "(nat \<Rightarrow> 32 word list) \<Rightarrow> wal_row list \<Rightarrow> fp_change list" where
  "clean_changes junk [] = []"
| "clean_changes junk (row # changes) =
     (case row_change junk row of
        Inl e \<Rightarrow> []
      | Inr None \<Rightarrow> clean_changes junk changes
      | Inr (Some c) \<Rightarrow> c # clean_changes junk changes)"

definition rows_clean :: "(nat \<Rightarrow> 32 word list) \<Rightarrow> wal_row list \<Rightarrow> bool" where
  "rows_clean junk changes \<longleftrightarrow> list_all (\<lambda>row. \<exists>c. row_change junk row = Inr c) changes"

lemma clean_changes_append:
  "rows_clean junk xs \<Longrightarrow> clean_changes junk (xs @ ys) = clean_changes junk xs @ clean_changes junk ys"
  by (induction xs) (auto simp: rows_clean_def split: option.splits)

lemma rows_clean_append [simp]: "rows_clean junk (xs @ ys) \<longleftrightarrow> rows_clean junk xs \<and> rows_clean junk ys"
  by (simp add: rows_clean_def)

lemma rows_clean_Nil [simp]: "rows_clean junk []"
  by (simp add: rows_clean_def)

lemma prefix_clean: "prefix (clean_changes junk xs) (clean_changes junk (xs @ ys))"
  by (induction xs) (auto split: sum.splits option.splits)

lemma peek_changes_whole_txns:
  "\<exists>ts rest. pending = ts @ rest \<and> peek_changes n pending = concat ts \<and> (pending \<noteq> [] \<longrightarrow> ts \<noteq> [])"
proof (induction n pending rule: peek_changes.induct)
  case (2 n t ts)
  show ?case
  proof (cases "n \<le> length t")
    case True
    then show ?thesis by (intro exI [of _ "[t]"] exI [of _ ts]) simp
  next
    case False
    with 2 obtain us rest where "ts = us @ rest" "peek_changes (n - length t) ts = concat us" by blast
    with False show ?thesis by (intro exI [of _ "t # us"] exI [of _ rest]) simp
  qed
qed simp

lemma slot_ok_append:
  "slot_ok (xs @ ys) \<longleftrightarrow>
     slot_ok xs \<and> slot_ok ys \<and> (\<forall>x \<in> set xs. \<forall>y \<in> set ys. commit_lsn x < commit_lsn y)"
  by (auto simp: slot_ok_def sorted_wrt_append list_all_iff)

text \<open>Moving the slot to the position of the last row of a batch confirms the transactions of the batch and nothing else.\<close>

lemma slot_advance_batch:
  assumes ok: "slot_ok (ts @ rest)" and some: "concat ts \<noteq> []"
    and pending: "sl_pending slot = ts @ rest"
  shows "slot_advance (wr_lsn (last (concat ts))) slot =
           slot\<lparr>sl_confirmed := sl_confirmed slot @ ts, sl_pending := rest\<rparr>"
proof -
  from some obtain us t where ts: "ts = us @ [t]" by (cases ts rule: rev_cases) auto
  with ok have t: "t \<noteq> []" by (simp add: slot_ok_def)
  have lsn: "wr_lsn (last (concat ts)) = commit_lsn t" using t by (simp add: ts commit_lsn_def)
  have below: "\<forall>x \<in> set ts. commit_lsn x \<le> commit_lsn t"
    using ok by (auto simp: ts slot_ok_append)
  have above: "\<forall>x \<in> set rest. commit_lsn t < commit_lsn x"
    using ok by (auto simp: ts slot_ok_def sorted_wrt_append)
  have rest: "takeWhile (\<lambda>x. commit_lsn x \<le> commit_lsn t) rest = []" "dropWhile (\<lambda>x. commit_lsn x \<le> commit_lsn t) rest = rest"
    using above by (cases rest; force)+
  show ?thesis
    using below by (simp add: slot_advance_def lsn pending takeWhile_append2 dropWhile_append2 rest)
qed

locale update_receiver =
  fixes receive :: "'r receive"
    and accepted :: "'r \<Rightarrow> 'm list"
    and message :: "fp_change \<Rightarrow> 'm"
  assumes received: "receive c r = (Inr u, r') \<Longrightarrow> accepted r' = accepted r @ [message c]"
    and refused: "receive c r = (Inl e, r') \<Longrightarrow> accepted r' = accepted r \<or> accepted r' = accepted r @ [message c]"
begin

lemma process_changes_delivers:
  assumes "process_changes receive junk changes lsn r = (res, r')"
  shows "\<exists>w. accepted r' = accepted r @ map message w \<and> prefix w (clean_changes junk changes) \<and>
           (\<forall>l. res = Inr l \<longrightarrow> w = clean_changes junk changes \<and> rows_clean junk changes \<and>
                  l = (if changes = [] then lsn else Some (wr_lsn (last changes))))"
  using assms
proof (induction changes arbitrary: lsn r)
  case (Cons row changes)
  show ?case
  proof (cases "row_change junk row")
    case (Inl e)
    with Cons.prems show ?thesis by (intro exI [of _ "[]"]) auto
  next
    case (Inr oc)
    show ?thesis
    proof (cases oc)
      case None
      with Inr Cons.prems have "process_changes receive junk changes (Some (wr_lsn row)) r = (res, r')" by simp
      from Cons.IH [OF this] obtain w where
        "accepted r' = accepted r @ map message w" "prefix w (clean_changes junk changes)"
        "\<forall>l. res = Inr l \<longrightarrow> w = clean_changes junk changes \<and> rows_clean junk changes \<and>
               l = (if changes = [] then Some (wr_lsn row) else Some (wr_lsn (last changes)))" by blast
      then show ?thesis using Inr None by (intro exI [of _ w]) (cases res; simp add: rows_clean_def)
    next
      case (Some c)
      obtain o1 r1 where rc: "receive c r = (o1, r1)" by fastforce
      show ?thesis
      proof (cases o1)
        case (Inl e)
        with rc Inr Some Cons.prems have "r' = r1" "res = Inl e" by auto
        with refused [of c r e r1] rc Inl consider "accepted r' = accepted r" | "accepted r' = accepted r @ [message c]" by auto
        then show ?thesis
        proof cases
          case 1
          then show ?thesis using \<open>res = Inl e\<close> by (intro exI [of _ "[]"]) simp
        next
          case 2
          then show ?thesis using \<open>res = Inl e\<close> Some \<open>row_change junk row = Inr oc\<close> by (intro exI [of _ "[c]"]) simp
        qed
      next
        case (Inr u)
        have acc: "accepted r1 = accepted r @ [message c]" using received rc Inr by blast
        from rc Inr Some \<open>row_change junk row = Inr oc\<close> Cons.prems
        have "process_changes receive junk changes (Some (wr_lsn row)) r1 = (res, r')" by simp
        from Cons.IH [OF this] obtain w where
          "accepted r' = accepted r1 @ map message w" "prefix w (clean_changes junk changes)"
          "\<forall>l. res = Inr l \<longrightarrow> w = clean_changes junk changes \<and> rows_clean junk changes \<and>
                 l = (if changes = [] then Some (wr_lsn row) else Some (wr_lsn (last changes)))" by blast
        then show ?thesis using Some \<open>row_change junk row = Inr oc\<close> acc
          by (intro exI [of _ "c # w"]) (cases res; simp add: rows_clean_def)
      qed
    qed
  qed
qed auto

text \<open>
  \<open>delivered\<close>: the slot went over \<open>confirmed\<close> and holds the transactions that arrived after them; the receiver accepted the changes of
  all that is confirmed, in order, and then \<open>w\<close>, the first changes of what is not.
\<close>

definition delivered :: "(nat \<Rightarrow> 32 word list) \<Rightarrow> wal_txn list \<Rightarrow> 'r repl \<Rightarrow> 'r repl \<Rightarrow> fp_change list \<Rightarrow> bool" where
  "delivered junk arrived st st' w \<longleftrightarrow>
     (\<exists>confirmed. sl_confirmed (rp_slot st') = sl_confirmed (rp_slot st) @ confirmed \<and>
        confirmed @ sl_pending (rp_slot st') = sl_pending (rp_slot st) @ arrived \<and>
        rows_clean junk (concat confirmed) \<and>
        accepted (rp_receiver st') = accepted (rp_receiver st) @ map message (clean_changes junk (concat confirmed) @ w) \<and>
        prefix w (clean_changes junk (concat (sl_pending (rp_slot st')))))"

lemma delivered_trans:
  assumes "delivered junk a1 st st1 []" "delivered junk a2 st1 st2 w"
  shows "delivered junk (a1 @ a2) st st2 w"
proof -
  from assms(1) obtain c1 where 1: "sl_confirmed (rp_slot st1) = sl_confirmed (rp_slot st) @ c1"
    "c1 @ sl_pending (rp_slot st1) = sl_pending (rp_slot st) @ a1" "rows_clean junk (concat c1)"
    "accepted (rp_receiver st1) = accepted (rp_receiver st) @ map message (clean_changes junk (concat c1))"
    by (auto simp: delivered_def)
  from assms(2) obtain c2 where 2: "sl_confirmed (rp_slot st2) = sl_confirmed (rp_slot st1) @ c2"
    "c2 @ sl_pending (rp_slot st2) = sl_pending (rp_slot st1) @ a2" "rows_clean junk (concat c2)"
    "accepted (rp_receiver st2) = accepted (rp_receiver st1) @ map message (clean_changes junk (concat c2) @ w)"
    "prefix w (clean_changes junk (concat (sl_pending (rp_slot st2))))"
    by (auto simp: delivered_def)
  have "(c1 @ c2) @ sl_pending (rp_slot st2) = sl_pending (rp_slot st) @ a1 @ a2"
    using 1(2) 2(2) by (metis append.assoc)
  then show ?thesis
    unfolding delivered_def using 1 2
    by (intro exI [of _ "c1 @ c2"]) (simp add: clean_changes_append)
qed

lemma poll_delivers:
  assumes ok: "slot_ok (sl_pending (rp_slot st) @ pl_new p)"
    and run: "replicate_poll receive junk p st = (res, st')"
  shows "\<exists>w. delivered junk (if pl_shutdown p then [] else pl_new p) st st' w \<and> (res = Inr () \<longrightarrow> w = [])"
proof (cases "pl_shutdown p")
  case True
  with run have "st' = st" by (simp add: replicate_poll_def)
  with True show ?thesis by (intro exI [of _ "[]"]) (simp add: delivered_def)
next
  case False
  define pending where "pending = sl_pending (rp_slot st) @ pl_new p"
  obtain ts rest where peek: "pending = ts @ rest" "peek_changes REPL_BATCH_SIZE pending = concat ts"
    using peek_changes_whole_txns by blast
  show ?thesis
  proof (cases "pl_fetch p")
    case (Some e)
    with False run show ?thesis
      by (intro exI [of _ "[]"]) (auto simp: replicate_poll_def delivered_def)
  next
    case None
    obtain out r1 where pc: "process_changes receive junk (concat ts) None (rp_receiver st) = (out, r1)" by fastforce
    from process_changes_delivers [OF pc] obtain w where
      w: "accepted r1 = accepted (rp_receiver st) @ map message w" "prefix w (clean_changes junk (concat ts))"
      and all: "\<forall>l. out = Inr l \<longrightarrow> w = clean_changes junk (concat ts) \<and> rows_clean junk (concat ts) \<and>
                  l = (if concat ts = [] then None else Some (wr_lsn (last (concat ts))))" by blast
    have prefix_all: "prefix w (clean_changes junk (concat pending))"
      using w(2) prefix_clean [of junk "concat ts" "concat rest"] by (simp add: peek(1) prefix_order.order_trans)
    have same: "delivered junk (pl_new p) st st' w"
      if "rp_receiver st' = r1" "sl_confirmed (rp_slot st') = sl_confirmed (rp_slot st)" "sl_pending (rp_slot st') = pending"
      unfolding delivered_def using that w(1) prefix_all by (intro exI [of _ "[]"]) (simp add: pending_def)
    have moved: "delivered junk (pl_new p) st st' []"
      if "rp_receiver st' = r1" "rows_clean junk (concat ts)" "w = clean_changes junk (concat ts)"
        "sl_confirmed (rp_slot st') = sl_confirmed (rp_slot st) @ ts" "sl_pending (rp_slot st') = rest"
      unfolding delivered_def using that w(1) peek(1) by (intro exI [of _ ts]) (simp add: pending_def)
    have adv: "slot_advance (wr_lsn (last (concat ts))) ((rp_slot st)\<lparr>sl_pending := pending\<rparr>) =
                 \<lparr>sl_confirmed = sl_confirmed (rp_slot st) @ ts, sl_pending = rest\<rparr>" if "concat ts \<noteq> []"
      using slot_advance_batch [of ts rest "(rp_slot st)\<lparr>sl_pending := pending\<rparr>"] ok that peek(1)
      by (cases "rp_slot st") (simp add: pending_def)
    show ?thesis
    proof (cases out)
      case (Inl e)
      with run False None pc peek have "res = Inl e" "rp_receiver st' = r1"
        "sl_confirmed (rp_slot st') = sl_confirmed (rp_slot st)" "sl_pending (rp_slot st') = pending"
        by (auto simp: replicate_poll_def Let_def pending_def)
      with same False show ?thesis by (intro exI [of _ w]) simp
    next
      case (Inr l)
      with all have facts: "w = clean_changes junk (concat ts)" "rows_clean junk (concat ts)"
        and l: "l = (if concat ts = [] then None else Some (wr_lsn (last (concat ts))))" by auto
      show ?thesis
      proof (cases "concat ts = []")
        case True
        with l have "l = None" by simp
        with run False None pc peek Inr have "rp_receiver st' = r1"
          "sl_confirmed (rp_slot st') = sl_confirmed (rp_slot st)" "sl_pending (rp_slot st') = pending"
          by (auto simp: replicate_poll_def Let_def pending_def wait_a_bit_def)
        with same False facts True show ?thesis by (intro exI [of _ w]) simp
      next
        case some: False
        with l have l: "l = Some (wr_lsn (last (concat ts)))" by simp
        show ?thesis
        proof (cases "pl_advance p = None \<or> snd (the (pl_advance p))")
          case True
          with run False None pc peek Inr l some adv [OF some] have "rp_receiver st' = r1"
            "sl_confirmed (rp_slot st') = sl_confirmed (rp_slot st) @ ts" "sl_pending (rp_slot st') = rest"
            by (auto simp: replicate_poll_def Let_def pending_def wait_a_bit_def split: option.splits prod.splits)
          with moved False facts show ?thesis by (intro exI [of _ "[]"]) simp
        next
          case not_moved: False
          then obtain e where "pl_advance p = Some (e, False)" by (cases "pl_advance p") auto
          with run False None pc peek Inr l have "res = Inl e" "rp_receiver st' = r1"
            "sl_confirmed (rp_slot st') = sl_confirmed (rp_slot st)" "sl_pending (rp_slot st') = pending"
            by (auto simp: replicate_poll_def Let_def pending_def)
          with same False show ?thesis by (intro exI [of _ w]) simp
        qed
      qed
    qed
  qed
qed

lemma replicate_delivers:
  assumes "slot_ok (sl_pending (rp_slot st) @ concat (map pl_new ps))"
    and "replicate_data receive junk ps st = (res, st')"
  shows "\<exists>k w. delivered junk (concat (map pl_new (take k ps))) st st' w"
  using assms
proof (induction ps arbitrary: st)
  case Nil
  then show ?case by (intro exI [of _ 0] exI [of _ "[]"]) (simp add: delivered_def)
next
  case (Cons p ps)
  obtain o1 st1 where poll: "replicate_poll receive junk p st = (o1, st1)" by fastforce
  have ok: "slot_ok (sl_pending (rp_slot st) @ pl_new p)"
    using Cons.prems(1) by (simp add: slot_ok_append)
  from poll_delivers [OF ok poll] obtain w where
    w: "delivered junk (if pl_shutdown p then [] else pl_new p) st st1 w" "o1 = Inr () \<Longrightarrow> w = []" by blast
  have k: "\<exists>k. (if pl_shutdown p then [] else pl_new p) = concat (map pl_new (take k (p # ps)))"
    by (cases "pl_shutdown p") (auto intro: exI [of _ 0] exI [of _ 1])
  show ?case
  proof (cases o1)
    case (Inl e)
    with Cons.prems(2) poll have "st' = st1" by simp
    with w(1) k show ?thesis by metis
  next
    case (Inr u)
    have running: "\<not> pl_shutdown p" using poll Inr by (auto simp: replicate_poll_def)
    with w Inr have d: "delivered junk (pl_new p) st st1 []" by simp
    then obtain c where "c @ sl_pending (rp_slot st1) = sl_pending (rp_slot st) @ pl_new p" by (auto simp: delivered_def)
    then have "slot_ok (c @ sl_pending (rp_slot st1) @ concat (map pl_new ps))"
      using Cons.prems(1) by (metis append.assoc concat.simps(2) list.simps(9))
    then have "slot_ok (sl_pending (rp_slot st1) @ concat (map pl_new ps))" by (simp add: slot_ok_append)
    moreover have "replicate_data receive junk ps st1 = (res, st')" using Cons.prems(2) poll Inr by simp
    ultimately obtain k w where "delivered junk (concat (map pl_new (take k ps))) st1 st' w" using Cons.IH by blast
    from delivered_trans [OF d this] show ?thesis by (intro exI [of _ "Suc k"] exI [of _ w]) simp
  qed
qed

end

subsection \<open>The receivers keep the contract\<close>

interpretation logging: update_receiver log_receive "\<lambda>lines. lines" log_entry
  by unfold_locales (auto simp: log_receive_def)

lemma js_publish_cases:
  "fst (js_publish m js) = Inr () \<Longrightarrow> ns_messages (snd (js_publish m js)) = ns_messages js @ [m]"
  "ns_messages (snd (js_publish m js)) = ns_messages js \<or> ns_messages (snd (js_publish m js)) = ns_messages js @ [m]"
  by (auto simp: js_publish_def split: list.splits option.splits)

lemma nats_keeps_contract:
  assumes "nats_receive py_format h c js = (out, js')"
  shows "out = Inr u \<Longrightarrow> map Inr (ns_messages js') = map Inr (ns_messages js) @ [nats_message py_format h c]"
    and "out = Inl e \<Longrightarrow> map Inr (ns_messages js') = map Inr (ns_messages js) \<or>
           map Inr (ns_messages js') = map Inr (ns_messages js) @ [nats_message py_format h c]"
proof -
  show "map Inr (ns_messages js') = map Inr (ns_messages js) @ [nats_message py_format h c]" if "out = Inr u"
  proof (cases "nats_message py_format h c")
    case (Inr m)
    with assms that have "js_publish m js = (Inr (), js')" by (simp add: nats_receive_def)
    then have "ns_messages js' = ns_messages js @ [m]" using js_publish_cases(1) [of m js] by simp
    with Inr show ?thesis by simp
  qed (use assms that in \<open>simp add: nats_receive_def\<close>)
  show "map Inr (ns_messages js') = map Inr (ns_messages js) \<or>
          map Inr (ns_messages js') = map Inr (ns_messages js) @ [nats_message py_format h c]" if "out = Inl e"
  proof (cases "nats_message py_format h c")
    case (Inr m)
    with assms have "js' = snd (js_publish m js)" by (simp add: nats_receive_def)
    with Inr js_publish_cases(2) [of m js] show ?thesis by auto
  qed (use assms in \<open>simp add: nats_receive_def\<close>)
qed

interpretation nats: update_receiver "nats_receive py_format h" "\<lambda>js. map Inr (ns_messages js)" "nats_message py_format h"
  by unfold_locales (use nats_keeps_contract in blast)+

subsection \<open>Nothing is confirmed that was not published\<close>

text \<open>C39: in a run of \<open>replicate_data\<close> with the NATS receiver, whatever fails and whenever it stops: the transactions over which the slot
  moved are the first of those that were pending or arrived; none of their rows raised; the messages put on the stream are those of the changes
  of the confirmed transactions, in commit order and each once, followed at most by messages of the first changes that are not confirmed.\<close>

theorem publisher_confirms_published:
  assumes "slot_ok (sl_pending (rp_slot st) @ concat (map pl_new ps))"
    and "replicate_data (nats_receive py_format chromaprint_hash) junk ps st = (res, st')"
  shows "\<exists>confirmed k w.
     sl_confirmed (rp_slot st') = sl_confirmed (rp_slot st) @ confirmed \<and>
     confirmed @ sl_pending (rp_slot st') = sl_pending (rp_slot st) @ concat (map pl_new (take k ps)) \<and>
     rows_clean junk (concat confirmed) \<and>
     map Inr (ns_messages (rp_receiver st')) =
       map Inr (ns_messages (rp_receiver st)) @
       map (nats_message py_format chromaprint_hash) (clean_changes junk (concat confirmed) @ w) \<and>
     prefix w (clean_changes junk (concat (sl_pending (rp_slot st'))))"
proof -
  from nats.replicate_delivers [OF assms] obtain k w where
    "nats.delivered py_format chromaprint_hash junk (concat (map pl_new (take k ps))) st st' w" by blast
  then show ?thesis unfolding nats.delivered_def by blast
qed

definition delete_row :: "int \<Rightarrow> int \<Rightarrow> wal_row" where
  "delete_row lsn i = \<lparr>wr_lsn = lsn, wr_xid = 7, wr_data = JObj [(''action'', JStr ''D''), (''schema'', JStr ''public''),
     (''table'', JStr ''fingerprint''), (''identity'', JArr [JObj [(''name'', JStr ''id''), (''value'', JInt i)]])]\<rparr>"

definition commit_row :: "int \<Rightarrow> wal_row" where
  "commit_row lsn = \<lparr>wr_lsn = lsn, wr_xid = 7, wr_data = JObj [(''action'', JStr ''C'')]\<rparr>"

definition example_polls :: "poll list" where
  "example_polls =
     [\<lparr>pl_shutdown = False, pl_new = [[delete_row 10 5, commit_row 11]], pl_fetch = None, pl_advance = None\<rparr>,
      \<lparr>pl_shutdown = False, pl_new = [[delete_row 12 6, commit_row 14], [delete_row 13 8, commit_row 15]], pl_fetch = None, pl_advance = None\<rparr>]"

definition example_start :: "nats_stream repl" where
  "example_start = \<lparr>rp_delay = REPL_MIN_DELAY, rp_waits = [], rp_slot = \<lparr>sl_confirmed = [], sl_pending = []\<rparr>,
     rp_receiver = \<lparr>ns_messages = [], ns_faults = [None, None, Some (TimeoutError, False)]\<rparr>\<rparr>"

definition example_end :: "nats_stream repl" where
  "example_end = snd (replicate_data (nats_receive (\<lambda>v. []) (\<lambda>ws. 0)) (\<lambda>n. []) example_polls example_start)"

lemma example_run:
  "fst (replicate_data (nats_receive (\<lambda>v. []) (\<lambda>ws. 0)) (\<lambda>n. []) example_polls example_start) = Inl TimeoutError"
  "map (fm_id \<circ> snd) (ns_messages (rp_receiver example_end)) = [JInt 5, JInt 6]"
  "map (map wr_lsn) (sl_confirmed (rp_slot example_end)) = [[10, 11]]"
  by code_simp+

theorem publisher_confirms_published_witness:
  "\<exists>confirmed k w.
     sl_confirmed (rp_slot example_end) = confirmed \<and>
     confirmed @ sl_pending (rp_slot example_end) = concat (map pl_new (take k example_polls)) \<and>
     rows_clean (\<lambda>n. []) (concat confirmed) \<and>
     map Inr (ns_messages (rp_receiver example_end)) =
       map (nats_message (\<lambda>v. []) (\<lambda>ws. 0)) (clean_changes (\<lambda>n. []) (concat confirmed) @ w) \<and>
     prefix w (clean_changes (\<lambda>n. []) (concat (sl_pending (rp_slot example_end))))"
proof -
  have ok: "slot_ok (sl_pending (rp_slot example_start) @ concat (map pl_new example_polls))" by code_simp
  have start: "sl_confirmed (rp_slot example_start) = []" "sl_pending (rp_slot example_start) = []"
    "ns_messages (rp_receiver example_start) = []" by (simp_all add: example_start_def)
  have run: "replicate_data (nats_receive (\<lambda>v. []) (\<lambda>ws. 0)) (\<lambda>n. []) example_polls example_start = (Inl TimeoutError, example_end)"
    by (simp add: prod_eq_iff example_run(1) example_end_def)
  show ?thesis using publisher_confirms_published [OF ok run] unfolding start by simp
qed

subsection \<open>The receiver for NATS never publishes an insertion or an update\<close>

lemma extract_query_loop_error: "extract_query_loop limit query hs = Inl e \<Longrightarrow> e = OverflowError"
  by (induction limit query hs rule: extract_query_loop.induct) (auto simp: Let_def split: if_splits)

lemma query_payload_raises: "\<exists>e. query_payload fp_hashes = Inl e \<and> (e = TypeError \<or> e = OverflowError)"
proof (cases "extract_query (map sint fp_hashes) 120 80")
  case (Inl e)
  then have "e = OverflowError"
    unfolding extract_query_def by (auto split: if_splits dest: extract_query_loop_error)
  with Inl show ?thesis by (simp add: query_payload_def and_then_def)
qed (simp add: query_payload_def and_then_def)

lemma nats_never_inserts:
  "\<exists>e. nats_receive py_format h (FP_Insert xid lsn fp_id fp_hashes) js = (Inl e, js) \<and> (e = TypeError \<or> e = OverflowError)"
  "\<exists>e. nats_receive py_format h (FP_Update xid lsn fp_id fp_hashes) js = (Inl e, js) \<and> (e = TypeError \<or> e = OverflowError)"
  using query_payload_raises [of fp_hashes] by (auto simp: nats_receive_def nats_message_def and_then_def)

text \<open>So the publisher cannot start beside a database that holds a fingerprint.\<close>

lemma publisher_never_loads:
  assumes "ps_slot pg = None" "ps_rows pg \<noteq> []"
  shows "\<exists>e. replicate_from_pg (nats_receive py_format h) junk shutdown pg polls js = (Inl e, js)"
proof -
  obtain fp_id s later where rows: "ps_rows pg = (fp_id, s) # later" using assms(2) by (cases "ps_rows pg") auto
  have "\<exists>e. load_rows (nats_receive py_format h) junk shutdown total (ps_rows pg) 0 js = (Inl e, js) \<and> e \<noteq> ShutdownError" for total
  proof (cases "decode_postgres_array junk s")
    case (Inl e)
    then have "e = ValueError" by (auto simp: decode_postgres_array_def Let_def split: if_splits)
    with Inl rows show ?thesis by simp
  next
    case (Inr ws)
    with rows nats_never_inserts(1) [of py_format h 0 0 "JInt fp_id" ws js] show ?thesis by auto
  qed
  then obtain e where "load_rows (nats_receive py_format h) junk shutdown (ps_total_count pg) (ps_rows pg) 0 js = (Inl e, js)"
    "e \<noteq> ShutdownError" by blast
  then show ?thesis using assms(1)
    by (simp add: replicate_from_pg_def load_initial_data_def create_replication_slot_def)
qed

end
