(* ===== verification/Fpindex_Client.thy ===== *)
theory Fpindex_Client
  imports Py_Strings
begin

text \<open>
  The asynchronous client of the fingerprint index: \<^verbatim>\<open>future/fpindex/client.py\<close>. The HTTP session is the list of answers that its
  coming requests get, with the log of what was exchanged; msgspec's decoding of an answer is a parameter. \<open>change_index\<close> is the contract
  of \<open>update\<close> that the consumer of changes relies on.
\<close>

subsection \<open>Requests and responses\<close>

datatype index_op = Insert_Op int "int list" | Delete_Op int | SetAttribute_Op string int

record index_change =
  ix_insert :: "(int \<times> int list) option"
  ix_delete :: "int option"
  ix_set_attribute :: "(string \<times> int) option"

definition change_of :: "index_op \<Rightarrow> index_change" where
  "change_of op = (case op of
     Insert_Op i hashes \<Rightarrow> \<lparr>ix_insert = Some (i, hashes), ix_delete = None, ix_set_attribute = None\<rparr>
   | Delete_Op i \<Rightarrow> \<lparr>ix_insert = None, ix_delete = Some i, ix_set_attribute = None\<rparr>
   | SetAttribute_Op name v \<Rightarrow> \<lparr>ix_insert = None, ix_delete = None, ix_set_attribute = Some (name, v)\<rparr>)"

datatype index_payload =
    UpdateRequest "index_change list"
  | SearchRequest "int list" "int option" "int option"
  | UpdateFingerprintRequest "int list"

datatype response_kind = Kind_Empty | Kind_Search | Kind_GetIndex | Kind_GetFingerprint

datatype index_answer =
    EmptyResponse
  | SearchResponse "(int \<times> int) list"
  | GetIndexResponse int int int "(string \<times> int) list"
  | GetFingerprintResponse int

type_synonym batch_update = "index_change list"

definition batch_insert :: "int \<Rightarrow> int list \<Rightarrow> batch_update \<Rightarrow> batch_update" where
  "batch_insert i hashes changes = changes @ [change_of (Insert_Op i hashes)]"

definition batch_delete :: "int \<Rightarrow> batch_update \<Rightarrow> batch_update" where
  "batch_delete i changes = changes @ [change_of (Delete_Op i)]"

definition batch_set_attribute :: "string \<Rightarrow> int \<Rightarrow> batch_update \<Rightarrow> batch_update" where
  "batch_set_attribute name v changes = changes @ [change_of (SetAttribute_Op name v)]"

subsection \<open>The session\<close>

record http_request =
  hq_method :: string
  hq_url :: string
  hq_timeout :: rat
  hq_headers :: "(string \<times> string) list"
  hq_data :: "index_payload option"

text \<open>What a request meets: an exception, or a status with what reading the body gives.\<close>

datatype 'b http_outcome = Raised py_exc | Responded int "py_exc + 'b"

record 'b http_session =
  hs_log :: "(http_request \<times> 'b http_outcome) list"
  hs_answers :: "'b http_outcome list"

definition session_request :: "http_request \<Rightarrow> 'b http_session \<Rightarrow> 'b http_outcome \<times> 'b http_session" where
  "session_request req s =
     (let out = (case hs_answers s of [] \<Rightarrow> Raised ClientError | a # later \<Rightarrow> a)
      in (out, s\<lparr>hs_log := hs_log s @ [(req, out)], hs_answers := tl (hs_answers s)\<rparr>))"

record index_api =
  ia_base_url :: string
  ia_timeout :: rat

definition rstrip_slash :: "string \<Rightarrow> string" where
  "rstrip_slash s = rev (dropWhile (\<lambda>c. c = CHR ''/'') (rev s))"

definition new_index_api :: "string \<Rightarrow> rat \<Rightarrow> index_api" where
  "new_index_api base_url timeout = \<lparr>ia_base_url = rstrip_slash base_url @ ''/'', ia_timeout = timeout\<rparr>"

text \<open>
  \<open>urljoin\<close> of a base and a path that starts with one slash and has no dot segments, as the paths below do: the path replaces the whole path
  of an HTTP base, and stands for itself after a base of a scheme that is not hierarchical.
\<close>

definition url_scheme :: "string \<Rightarrow> string option" where
  "url_scheme base =
     (if starts_with ''http://'' (py_lower base) then Some ''http://'' else if starts_with ''https://'' (py_lower base) then Some ''https://'' else None)"

definition index_url :: "index_api \<Rightarrow> string \<Rightarrow> string" where
  "index_url api path =
     (case url_scheme (ia_base_url api) of
        None \<Rightarrow> path
      | Some scheme \<Rightarrow>
          scheme @ takeWhile (\<lambda>c. c \<notin> {CHR ''/'', CHR ''?'', CHR ''#''}) (drop (length scheme) (ia_base_url api)) @ path)"

text \<open>\<open>except aiohttp.ClientError\<close>; every other exception leaves as it is.\<close>

definition client_failure :: "py_exc \<Rightarrow> py_exc" where
  "client_failure e = (if e = ClientError then FingerprintIndexClientError else e)"

definition msgpack_type :: string where "msgpack_type = ''application/vnd.msgpack''"

definition fpindex_request ::
    "(response_kind \<Rightarrow> 'b \<Rightarrow> py_exc + index_answer) \<Rightarrow> index_api \<Rightarrow> string \<Rightarrow> string \<Rightarrow> int list \<Rightarrow> response_kind option \<Rightarrow>
       index_payload option \<Rightarrow> rat option \<Rightarrow> 'b http_session \<Rightarrow> (py_exc + int \<times> index_answer option) \<times> 'b http_session" where
  "fpindex_request decode api method path expected_status expected_response data timeout s =
     (let req = \<lparr>hq_method = method, hq_url = index_url api path,
                 hq_timeout = (case timeout of None \<Rightarrow> ia_timeout api | Some t \<Rightarrow> if t = 0 then ia_timeout api else t),
                 hq_headers = (''Accept'', msgpack_type) # (if data = None then [] else [(''Content-Type'', msgpack_type)]),
                 hq_data = data\<rparr>
      in case session_request req s of
           (Raised e, s) \<Rightarrow> (Inl (client_failure e), s)
         | (Responded status content, s) \<Rightarrow>
             (if expected_status \<noteq> [] \<and> status \<notin> set expected_status
              then (case content of Inl e \<Rightarrow> Inl (client_failure e) | Inr text_body \<Rightarrow> Inl FingerprintIndexClientError)
              else case expected_response of
                     None \<Rightarrow> Inr (status, None)
                   | Some kind \<Rightarrow>
                       (case content of
                          Inl e \<Rightarrow> Inl (client_failure e)
                        | Inr b \<Rightarrow> (case decode kind b of Inl e \<Rightarrow> Inl e | Inr r \<Rightarrow> Inr (status, Some r))), s))"

subsection \<open>The operations\<close>

definition found :: "(py_exc + int \<times> index_answer option) \<times> 'w \<Rightarrow> (py_exc + bool) \<times> 'w" where
  "found out = (case out of (Inl e, w) \<Rightarrow> (Inl e, w) | (Inr (status, r), w) \<Rightarrow> (Inr (status = 200), w))"

definition result_of :: "(py_exc + int \<times> index_answer option) \<times> 'w \<Rightarrow> (py_exc + index_answer option) \<times> 'w" where
  "result_of out = (case out of (Inl e, w) \<Rightarrow> (Inl e, w) | (Inr (status, r), w) \<Rightarrow> (Inr r, w))"

definition done_of :: "(py_exc + int \<times> index_answer option) \<times> 'w \<Rightarrow> (py_exc + unit) \<times> 'w" where
  "done_of out = (case out of (Inl e, w) \<Rightarrow> (Inl e, w) | (Inr (status, r), w) \<Rightarrow> (Inr (), w))"

definition index_exists where
  "index_exists decode api index_name s =
     found (fpindex_request decode api ''HEAD'' (CHR ''/'' # index_name) [200, 404] None None None s)"

definition get_index_info where
  "get_index_info decode api index_name s =
     result_of (fpindex_request decode api ''GET'' (CHR ''/'' # index_name) [200] (Some Kind_GetIndex) None None s)"

definition create_index where
  "create_index decode api index_name s =
     done_of (fpindex_request decode api ''PUT'' (CHR ''/'' # index_name) [200, 201] (Some Kind_Empty) None None s)"

definition delete_index where
  "delete_index decode api index_name s =
     done_of (fpindex_request decode api ''DELETE'' (CHR ''/'' # index_name) [200] (Some Kind_Empty) None None s)"

datatype update_arg = Batch_Arg batch_update | Ops_Arg "index_op list"

definition wrapped_changes :: "update_arg \<Rightarrow> index_change list" where
  "wrapped_changes arg = (case arg of Batch_Arg changes \<Rightarrow> changes | Ops_Arg ops \<Rightarrow> map change_of ops)"

definition update_index where
  "update_index decode api index_name arg s =
     done_of (fpindex_request decode api ''POST'' (CHR ''/'' # index_name @ ''/_update'') [200] (Some Kind_Empty)
       (Some (UpdateRequest (wrapped_changes arg))) None s)"

definition search_fpindex where
  "search_fpindex decode api index_name query timeout limit s =
     result_of (fpindex_request decode api ''POST'' (CHR ''/'' # index_name @ ''/_search'') [200] (Some Kind_Search)
       (Some (SearchRequest query timeout limit)) None s)"

definition fingerprint_path :: "string \<Rightarrow> int \<Rightarrow> string" where
  "fingerprint_path index_name fingerprint_id = CHR ''/'' # index_name @ ''/'' @ int_str fingerprint_id"

definition fingerprint_exists where
  "fingerprint_exists decode api index_name fingerprint_id s =
     found (fpindex_request decode api ''HEAD'' (fingerprint_path index_name fingerprint_id) [200, 404] None None None s)"

definition get_fingerprint_info where
  "get_fingerprint_info decode api index_name fingerprint_id s =
     result_of (fpindex_request decode api ''GET'' (fingerprint_path index_name fingerprint_id) [200] (Some Kind_GetFingerprint) None None s)"

definition update_fingerprint where
  "update_fingerprint decode api index_name fingerprint_id hashes s =
     done_of (fpindex_request decode api ''PUT'' (fingerprint_path index_name fingerprint_id) [200] (Some Kind_Empty)
       (Some (UpdateFingerprintRequest hashes)) None s)"

definition delete_fingerprint where
  "delete_fingerprint decode api index_name fingerprint_id s =
     done_of (fpindex_request decode api ''DELETE'' (fingerprint_path index_name fingerprint_id) [200] (Some Kind_Empty) None None s)"

subsection \<open>What was applied_updates\<close>

text \<open>The batches of changes that the index answered with status 200, in order.\<close>

fun applied_of :: "http_request \<times> 'b http_outcome \<Rightarrow> index_change list list" where
  "applied_of (req, Responded status content) =
     (case hq_data req of Some (UpdateRequest changes) \<Rightarrow> if status = 200 then [changes] else [] | _ \<Rightarrow> [])"
| "applied_of (req, Raised e) = []"

definition applied_updates :: "'b http_session \<Rightarrow> index_change list list" where
  "applied_updates s = concat (map applied_of (hs_log s))"

locale change_index =
  fixes post :: "index_change list \<Rightarrow> 'w \<Rightarrow> (py_exc + unit) \<times> 'w"
    and applied_batches :: "'w \<Rightarrow> index_change list list"
  assumes posted: "post changes w = (Inr u, w') \<Longrightarrow> applied_batches w' = applied_batches w @ [changes]"
    and not_posted: "post changes w = (Inl e, w') \<Longrightarrow>
          applied_batches w' = applied_batches w \<or> applied_batches w' = applied_batches w @ [changes]"

lemma update_index_outcome:
  assumes "update_index decode api name (Batch_Arg changes) s = (out, s')"
  shows "applied_updates s' = applied_updates s \<and> (\<exists>e. out = Inl e) \<or> applied_updates s' = applied_updates s @ [changes]"
proof -
  obtain o1 s1 where req: "session_request
      \<lparr>hq_method = ''POST'', hq_url = index_url api (CHR ''/'' # name @ ''/_update''), hq_timeout = ia_timeout api,
       hq_headers = [(''Accept'', msgpack_type), (''Content-Type'', msgpack_type)], hq_data = Some (UpdateRequest changes)\<rparr> s = (o1, s1)"
    (is "session_request ?req s = _") by fastforce
  then have log: "hs_log s1 = hs_log s @ [(?req, o1)]" by (auto simp: session_request_def Let_def)
  have s': "s' = s1" "out = fst (done_of (fpindex_request decode api ''POST'' (CHR ''/'' # name @ ''/_update'') [200] (Some Kind_Empty)
       (Some (UpdateRequest changes)) None s))"
    using assms req
    by (auto simp: update_index_def fpindex_request_def wrapped_changes_def done_of_def split: http_outcome.splits sum.splits if_splits)
  show ?thesis
  proof (cases o1)
    case (Raised e)
    then show ?thesis using req log s'
      by (auto simp: applied_updates_def fpindex_request_def done_of_def)
  next
    case (Responded status content)
    show ?thesis
    proof (cases "status = 200")
      case True
      with Responded log s' show ?thesis by (simp add: applied_updates_def)
    next
      case False
      with Responded log s' req show ?thesis
        by (auto simp: applied_updates_def fpindex_request_def done_of_def split: sum.splits)
    qed
  qed
qed

interpretation index: change_index "\<lambda>changes. update_index decode api name (Batch_Arg changes)" applied_updates
  by unfold_locales (use update_index_outcome in fastforce)+

text \<open>A base URL with a path loses the path: it is joined with paths that begin with a slash.\<close>

lemma base_path_is_dropped:
  "index_url (new_index_api ''http://proxy/fpindex/'' 30) ''/main/_update'' = ''http://proxy/main/_update''"
  by code_simp

end
