(* ===== verification/Updater_Consumer.thy ===== *)
theory Updater_Consumer
  imports Updater_Publisher Fpindex_Client
begin

text \<open>
  The consumer of fingerprint changes, \<^verbatim>\<open>future/fpindex/updater/consumer.py\<close>: it fetches messages of the stream, turns them into one
  batch for the index, posts it, and acknowledges the messages afterwards.
\<close>

subsection \<open>A batch\<close>

record 'raw js_msg =
  jm_seq :: int
  jm_data :: 'raw

text \<open>The parameters: msgspec's decoding of a message, and Chromaprint's decoding of the compressed hashes.\<close>

record 'raw consumer_env =
  ce_decode :: "'raw \<Rightarrow> py_exc + int fp_message"
  ce_chromaprint :: "8 word list \<Rightarrow> bool \<Rightarrow> decode_result"
  ce_simhash :: bool

definition indexed_hashes :: "'raw consumer_env \<Rightarrow> 8 word list \<Rightarrow> int \<Rightarrow> py_exc + int list" where
  "indexed_hashes env query simhash =
     (if ce_simhash env then Inr [simhash]
      else and_then (decode_legacy_fingerprint (ce_chromaprint env) (Data_Bytes query) False True) (\<lambda>v. Inr (array_list v)))"

definition apply_message :: "'raw consumer_env \<Rightarrow> int fp_message \<Rightarrow> batch_update \<Rightarrow> py_exc + batch_update" where
  "apply_message env data batch =
     (case data of
        FingerprintInsert xid lsn i query simhash \<Rightarrow>
          and_then (indexed_hashes env query simhash) (\<lambda>hashes. Inr (batch_insert i hashes batch))
      | FingerprintUpdate xid lsn i query simhash \<Rightarrow>
          and_then (indexed_hashes env query simhash) (\<lambda>hashes. Inr (batch_insert i hashes batch))
      | FingerprintDelete xid lsn i \<Rightarrow> Inr (batch_delete i batch))"

fun build_batch :: "'raw consumer_env \<Rightarrow> 'raw js_msg list \<Rightarrow> int \<Rightarrow> batch_update \<Rightarrow> py_exc + int \<times> batch_update" where
  "build_batch env [] last_stream_seq batch = Inr (last_stream_seq, batch)"
| "build_batch env (msg # messages) last_stream_seq batch =
     (case ce_decode env (jm_data msg) of
        Inl e \<Rightarrow> Inl e
      | Inr data \<Rightarrow>
          (case apply_message env data batch of
             Inl e \<Rightarrow> Inl e
           | Inr batch \<Rightarrow> build_batch env messages (max last_stream_seq (jm_seq msg)) batch))"

subsection \<open>The loop\<close>

text \<open>
  One round meets: whether shutdown was asked for, what \<open>fetch\<close> gives (it raises when no message comes in time), and how many
  acknowledgements succeed before one raises, if one does.
\<close>

record 'raw round =
  ro_shutdown :: bool
  ro_messages :: "py_exc + 'raw js_msg list"
  ro_ack_fails :: "(nat \<times> py_exc) option"

record 'w consumer =
  co_index :: 'w
  co_acked :: "int list"

type_synonym 'w post = "index_change list \<Rightarrow> 'w \<Rightarrow> (py_exc + unit) \<times> 'w"

definition ack_all :: "(nat \<times> py_exc) option \<Rightarrow> 'raw js_msg list \<Rightarrow> 'w consumer \<Rightarrow> (py_exc + unit) \<times> 'w consumer" where
  "ack_all ack_fails messages st =
     (let seqs = map jm_seq messages
      in case ack_fails of
           Some (n, e) \<Rightarrow>
             if n < length seqs then (Inl e, st\<lparr>co_acked := co_acked st @ take n seqs\<rparr>)
             else (Inr (), st\<lparr>co_acked := co_acked st @ seqs\<rparr>)
         | None \<Rightarrow> (Inr (), st\<lparr>co_acked := co_acked st @ seqs\<rparr>))"

definition consumer_round :: "'w post \<Rightarrow> 'raw consumer_env \<Rightarrow> 'raw round \<Rightarrow> 'w consumer \<Rightarrow> (py_exc + unit) \<times> 'w consumer" where
  "consumer_round post env ro st =
     (case ro_messages ro of
        Inl e \<Rightarrow> (Inl e, st)
      | Inr messages \<Rightarrow>
          (case build_batch env messages 0 [] of
             Inl e \<Rightarrow> (Inl e, st)
           | Inr (last_stream_seq, batch) \<Rightarrow>
               (case post (batch_set_attribute ''nats_stream_seq'' last_stream_seq batch) (co_index st) of
                  (Inl e, w) \<Rightarrow> (Inl e, st\<lparr>co_index := w\<rparr>)
                | (Inr u, w) \<Rightarrow> ack_all (ro_ack_fails ro) messages (st\<lparr>co_index := w\<rparr>))))"

text \<open>\<open>while not shutdown_event.is_set()\<close>; \<open>None\<close> says that the loop is still running after the rounds.\<close>

fun consume :: "'w post \<Rightarrow> 'raw consumer_env \<Rightarrow> 'raw round list \<Rightarrow> 'w consumer \<Rightarrow> (py_exc + unit) option \<times> 'w consumer" where
  "consume post env [] st = (None, st)"
| "consume post env (ro # rounds) st =
     (if ro_shutdown ro then (Some (Inr ()), st)
      else case consumer_round post env ro st of
             (Inl e, st) \<Rightarrow> (Some (Inl e), st)
           | (Inr u, st) \<Rightarrow> consume post env rounds st)"

subsection \<open>What the rounds do to any index\<close>

text \<open>The change that one message asks for.\<close>

definition message_change :: "'raw consumer_env \<Rightarrow> 'raw js_msg \<Rightarrow> py_exc + index_change" where
  "message_change env msg =
     and_then (ce_decode env (jm_data msg)) (\<lambda>data. case data of
        FingerprintInsert xid lsn i query simhash \<Rightarrow>
          and_then (indexed_hashes env query simhash) (\<lambda>hashes. Inr (change_of (Insert_Op i hashes)))
      | FingerprintUpdate xid lsn i query simhash \<Rightarrow>
          and_then (indexed_hashes env query simhash) (\<lambda>hashes. Inr (change_of (Insert_Op i hashes)))
      | FingerprintDelete xid lsn i \<Rightarrow> Inr (change_of (Delete_Op i)))"

text \<open>The batch that stands for messages: their changes in order, and the position of the last one.\<close>

definition stands_for :: "'raw consumer_env \<Rightarrow> 'raw js_msg list \<Rightarrow> index_change list \<Rightarrow> bool" where
  "stands_for env messages changes \<longleftrightarrow>
     (\<exists>cs. each (message_change env) messages = Inr cs \<and>
        changes = cs @ [change_of (SetAttribute_Op ''nats_stream_seq'' (fold max (map jm_seq messages) 0))])"

lemma apply_message_change:
  assumes "ce_decode env (jm_data msg) = Inr data"
  shows "apply_message env data batch = and_then (message_change env msg) (\<lambda>c. Inr (batch @ [c]))"
  using assms
  by (cases data; cases "indexed_hashes env (fm_query data) (fm_simhash data)")
    (simp_all add: apply_message_def message_change_def and_then_def batch_insert_def batch_delete_def)

lemma build_batch_each:
  "build_batch env messages n batch =
     and_then (each (message_change env) messages) (\<lambda>cs. Inr (fold max (map jm_seq messages) n, batch @ cs))"
proof (induction messages arbitrary: n batch)
  case (Cons msg messages)
  show ?case
  proof (cases "ce_decode env (jm_data msg)")
    case (Inl e)
    then show ?thesis by (simp add: message_change_def and_then_def)
  next
    case (Inr data)
    then show ?thesis
      by (cases "message_change env msg"; cases "each (message_change env) messages")
        (simp_all add: apply_message_change Cons.IH and_then_def max.commute)
  qed
qed (simp add: and_then_def)

lemma ack_all_prefix:
  assumes "ack_all ack_fails messages st = (out, st')"
  shows "co_index st' = co_index st \<and> (\<exists>a. co_acked st' = co_acked st @ a \<and> prefix a (map jm_seq messages) \<and>
           (out = Inr () \<longrightarrow> a = map jm_seq messages))"
  using assms by (auto simp: ack_all_def Let_def take_is_prefix split: option.splits if_splits)

text \<open>The groups fetched by the rounds.\<close>

definition fetched :: "'raw round list \<Rightarrow> 'raw js_msg list list" where
  "fetched rounds = concat (map (\<lambda>ro. case ro_messages ro of Inl e \<Rightarrow> [] | Inr messages \<Rightarrow> [messages]) rounds)"

context change_index
begin

text \<open>
  \<open>indexed\<close>: the index applied_updates one more batch for each group of messages in \<open>done\<close>, and the new acknowledgements are the first of those of
  these messages.
\<close>

definition indexed :: "'raw consumer_env \<Rightarrow> 'raw js_msg list list \<Rightarrow> int list \<Rightarrow> 'w consumer \<Rightarrow> 'w consumer \<Rightarrow> bool" where
  "indexed env done acks st st' \<longleftrightarrow>
     (\<exists>batches. applied_batches (co_index st') = applied_batches (co_index st) @ batches \<and>
        list_all2 (stands_for env) done batches) \<and>
     co_acked st' = co_acked st @ acks \<and> prefix acks (map jm_seq (concat done))"

lemma round_indexes:
  assumes run: "consumer_round post env ro st = (out, st')"
  shows "\<exists>done acks. indexed env done acks st st' \<and> (done = [] \<or> (\<exists>messages. ro_messages ro = Inr messages \<and> done = [messages])) \<and>
           (out = Inr () \<longrightarrow> acks = map jm_seq (concat done) \<and> (\<exists>messages. ro_messages ro = Inr messages \<and> done = [messages]))"
proof (cases "ro_messages ro")
  case (Inl e)
  with run show ?thesis by (intro exI [of _ "[]"]) (auto simp: consumer_round_def indexed_def)
next
  case (Inr messages)
  show ?thesis
  proof (cases "each (message_change env) messages")
    case (Inl e)
    with run Inr show ?thesis
      by (intro exI [of _ "[]"]) (auto simp: consumer_round_def indexed_def build_batch_each and_then_def)
  next
    case each: (Inr cs)
    define changes where "changes = cs @ [change_of (SetAttribute_Op ''nats_stream_seq'' (fold max (map jm_seq messages) 0))]"
    have sf: "stands_for env messages changes" using each by (simp add: stands_for_def changes_def)
    obtain o1 w1 where po: "post changes (co_index st) = (o1, w1)" by fastforce
    show ?thesis
    proof (cases o1)
      case (Inl e)
      with run Inr each po have out: "out = Inl e" "st' = st\<lparr>co_index := w1\<rparr>"
        by (auto simp: consumer_round_def build_batch_each and_then_def batch_set_attribute_def changes_def)
      from not_posted [of changes "co_index st" e w1] po Inl
      consider "applied_batches w1 = applied_batches (co_index st)" | "applied_batches w1 = applied_batches (co_index st) @ [changes]" by auto
      then show ?thesis
      proof cases
        case 1
        then show ?thesis using out by (intro exI [of _ "[]"]) (simp add: indexed_def)
      next
        case 2
        then show ?thesis using out sf Inr
          by (intro exI [of _ "[messages]"] exI [of _ "[]"]) (simp add: indexed_def)
      qed
    next
      case posted1: (Inr u)
      with po have app: "applied_batches w1 = applied_batches (co_index st) @ [changes]" using posted by blast
      from run Inr each po posted1 have "ack_all (ro_ack_fails ro) messages (st\<lparr>co_index := w1\<rparr>) = (out, st')"
        by (auto simp: consumer_round_def build_batch_each and_then_def batch_set_attribute_def changes_def)
      from ack_all_prefix [OF this] obtain a where "co_index st' = w1" "co_acked st' = co_acked st @ a"
        "prefix a (map jm_seq messages)" "out = Inr () \<Longrightarrow> a = map jm_seq messages" by auto
      then show ?thesis using app sf Inr
        by (intro exI [of _ "[messages]"] exI [of _ a]) (simp add: indexed_def)
    qed
  qed
qed

lemma indexed_trans:
  assumes "indexed env d1 (map jm_seq (concat d1)) st st1" "indexed env d2 a st1 st2"
  shows "indexed env (d1 @ d2) (map jm_seq (concat d1) @ a) st st2"
proof -
  from assms obtain b1 b2 where "applied_batches (co_index st1) = applied_batches (co_index st) @ b1"
    "list_all2 (stands_for env) d1 b1" "applied_batches (co_index st2) = applied_batches (co_index st1) @ b2"
    "list_all2 (stands_for env) d2 b2" by (auto simp: indexed_def)
  then have "\<exists>batches. applied_batches (co_index st2) = applied_batches (co_index st) @ batches \<and>
        list_all2 (stands_for env) (d1 @ d2) batches"
    by (intro exI [of _ "b1 @ b2"]) (simp add: list_all2_appendI)
  with assms show ?thesis by (simp add: indexed_def)
qed

lemma consume_indexes:
  assumes "consume post env rounds st = (out, st')"
  shows "\<exists>done acks. indexed env done acks st st' \<and> prefix done (fetched rounds)"
  using assms
proof (induction rounds arbitrary: st)
  case Nil
  then show ?case by (intro exI [of _ "[]"]) (simp add: indexed_def)
next
  case (Cons ro rounds)
  show ?case
  proof (cases "ro_shutdown ro")
    case True
    with Cons.prems show ?thesis by (intro exI [of _ "[]"]) (simp add: indexed_def)
  next
    case False
    obtain o1 st1 where round: "consumer_round post env ro st = (o1, st1)" by fastforce
    from round_indexes [OF this] obtain d1 a1 where d1: "indexed env d1 a1 st st1"
      "d1 = [] \<or> (\<exists>messages. ro_messages ro = Inr messages \<and> d1 = [messages])"
      "o1 = Inr () \<longrightarrow> a1 = map jm_seq (concat d1) \<and> (\<exists>messages. ro_messages ro = Inr messages \<and> d1 = [messages])" by blast
    show ?thesis
    proof (cases o1)
      case (Inl e)
      with Cons.prems False round have "st' = st1" by simp
      moreover have "prefix d1 (fetched (ro # rounds))" using d1(2) by (auto simp: fetched_def)
      ultimately show ?thesis using d1(1) by blast
    next
      case (Inr u)
      with Cons.prems False round have "consume post env rounds st1 = (out, st')" by simp
      from Cons.IH [OF this] obtain d2 a2 where d2: "indexed env d2 a2 st1 st'" "prefix d2 (fetched rounds)" by blast
      from d1(3) Inr obtain messages where m: "a1 = map jm_seq (concat d1)" "ro_messages ro = Inr messages" "d1 = [messages]" by auto
      have "prefix (d1 @ d2) (fetched (ro # rounds))" using m d2(2) by (simp add: fetched_def)
      then show ?thesis using indexed_trans [OF d1(1) [unfolded m(1)] d2(1)] by blast
    qed
  qed
qed

end

subsection \<open>Nothing is acknowledged that the index did not apply\<close>

text \<open>C40: however a run of the consumer ends, the fetched groups it worked off are the first ones, in order; for each of them the index
  answered one update with status 200 whose changes are those of the group's messages, in order, with the largest position as attribute
  \<open>nats_stream_seq\<close>; and what was acknowledged is the beginning of the messages of these groups.\<close>

theorem consumer_acks_only_indexed:
  assumes "consume (\<lambda>changes. update_index decode api index_name (Batch_Arg changes)) env rounds st = (out, st')"
  shows "\<exists>done batches acks.
     prefix done (fetched rounds) \<and>
     applied_updates (co_index st') = applied_updates (co_index st) @ batches \<and>
     list_all2 (stands_for env) done batches \<and>
     co_acked st' = co_acked st @ acks \<and>
     prefix acks (map jm_seq (concat done))"
  using index.consume_indexes [OF assms] unfolding index.indexed_def by blast

definition plain_env :: "int fp_message consumer_env" where
  "plain_env = \<lparr>ce_decode = Inr, ce_chromaprint = (\<lambda>bs b. \<lparr>dr_res = 1, dr_version = 1, dr_hashes = Some [0xFFFFFFFF]\<rparr>), ce_simhash = False\<rparr>"

definition sample_rounds :: "int fp_message round list" where
  "sample_rounds =
     [\<lparr>ro_shutdown = False,
       ro_messages = Inr [\<lparr>jm_seq = 4, jm_data = FingerprintInsert 1 9 5 [] 3\<rparr>, \<lparr>jm_seq = 6, jm_data = FingerprintDelete 1 9 7\<rparr>],
       ro_ack_fails = None\<rparr>,
      \<lparr>ro_shutdown = False, ro_messages = Inl TimeoutError, ro_ack_fails = None\<rparr>]"

definition sample_consumer :: "unit http_session consumer" where
  "sample_consumer = \<lparr>co_index = \<lparr>hs_log = [], hs_answers = [Responded 200 (Inr ())]\<rparr>, co_acked = []\<rparr>"

definition sample_consumed :: "(py_exc + unit) option \<times> unit http_session consumer" where
  "sample_consumed = consume (\<lambda>changes. update_index (\<lambda>k b. Inr EmptyResponse) (new_index_api ''http://index'' 30) ''main'' (Batch_Arg changes))
     plain_env sample_rounds sample_consumer"

text \<open>In the second round nothing came, and the consumer ends with the exception of \<open>fetch\<close>; the inserted hash is posted as \<open>-1\<close>.\<close>

lemma sample_outcome:
  "fst sample_consumed = Some (Inl TimeoutError)"
  "co_acked (snd sample_consumed) = [4, 6]"
  "applied_updates (co_index (snd sample_consumed)) =
     [[change_of (Insert_Op 5 [-1]), change_of (Delete_Op 7), change_of (SetAttribute_Op ''nats_stream_seq'' 6)]]"
  by code_simp+

theorem consumer_acks_only_indexed_witness:
  "\<exists>done batches acks.
     prefix done (fetched sample_rounds) \<and>
     applied_updates (co_index (snd sample_consumed)) = batches \<and>
     list_all2 (stands_for plain_env) done batches \<and>
     co_acked (snd sample_consumed) = acks \<and>
     prefix acks (map jm_seq (concat done))"
proof -
  have "applied_updates (co_index sample_consumer) = []" "co_acked sample_consumer = []"
    by (simp_all add: applied_updates_def sample_consumer_def)
  moreover have run: "consume (\<lambda>changes. update_index (\<lambda>k b. Inr EmptyResponse) (new_index_api ''http://index'' 30) ''main'' (Batch_Arg changes))
     plain_env sample_rounds sample_consumer = (fst sample_consumed, snd sample_consumed)"
    by (simp add: sample_consumed_def)
  note consumer_acks_only_indexed [OF run]
  ultimately show ?thesis by simp
qed

text \<open>An idle stream ends the consumer: the exception of \<open>fetch\<close> is not caught.\<close>

lemma idle_consumer_ends:
  assumes "\<not> ro_shutdown ro" "ro_messages ro = Inl TimeoutError"
  shows "consume post env (ro # rounds) st = (Some (Inl TimeoutError), st)"
  using assms by (simp add: consumer_round_def)

text \<open>Hashes are posted as signed numbers although the client declares them unsigned and positive.\<close>

lemma signed_hashes_posted:
  assumes "\<not> ce_simhash env" "ce_chromaprint env query False = \<lparr>dr_res = 1, dr_version = 1, dr_hashes = Some [w]\<rparr>"
  shows "indexed_hashes env query simhash = Inr [sint w]"
  using assms by (simp add: indexed_hashes_def decode_legacy_fingerprint_def and_then_def array_list_def)

end
