(* ===== verification/Spec2Isabelle.thy ===== *)
theory Spec2Isabelle
  imports Py_Strings Accounts Submission Feed Retention Fp_Codec Journey Lookup_Spec Index_Pool Server Web_Access Config Updater_Consumer
begin

text \<open>
  A model of the AcoustID server (the Python package under \<^verbatim>\<open>src/acoustid/\<close>) and what is proved about it.

  AcoustID identifies audio. A client computes a fingerprint (a list of 32-bit hashes) of a recording and sends it to the
  web service. A lookup searches the fingerprint index for similar fingerprints and answers with the tracks they belong
  to and the MusicBrainz recordings linked to these. A submission is queued in the ingest database; a worker imports it: it
  cleans the metadata, finds the track the fingerprint belongs to or makes a new one, stores the fingerprint and counts a
  vote for each MBID, PUID, metadata record and foreign identifier that came with it. Users report on each other's
  behalf only through API keys, which belong to accounts and applications. Every stored fingerprint is written to a
  change log, partitioned by month, that index nodes replicate over HTTP. Redis holds the rate limiter's counters, the
  statistics not yet flushed to the database and the queues of the background tasks.

  \<^bold>\<open>How the program is modelled.\<close> The code keeps its state in three PostgreSQL databases, in Redis and in a few Python
  objects. A database is a record of tables (theory Tables has one record per table of \<^verbatim>\<open>tables.py\<close>), a table is its rows in
  storage order with the next serial number, and an SQL statement is the list operation it denotes (theory Prelude). A
  function that reads and writes is a function from the state to its result and the new state; a function that
  raises returns \<open>py_exc + 'a\<close>. Redis is a finite map, as are Python dictionaries whose order is not observable; the others
  are association lists in insertion order. Python's integers are \<open>int\<close>, C integers are words of their width, floats
  are rationals, texts are lists of code points below 256. What the code does not define itself is an argument of the
  definitions that use it: random keys, the clock, other sessions' commits, the extension's similarity functions,
  Chromaprint, zstd, HMAC, UUIDs, sockets, HTTP services.

  \<^bold>\<open>Theories, from the bottom up.\<close>

  \<^item> Prelude: exceptions, dictionaries, tables, and the locale \<open>keyed_store\<close> of all tables that are used by "find it or insert
    it". Py_Strings: \<^verbatim>\<open>utils.py\<close> with the parts of Python's string library it uses. Json: the values the API serialises.
    Tables: \<^verbatim>\<open>tables.py\<close>.
  \<^item> Small_Tables: \<^verbatim>\<open>data/format.py\<close>, \<^verbatim>\<open>data/source.py\<close>, \<^verbatim>\<open>data/foreignid.py\<close>, three interpretations of \<open>keyed_store\<close>.
    Accounts: \<^verbatim>\<open>data/account.py\<close>, \<^verbatim>\<open>data/application.py\<close>.
  \<^item> Links and Track: \<^verbatim>\<open>data/track.py\<close>. Links has the four link tables and their writers: counting a vote, merging MBIDs, merging
    tracks; the lemmas say that each refines an operation on the vote counts (nothing is lost and nothing is counted twice).
    Track has redirects, lookups, the similarity matrix and the grouping of tracks that may be merged.
  \<^item> Meta: \<^verbatim>\<open>data/meta.py\<close>, cleaning of metadata and the content hash that identifies a metadata record. Musicbrainz:
    \<^verbatim>\<open>data/musicbrainz.py\<close>.
  \<^item> Fp_Codec: \<^verbatim>\<open>fingerprint.py\<close> and the Cython module \<^verbatim>\<open>libs/acoustid_ext\<close>; round trips of the encodings and the query extraction against a
    reference definition. Fp_Search: \<^verbatim>\<open>data/fingerprint.py\<close> and \<^verbatim>\<open>fpstore.py\<close>. Index_Client and Index_Pool: \<^verbatim>\<open>indexclient.py\<close>, the line protocol
    over a non-blocking socket and the pool of connections, whose calls refine the atomic steps \<open>pool_step\<close>.
  \<^item> Submission: \<^verbatim>\<open>data/submission.py\<close>, the import; a run commits or rolls back each submission, and no submission is lost.
  \<^item> Changelog, Retention, Feed: the change log's trigger and calendar (\<^verbatim>\<open>tables.py\<close>), the maintenance job
    (\<^verbatim>\<open>scripts/fpindex_changelog.py\<close>) and the feed (\<^verbatim>\<open>future/fpindex/feed.py\<close>, \<^verbatim>\<open>wire.py\<close>). Retention has the step relation
    \<open>retention_step\<close>, in which the trigger, the clock and the job interleave statement by statement; its invariant is proved by rule
    induction over the reachable states, and Feed uses it: what an index node reads is the history, without holes.
  \<^item> Ratelimit (\<^verbatim>\<open>ratelimiter.py\<close>), Stats (\<^verbatim>\<open>data/stats.py\<close> and the two scripts that flush counters; locale \<open>counter_flush\<close>, interpreted twice),
    Tasks (\<^verbatim>\<open>tasks.py\<close>, \<^verbatim>\<open>worker.py\<close>; locale \<open>fifo_lists\<close>).
  \<^item> Serialize (\<^verbatim>\<open>api/__init__.py\<close>), Api_Params (\<^verbatim>\<open>api/errors.py\<close> and the request's values), Api_Handler (the life of a request in
    \<^verbatim>\<open>api/v2/__init__.py\<close>), Api_Contract (locales \<open>api_operation\<close> and \<open>read_only_operation\<close>, the contract between that life and a handler).
    Api_Submit, Api_Results, Api_Lookup and Api_Admin are the handlers (\<^verbatim>\<open>api/v2/__init__.py\<close>, \<^verbatim>\<open>api/v1.py\<close>, \<^verbatim>\<open>api/v2/misc.py\<close>, \<^verbatim>\<open>api/v2/internal.py\<close>), each
    an interpretation of the contract. Lookup_Types is the type of a lookup's answer and Lookup_Spec what it contains. Journey
    follows a submission from the submit handler through the import to the status handler. Server (\<^verbatim>\<open>server.py\<close>) routes any
    request to its handler, so the contract becomes a theorem about every request.

  \<^bold>\<open>Loops and bounds.\<close> Loops over data are structural recursion. The loops that wait for something else have an explicit list of
  what happens: the socket's events in Index_Client, the random picks of a worker in Tasks, the attempts of an
  insert in Small_Tables and Meta (the code bounds them itself, by 3, and raises after that). The bootstrap stream's loop
  (Feed) is a recursion on the number of fingerprints not yet sent, and that it terminates is a theorem. No other fuel is used.
  Machine integers are words in Fp_Codec, and column ranges are checked where a value reaches PostgreSQL (Api_Submit).

  \<^bold>\<open>Not modelled.\<close> Start-up and command line (\<^verbatim>\<open>script.py\<close>, \<^verbatim>\<open>cli.py\<close>, \<^verbatim>\<open>cron.py\<close>, \<^verbatim>\<open>wsgi_utils.py\<close>, \<^verbatim>\<open>gunicorn_config.py\<close>, \<^verbatim>\<open>handler.py\<close>), logging and tracing do input
  and output only. Alembic migrations are the history of the schema, and \<^verbatim>\<open>tables.py\<close> its present. \<^verbatim>\<open>models.py\<close> maps classes to the same
  tables. Text outside Latin-1, floating-point rounding, statsd, metrics and response headers are left out throughout.
\<close>

end
